(* ===== verification/Go_Prelude.thy ===== *)
theory Go_Prelude
  imports Main "HOL-Library.Multiset" "HOL-Library.List_Lexorder" "HOL-Library.Char_ord"
begin

text \<open>
  Shared ground of the development: the Go values and standard-library routines that the
  gateway uses, written as executable functions, and the list and option lemmas the
  component theories rest on.

  \<^item> \<open>int\<close> of Go is 64 bits wide: \<open>i64\<close> is the wrap-around of two's complement.
  \<^item> \<open>time.Time\<close> is a number of nanoseconds since the zero time (year 1), and
    \<open>time.Duration\<close> a 64-bit number of nanoseconds; \<open>time_sub\<close> saturates as
    \<open>Time.Sub\<close> does.
  \<^item> A Go string is a byte list (\<open>string\<close>), ordered bytewise.
  \<^item> Choices that the Go runtime leaves open are resolved by explicit oracle arguments:
    \<open>intn\<close> (\<open>rand.Intn\<close>) by an arbitrary number, \<open>sort_slice\<close> (the unstable
    \<open>sort.Slice\<close>) and map iteration by an arbitrary code of a permutation.
\<close>

named_theorems go_simps \<open>unfoldings of the standard-library model\<close>
named_theorems inv_intros \<open>preservation of the component invariants\<close>

section \<open>Machine integers, durations and instants\<close>

type_synonym time = int
type_synonym duration = int

definition i64 :: "int \<Rightarrow> int" where
  "i64 x = (x + 2 ^ 63) mod 2 ^ 64 - 2 ^ 63"

definition in_i64 :: "int \<Rightarrow> bool" where
  "in_i64 x \<longleftrightarrow> - (2 ^ 63) \<le> x \<and> x < 2 ^ 63"

lemma i64_id: "in_i64 x \<Longrightarrow> i64 x = x"
  by (simp add: i64_def in_i64_def)

lemma i64_range: "in_i64 (i64 x)"
  by (simp add: i64_def in_i64_def)

lemma i64_idem [simp]: "i64 (i64 x) = i64 x"
  by (rule i64_id) (rule i64_range)

lemma i64_add_left [simp]: "i64 (i64 x + y) = i64 (x + y)"
proof -
  have "i64 (i64 x + y) = ((x + 2 ^ 63) mod 2 ^ 64 + y) mod 2 ^ 64 - 2 ^ 63"
    by (simp add: i64_def)
  also have "\<dots> = (x + 2 ^ 63 + y) mod 2 ^ 64 - 2 ^ 63"
    by (simp only: mod_add_left_eq)
  also have "\<dots> = i64 (x + y)"
    by (simp add: i64_def algebra_simps)
  finally show ?thesis .
qed

definition max_dur :: duration where
  "max_dur = 2 ^ 63 - 1"

definition second :: duration where
  "second = 1000000000"

definition hour :: duration where
  "hour = 3600 * second"

text \<open>\<open>time.Duration(n) * time.Second\<close>: the product wraps.\<close>

definition seconds :: "int \<Rightarrow> duration" where
  "seconds n = i64 (n * second)"

text \<open>\<open>t.Sub(u)\<close> and \<open>time.Since\<close> saturate at the ends of the duration range.\<close>

definition time_sub :: "time \<Rightarrow> time \<Rightarrow> duration" where
  "time_sub t u = max (- (2 ^ 63)) (min max_dur (t - u))"

lemma time_sub_ge:
  assumes "in_i64 d"
  shows "d \<le> time_sub t u \<longleftrightarrow> (d = - (2 ^ 63) \<or> u + d \<le> t)"
  using assms by (auto simp: time_sub_def max_dur_def in_i64_def max_def min_def)

lemma time_sub_ge_pos: "0 < d \<Longrightarrow> in_i64 d \<Longrightarrow> d \<le> time_sub t u \<longleftrightarrow> u + d \<le> t"
  by (auto simp: time_sub_ge in_i64_def)

lemma seconds_small: "in_i64 (n * second) \<Longrightarrow> seconds n = n * second"
  by (simp add: seconds_def i64_id)

lemma seconds_range: "in_i64 (seconds n)"
  by (simp add: seconds_def i64_range)

text \<open>\<open>d.Milliseconds()\<close>: integer division truncating towards zero.\<close>

definition quot :: "int \<Rightarrow> int \<Rightarrow> int" where
  "quot a b = sgn a * sgn b * (\<bar>a\<bar> div \<bar>b\<bar>)"

definition milliseconds :: "duration \<Rightarrow> int" where
  "milliseconds d = quot d 1000000"

section \<open>Nondeterminism of the Go runtime\<close>

text \<open>\<open>rand.Intn(n)\<close> panics when \<open>n \<le> 0\<close>; otherwise every value below \<open>n\<close> is possible.\<close>

definition intn :: "nat \<Rightarrow> int \<Rightarrow> int option" where
  "intn r n = (if n \<le> 0 then None else Some (int r mod n))"

lemma intn_range: "intn r n = Some k \<Longrightarrow> 0 \<le> k \<and> k < n"
  by (auto simp: intn_def split: if_splits)

lemma intn_onto: "0 \<le> k \<Longrightarrow> k < n \<Longrightarrow> intn (nat k) n = Some k"
  by (simp add: intn_def)

text \<open>
  \<open>shuffle ks xs\<close> is a permutation of \<open>xs\<close>, and every permutation arises from some code
  \<open>ks\<close>: each head is inserted at the position the code names.
\<close>

definition insert_at :: "nat \<Rightarrow> 'a \<Rightarrow> 'a list \<Rightarrow> 'a list" where
  "insert_at k x ys = (let j = k mod (Suc (length ys)) in take j ys @ x # drop j ys)"

fun shuffle :: "nat list \<Rightarrow> 'a list \<Rightarrow> 'a list" where
  "shuffle ks [] = []"
| "shuffle [] (x # xs) = x # shuffle [] xs"
| "shuffle (k # ks) (x # xs) = insert_at k x (shuffle ks xs)"

lemma mset_insert_at [simp]: "mset (insert_at k x ys) = add_mset x (mset ys)"
proof -
  have "mset (take j ys) + mset (drop j ys) = mset ys" for j
    by (metis append_take_drop_id mset_append)
  then show ?thesis by (simp add: insert_at_def Let_def)
qed

lemma mset_shuffle [simp]: "mset (shuffle ks xs) = mset xs"
  by (induction ks xs rule: shuffle.induct) auto

lemma set_shuffle [simp]: "set (shuffle ks xs) = set xs"
  by (metis mset_shuffle set_mset_mset)

lemma length_shuffle [simp]: "length (shuffle ks xs) = length xs"
  by (metis mset_shuffle size_mset)

lemma shuffle_Nil [simp]: "shuffle [] xs = xs"
  by (induction xs) auto

lemma distinct_shuffle [simp]: "distinct (shuffle ks xs) = distinct xs"
  by (metis mset_shuffle mset_eq_imp_distinct_iff)

lemma shuffle_empty_iff [simp]: "shuffle ks xs = [] \<longleftrightarrow> xs = []"
  by (metis length_0_conv length_shuffle)

lemma insert_at_length: "j \<le> length ys \<Longrightarrow> insert_at j x ys = take j ys @ x # drop j ys"
  by (simp add: insert_at_def Let_def)

lemma shuffle_onto: "mset ys = mset xs \<Longrightarrow> \<exists>ks. shuffle ks xs = ys"
proof (induction xs arbitrary: ys)
  case Nil
  then show ?case by simp
next
  case (Cons x xs)
  then have "x \<in> set ys"
    by (metis list.set_intros(1) set_mset_mset)
  then obtain us vs where ys: "ys = us @ x # vs"
    by (meson split_list)
  with Cons.prems have "mset (us @ vs) = mset xs" by simp
  with Cons.IH obtain ks where "shuffle ks xs = us @ vs" by blast
  then have "shuffle (length us # ks) (x # xs) = ys"
    by (simp add: ys insert_at_length)
  then show ?case by blast
qed

text \<open>
  \<open>sort.Slice\<close> with the order \<open>key a < key b\<close>: the result is sorted, and the order among
  equal keys is open, so the elements may have been permuted beforehand.
\<close>

definition sort_slice :: "nat list \<Rightarrow> ('a \<Rightarrow> int) \<Rightarrow> 'a list \<Rightarrow> 'a list" where
  "sort_slice ks key xs = sort_key key (shuffle ks xs)"

lemma mset_sort_slice [simp]: "mset (sort_slice ks key xs) = mset xs"
  by (simp add: sort_slice_def)

lemma set_sort_slice [simp]: "set (sort_slice ks key xs) = set xs"
  by (simp add: sort_slice_def)

lemma length_sort_slice [simp]: "length (sort_slice ks key xs) = length xs"
  by (simp add: sort_slice_def)

lemma sort_slice_empty_iff [simp]: "sort_slice ks key xs = [] \<longleftrightarrow> xs = []"
  by (metis length_0_conv length_sort_slice)

lemma sorted_sort_slice: "sorted (map key (sort_slice ks key xs))"
  by (simp add: sort_slice_def)

lemma hd_sort_slice_le:
  assumes "x \<in> set xs"
  shows "key (hd (sort_slice ks key xs)) \<le> key x"
proof -
  let ?s = "sort_slice ks key xs"
  from assms have x: "x \<in> set ?s" by simp
  then obtain h t where s: "?s = h # t" by (cases ?s) auto
  with sorted_sort_slice [of key ks xs] have "\<forall>y \<in> set t. key h \<le> key y" by simp
  with x s show ?thesis by auto
qed

lemma sort_slice_sorted_perm:
  assumes "mset ys = mset xs" and "sorted (map key ys)"
  shows "\<exists>ks. sort_slice ks key xs = ys"
proof -
  from assms(1) obtain ks where "shuffle ks xs = ys" using shuffle_onto by blast
  with assms(2) have "sort_slice ks key xs = ys"
    by (simp add: sort_slice_def sort_key_id_if_sorted)
  then show ?thesis by blast
qed

lemma find_append: "find P (xs @ ys) = (case find P xs of None \<Rightarrow> find P ys | Some x \<Rightarrow> Some x)"
  by (induction xs) simp_all

end
