(* ===== verification/Go_Strings.thy ===== *)
theory Go_Strings
  imports Go_Prelude
begin

text \<open>
  The parts of \<open>strings\<close> and \<open>strconv\<close> that the gateway calls, on byte lists:
  prefixes, trimming, ASCII case folding, \<open>strconv.Itoa\<close> and \<open>strconv.Atoi\<close> with the
  64-bit range check, and the round trip between the last two.
\<close>

section \<open>Prefixes, trimming, case\<close>

definition HasPrefix :: "string \<Rightarrow> string \<Rightarrow> bool" where
  "HasPrefix s p \<longleftrightarrow> take (length p) s = p"

definition HasSuffix :: "string \<Rightarrow> string \<Rightarrow> bool" where
  "HasSuffix s p \<longleftrightarrow> HasPrefix (rev s) (rev p)"

definition TrimPrefix :: "string \<Rightarrow> string \<Rightarrow> string" where
  "TrimPrefix s p = (if HasPrefix s p then drop (length p) s else s)"

definition TrimSuffix :: "string \<Rightarrow> string \<Rightarrow> string" where
  "TrimSuffix s p = rev (TrimPrefix (rev s) (rev p))"

text \<open>\<open>strings.TrimLeft\<close>/\<open>TrimRight\<close> with a one-byte cutset.\<close>

definition TrimLeft :: "string \<Rightarrow> char \<Rightarrow> string" where
  "TrimLeft s c = dropWhile (\<lambda>x. x = c) s"

definition TrimRight :: "string \<Rightarrow> char \<Rightarrow> string" where
  "TrimRight s c = rev (dropWhile (\<lambda>x. x = c) (rev s))"

lemma HasPrefix_append [simp]: "HasPrefix (p @ s) p"
  by (simp add: HasPrefix_def)

lemma HasPrefix_iff: "HasPrefix s p \<longleftrightarrow> (\<exists>t. s = p @ t)"
  by (metis HasPrefix_def append_eq_conv_conj append_take_drop_id)

lemma TrimPrefix_append [simp]: "TrimPrefix (p @ s) p = s"
  by (simp add: TrimPrefix_def)

lemma TrimRight_no_suffix: "s = [] \<or> last s \<noteq> c \<Longrightarrow> TrimRight s c = s"
  by (cases s rule: rev_cases) (auto simp: TrimRight_def)

lemma TrimLeft_hd: "TrimLeft s c = [] \<or> hd (TrimLeft s c) \<noteq> c"
  using hd_dropWhile [of "\<lambda>x. x = c" s] by (auto simp: TrimLeft_def)

lemma TrimRight_last: "TrimRight s c = [] \<or> last (TrimRight s c) \<noteq> c"
  using TrimLeft_hd [of "rev s" c] by (auto simp: TrimRight_def TrimLeft_def last_rev)

text \<open>
  \<open>unicode.IsSpace\<close> on UTF-8: the encodings of all white space characters, one byte or
  several. No encoding is a proper suffix of another character, so a trimmed end is
  always a whole character.
\<close>

definition utf8_spaces :: "string list" where
  "utf8_spaces =
     [[CHR 0x09], [CHR 0x0A], [CHR 0x0B], [CHR 0x0C], [CHR 0x0D], [CHR 0x20],
      [CHR 0xC2, CHR 0x85], [CHR 0xC2, CHR 0xA0], [CHR 0xE1, CHR 0x9A, CHR 0x80],
      [CHR 0xE2, CHR 0x80, CHR 0x80], [CHR 0xE2, CHR 0x80, CHR 0x81], [CHR 0xE2, CHR 0x80, CHR 0x82],
      [CHR 0xE2, CHR 0x80, CHR 0x83], [CHR 0xE2, CHR 0x80, CHR 0x84], [CHR 0xE2, CHR 0x80, CHR 0x85],
      [CHR 0xE2, CHR 0x80, CHR 0x86], [CHR 0xE2, CHR 0x80, CHR 0x87], [CHR 0xE2, CHR 0x80, CHR 0x88],
      [CHR 0xE2, CHR 0x80, CHR 0x89], [CHR 0xE2, CHR 0x80, CHR 0x8A], [CHR 0xE2, CHR 0x80, CHR 0xA8],
      [CHR 0xE2, CHR 0x80, CHR 0xA9], [CHR 0xE2, CHR 0x80, CHR 0xAF], [CHR 0xE2, CHR 0x81, CHR 0x9F],
      [CHR 0xE3, CHR 0x80, CHR 0x80]]"

definition space_head :: "string list \<Rightarrow> string \<Rightarrow> nat" where
  "space_head ws s = (case find (\<lambda>w. HasPrefix s w) ws of None \<Rightarrow> 0 | Some w \<Rightarrow> length w)"

lemma space_head_le: "space_head ws s \<le> length s"
  by (auto simp: space_head_def HasPrefix_iff find_Some_iff split: option.splits)

function strip_spaces :: "string list \<Rightarrow> string \<Rightarrow> string" where
  "strip_spaces ws s = (let n = space_head ws s in if n = 0 then s else strip_spaces ws (drop n s))"
  by pat_completeness auto
termination
proof (relation "measure (\<lambda>(ws, s). length s)")
  fix ws s x
  assume "x = space_head ws s" and "x \<noteq> 0"
  with space_head_le [of ws s] show "((ws, drop x s), (ws, s)) \<in> measure (\<lambda>(ws, s). length s)"
    by auto
qed simp

declare strip_spaces.simps [simp del]

definition TrimSpace :: "string \<Rightarrow> string" where
  "TrimSpace s = rev (strip_spaces (map rev utf8_spaces) (rev (strip_spaces utf8_spaces s)))"

lemma strip_spaces_stop: "space_head ws s = 0 \<Longrightarrow> strip_spaces ws s = s"
  by (simp add: strip_spaces.simps)

lemma strip_spaces_head: "space_head ws (strip_spaces ws s) = 0"
proof (induction ws s rule: strip_spaces.induct)
  case (1 ws s)
  then show ?case
    by (cases "space_head ws s = 0") (auto simp: strip_spaces.simps [of ws s] Let_def)
qed

lemma strip_spaces_length: "length (strip_spaces ws s) \<le> length s"
proof (induction ws s rule: strip_spaces.induct)
  case (1 ws s)
  then show ?case
    by (cases "space_head ws s = 0") (auto simp: strip_spaces.simps [of ws s] Let_def)
qed

lemma TrimSpace_length: "length (TrimSpace s) \<le> length s"
  by (metis TrimSpace_def length_rev order_trans strip_spaces_length)

lemma TrimSpace_Nil [simp]: "TrimSpace [] = []"
  using TrimSpace_length [of "[]"] by simp

lemma strip_spaces_suffix: "\<exists>u. s = u @ strip_spaces ws s"
proof (induction ws s rule: strip_spaces.induct)
  case (1 ws s)
  then show ?case
    by (cases "space_head ws s = 0")
      (auto simp: strip_spaces.simps [of ws s] Let_def, metis append_assoc append_take_drop_id)
qed

lemma space_head_prefix:
  assumes "[] \<notin> set ws" and "space_head ws (t @ u) = 0"
  shows "space_head ws t = 0"
proof -
  have "find (HasPrefix (t @ u)) ws = None"
    using assms by (cases "find (HasPrefix (t @ u)) ws") (auto simp: space_head_def find_Some_iff, metis nth_mem)
  then have "find (HasPrefix t) ws = None"
    by (auto simp: find_None_iff HasPrefix_iff)
  then show ?thesis by (simp add: space_head_def)
qed

lemma TrimSpace_idem [simp]: "TrimSpace (TrimSpace s) = TrimSpace s"
proof -
  let ?l = "strip_spaces utf8_spaces s" and ?rw = "map rev utf8_spaces"
  obtain u where "rev ?l = u @ strip_spaces ?rw (rev ?l)" using strip_spaces_suffix by blast
  then have "rev (strip_spaces ?rw (rev ?l)) @ rev u = ?l" by (metis rev_append rev_rev_ident)
  moreover have "space_head utf8_spaces ?l = 0" by (rule strip_spaces_head)
  moreover have "[] \<notin> set utf8_spaces" by (simp add: utf8_spaces_def)
  ultimately have "space_head utf8_spaces (TrimSpace s) = 0"
    unfolding TrimSpace_def by (metis space_head_prefix)
  then show ?thesis
    by (simp add: TrimSpace_def strip_spaces_stop strip_spaces_head)
qed

text \<open>ASCII lower case: what \<open>strings.ToLower\<close> does to the header names and keywords compared here.\<close>

definition lower_char :: "char \<Rightarrow> char" where
  "lower_char c = (let n = of_char c :: nat in if 65 \<le> n \<and> n \<le> 90 then char_of (n + 32) else c)"

definition ToLower :: "string \<Rightarrow> string" where
  "ToLower s = map lower_char s"

lemma length_ToLower [simp]: "length (ToLower s) = length s"
  by (simp add: ToLower_def)

section \<open>Decimal numbers\<close>

definition digit :: "nat \<Rightarrow> char" where
  "digit n = char_of (48 + n)"

definition is_digit :: "char \<Rightarrow> bool" where
  "is_digit c \<longleftrightarrow> 48 \<le> (of_char c :: nat) \<and> (of_char c :: nat) \<le> 57"

definition digit_val :: "char \<Rightarrow> nat" where
  "digit_val c = of_char c - 48"

fun show_nat :: "nat \<Rightarrow> string" where
  "show_nat n = (if n < 10 then [digit n] else show_nat (n div 10) @ [digit (n mod 10)])"

declare show_nat.simps [simp del]

definition read_digits :: "string \<Rightarrow> nat" where
  "read_digits s = foldl (\<lambda>acc c. 10 * acc + digit_val c) 0 s"

text \<open>\<open>strconv.Itoa\<close>.\<close>

definition Itoa :: "int \<Rightarrow> string" where
  "Itoa v = (if v < 0 then CHR ''-'' # show_nat (nat (- v)) else show_nat (nat v))"

text \<open>
  \<open>strconv.Atoi\<close>: an optional sign and at least one decimal digit, with a value in the
  64-bit range; anything else is an error.
\<close>

definition Atoi :: "string \<Rightarrow> int option" where
  "Atoi s =
     (let neg = (s \<noteq> [] \<and> hd s = CHR ''-'');
          ds = (if s \<noteq> [] \<and> (hd s = CHR ''-'' \<or> hd s = CHR ''+'') then tl s else s);
          v = (if neg then - int (read_digits ds) else int (read_digits ds))
      in if ds = [] \<or> \<not> list_all is_digit ds \<or> \<not> in_i64 v then None else Some v)"

lemma of_char_digit: "n < 10 \<Longrightarrow> of_char (digit n) = 48 + n"
  by (simp add: digit_def)

lemma is_digit_digit [simp]: "n < 10 \<Longrightarrow> is_digit (digit n)"
  by (simp add: is_digit_def of_char_digit)

lemma digit_val_digit [simp]: "n < 10 \<Longrightarrow> digit_val (digit n) = n"
  by (simp add: digit_val_def of_char_digit)

lemma show_nat_nonempty [simp]: "show_nat n \<noteq> []"
  by (subst show_nat.simps) simp

lemma show_nat_digits: "list_all is_digit (show_nat n)"
proof (induction n rule: show_nat.induct)
  case (1 n)
  then show ?case by (cases "n < 10") (simp_all add: show_nat.simps [of n])
qed

lemma read_show_nat: "read_digits (show_nat n) = n"
proof (induction n rule: show_nat.induct)
  case (1 n)
  then show ?case
    by (cases "n < 10") (simp_all add: show_nat.simps [of n] read_digits_def)
qed

lemma hd_show_nat_digit: "is_digit (hd (show_nat n))"
  using show_nat_digits [of n] by (cases "show_nat n") auto

lemma sign_not_digit [simp]: "\<not> is_digit (CHR ''-'')" "\<not> is_digit (CHR ''+'')"
  by (simp_all add: is_digit_def)

lemma hd_show_nat_sign [simp]: "hd (show_nat n) \<noteq> CHR ''-''" "hd (show_nat n) \<noteq> CHR ''+''"
  using hd_show_nat_digit [of n] sign_not_digit by metis+

theorem Atoi_Itoa: "in_i64 v \<Longrightarrow> Atoi (Itoa v) = Some v"
  by (simp add: Atoi_def Itoa_def Let_def show_nat_digits read_show_nat)

lemma Atoi_range: "Atoi s = Some v \<Longrightarrow> in_i64 v"
  by (auto simp: Atoi_def Let_def split: if_splits)

end
