(* ===== verification/Go_Float.thy ===== *)
theory Go_Float
  imports Go_Prelude Complex_Main
begin

text \<open>
  \<open>float64\<close> arithmetic. A finite \<open>float64\<close> is the rational number it denotes, and
  every operation of the code is the exact rational operation followed by \<open>fl\<close>, the
  rounding to 53 significant bits, ties to even. The exponent is not bounded: overflow to
  infinity and the subnormal range lie outside every quantity the gateway computes (error
  rates in \<open>[0, 1]\<close>, prices and averages of 64-bit counts).

  The laws that the clients use are collected in the locale \<open>rounding\<close>, which \<open>fl\<close>
  interprets: rounding is monotone, odd, and exact on the integers below \<open>2 ^ 53\<close> and on the
  values it has rounded already.
\<close>

section \<open>The rounding interface\<close>

locale rounding =
  fixes rnd :: "rat \<Rightarrow> rat"
  assumes rnd_mono: "x \<le> y \<Longrightarrow> rnd x \<le> rnd y"
    and rnd_minus: "rnd (- x) = - rnd x"
    and rnd_idem: "rnd (rnd x) = rnd x"
    and rnd_int: "\<bar>n\<bar> \<le> 2 ^ 53 \<Longrightarrow> rnd (of_int n) = of_int n"
begin

lemma rnd_0: "rnd 0 = 0"
  using rnd_int [of 0] by simp

lemma rnd_1: "rnd 1 = 1"
  using rnd_int [of 1] by simp

lemma rnd_nonneg: "0 \<le> x \<Longrightarrow> 0 \<le> rnd x"
  using rnd_mono [of 0 x] by (simp add: rnd_0)

lemma rnd_le_1: "x \<le> 1 \<Longrightarrow> rnd x \<le> 1"
  using rnd_mono [of x 1] by (simp add: rnd_1)

lemma rnd_le_fixed: "rnd c = c \<Longrightarrow> x \<le> c \<Longrightarrow> rnd x \<le> c"
  using rnd_mono [of x c] by simp

lemma rnd_ge_fixed: "rnd c = c \<Longrightarrow> c \<le> x \<Longrightarrow> c \<le> rnd x"
  using rnd_mono [of c x] by simp

lemma rnd_gt_fixed: "rnd c = c \<Longrightarrow> c < rnd x \<Longrightarrow> c < x"
  using rnd_le_fixed [of c x] by linarith

end

section \<open>Rounding to nearest, ties to even\<close>

definition rne :: "rat \<Rightarrow> int" where
  "rne x = (let f = \<lfloor>x\<rfloor>; d = x - of_int f in
     if d < 1 / 2 then f else if 1 / 2 < d then f + 1 else if even f then f else f + 1)"

lemma rne_floor: "\<lfloor>x\<rfloor> \<le> rne x \<and> rne x \<le> \<lfloor>x\<rfloor> + 1"
  by (simp add: rne_def Let_def)

lemma rne_int [simp]: "rne (of_int n) = n"
  by (simp add: rne_def Let_def)

lemma rne_mono:
  assumes "x \<le> y"
  shows "rne x \<le> rne y"
proof (cases "\<lfloor>x\<rfloor> = \<lfloor>y\<rfloor>")
  case True
  then show ?thesis using assms by (auto simp: rne_def Let_def)
next
  case False
  with assms have "\<lfloor>x\<rfloor> + 1 \<le> \<lfloor>y\<rfloor>" using floor_mono [OF assms] by linarith
  then show ?thesis using rne_floor [of x] rne_floor [of y] by linarith
qed

section \<open>The binary exponent of a positive rational\<close>

fun lg2 :: "nat \<Rightarrow> nat" where
  "lg2 n = (if n < 2 then 0 else Suc (lg2 (n div 2)))"

declare lg2.simps [simp del]

lemma lg2_bounds: "0 < n \<Longrightarrow> 2 ^ lg2 n \<le> n \<and> n < 2 ^ Suc (lg2 n)"
proof (induction n rule: lg2.induct)
  case (1 n)
  show ?case
  proof (cases "n < 2")
    case True
    with "1.prems" show ?thesis by (simp add: lg2.simps [of n])
  next
    case False
    with "1.IH" have "2 ^ lg2 (n div 2) \<le> n div 2 \<and> n div 2 < 2 ^ Suc (lg2 (n div 2))"
      by simp
    moreover from False have "lg2 n = Suc (lg2 (n div 2))"
      by (simp add: lg2.simps [of n])
    ultimately show ?thesis by simp linarith
  qed
qed

definition exponent :: "rat \<Rightarrow> int" where
  "exponent q = (if 1 \<le> q then int (lg2 (nat \<lfloor>q\<rfloor>)) else - int (Suc (lg2 (nat (\<lceil>1 / q\<rceil> - 1)))))"

lemma exponent_bounds_large:
  assumes "1 \<le> q"
  shows "(2::rat) powi exponent q \<le> q \<and> q < 2 powi (exponent q + 1)"
proof -
  let ?n = "nat \<lfloor>q\<rfloor>"
  from assms have "1 \<le> \<lfloor>q\<rfloor>" by simp
  then have pos: "0 < ?n" by linarith
  have n: "(of_nat ?n :: rat) = of_int \<lfloor>q\<rfloor>" using \<open>1 \<le> \<lfloor>q\<rfloor>\<close> by simp
  from lg2_bounds [OF pos] have lo: "2 ^ lg2 ?n \<le> ?n" and hi: "Suc ?n \<le> 2 ^ Suc (lg2 ?n)"
    by auto
  from lo have "(2::rat) ^ lg2 ?n \<le> of_nat ?n"
    by (metis of_nat_le_iff of_nat_numeral of_nat_power)
  moreover have "of_nat ?n \<le> q" unfolding n by simp
  moreover from hi have "(of_nat (Suc ?n) :: rat) \<le> 2 ^ Suc (lg2 ?n)"
    by (metis of_nat_le_iff of_nat_numeral of_nat_power)
  moreover have "q < of_nat (Suc ?n)" using n floor_correct [of q] by simp
  moreover have "exponent q = int (lg2 ?n)" using assms by (simp add: exponent_def)
  moreover have "exponent q + 1 = int (Suc (lg2 ?n))" using assms by (simp add: exponent_def)
  ultimately show ?thesis by (simp only: power_int_of_nat)  linarith
qed

lemma powi_neg: "(2::rat) powi (- int n) = 1 / 2 ^ n"
  by (simp add: power_int_minus divide_inverse)

lemma exponent_bounds_small:
  assumes "0 < q" and "q < 1"
  shows "(2::rat) powi exponent q \<le> q \<and> q < 2 powi (exponent q + 1)"
proof -
  let ?n = "nat (\<lceil>1 / q\<rceil> - 1)"
  let ?k = "lg2 ?n"
  have inv1: "1 < 1 / q" using assms by simp
  then have "1 < \<lceil>1 / q\<rceil>" by simp
  then have pos: "0 < ?n" by linarith
  have "(of_nat ?n :: rat) = of_int (\<lceil>1 / q\<rceil> - 1)"
    by (rule of_nat_nat) (use \<open>1 < \<lceil>1 / q\<rceil>\<close> in linarith)
  then have n: "(of_nat ?n :: rat) = of_int \<lceil>1 / q\<rceil> - 1" by simp
  from lg2_bounds [OF pos] have lo: "2 ^ ?k \<le> ?n" and hi: "Suc ?n \<le> 2 ^ Suc ?k" by auto
  from lo have "(2::rat) ^ ?k \<le> of_nat ?n" by (metis of_nat_le_iff of_nat_numeral of_nat_power)
  also have "\<dots> < 1 / q" unfolding n using ceiling_correct [of "1 / q"] by linarith
  finally have up: "q < 1 / 2 ^ ?k" using assms by (simp add: field_simps)
  have "1 / q \<le> of_nat (Suc ?n)" using n ceiling_correct [of "1 / q"] by simp
  also from hi have "\<dots> \<le> 2 ^ Suc ?k" by (metis of_nat_le_iff of_nat_numeral of_nat_power)
  finally have "1 / 2 ^ Suc ?k \<le> q" using assms by (simp add: field_simps)
  moreover have "exponent q = - int (Suc ?k)" using assms by (simp add: exponent_def)
  moreover have "(2::rat) powi (- int (Suc ?k)) = 1 / 2 ^ Suc ?k" by (rule powi_neg)
  moreover have "- int (Suc ?k) + 1 = - int ?k" by simp
  ultimately show ?thesis using up by (simp only: powi_neg)
qed

lemma exponent_bounds: "0 < q \<Longrightarrow> (2::rat) powi exponent q \<le> q \<and> q < 2 powi (exponent q + 1)"
  using exponent_bounds_large exponent_bounds_small by (cases "1 \<le> q") auto

lemma powi_less: "(2::rat) powi a < 2 powi b \<Longrightarrow> a < b"
  using power_int_increasing [of b a "2::rat"] by (cases "a < b") auto

lemma powi_mono: "a \<le> b \<Longrightarrow> (2::rat) powi a \<le> 2 powi b"
  by (rule power_int_increasing) auto

lemma exponent_mono:
  assumes "0 < x" and "x \<le> y"
  shows "exponent x \<le> exponent y"
proof -
  have "(2::rat) powi exponent x < 2 powi (exponent y + 1)"
    using exponent_bounds [of x] exponent_bounds [of y] assms by linarith
  then show ?thesis using powi_less by fastforce
qed

lemma exponent_unique:
  assumes "0 < q" and "(2::rat) powi e \<le> q" and "q < 2 powi (e + 1)"
  shows "exponent q = e"
proof -
  have "(2::rat) powi e < 2 powi (exponent q + 1)" and "(2::rat) powi exponent q < 2 powi (e + 1)"
    using exponent_bounds [OF assms(1)] assms by linarith+
  then have "e < exponent q + 1" and "exponent q < e + 1" by (auto dest: powi_less)
  then show ?thesis by simp
qed

section \<open>Rounding to 53 significant bits\<close>

definition ulp :: "rat \<Rightarrow> rat" where
  "ulp q = 2 powi (exponent q - 52)"

definition fl_pos :: "rat \<Rightarrow> rat" where
  "fl_pos q = of_int (rne (q / ulp q)) * ulp q"

definition fl :: "rat \<Rightarrow> rat" where
  "fl q = (if q = 0 then 0 else if 0 < q then fl_pos q else - fl_pos (- q))"

lemma ulp_pos [simp]: "0 < ulp q"
  by (simp add: ulp_def)

lemma ulp_nonzero [simp]: "ulp q \<noteq> 0"
  by (simp add: ulp_def)

lemma ulp_scale: "(2::rat) powi exponent q = 2 ^ 52 * ulp q" "(2::rat) powi (exponent q + 1) = 2 ^ 53 * ulp q"
proof -
  have "(2::rat) powi (52 + (exponent q - 52)) = 2 powi 52 * ulp q"
    unfolding ulp_def by (rule power_int_add) simp
  then show "(2::rat) powi exponent q = 2 ^ 52 * ulp q" by simp
  have "(2::rat) powi (53 + (exponent q - 52)) = 2 powi 53 * ulp q"
    unfolding ulp_def by (rule power_int_add) simp
  then show "(2::rat) powi (exponent q + 1) = 2 ^ 53 * ulp q" by (simp add: add.commute)
qed

lemma mantissa_bounds:
  assumes "0 < q"
  shows "2 ^ 52 \<le> rne (q / ulp q)" and "rne (q / ulp q) \<le> 2 ^ 53"
proof -
  from exponent_bounds [OF assms] have "2 ^ 52 * ulp q \<le> q" and "q < 2 ^ 53 * ulp q"
    unfolding ulp_scale by auto
  then have "of_int (2 ^ 52) \<le> q / ulp q" and "q / ulp q \<le> of_int (2 ^ 53)"
    by (simp_all add: field_simps)
  then show "2 ^ 52 \<le> rne (q / ulp q)" and "rne (q / ulp q) \<le> 2 ^ 53"
    by (metis rne_int rne_mono)+
qed

lemma fl_pos_bounds:
  assumes "0 < q"
  shows "2 powi exponent q \<le> fl_pos q" and "fl_pos q \<le> 2 powi (exponent q + 1)"
proof -
  from mantissa_bounds [OF assms] have "(of_int (2 ^ 52) :: rat) \<le> of_int (rne (q / ulp q))"
    and "(of_int (rne (q / ulp q)) :: rat) \<le> of_int (2 ^ 53)"
    by (simp_all only: of_int_le_iff)
  then show "2 powi exponent q \<le> fl_pos q" and "fl_pos q \<le> 2 powi (exponent q + 1)"
    unfolding ulp_scale fl_pos_def by (auto intro!: mult_right_mono less_imp_le)
qed

lemma fl_pos_pos: "0 < q \<Longrightarrow> 0 < fl_pos q"
  using fl_pos_bounds(1) [of q] zero_less_power_int [of "2::rat" "exponent q"] by linarith

lemma fl_pos_mono:
  assumes "0 < x" and "x \<le> y"
  shows "fl_pos x \<le> fl_pos y"
proof (cases "exponent x = exponent y")
  case True
  then have u: "ulp x = ulp y" by (simp add: ulp_def)
  have "x / ulp y \<le> y / ulp y" using assms by (simp add: divide_right_mono less_imp_le)
  then have "rne (x / ulp y) \<le> rne (y / ulp y)" by (rule rne_mono)
  then have "(of_int (rne (x / ulp y)) :: rat) \<le> of_int (rne (y / ulp y))"
    by (simp only: of_int_le_iff)
  then show ?thesis unfolding fl_pos_def u by (rule mult_right_mono) (simp add: less_imp_le)
next
  case False
  with exponent_mono [OF assms] have "exponent x + 1 \<le> exponent y" by simp
  then have "(2::rat) powi (exponent x + 1) \<le> 2 powi exponent y" by (rule powi_mono)
  with fl_pos_bounds(2) [of x] fl_pos_bounds(1) [of y] assms show ?thesis by linarith
qed

lemma fl_pos_of_int:
  assumes "q / ulp q = of_int m"
  shows "fl_pos q = q"
proof -
  have "fl_pos q = q / ulp q * ulp q" unfolding fl_pos_def assms by simp
  also have "\<dots> = q" by simp
  finally show ?thesis .
qed

text \<open>A product of a 53-bit integer and a power of two is exact.\<close>

lemma fl_pos_exact:
  assumes "0 < q" and q: "q = of_int n * 2 powi k" and "n \<le> 2 ^ 53"
  shows "fl_pos q = q"
proof (cases "n = 2 ^ 53")
  case True
  then have q': "q = 2 powi (k + 53)" by (simp add: q power_int_add mult.commute)
  then have e: "exponent q = k + 53" by (intro exponent_unique) (auto simp: power_int_add)
  have "q / ulp q = 2 powi (k + 53) / 2 powi (k + 53 - 52)"
    unfolding ulp_def e by (simp only: q')
  also have "\<dots> = 2 powi 52" by (subst power_int_diff [symmetric]) auto
  finally have "q / ulp q = of_int (2 ^ 52)" by simp
  then show ?thesis by (rule fl_pos_of_int)
next
  case False
  with assms(3) have "n < 2 ^ 53" by simp
  then have "(of_int n :: rat) < of_int (2 ^ 53)" by (simp only: of_int_less_iff)
  then have "q < 2 powi (k + 53)" by (simp add: q power_int_add mult.commute)
  with exponent_bounds [OF assms(1)] have "(2::rat) powi exponent q < 2 powi (k + 53)" by linarith
  then have le: "0 \<le> k - (exponent q - 52)" using powi_less by fastforce
  define d where "d = nat (k - (exponent q - 52))"
  have kd: "k = int d + (exponent q - 52)" using le by (simp add: d_def)
  have "(2::rat) powi k = 2 powi int d * ulp q"
    unfolding ulp_def by (subst kd) (rule power_int_add, simp)
  with q have "q / ulp q = of_int n * 2 powi int d" by (metis ulp_nonzero mult.assoc nonzero_mult_div_cancel_right)
  then have "q / ulp q = of_int (n * 2 ^ d)" by (simp add: power_int_of_nat)
  then show ?thesis by (rule fl_pos_of_int)
qed

lemma fl_simps:
  "fl 0 = 0" "0 < q \<Longrightarrow> fl q = fl_pos q" "q < 0 \<Longrightarrow> fl q = - fl_pos (- q)"
  by (simp_all add: fl_def)

lemma fl_minus: "fl (- q) = - fl q"
  by (cases q "0::rat" rule: linorder_cases) (auto simp: fl_simps)

lemma fl_mono:
  assumes "x \<le> y"
  shows "fl x \<le> fl y"
proof -
  have pos: "0 < fl q" if "0 < q" for q using that by (simp add: fl_simps fl_pos_pos)
  then have neg: "fl q < 0" if "q < 0" for q using that fl_minus [of q] pos [of "- q"] by simp
  consider "0 < x" | "y < 0" | "x \<le> 0" "0 \<le> y" by linarith
  then show ?thesis
  proof cases
    case 1
    with assms show ?thesis by (simp add: fl_simps fl_pos_mono)
  next
    case 2
    with assms show ?thesis using fl_pos_mono [of "- y" "- x"] by (simp add: fl_simps)
  next
    case 3
    then have "fl x \<le> 0" and "0 \<le> fl y"
      using neg [of x] pos [of y] by (auto simp: fl_simps le_less)
    then show ?thesis by simp
  qed
qed

lemma fl_pos_idem: "0 < q \<Longrightarrow> fl_pos (fl_pos q) = fl_pos q"
  by (rule fl_pos_exact [where n = "rne (q / ulp q)" and k = "exponent q - 52"])
    (use mantissa_bounds(2) in \<open>simp_all add: fl_pos_pos, simp_all add: fl_pos_def ulp_def\<close>)

lemma fl_idem: "fl (fl q) = fl q"
proof (cases q "0::rat" rule: linorder_cases)
  case less
  then show ?thesis using fl_pos_pos [of "- q"] by (simp add: fl_simps fl_minus fl_pos_idem)
next
  case greater
  then show ?thesis by (simp add: fl_simps fl_pos_pos fl_pos_idem)
qed (simp add: fl_simps)

lemma fl_exact: "\<bar>n\<bar> \<le> 2 ^ 53 \<Longrightarrow> fl (of_int n * 2 powi k) = of_int n * 2 powi k"
proof (cases n "0::int" rule: linorder_cases)
  case less
  moreover assume "\<bar>n\<bar> \<le> 2 ^ 53"
  ultimately have "fl_pos (of_int (- n) * 2 powi k) = of_int (- n) * 2 powi k"
    by (intro fl_pos_exact) (auto simp: mult_less_0_iff)
  moreover have "of_int n * (2::rat) powi k < 0" using less by (simp add: mult_less_0_iff)
  ultimately show ?thesis by (simp add: fl_simps)
next
  case greater
  moreover assume "\<bar>n\<bar> \<le> 2 ^ 53"
  ultimately show ?thesis using fl_pos_exact [of "of_int n * 2 powi k" n k] by (simp add: fl_simps)
qed (simp add: fl_simps)

lemma fl_int: "\<bar>n\<bar> \<le> 2 ^ 53 \<Longrightarrow> fl (of_int n) = of_int n"
  using fl_exact [of n 0] by simp

interpretation fl64: rounding fl
  by unfold_locales (simp_all add: fl_mono fl_minus fl_idem fl_int)

lemmas fl_laws = fl64.rnd_0 fl64.rnd_1 fl64.rnd_nonneg fl64.rnd_le_1 fl64.rnd_le_fixed fl64.rnd_ge_fixed

lemma fl_half [simp]: "fl (1 / 2) = 1 / 2"
  using fl_exact [of 1 "- 1"] by (simp add: power_int_minus)

lemma fl_numeral_small [simp]: "numeral k \<le> (2 ^ 53 :: int) \<Longrightarrow> fl (numeral k) = numeral k"
  using fl_int [of "numeral k"] by simp

declare fl64.rnd_0 [simp] fl64.rnd_1 [simp]

section \<open>Operations of the code\<close>

text \<open>\<open>float64(n)\<close> and the four operators.\<close>

definition f64 :: "int \<Rightarrow> rat" where
  "f64 n = fl (of_int n)"

definition fadd :: "rat \<Rightarrow> rat \<Rightarrow> rat" where
  "fadd x y = fl (x + y)"

definition fmul :: "rat \<Rightarrow> rat \<Rightarrow> rat" where
  "fmul x y = fl (x * y)"

definition fdiv :: "rat \<Rightarrow> rat \<Rightarrow> rat" where
  "fdiv x y = fl (x / y)"

lemma f64_small: "\<bar>n\<bar> \<le> 2 ^ 53 \<Longrightarrow> f64 n = of_int n"
  by (simp add: f64_def fl_int)

lemma f64_nonneg: "0 \<le> n \<Longrightarrow> 0 \<le> f64 n"
  by (simp add: f64_def fl64.rnd_nonneg)

lemma f64_mono: "m \<le> n \<Longrightarrow> f64 m \<le> f64 n"
  by (simp add: f64_def fl_mono)

lemma f64_pos: "0 < n \<Longrightarrow> 0 < f64 n"
  using f64_mono [of 1 n] by (simp add: f64_def)

lemma fadd_nonneg: "0 \<le> x \<Longrightarrow> 0 \<le> y \<Longrightarrow> 0 \<le> fadd x y"
  by (simp add: fadd_def fl64.rnd_nonneg)

lemma fmul_nonneg: "0 \<le> x \<Longrightarrow> 0 \<le> y \<Longrightarrow> 0 \<le> fmul x y"
  by (simp add: fmul_def fl64.rnd_nonneg)

lemma fdiv_nonneg: "0 \<le> x \<Longrightarrow> 0 \<le> y \<Longrightarrow> 0 \<le> fdiv x y"
  by (simp add: fdiv_def fl64.rnd_nonneg)

lemma fadd_mono: "x \<le> x' \<Longrightarrow> y \<le> y' \<Longrightarrow> fadd x y \<le> fadd x' y'"
  by (simp add: fadd_def fl_mono add_mono)

lemma fmul_mono: "x \<le> x' \<Longrightarrow> 0 \<le> y \<Longrightarrow> fmul x y \<le> fmul x' y"
  by (simp add: fmul_def fl_mono mult_right_mono)

lemma fdiv_mono: "x \<le> x' \<Longrightarrow> 0 < y \<Longrightarrow> fdiv x y \<le> fdiv x' y"
  by (simp add: fdiv_def fl_mono divide_right_mono)

section \<open>Accuracy\<close>

text \<open>
  \<open>approx k x y\<close>: the value \<open>y\<close> is \<open>x\<close> up to \<open>k\<close> roundings, each off by at most half a unit
  in the last place, a relative error of \<open>2 powi (- 53)\<close>.
\<close>

definition unit_roundoff :: rat where
  "unit_roundoff = 1 / 2 ^ 53"

definition approx :: "nat \<Rightarrow> rat \<Rightarrow> rat \<Rightarrow> bool" where
  "approx k x y \<longleftrightarrow> x * (1 - unit_roundoff) ^ k \<le> y \<and> y \<le> x * (1 + unit_roundoff) ^ k"

lemma unit_roundoff_bounds: "0 < unit_roundoff" "unit_roundoff < 1"
  by (simp_all add: unit_roundoff_def)

lemma approx_refl: "approx 0 x x"
  by (simp add: approx_def)

lemma approx_zero: "approx k 0 0"
  by (simp add: approx_def)

lemma approx_scale: "approx k x y \<Longrightarrow> 0 \<le> c \<Longrightarrow> approx k (x * c) (y * c)"
  by (auto simp: approx_def mult.assoc mult.commute [of c] intro: mult_right_mono)
    (simp_all add: mult_right_mono flip: mult.assoc)

lemma approx_add: "approx k x y \<Longrightarrow> approx k x' y' \<Longrightarrow> approx k (x + x') (y + y')"
  by (simp add: approx_def distrib_right add_mono)

lemma approx_nonneg: "approx k x y \<Longrightarrow> 0 \<le> x \<Longrightarrow> 0 \<le> y"
proof -
  assume a: "approx k x y" and "0 \<le> x"
  then have "0 \<le> x * (1 - unit_roundoff) ^ k" using unit_roundoff_bounds by simp
  with a show ?thesis by (simp add: approx_def)
qed

lemma approx_weaken:
  assumes "approx j x y" and "0 \<le> x" and "j \<le> k"
  shows "approx k x y"
proof -
  have "(1 - unit_roundoff) ^ k \<le> (1 - unit_roundoff) ^ j"
    using unit_roundoff_bounds assms(3) by (intro power_decreasing) auto
  moreover have "(1 + unit_roundoff) ^ j \<le> (1 + unit_roundoff) ^ k"
    using unit_roundoff_bounds assms(3) by (intro power_increasing) auto
  ultimately have "x * (1 - unit_roundoff) ^ k \<le> x * (1 - unit_roundoff) ^ j"
    and "x * (1 + unit_roundoff) ^ j \<le> x * (1 + unit_roundoff) ^ k"
    using assms(2) by (auto intro: mult_left_mono)
  with assms(1) show ?thesis by (auto simp: approx_def)
qed

locale accurate_rounding = rounding +
  assumes rnd_approx: "0 \<le> x \<Longrightarrow> approx 1 x (rnd x)"
begin

lemma approx_rnd:
  assumes "approx k x y" and "0 \<le> x"
  shows "approx (Suc k) x (rnd y)"
proof -
  note u = unit_roundoff_bounds and y = approx_nonneg [OF assms]
  have r: "y * (1 - unit_roundoff) \<le> rnd y" "rnd y \<le> y * (1 + unit_roundoff)"
    using rnd_approx [OF y] by (simp_all add: approx_def)
  have "x * (1 - unit_roundoff) ^ k * (1 - unit_roundoff) \<le> y * (1 - unit_roundoff)"
    using assms(1) u by (intro mult_right_mono) (simp_all add: approx_def)
  moreover have "y * (1 + unit_roundoff) \<le> x * (1 + unit_roundoff) ^ k * (1 + unit_roundoff)"
    using assms(1) u by (intro mult_right_mono) (simp_all add: approx_def)
  moreover have "x * (1 - unit_roundoff) ^ Suc k = x * (1 - unit_roundoff) ^ k * (1 - unit_roundoff)"
    "x * (1 + unit_roundoff) ^ Suc k = x * (1 + unit_roundoff) ^ k * (1 + unit_roundoff)"
    by (simp_all add: power_Suc2 mult.assoc del: power_Suc)
  ultimately show ?thesis using r unfolding approx_def by linarith
qed

end

lemma rne_near: "\<bar>of_int (rne x) - x\<bar> \<le> 1 / 2"
proof -
  have "of_int \<lfloor>x\<rfloor> \<le> x" "x < of_int \<lfloor>x\<rfloor> + 1" by linarith+
  then show ?thesis by (simp add: rne_def Let_def abs_le_iff)
qed

lemma fl_approx:
  assumes "0 \<le> x"
  shows "approx 1 x (fl x)"
proof (cases "x = 0")
  case True
  then show ?thesis by (simp add: approx_zero)
next
  case False
  with assms have x: "0 < x" by simp
  let ?m = "x / ulp x"
  have "\<bar>of_int (rne ?m) - ?m\<bar> * ulp x \<le> 1 / 2 * ulp x" using rne_near by (rule mult_right_mono) (simp add: less_imp_le)
  moreover have "\<bar>of_int (rne ?m) - ?m\<bar> * ulp x = \<bar>(of_int (rne ?m) - ?m) * ulp x\<bar>" by (simp add: abs_mult less_imp_le)
  moreover have "(of_int (rne ?m) - ?m) * ulp x = fl x - x" using x by (simp add: fl_simps fl_pos_def left_diff_distrib)
  ultimately have near: "\<bar>fl x - x\<bar> \<le> 1 / 2 * ulp x" by simp
  have "2 ^ 52 * ulp x \<le> x" using exponent_bounds [OF x] unfolding ulp_scale by simp
  then have "1 / 2 * ulp x \<le> x * unit_roundoff" by (simp add: unit_roundoff_def field_simps)
  with near have "\<bar>fl x - x\<bar> \<le> x * unit_roundoff" by (rule order_trans)
  then show ?thesis by (simp add: approx_def algebra_simps abs_le_iff)
qed

interpretation fl64a: accurate_rounding fl
  by unfold_locales (rule fl_approx)

end
