(* ===== verification/Domain_Models.thy ===== *)
theory Domain_Models
  imports Go_Strings Go_Float
begin

text \<open>
  The domain types of \<open>internal/models\<close>: one record per struct, with a prefix per struct
  because HOL record fields are global. Pointers that may be nil are options, times are
  instants, \<open>float64\<close> values are rationals. With them the two pieces of logic that package
  holds: the defaults of the circuit-breaker settings and the range of the idle-connection
  timeout.
\<close>

type_synonym float64 = rat
type_synonym config = "string \<rightharpoonup> string"

section \<open>Providers, endpoints, models, aliases\<close>

record Provider =
  p_ID :: string
  p_Name :: string
  p_BaseURL :: string
  p_APIKey :: string
  p_IsHealthy :: bool
  p_HealthCheckedAt :: "time option"
  p_CreatedAt :: time
  p_UpdatedAt :: time
  p_CBEnabled :: bool
  p_CBErrorThreshold :: float64
  p_CBWindowSeconds :: int
  p_CBCooldownSeconds :: int

definition DefaultCircuitBreakerErrorThreshold :: float64 where
  "DefaultCircuitBreakerErrorThreshold = 1 / 2"

definition DefaultCircuitBreakerWindowSeconds :: int where
  "DefaultCircuitBreakerWindowSeconds = 60"

definition DefaultCircuitBreakerCooldownSeconds :: int where
  "DefaultCircuitBreakerCooldownSeconds = 30"

lemmas cb_defaults = DefaultCircuitBreakerErrorThreshold_def DefaultCircuitBreakerWindowSeconds_def
  DefaultCircuitBreakerCooldownSeconds_def

definition NormalizeCircuitBreaker :: "Provider \<Rightarrow> Provider" where
  "NormalizeCircuitBreaker p =
     (let p1 = (if p_CBErrorThreshold p \<le> 0 \<or> p_CBErrorThreshold p > 1
                then p\<lparr>p_CBErrorThreshold := DefaultCircuitBreakerErrorThreshold\<rparr> else p);
          p2 = (if p_CBWindowSeconds p1 \<le> 0
                then p1\<lparr>p_CBWindowSeconds := DefaultCircuitBreakerWindowSeconds\<rparr> else p1)
      in (if p_CBCooldownSeconds p2 \<le> 0
          then p2\<lparr>p_CBCooldownSeconds := DefaultCircuitBreakerCooldownSeconds\<rparr> else p2))"

record ProviderEndpoint =
  e_ID :: string
  e_ProviderID :: string
  e_Path :: string
  e_Method :: string
  e_IsSupported :: bool
  e_IsEnabled :: bool
  e_CreatedAt :: time

record ProviderModel =
  m_ID :: string
  m_ProviderID :: string
  m_ModelID :: string
  m_CreatedAt :: time
  m_IsAvailable :: bool
  m_CostPerMillionInput :: "float64 option"
  m_CostPerMillionOutput :: "float64 option"
  m_CostPerMillionCacheRead :: "float64 option"
  m_CostPerMillionCacheWrite :: "float64 option"
  m_MaxContext :: "int option"

record ModelAlias =
  a_ID :: string
  a_Alias :: string
  a_ProviderID :: string
  a_ModelID :: string
  a_Weight :: int
  a_Priority :: int
  a_IsEnabled :: bool
  a_CreatedAt :: time
  a_UpdatedAt :: time

record RoutingData =
  rd_Providers :: "Provider list"
  rd_Models :: "ProviderModel list"
  rd_Aliases :: "ModelAlias list"
  rd_Endpoints :: "ProviderEndpoint list"

text \<open>Settings that \<open>CircuitBreaker.Configure\<close> accepts.\<close>

definition cb_settings_ok :: "Provider \<Rightarrow> bool" where
  "cb_settings_ok p \<longleftrightarrow> 0 < p_CBErrorThreshold p \<and> p_CBErrorThreshold p \<le> 1 \<and>
     0 < p_CBWindowSeconds p \<and> 0 < p_CBCooldownSeconds p"

lemma NormalizeCircuitBreaker_ok: "cb_settings_ok (NormalizeCircuitBreaker p)"
  by (simp add: cb_settings_ok_def NormalizeCircuitBreaker_def Let_def cb_defaults)

lemma NormalizeCircuitBreaker_id: "cb_settings_ok p \<Longrightarrow> NormalizeCircuitBreaker p = p"
  by (simp add: cb_settings_ok_def NormalizeCircuitBreaker_def Let_def)

lemma NormalizeCircuitBreaker_frame:
  "p_ID (NormalizeCircuitBreaker p) = p_ID p"
  "p_Name (NormalizeCircuitBreaker p) = p_Name p"
  "p_BaseURL (NormalizeCircuitBreaker p) = p_BaseURL p"
  "p_APIKey (NormalizeCircuitBreaker p) = p_APIKey p"
  "p_IsHealthy (NormalizeCircuitBreaker p) = p_IsHealthy p"
  "p_CBEnabled (NormalizeCircuitBreaker p) = p_CBEnabled p"
  by (simp_all add: NormalizeCircuitBreaker_def Let_def)

section \<open>API keys\<close>

record APIKey =
  k_ID :: string
  k_KeyHash :: string
  k_Name :: string
  k_IsActive :: bool
  k_RateLimitRPM :: "int option"
  k_RateLimitTPM :: "int option"
  k_CreatedAt :: time
  k_LastUsedAt :: "time option"

section \<open>Request logs\<close>

record RequestLogCostBreakdown =
  cb_InputUSD :: float64
  cb_OutputUSD :: float64
  cb_CachedReadUSD :: float64
  cb_TotalUSD :: float64

record RequestLog =
  l_ID :: string
  l_Timestamp :: time
  l_ClientIP :: string
  l_Method :: string
  l_Path :: string
  l_RequestedModel :: string
  l_ResolvedModel :: string
  l_ProviderID :: string
  l_ProviderName :: string
  l_StatusCode :: int
  l_IsStreamed :: bool
  l_TTFTMs :: "int option"
  l_TotalTimeMs :: int
  l_PromptTokens :: "int option"
  l_CompletionTokens :: "int option"
  l_TotalTokens :: "int option"
  l_CachedTokens :: "int option"
  l_ErrorMessage :: string
  l_CreatedAt :: time
  l_APIKeyID :: string
  l_APIKeyName :: string
  l_EstimatedCostUSD :: "float64 option"
  l_CostBreakdown :: "RequestLogCostBreakdown option"
  l_RequestBody :: string
  l_ResponseBody :: string

text \<open>Go's zero value of the struct.\<close>

definition zero_RequestLog :: RequestLog where
  "zero_RequestLog = \<lparr>l_ID = '''', l_Timestamp = 0, l_ClientIP = '''', l_Method = '''', l_Path = '''',
     l_RequestedModel = '''', l_ResolvedModel = '''', l_ProviderID = '''', l_ProviderName = '''',
     l_StatusCode = 0, l_IsStreamed = False, l_TTFTMs = None, l_TotalTimeMs = 0,
     l_PromptTokens = None, l_CompletionTokens = None, l_TotalTokens = None, l_CachedTokens = None,
     l_ErrorMessage = '''', l_CreatedAt = 0, l_APIKeyID = '''', l_APIKeyName = '''',
     l_EstimatedCostUSD = None, l_CostBreakdown = None, l_RequestBody = '''', l_ResponseBody = ''''\<rparr>"

record StreamingLog =
  s_ID :: string
  s_RequestLogID :: string
  s_ChunkIndex :: int
  s_Data :: string
  s_ContentDelta :: string
  s_BodyPurged :: bool
  s_IsTruncated :: bool
  s_Timestamp :: time
  s_CreatedAt :: time
  s_CumulativeBody :: string

section \<open>Runtime configuration\<close>

definition DefaultRequestBodyMaxBytes :: int where "DefaultRequestBodyMaxBytes = 51200"
definition DefaultResponseBodyMaxBytes :: int where "DefaultResponseBodyMaxBytes = 51200"
definition DefaultTrackStreaming :: bool where "DefaultTrackStreaming = False"
definition DefaultStreamingBufferSize :: int where "DefaultStreamingBufferSize = 10240"
definition MaxBodyMaxBytes :: int where "MaxBodyMaxBytes = 1073741824"
definition MinStreamingBufferSize :: int where "MinStreamingBufferSize = 1024"
definition MaxStreamingBufferSize :: int where "MaxStreamingBufferSize = 1048576"
definition DefaultHTTPIdleConnTimeoutSeconds :: int where "DefaultHTTPIdleConnTimeoutSeconds = 90"
definition MinHTTPIdleConnTimeoutSeconds :: int where "MinHTTPIdleConnTimeoutSeconds = 10"
definition MaxHTTPIdleConnTimeoutSeconds :: int where "MaxHTTPIdleConnTimeoutSeconds = 86400"
definition DefaultStreamingLogBodyRetentionDays :: int where "DefaultStreamingLogBodyRetentionDays = 30"
definition DefaultRequestLogBodyRetentionDays :: int where "DefaultRequestLogBodyRetentionDays = 30"
definition DefaultResponseLogBodyRetentionDays :: int where "DefaultResponseLogBodyRetentionDays = 30"
definition DefaultRequireAPIKeys :: bool where "DefaultRequireAPIKeys = False"
definition MinStreamingLogBodyRetentionDays :: int where "MinStreamingLogBodyRetentionDays = 1"
definition MaxStreamingLogBodyRetentionDays :: int where "MaxStreamingLogBodyRetentionDays = 3650"

lemmas config_consts = DefaultRequestBodyMaxBytes_def DefaultResponseBodyMaxBytes_def
  DefaultTrackStreaming_def DefaultStreamingBufferSize_def MaxBodyMaxBytes_def
  MinStreamingBufferSize_def MaxStreamingBufferSize_def DefaultHTTPIdleConnTimeoutSeconds_def
  MinHTTPIdleConnTimeoutSeconds_def MaxHTTPIdleConnTimeoutSeconds_def
  DefaultStreamingLogBodyRetentionDays_def DefaultRequestLogBodyRetentionDays_def
  DefaultResponseLogBodyRetentionDays_def DefaultRequireAPIKeys_def
  MinStreamingLogBodyRetentionDays_def MaxStreamingLogBodyRetentionDays_def

record Configuration =
  c_RequestBodyMaxBytes :: int
  c_ResponseBodyMaxBytes :: int
  c_TrackStreaming :: bool
  c_StreamingBufferSize :: int
  c_HTTPIdleConnTimeoutSeconds :: int
  c_StreamingLogBodyRetentionDays :: int
  c_RequestLogBodyRetentionDays :: int
  c_ResponseLogBodyRetentionDays :: int
  c_RequireAPIKeys :: bool

definition DefaultConfiguration :: Configuration where
  "DefaultConfiguration = \<lparr>
     c_RequestBodyMaxBytes = DefaultRequestBodyMaxBytes,
     c_ResponseBodyMaxBytes = DefaultResponseBodyMaxBytes,
     c_TrackStreaming = DefaultTrackStreaming,
     c_StreamingBufferSize = DefaultStreamingBufferSize,
     c_HTTPIdleConnTimeoutSeconds = DefaultHTTPIdleConnTimeoutSeconds,
     c_StreamingLogBodyRetentionDays = DefaultStreamingLogBodyRetentionDays,
     c_RequestLogBodyRetentionDays = DefaultRequestLogBodyRetentionDays,
     c_ResponseLogBodyRetentionDays = DefaultResponseLogBodyRetentionDays,
     c_RequireAPIKeys = DefaultRequireAPIKeys\<rparr>"

definition ClampHTTPIdleConnTimeoutSeconds :: "int \<Rightarrow> int" where
  "ClampHTTPIdleConnTimeoutSeconds v =
     (if v < MinHTTPIdleConnTimeoutSeconds then MinHTTPIdleConnTimeoutSeconds
      else if v > MaxHTTPIdleConnTimeoutSeconds then MaxHTTPIdleConnTimeoutSeconds
      else v)"

definition HTTPIdleConnTimeoutSecondsFromConfig :: "config option \<Rightarrow> int" where
  "HTTPIdleConnTimeoutSecondsFromConfig m =
     (case m of None \<Rightarrow> DefaultHTTPIdleConnTimeoutSeconds
      | Some cfg \<Rightarrow>
        (case cfg ''http_idle_conn_timeout_seconds'' of None \<Rightarrow> DefaultHTTPIdleConnTimeoutSeconds
         | Some raw \<Rightarrow>
           (case Atoi raw of None \<Rightarrow> DefaultHTTPIdleConnTimeoutSeconds
            | Some v \<Rightarrow> ClampHTTPIdleConnTimeoutSeconds v)))"

lemma ClampHTTPIdleConnTimeoutSeconds_range:
  "MinHTTPIdleConnTimeoutSeconds \<le> ClampHTTPIdleConnTimeoutSeconds v \<and>
   ClampHTTPIdleConnTimeoutSeconds v \<le> MaxHTTPIdleConnTimeoutSeconds"
  by (simp add: ClampHTTPIdleConnTimeoutSeconds_def config_consts)

lemma HTTPIdleConnTimeout_range:
  "MinHTTPIdleConnTimeoutSeconds \<le> HTTPIdleConnTimeoutSecondsFromConfig m \<and>
   HTTPIdleConnTimeoutSecondsFromConfig m \<le> MaxHTTPIdleConnTimeoutSeconds"
  using ClampHTTPIdleConnTimeoutSeconds_range
  by (simp add: HTTPIdleConnTimeoutSecondsFromConfig_def config_consts split: option.splits)

end
