(* ===== verification/Circuit_Breaker.thy ===== *)
theory Circuit_Breaker
  imports Domain_Models
begin

text \<open>
  The sliding-window circuit breaker of \<open>internal/proxy/circuit.go\<close>. Every method holds the
  mutex for its whole body, so a method is one atomic operation at one instant \<open>now\<close>, the
  clock reading it takes. The theory has
  \<^item> the struct and its methods;
  \<^item> the locale \<open>breaker_machine\<close>: what a client relies on, the state diagram and the
    cooldown, with the lemmas about whole runs proved once;
  \<^item> a reference breaker that keeps the complete history of outcomes and never prunes, and
    the refinement: on a clock that does not run backwards the pruning breaker makes the
    same decisions.
\<close>

section \<open>The breaker\<close>

datatype CircuitBreakerState = StateClosed | StateOpen | StateHalfOpen

record CircuitBreaker =
  br_state :: CircuitBreakerState
  br_failures :: "time list"
  br_successes :: "time list"
  br_lastStateChange :: time
  br_errorThreshold :: float64
  br_windowSize :: duration
  br_cooldownPeriod :: duration

definition NewCircuitBreaker :: "time \<Rightarrow> CircuitBreaker" where
  "NewCircuitBreaker now = \<lparr>br_state = StateClosed, br_failures = [], br_successes = [],
     br_lastStateChange = now, br_errorThreshold = 1 / 2,
     br_windowSize = 60 * second, br_cooldownPeriod = 30 * second\<rparr>"

definition Configure :: "CircuitBreaker \<Rightarrow> float64 \<Rightarrow> duration \<Rightarrow> duration \<Rightarrow> CircuitBreaker" where
  "Configure cb errorThreshold windowSize cooldownPeriod =
     (let cb1 = (if errorThreshold > 0 \<and> errorThreshold \<le> 1 then cb\<lparr>br_errorThreshold := errorThreshold\<rparr> else cb);
          cb2 = (if windowSize > 0 then cb1\<lparr>br_windowSize := windowSize\<rparr> else cb1)
      in (if cooldownPeriod > 0 then cb2\<lparr>br_cooldownPeriod := cooldownPeriod\<rparr> else cb2))"

definition prune :: "CircuitBreaker \<Rightarrow> time \<Rightarrow> CircuitBreaker" where
  "prune cb now =
     (let cutoff = now - br_windowSize cb
      in cb\<lparr>br_failures := filter (\<lambda>t. cutoff < t) (br_failures cb),
            br_successes := filter (\<lambda>t. cutoff < t) (br_successes cb)\<rparr>)"

definition Allow :: "CircuitBreaker \<Rightarrow> time \<Rightarrow> bool \<times> CircuitBreaker" where
  "Allow cb now =
     (case br_state cb of
        StateClosed \<Rightarrow> (True, cb)
      | StateOpen \<Rightarrow>
          (if time_sub now (br_lastStateChange cb) \<ge> br_cooldownPeriod cb
           then (True, cb\<lparr>br_state := StateHalfOpen, br_lastStateChange := now\<rparr>)
           else (False, cb))
      | StateHalfOpen \<Rightarrow> (True, cb))"

definition RecordSuccess :: "CircuitBreaker \<Rightarrow> time \<Rightarrow> CircuitBreaker" where
  "RecordSuccess cb now =
     (let cb1 = prune cb now;
          cb2 = cb1\<lparr>br_successes := br_successes cb1 @ [now]\<rparr>
      in if br_state cb2 = StateHalfOpen
         then cb2\<lparr>br_state := StateClosed, br_failures := [], br_lastStateChange := now\<rparr>
         else cb2)"

text \<open>\<open>float64(f) / float64(f + s)\<close>.\<close>

definition error_rate :: "nat \<Rightarrow> nat \<Rightarrow> float64" where
  "error_rate f s = fdiv (f64 (int f)) (f64 (int f + int s))"

definition RecordFailure :: "CircuitBreaker \<Rightarrow> time \<Rightarrow> CircuitBreaker" where
  "RecordFailure cb now =
     (let cb1 = prune cb now;
          cb2 = cb1\<lparr>br_failures := br_failures cb1 @ [now]\<rparr>
      in case br_state cb2 of
           StateHalfOpen \<Rightarrow> cb2\<lparr>br_state := StateOpen, br_lastStateChange := now\<rparr>
         | StateClosed \<Rightarrow>
             (let f = length (br_failures cb2); s = length (br_successes cb2)
              in if f + s > 0 \<and> error_rate f s > br_errorThreshold cb2
                 then cb2\<lparr>br_state := StateOpen, br_lastStateChange := now\<rparr>
                 else cb2)
         | StateOpen \<Rightarrow> cb2)"

definition State :: "CircuitBreaker \<Rightarrow> CircuitBreakerState" where
  "State cb = br_state cb"

lemmas breaker_defs = Allow_def RecordSuccess_def RecordFailure_def Configure_def prune_def Let_def

section \<open>Runs of a breaker\<close>

datatype breaker_event = EvAllow | EvSuccess | EvFailure | EvConfigure float64 duration duration

record 'b breaker_ops =
  op_allow :: "'b \<Rightarrow> time \<Rightarrow> bool \<times> 'b"
  op_success :: "'b \<Rightarrow> time \<Rightarrow> 'b"
  op_failure :: "'b \<Rightarrow> time \<Rightarrow> 'b"
  op_configure :: "'b \<Rightarrow> float64 \<Rightarrow> duration \<Rightarrow> duration \<Rightarrow> 'b"

fun breaker_step :: "('b, 'z) breaker_ops_scheme \<Rightarrow> time \<Rightarrow> breaker_event \<Rightarrow> 'b \<Rightarrow> bool \<times> 'b" where
  "breaker_step ops now EvAllow b = op_allow ops b now"
| "breaker_step ops now EvSuccess b = (False, op_success ops b now)"
| "breaker_step ops now EvFailure b = (False, op_failure ops b now)"
| "breaker_step ops now (EvConfigure e w c) b = (False, op_configure ops b e w c)"

text \<open>
  A run: the events with the instants they happen at; the result lists which of them
  admitted a request, and the final breaker.
\<close>

fun breaker_run :: "('b, 'z) breaker_ops_scheme \<Rightarrow> (time \<times> breaker_event) list \<Rightarrow> 'b \<Rightarrow> bool list \<times> 'b" where
  "breaker_run ops [] b = ([], b)"
| "breaker_run ops ((now, ev) # evs) b =
     (let (ok, b1) = breaker_step ops now ev b; (oks, b2) = breaker_run ops evs b1 in (ok # oks, b2))"

definition cb_ops :: "CircuitBreaker breaker_ops" where
  "cb_ops = \<lparr>op_allow = Allow, op_success = RecordSuccess, op_failure = RecordFailure, op_configure = Configure\<rparr>"

fun ev_cooldown_ge :: "duration \<Rightarrow> breaker_event \<Rightarrow> bool" where
  "ev_cooldown_ge d (EvConfigure _ _ c) = (c \<le> 0 \<or> d \<le> c)"
| "ev_cooldown_ge d _ = True"

section \<open>The interface of a breaker\<close>

locale breaker_machine =
  fixes ops :: "'b breaker_ops"
    and st :: "'b \<Rightarrow> CircuitBreakerState"
    and since :: "'b \<Rightarrow> time"
    and cool :: "'b \<Rightarrow> duration"
  assumes allow_not_open: "st b \<noteq> StateOpen \<Longrightarrow> op_allow ops b now = (True, b)"
    and allow_wait: "st b = StateOpen \<Longrightarrow> time_sub now (since b) < cool b \<Longrightarrow> op_allow ops b now = (False, b)"
    and allow_probe: "st b = StateOpen \<Longrightarrow> cool b \<le> time_sub now (since b) \<Longrightarrow>
      \<exists>b'. op_allow ops b now = (True, b') \<and> st b' = StateHalfOpen \<and> since b' = now \<and> cool b' = cool b"
    and success_st: "st (op_success ops b now) = (if st b = StateHalfOpen then StateClosed else st b)"
    and success_since: "st b \<noteq> StateHalfOpen \<Longrightarrow> since (op_success ops b now) = since b"
    and success_cool: "cool (op_success ops b now) = cool b"
    and failure_half: "st b = StateHalfOpen \<Longrightarrow> st (op_failure ops b now) = StateOpen"
    and failure_open: "st b = StateOpen \<Longrightarrow> st (op_failure ops b now) = StateOpen \<and> since (op_failure ops b now) = since b"
    and failure_closed: "st b = StateClosed \<Longrightarrow> st (op_failure ops b now) \<in> {StateClosed, StateOpen}"
    and failure_opens: "st b \<noteq> StateOpen \<Longrightarrow> st (op_failure ops b now) = StateOpen \<Longrightarrow> since (op_failure ops b now) = now"
    and failure_cool: "cool (op_failure ops b now) = cool b"
    and configure_st: "st (op_configure ops b e w c) = st b"
    and configure_since: "since (op_configure ops b e w c) = since b"
    and configure_cool: "cool (op_configure ops b e w c) = (if c > 0 then c else cool b)"
begin

lemma allow_result:
  "fst (op_allow ops b now) \<longleftrightarrow> st b \<noteq> StateOpen \<or> cool b \<le> time_sub now (since b)"
  using allow_not_open [of b now] allow_wait [of b now] allow_probe [of b now]
  by (cases "st b = StateOpen"; cases "cool b \<le> time_sub now (since b)") (auto simp: not_le)

lemma step_edges:
  assumes "breaker_step ops now ev b = (ok, b')"
  shows "st b' = st b
    \<or> st b = StateOpen \<and> ev = EvAllow \<and> st b' = StateHalfOpen \<and> cool b \<le> time_sub now (since b)
    \<or> st b = StateHalfOpen \<and> ev = EvSuccess \<and> st b' = StateClosed
    \<or> st b \<noteq> StateOpen \<and> ev = EvFailure \<and> st b' = StateOpen \<and> since b' = now"
proof (cases ev)
  case EvAllow
  then show ?thesis
    using assms allow_not_open [of b now] allow_wait [of b now] allow_probe [of b now]
    by (cases "st b = StateOpen"; cases "cool b \<le> time_sub now (since b)") (auto simp: not_le)
next
  case EvSuccess
  then show ?thesis using assms success_st [of b now] by (auto split: if_splits)
next
  case EvFailure
  then show ?thesis
    using assms failure_half [of b now] failure_open [of b now] failure_closed [of b now] failure_opens [of b now]
    by (cases "st b") auto
next
  case (EvConfigure e w c)
  then show ?thesis using assms configure_st by auto
qed

lemma open_step_wait:
  assumes "st b = StateOpen" and "d \<le> cool b" and "time_sub now (since b) < d"
    and "ev_cooldown_ge d ev" and "breaker_step ops now ev b = (ok, b')"
  shows "\<not> ok \<and> st b' = StateOpen \<and> since b' = since b \<and> d \<le> cool b'"
  using assms allow_wait [of b now] success_st [of b now] success_since [of b now] success_cool [of b now]
    failure_open [of b now] failure_cool [of b now] configure_st configure_since configure_cool
  by (cases ev) auto

lemma open_run_wait:
  assumes "st b = StateOpen" and "d \<le> cool b"
    and "\<forall>(now, ev) \<in> set evs. time_sub now (since b) < d \<and> ev_cooldown_ge d ev"
    and "breaker_run ops evs b = (oks, b')"
  shows "True \<notin> set oks \<and> st b' = StateOpen"
  using assms
proof (induction evs arbitrary: b oks b')
  case Nil
  then show ?case by auto
next
  case (Cons e evs)
  obtain now ev where e: "e = (now, ev)" by fastforce
  obtain ok b1 where s: "breaker_step ops now ev b = (ok, b1)" by fastforce
  obtain oks1 b2 where r: "breaker_run ops evs b1 = (oks1, b2)" by fastforce
  from Cons.prems e have b1: "\<not> ok \<and> st b1 = StateOpen \<and> since b1 = since b \<and> d \<le> cool b1"
    by (intro open_step_wait [OF _ _ _ _ s]) auto
  with Cons.prems e r have "True \<notin> set oks1 \<and> st b2 = StateOpen"
    by (intro Cons.IH [of b1]) auto
  with Cons.prems e s r b1 show ?case by auto
qed

lemma probe_then_success:
  assumes "st b = StateOpen" and "cool b \<le> time_sub now (since b)"
  shows "\<exists>b1. op_allow ops b now = (True, b1) \<and> st b1 = StateHalfOpen \<and>
    st (op_success ops b1 now') = StateClosed \<and> st (op_failure ops b1 now') = StateOpen"
  using allow_probe [OF assms] success_st failure_half by fastforce

end

interpretation cb: breaker_machine cb_ops br_state br_lastStateChange br_cooldownPeriod
  by unfold_locales
    (auto simp: cb_ops_def breaker_defs split: CircuitBreakerState.splits if_splits)

section \<open>The error rate\<close>

lemma error_rate_0 [simp]: "error_rate 0 s = 0"
  by (simp add: error_rate_def f64_def fdiv_def)

lemma error_rate_exact:
  assumes "f + s \<le> 2 ^ 53" and "0 < f + s"
  shows "error_rate f s = fl (of_nat f / of_nat (f + s))"
proof -
  have "int f + int s \<le> 2 ^ 53" using assms(1) by simp
  then show ?thesis
    by (simp add: error_rate_def fdiv_def f64_small)
qed

lemma error_rate_le_1: "error_rate f s \<le> 1"
proof (cases "f = 0")
  case True
  then show ?thesis by simp
next
  case False
  then have "0 < f64 (int f)" by (simp add: f64_pos)
  moreover have "f64 (int f) \<le> f64 (int f + int s)" by (rule f64_mono) simp
  ultimately show ?thesis
    unfolding error_rate_def fdiv_def by (intro fl64.rnd_le_1) simp
qed

lemma error_rate_only_failures: "0 < f \<Longrightarrow> error_rate f 0 = 1"
  using f64_pos [of "int f"] by (simp add: error_rate_def fdiv_def)

lemma error_rate_majority:
  assumes "f + s \<le> 2 ^ 52" and "0 < f + s"
  shows "error_rate f s > 1 / 2 \<longleftrightarrow> f > s"
proof -
  have n: "f + s \<le> 2 ^ 53" using assms(1) by simp
  let ?q = "of_nat f / of_nat (f + s) :: rat"
  have pos: "(0::rat) < of_nat (f + s)" using assms(2) by (simp only: of_nat_0_less_iff)
  show ?thesis
  proof (cases "f > s")
    case True
    let ?c = "of_int (2 ^ 52 + 1) * 2 powi (- 53) :: rat"
    have c: "?c = 1 / 2 + 1 / 2 ^ 53" using powi_neg [of 53] by simp
    have "(of_nat (f + s) :: rat) \<le> of_nat (2 ^ 52)" using assms(1) by (simp only: of_nat_le_iff)
    then have "of_nat (f + s) * (1 / 2 ^ 52 :: rat) \<le> 1" by simp
    moreover have "(of_nat (s + 1) :: rat) \<le> of_nat f" using True by (simp only: of_nat_le_iff)
    ultimately have "?c * of_nat (f + s) \<le> of_nat f" unfolding c by (simp add: field_simps)
    then have "?c \<le> ?q" using pos by (simp add: pos_le_divide_eq)
    moreover have "fl ?c = ?c" by (rule fl_exact) simp
    ultimately have "?c \<le> fl ?q" by (intro fl64.rnd_ge_fixed)
    then show ?thesis using True c by (simp add: error_rate_exact [OF n assms(2)])
  next
    case False
    then have "(of_nat f :: rat) \<le> of_nat s" by simp
    then have "?q \<le> 1 / 2" using pos by (simp add: pos_divide_le_eq)
    then have "fl ?q \<le> 1 / 2" by (intro fl64.rnd_le_fixed) simp_all
    then show ?thesis using False by (simp add: error_rate_exact [OF n assms(2)])
  qed
qed

section \<open>The reference breaker: complete history\<close>

definition live :: "duration \<Rightarrow> time \<Rightarrow> time list \<Rightarrow> time list" where
  "live w now ts = filter (\<lambda>t. now - w < t) ts"

definition hist_success :: "CircuitBreaker \<Rightarrow> time \<Rightarrow> CircuitBreaker" where
  "hist_success h now =
     (let h1 = h\<lparr>br_successes := br_successes h @ [now]\<rparr>
      in if br_state h = StateHalfOpen
         then h1\<lparr>br_state := StateClosed, br_failures := [], br_lastStateChange := now\<rparr> else h1)"

definition hist_failure :: "CircuitBreaker \<Rightarrow> time \<Rightarrow> CircuitBreaker" where
  "hist_failure h now =
     (let h1 = h\<lparr>br_failures := br_failures h @ [now]\<rparr>;
          trips = (br_state h = StateHalfOpen \<or>
                   br_state h = StateClosed \<and>
                   error_rate (length (live (br_windowSize h) now (br_failures h1)))
                     (length (live (br_windowSize h) now (br_successes h1))) > br_errorThreshold h)
      in if trips then h1\<lparr>br_state := StateOpen, br_lastStateChange := now\<rparr> else h1)"

definition hist_ops :: "CircuitBreaker breaker_ops" where
  "hist_ops = \<lparr>op_allow = Allow, op_success = hist_success, op_failure = hist_failure, op_configure = Configure\<rparr>"

interpretation hist: breaker_machine hist_ops br_state br_lastStateChange br_cooldownPeriod
  by unfold_locales
    (auto simp: hist_ops_def hist_success_def hist_failure_def Allow_def Configure_def Let_def
      split: CircuitBreakerState.splits if_splits)

fun ev_keeps_window :: "duration \<Rightarrow> breaker_event \<Rightarrow> bool" where
  "ev_keeps_window w (EvConfigure _ w' _) = (w' \<le> 0 \<or> w' = w)"
| "ev_keeps_window w _ = True"

definition sim :: "duration \<Rightarrow> time \<Rightarrow> CircuitBreaker \<Rightarrow> CircuitBreaker \<Rightarrow> bool" where
  "sim w now cb h \<longleftrightarrow> br_windowSize cb = w \<and>
     h\<lparr>br_failures := br_failures cb, br_successes := br_successes cb\<rparr> = cb \<and>
     live w now (br_failures cb) = live w now (br_failures h) \<and>
     live w now (br_successes cb) = live w now (br_successes h)"

lemma live_live: "now \<le> now' \<Longrightarrow> live w now' (live w now ts) = live w now' ts"
  by (auto simp: live_def intro!: filter_cong)

lemma live_snoc: "0 < w \<Longrightarrow> live w now (ts @ [now]) = live w now ts @ [now]"
  by (simp add: live_def)

lemma sim_later: "sim w now cb h \<Longrightarrow> now \<le> now' \<Longrightarrow> sim w now' cb h"
  using live_live [of now now' w "br_failures cb"] live_live [of now now' w "br_failures h"]
    live_live [of now now' w "br_successes cb"] live_live [of now now' w "br_successes h"]
  by (simp add: sim_def)

lemma sim_state: "sim w now cb h \<Longrightarrow> br_state cb = br_state h"
proof -
  assume "sim w now cb h"
  then have "h\<lparr>br_failures := br_failures cb, br_successes := br_successes cb\<rparr> = cb"
    by (simp add: sim_def)
  from arg_cong [OF this, of br_state] show ?thesis by simp
qed

lemma prune_live:
  "prune cb now = cb\<lparr>br_failures := live (br_windowSize cb) now (br_failures cb),
     br_successes := live (br_windowSize cb) now (br_successes cb)\<rparr>"
  by (simp add: prune_def live_def Let_def)

lemma sim_refl: "br_windowSize cb = w \<Longrightarrow> sim w now cb cb"
  by (simp add: sim_def)

lemma sim_step:
  assumes "sim w now cb h" and "0 < w" and "ev_keeps_window w ev"
    and "breaker_step cb_ops now ev cb = (ok, cb')" and "breaker_step hist_ops now ev h = (ok', h')"
  shows "ok = ok' \<and> sim w now cb' h'"
proof -
  obtain stt fs ss lsc thr win cool where cb: "cb = \<lparr>br_state = stt, br_failures = fs, br_successes = ss,
      br_lastStateChange = lsc, br_errorThreshold = thr, br_windowSize = win, br_cooldownPeriod = cool\<rparr>"
    by (cases cb)
  from assms(1) cb obtain hf hs where h: "h = cb\<lparr>br_failures := hf, br_successes := hs\<rparr>"
    and win: "win = w" and lf: "live w now fs = live w now hf" and ls: "live w now ss = live w now hs"
    by (cases h) (auto simp: sim_def)
  show ?thesis
    using assms(2-) lf ls unfolding cb h win
    by (cases ev; cases stt)
      (auto simp: cb_ops_def hist_ops_def Allow_def RecordSuccess_def RecordFailure_def Configure_def
        hist_success_def hist_failure_def prune_live sim_def live_snoc live_live Let_def split: if_splits)
qed

lemma sim_run:
  assumes "sim w t cb h" and "0 < w" and "sorted (t # map fst evs)"
    and "\<forall>(now, ev) \<in> set evs. ev_keeps_window w ev"
  shows "fst (breaker_run cb_ops evs cb) = fst (breaker_run hist_ops evs h) \<and>
    br_state (snd (breaker_run cb_ops evs cb)) = br_state (snd (breaker_run hist_ops evs h))"
  using assms
proof (induction evs arbitrary: t cb h)
  case Nil
  then show ?case by (simp add: sim_state)
next
  case (Cons e evs)
  obtain now ev where e: "e = (now, ev)" by fastforce
  obtain ok cb1 where s: "breaker_step cb_ops now ev cb = (ok, cb1)" by fastforce
  obtain ok' h1 where s': "breaker_step hist_ops now ev h = (ok', h1)" by fastforce
  from Cons.prems e have "sim w now cb h" using sim_later by fastforce
  then have "ok = ok' \<and> sim w now cb1 h1"
    using Cons.prems e by (intro sim_step [OF _ _ _ s s']) auto
  moreover from this Cons.prems e
  have "fst (breaker_run cb_ops evs cb1) = fst (breaker_run hist_ops evs h1) \<and>
    br_state (snd (breaker_run cb_ops evs cb1)) = br_state (snd (breaker_run hist_ops evs h1))"
    by (intro Cons.IH [of now]) auto
  ultimately show ?case by (simp add: e s s' case_prod_beta)
qed

section \<open>Reachable breakers\<close>

inductive cb_reach :: "time \<Rightarrow> CircuitBreaker \<Rightarrow> bool" where
  cb_new: "cb_reach now (NewCircuitBreaker now)"
| cb_step: "cb_reach t cb \<Longrightarrow> t \<le> now \<Longrightarrow> breaker_step cb_ops now ev cb = (ok, cb') \<Longrightarrow> cb_reach now cb'"

definition cb_wf :: "time \<Rightarrow> CircuitBreaker \<Rightarrow> bool" where
  "cb_wf now cb \<longleftrightarrow>
     0 < br_errorThreshold cb \<and> br_errorThreshold cb \<le> 1 \<and> 0 < br_windowSize cb \<and> 0 < br_cooldownPeriod cb \<and>
     sorted (br_failures cb @ [now]) \<and> sorted (br_successes cb @ [now]) \<and> br_lastStateChange cb \<le> now"

lemma sorted_filter_snoc: "sorted (xs @ [now]) \<Longrightarrow> sorted (filter P xs @ [now, now])"
  by (auto simp: sorted_append intro: sorted_filter [where f = id, simplified])

lemma cb_wf_later: "cb_wf t cb \<Longrightarrow> t \<le> now \<Longrightarrow> cb_wf now cb"
  by (fastforce simp: cb_wf_def sorted_append)

lemma cb_wf_prune: "cb_wf now cb \<Longrightarrow> cb_wf now (prune cb now)"
  by (auto simp: cb_wf_def prune_def Let_def sorted_append intro: sorted_filter [where f = id, simplified])

lemma cb_wf_record:
  assumes "cb_wf now cb"
  shows "cb_wf now (cb\<lparr>br_successes := br_successes cb @ [now]\<rparr>)" and "cb_wf now (cb\<lparr>br_failures := br_failures cb @ [now]\<rparr>)"
    and "cb_wf now (cb\<lparr>br_state := st, br_failures := [], br_lastStateChange := now\<rparr>)"
    and "cb_wf now (cb\<lparr>br_state := st, br_lastStateChange := now\<rparr>)"
  using assms by (auto simp: cb_wf_def sorted_append)

lemma cb_wf_success: "cb_wf now cb \<Longrightarrow> cb_wf now (RecordSuccess cb now)"
  using cb_wf_record(1) [OF cb_wf_prune, of now cb]
    cb_wf_record(3) [OF cb_wf_record(1) [OF cb_wf_prune], of now cb StateClosed]
  by (simp add: RecordSuccess_def Let_def)

lemma cb_wf_failure: "cb_wf now cb \<Longrightarrow> cb_wf now (RecordFailure cb now)"
  using cb_wf_record(2) [OF cb_wf_prune, of now cb]
    cb_wf_record(4) [OF cb_wf_record(2) [OF cb_wf_prune], of now cb StateOpen]
  by (simp add: RecordFailure_def Let_def split: CircuitBreakerState.split)

lemma cb_wf_allow: "cb_wf now cb \<Longrightarrow> cb_wf now (snd (Allow cb now))"
  using cb_wf_record(4) [of now cb StateHalfOpen] by (simp add: Allow_def split: CircuitBreakerState.split)

lemma cb_wf_configure: "cb_wf now cb \<Longrightarrow> cb_wf now (Configure cb e w c)"
  by (simp add: cb_wf_def Configure_def Let_def)

lemma cb_wf_step [inv_intros]:
  assumes "cb_wf now cb" and "breaker_step cb_ops now ev cb = (ok, cb')"
  shows "cb_wf now cb'"
  using assms cb_wf_allow [OF assms(1)]
  by (cases ev) (auto simp: cb_ops_def cb_wf_success cb_wf_failure cb_wf_configure)

lemma cb_reach_wf: "cb_reach now cb \<Longrightarrow> cb_wf now cb"
proof (induction rule: cb_reach.induct)
  case (cb_new now)
  show ?case by (simp add: cb_wf_def NewCircuitBreaker_def second_def)
next
  case (cb_step t cb now ev ok cb')
  then show ?case by (blast intro: cb_wf_step cb_wf_later)
qed

text \<open>Time may pass: a call of \<open>Configure\<close> with no valid setting changes nothing.\<close>

lemma cb_reach_later: "cb_reach t cb \<Longrightarrow> t \<le> now \<Longrightarrow> cb_reach now cb"
  by (erule (1) cb_reach.cb_step [where ev = "EvConfigure 0 0 0" and ok = False]) (simp add: cb_ops_def Configure_def)

lemma cb_reach_ops [inv_intros]:
  assumes "cb_reach t cb" and "t \<le> now"
  shows "cb_reach now (Configure cb e w c)" and "cb_reach now (snd (Allow cb now))"
    and "cb_reach now (RecordSuccess cb now)" and "cb_reach now (RecordFailure cb now)"
proof -
  show "cb_reach now (Configure cb e w c)"
    by (rule cb_reach.cb_step [OF assms, of "EvConfigure e w c" False]) (simp add: cb_ops_def)
  show "cb_reach now (snd (Allow cb now))"
    by (rule cb_reach.cb_step [OF assms, of EvAllow "fst (Allow cb now)"]) (simp add: cb_ops_def)
  show "cb_reach now (RecordSuccess cb now)"
    by (rule cb_reach.cb_step [OF assms, of EvSuccess False]) (simp add: cb_ops_def)
  show "cb_reach now (RecordFailure cb now)"
    by (rule cb_reach.cb_step [OF assms, of EvFailure False]) (simp add: cb_ops_def)
qed

section \<open>Properties\<close>

text \<open>
  C1. Refinement. On a clock that does not run backwards, and as long as no reconfiguration
  changes the window size, the breaker that prunes its two lists admits exactly the same
  requests, and is in the same state, as the reference breaker that keeps every outcome
  since the last recovery and counts those inside the window.
\<close>

theorem breaker_refines_history:
  assumes "0 < br_windowSize cb" and "sorted (map fst evs)"
    and "\<forall>(now, ev) \<in> set evs. ev_keeps_window (br_windowSize cb) ev"
  shows "fst (breaker_run cb_ops evs cb) = fst (breaker_run hist_ops evs cb) \<and>
    br_state (snd (breaker_run cb_ops evs cb)) = br_state (snd (breaker_run hist_ops evs cb))"
proof (cases evs)
  case Nil
  then show ?thesis by simp
next
  case (Cons e es)
  with assms show ?thesis
    by (intro sim_run [OF sim_refl, of cb "br_windowSize cb" "fst e"]) auto
qed

theorem breaker_refines_history_witness:
  "fst (breaker_run cb_ops [(1, EvFailure), (2, EvAllow)] (NewCircuitBreaker 0)) =
   fst (breaker_run hist_ops [(1, EvFailure), (2, EvAllow)] (NewCircuitBreaker 0))"
  using breaker_refines_history [of "NewCircuitBreaker 0" "[(1, EvFailure), (2, EvAllow)]"]
  by (simp add: NewCircuitBreaker_def second_def)

text \<open>
  Safety. From the instant a breaker opened, and until its cooldown has passed, no
  sequence of admissions, reported outcomes and reconfigurations (none of which shortens
  the cooldown below \<open>d\<close>) lets a request through, and the breaker stays open.
\<close>

theorem open_breaker_admits_nothing:
  assumes "br_state cb = StateOpen" and "d \<le> br_cooldownPeriod cb" and "in_i64 d" and "0 < d"
    and "\<forall>(now, ev) \<in> set evs. now < br_lastStateChange cb + d \<and> ev_cooldown_ge d ev"
  shows "True \<notin> set (fst (breaker_run cb_ops evs cb)) \<and> br_state (snd (breaker_run cb_ops evs cb)) = StateOpen"
proof -
  have "time_sub now (br_lastStateChange cb) < d" if "now < br_lastStateChange cb + d" for now
    using that time_sub_ge_pos [OF assms(4,3), of now "br_lastStateChange cb"] by linarith
  then show ?thesis
    using assms by (intro cb.open_run_wait [of cb d evs]) auto
qed

theorem open_breaker_admits_nothing_witness:
  "let cb = RecordFailure (NewCircuitBreaker 0) 5;
       evs = [(6, EvAllow), (7, EvSuccess), (30 * second, EvAllow)]
   in True \<notin> set (fst (breaker_run cb_ops evs cb)) \<and> br_state (snd (breaker_run cb_ops evs cb)) = StateOpen"
proof -
  let ?cb = "RecordFailure (NewCircuitBreaker 0) 5"
  have cb: "br_state ?cb = StateOpen" "br_lastStateChange ?cb = 5" "br_cooldownPeriod ?cb = 30 * second"
    by (simp_all add: breaker_defs NewCircuitBreaker_def second_def error_rate_only_failures [of 1, simplified])
  show ?thesis
    unfolding Let_def
    by (rule open_breaker_admits_nothing [where d = "30 * second"])
      (simp_all add: cb, simp_all add: second_def in_i64_def)
qed

text \<open>
  The state diagram. Whatever is done to a breaker, its state changes only from open to
  half-open (by an admission after the cooldown), from half-open to closed (by a success),
  and from closed or half-open to open (by a failure, at that instant).
\<close>

theorem breaker_state_diagram:
  assumes "breaker_step cb_ops now ev cb = (ok, cb')"
  shows "br_state cb' = br_state cb
    \<or> br_state cb = StateOpen \<and> ev = EvAllow \<and> br_state cb' = StateHalfOpen \<and>
        br_cooldownPeriod cb \<le> time_sub now (br_lastStateChange cb)
    \<or> br_state cb = StateHalfOpen \<and> ev = EvSuccess \<and> br_state cb' = StateClosed
    \<or> br_state cb \<noteq> StateOpen \<and> ev = EvFailure \<and> br_state cb' = StateOpen \<and> br_lastStateChange cb' = now"
  using assms by (rule cb.step_edges)

theorem breaker_state_diagram_witness:
  "br_state (snd (breaker_step cb_ops 7 EvFailure (NewCircuitBreaker 0))) = StateOpen"
  using breaker_state_diagram [of 7 EvFailure "NewCircuitBreaker 0" False "RecordFailure (NewCircuitBreaker 0) 7"]
  by (simp add: cb_ops_def breaker_defs NewCircuitBreaker_def second_def error_rate_only_failures [of 1, simplified])

text \<open>
  Tripping. A closed breaker with the default threshold opens on a failure exactly when,
  inside the window and this failure included, failures outnumber successes: the floating
  point division decides the comparison exactly (up to \<open>2 ^ 52\<close> recorded outcomes).
\<close>

theorem default_breaker_trips_on_majority:
  assumes "br_state cb = StateClosed" and "br_errorThreshold cb = DefaultCircuitBreakerErrorThreshold"
    and "length (br_failures cb) + length (br_successes cb) < 2 ^ 52"
  shows "br_state (RecordFailure cb now) = StateOpen \<longleftrightarrow>
    length (live (br_windowSize cb) now (br_successes cb)) \<le> length (live (br_windowSize cb) now (br_failures cb))"
proof -
  let ?f = "length (live (br_windowSize cb) now (br_failures cb))"
  let ?s = "length (live (br_windowSize cb) now (br_successes cb))"
  have "?f \<le> length (br_failures cb)" and "?s \<le> length (br_successes cb)" by (simp_all add: live_def)
  with assms(3) have "Suc ?f + ?s \<le> 2 ^ 52" by linarith
  then have "error_rate (Suc ?f) ?s > 1 / 2 \<longleftrightarrow> Suc ?f > ?s" by (intro error_rate_majority) auto
  moreover have "br_state (RecordFailure cb now) = StateOpen \<longleftrightarrow> error_rate (Suc ?f) ?s > br_errorThreshold cb"
    using assms(1) by (simp add: RecordFailure_def prune_live Let_def)
  ultimately show ?thesis using assms(2) by (simp only: cb_defaults less_Suc_eq_le)
qed

theorem default_breaker_trips_on_majority_witness:
  "br_state (RecordFailure (RecordSuccess (NewCircuitBreaker 0) 1) 2) = StateClosed"
proof -
  have "br_state (RecordFailure (RecordSuccess (NewCircuitBreaker 0) 1) 2) \<noteq> StateOpen"
    by (subst default_breaker_trips_on_majority)
      (simp_all add: NewCircuitBreaker_def RecordSuccess_def prune_def Let_def second_def cb_defaults live_def)
  then show ?thesis
    by (simp add: breaker_defs NewCircuitBreaker_def second_def split: if_splits)
qed

text \<open>
  A threshold of 1 is accepted by \<open>Configure\<close> (and by the admin API), but such a breaker
  never opens from the closed state: the error rate is at most 1 and the comparison is
  strict, so even a provider that fails every request keeps receiving traffic.
\<close>

theorem threshold_one_never_trips:
  assumes "br_state cb = StateClosed"
  shows "br_state (RecordFailure (Configure cb 1 w c) now) = StateClosed"
  using assms error_rate_le_1 [THEN leD] by (simp add: breaker_defs)

theorem threshold_one_never_trips_witness:
  "br_state (RecordFailure (Configure (NewCircuitBreaker 0) 1 second second) 9) = StateClosed"
  by (rule threshold_one_never_trips) (simp add: NewCircuitBreaker_def)



text \<open>
  Invariant. Every breaker reachable from a new one on a monotone clock keeps a threshold
  in \<open>(0, 1]\<close>, a positive window and cooldown, and two chronologically sorted outcome lists
  with no entry, and no state change, in the future.
\<close>

theorem reachable_breaker_wf:
  assumes "cb_reach now cb"
  shows "cb_wf now cb"
  using assms by (rule cb_reach_wf)

theorem reachable_breaker_wf_witness:
  "cb_wf 4 (RecordFailure (NewCircuitBreaker 1) 4)"
proof (rule reachable_breaker_wf)
  show "cb_reach 4 (RecordFailure (NewCircuitBreaker 1) 4)"
    by (rule cb_reach.cb_step [OF cb_reach.cb_new, of 1 4 EvFailure False]) (simp_all add: cb_ops_def)
qed

end
