(* ===== verification/Routing_Catalog.thy ===== *)
theory Routing_Catalog
  imports Domain_Models
begin

text \<open>
  The in-memory routing catalog of \<open>internal/proxy/catalog.go\<close>: the snapshot that
  \<open>buildRoutingSnapshot\<close> computes from the tables, its lookups, and the reload protocol
  (a one-slot notification channel and a worker). The loops that fill the maps are proved
  equal to list comprehensions over the tables, from which the routing guarantees follow;
  the reload protocol is a step relation whose invariant says that a quiescent catalog
  shows the current tables.
\<close>

section \<open>The snapshot\<close>

record RouteCandidate =
  rc_Provider :: Provider
  rc_ModelID :: string
  rc_Weight :: int
  rc_Priority :: int

record routingSnapshot =
  sn_aliases :: "string \<rightharpoonup> RouteCandidate list"
  sn_directModels :: "string \<rightharpoonup> RouteCandidate list"
  sn_endpoints :: "string \<rightharpoonup> string set"
  sn_publicModelIDs :: "string list"
  sn_providerModels :: "string \<rightharpoonup> (string \<rightharpoonup> ProviderModel)"
  sn_providers :: "string \<rightharpoonup> Provider"

text \<open>Reading a missing key of a map of slices gives the nil slice.\<close>

definition slice_at :: "('k \<rightharpoonup> 'a list) \<Rightarrow> 'k \<Rightarrow> 'a list" where
  "slice_at m k = (case m k of None \<Rightarrow> [] | Some xs \<Rightarrow> xs)"

definition add_provider :: "Provider \<Rightarrow> (string \<rightharpoonup> Provider) \<Rightarrow> (string \<rightharpoonup> Provider)" where
  "add_provider p providers = providers(p_ID p \<mapsto> p)"

definition add_endpoint :: "ProviderEndpoint \<Rightarrow> (string \<rightharpoonup> string set) \<Rightarrow> (string \<rightharpoonup> string set)" where
  "add_endpoint ep endpoints =
     (if \<not> e_IsSupported ep \<or> \<not> e_IsEnabled ep then endpoints
      else endpoints(e_ProviderID ep \<mapsto>
             insert (e_Path ep) (case endpoints (e_ProviderID ep) of None \<Rightarrow> {} | Some s \<Rightarrow> s)))"

record model_tables =
  mt_providerModels :: "string \<rightharpoonup> (string \<rightharpoonup> ProviderModel)"
  mt_directModels :: "string \<rightharpoonup> RouteCandidate list"
  mt_seen :: "string list"

definition add_model :: "(string \<rightharpoonup> Provider) \<Rightarrow> ProviderModel \<Rightarrow> model_tables \<Rightarrow> model_tables" where
  "add_model providers m t =
     (let byModel = (case mt_providerModels t (m_ProviderID m) of None \<Rightarrow> Map.empty | Some b \<Rightarrow> b);
          t1 = t\<lparr>mt_providerModels := (mt_providerModels t)(m_ProviderID m \<mapsto> byModel(m_ModelID m \<mapsto> m))\<rparr>
      in if \<not> m_IsAvailable m then t1
         else (let t2 = t1\<lparr>mt_seen := List.insert (m_ModelID m) (mt_seen t1)\<rparr>
               in case providers (m_ProviderID m) of
                    None \<Rightarrow> t2
                  | Some p \<Rightarrow>
                      (if \<not> p_IsHealthy p then t2
                       else t2\<lparr>mt_directModels := (mt_directModels t2)(m_ModelID m \<mapsto>
                              slice_at (mt_directModels t2) (m_ModelID m) @
                              [\<lparr>rc_Provider = p, rc_ModelID = m_ModelID m, rc_Weight = 1, rc_Priority = 0\<rparr>])\<rparr>)))"

definition add_alias ::
  "(string \<rightharpoonup> Provider) \<Rightarrow> (string \<rightharpoonup> (string \<rightharpoonup> ProviderModel)) \<Rightarrow> ModelAlias \<Rightarrow>
   (string \<rightharpoonup> RouteCandidate list) \<times> string list \<Rightarrow> (string \<rightharpoonup> RouteCandidate list) \<times> string list" where
  "add_alias providers providerModels a acc =
     (case acc of (aliases, seen) \<Rightarrow>
      (if \<not> a_IsEnabled a then (aliases, seen)
       else case providers (a_ProviderID a) of
              None \<Rightarrow> (aliases, seen)
            | Some p \<Rightarrow>
                (if \<not> p_IsHealthy p then (aliases, seen)
                 else if (case providerModels (a_ProviderID a) of None \<Rightarrow> False
                          | Some byModel \<Rightarrow> (case byModel (a_ModelID a) of None \<Rightarrow> False
                                             | Some pm \<Rightarrow> \<not> m_IsAvailable pm))
                      then (aliases, seen)
                 else (aliases(a_Alias a \<mapsto> slice_at aliases (a_Alias a) @
                         [\<lparr>rc_Provider = p, rc_ModelID = a_ModelID a, rc_Weight = a_Weight a, rc_Priority = a_Priority a\<rparr>]),
                       List.insert (a_Alias a) seen))))"

definition buildRoutingSnapshot :: "RoutingData \<Rightarrow> routingSnapshot" where
  "buildRoutingSnapshot data =
     (let providers = fold add_provider (rd_Providers data) Map.empty;
          endpoints = fold add_endpoint (rd_Endpoints data) Map.empty;
          mt = fold (add_model providers) (rd_Models data)
                 \<lparr>mt_providerModels = Map.empty, mt_directModels = Map.empty, mt_seen = []\<rparr>;
          (aliases, seen) = fold (add_alias providers (mt_providerModels mt)) (rd_Aliases data)
                              (Map.empty, mt_seen mt)
      in \<lparr>sn_aliases = aliases, sn_directModels = mt_directModels mt, sn_endpoints = endpoints,
          sn_publicModelIDs = sort seen, sn_providerModels = mt_providerModels mt, sn_providers = providers\<rparr>)"

section \<open>Lookups\<close>

definition AliasCandidates :: "routingSnapshot \<Rightarrow> string \<Rightarrow> RouteCandidate list option" where
  "AliasCandidates s alias =
     (case sn_aliases s alias of None \<Rightarrow> None | Some cands \<Rightarrow> if length cands = 0 then None else Some cands)"

definition DirectCandidates :: "routingSnapshot \<Rightarrow> string \<Rightarrow> RouteCandidate list" where
  "DirectCandidates s modelID = slice_at (sn_directModels s) modelID"

definition normalizeEndpointPath :: "string \<Rightarrow> string" where
  "normalizeEndpointPath path = (if path = '''' then path else if hd path \<noteq> CHR ''/'' then CHR ''/'' # path else path)"

definition HasEnabledEndpoint :: "routingSnapshot \<Rightarrow> string \<Rightarrow> string \<Rightarrow> bool" where
  "HasEnabledEndpoint s providerID path =
     (case sn_endpoints s providerID of None \<Rightarrow> False | Some paths \<Rightarrow> normalizeEndpointPath path \<in> paths)"

definition PublicModelIDs :: "routingSnapshot \<Rightarrow> string list" where
  "PublicModelIDs s = sn_publicModelIDs s"

definition lookup_ProviderModel :: "routingSnapshot \<Rightarrow> string \<Rightarrow> string \<Rightarrow> ProviderModel option" where
  "lookup_ProviderModel s providerID modelID =
     (case sn_providerModels s providerID of None \<Rightarrow> None | Some byModel \<Rightarrow> byModel modelID)"

text \<open>\<open>ProviderModelForModelID\<close> loads the snapshot once more inside \<open>ProviderModel\<close> (\<open>s'\<close>).\<close>

definition ProviderModelForModelID :: "routingSnapshot \<Rightarrow> routingSnapshot \<Rightarrow> string \<Rightarrow> ProviderModel option" where
  "ProviderModelForModelID s s' modelID =
     (let cands = slice_at (sn_directModels s) modelID;
          cands = (if length cands = 0 then slice_at (sn_aliases s) modelID else cands)
      in case cands of [] \<Rightarrow> None
         | c # _ \<Rightarrow> lookup_ProviderModel s' (p_ID (rc_Provider c)) (rc_ModelID c))"

definition ProviderByID :: "routingSnapshot \<Rightarrow> string \<Rightarrow> Provider option" where
  "ProviderByID s providerID = sn_providers s providerID"

section \<open>The specification: comprehensions over the tables\<close>

definition find_provider :: "RoutingData \<Rightarrow> string \<Rightarrow> Provider option" where
  "find_provider d pid = find (\<lambda>p. p_ID p = pid) (rev (rd_Providers d))"

definition find_model :: "RoutingData \<Rightarrow> string \<Rightarrow> string \<Rightarrow> ProviderModel option" where
  "find_model d pid mid = find (\<lambda>m. m_ProviderID m = pid \<and> m_ModelID m = mid) (rev (rd_Models d))"

definition healthy_provider :: "(string \<rightharpoonup> Provider) \<Rightarrow> string \<Rightarrow> Provider option" where
  "healthy_provider providers pid =
     (case providers pid of None \<Rightarrow> None | Some p \<Rightarrow> if p_IsHealthy p then Some p else None)"

definition direct_cand :: "(string \<rightharpoonup> Provider) \<Rightarrow> ProviderModel \<Rightarrow> RouteCandidate option" where
  "direct_cand providers m =
     (if m_IsAvailable m
      then map_option (\<lambda>p. \<lparr>rc_Provider = p, rc_ModelID = m_ModelID m, rc_Weight = 1, rc_Priority = 0\<rparr>)
             (healthy_provider providers (m_ProviderID m))
      else None)"

definition alias_cand :: "(string \<rightharpoonup> Provider) \<Rightarrow> (string \<Rightarrow> string \<Rightarrow> ProviderModel option) \<Rightarrow> ModelAlias \<Rightarrow> RouteCandidate option" where
  "alias_cand providers pms a =
     (if a_IsEnabled a \<and> (\<forall>pm. pms (a_ProviderID a) (a_ModelID a) = Some pm \<longrightarrow> m_IsAvailable pm)
      then map_option (\<lambda>p. \<lparr>rc_Provider = p, rc_ModelID = a_ModelID a, rc_Weight = a_Weight a, rc_Priority = a_Priority a\<rparr>)
             (healthy_provider providers (a_ProviderID a))
      else None)"

definition spec_direct :: "RoutingData \<Rightarrow> string \<Rightarrow> RouteCandidate list" where
  "spec_direct d mid =
     List.map_filter (\<lambda>m. if m_ModelID m = mid then direct_cand (find_provider d) m else None) (rd_Models d)"

definition spec_alias :: "RoutingData \<Rightarrow> string \<Rightarrow> RouteCandidate list" where
  "spec_alias d al =
     List.map_filter (\<lambda>a. if a_Alias a = al then alias_cand (find_provider d) (find_model d) a else None) (rd_Aliases d)"

section \<open>The loops meet the specification\<close>

lemma map_filter_snoc:
  "List.map_filter f (xs @ [x]) = List.map_filter f xs @ (case f x of None \<Rightarrow> [] | Some y \<Rightarrow> [y])"
  by (induction xs) (auto simp: List.map_filter_simps split: option.splits)

lemma set_map_filter': "set (List.map_filter f xs) = {y. \<exists>x \<in> set xs. f x = Some y}"
  by (induction xs) (auto simp: List.map_filter_simps split: option.splits)

lemma map_filter_eq_Nil: "List.map_filter f xs = [] \<longleftrightarrow> (\<forall>x \<in> set xs. f x = None)"
  by (induction xs) (auto simp: List.map_filter_simps split: option.splits)

lemma build_providers: "fold add_provider ps Map.empty = (\<lambda>pid. find (\<lambda>p. p_ID p = pid) (rev ps))"
  by (induction ps rule: rev_induct) (auto simp: add_provider_def fun_eq_iff)

lemma build_endpoints:
  "(case fold add_endpoint eps Map.empty pid of None \<Rightarrow> {} | Some s \<Rightarrow> s) =
   {e_Path e | e. e \<in> set eps \<and> e_ProviderID e = pid \<and> e_IsSupported e \<and> e_IsEnabled e}"
  by (induction eps rule: rev_induct) (auto simp: add_endpoint_def split: option.splits)

definition model_loop :: "(string \<rightharpoonup> Provider) \<Rightarrow> ProviderModel list \<Rightarrow> model_tables" where
  "model_loop providers ms =
     fold (add_model providers) ms \<lparr>mt_providerModels = Map.empty, mt_directModels = Map.empty, mt_seen = []\<rparr>"

lemma model_loop_snoc: "model_loop P (ms @ [m]) = add_model P m (model_loop P ms)"
  by (simp add: model_loop_def)

lemma add_model_fields:
  "mt_providerModels (add_model P m t) =
     (mt_providerModels t)(m_ProviderID m \<mapsto>
        (case mt_providerModels t (m_ProviderID m) of None \<Rightarrow> Map.empty | Some b \<Rightarrow> b)(m_ModelID m \<mapsto> m))"
  "mt_seen (add_model P m t) = (if m_IsAvailable m then List.insert (m_ModelID m) (mt_seen t) else mt_seen t)"
  "mt_directModels (add_model P m t) =
     (case direct_cand P m of None \<Rightarrow> mt_directModels t
      | Some c \<Rightarrow> (mt_directModels t)(m_ModelID m \<mapsto> slice_at (mt_directModels t) (m_ModelID m) @ [c]))"
  by (simp_all add: add_model_def Let_def direct_cand_def healthy_provider_def split: option.splits)

lemma model_loop_providerModels:
  "(case mt_providerModels (model_loop P ms) pid of None \<Rightarrow> None | Some b \<Rightarrow> b mid) =
   find (\<lambda>m. m_ProviderID m = pid \<and> m_ModelID m = mid) (rev ms)"
proof (induction ms rule: rev_induct)
  case Nil
  then show ?case by (simp add: model_loop_def)
next
  case (snoc m ms)
  then show ?case
    by (cases "m_ProviderID m = pid"; cases "mt_providerModels (model_loop P ms) pid")
      (auto simp: model_loop_snoc add_model_fields split: option.splits)
qed

lemma slice_at_append:
  "slice_at (case c of None \<Rightarrow> f | Some y \<Rightarrow> f(k \<mapsto> slice_at f k @ [y])) k' =
   slice_at f k' @ (case (if k = k' then c else None) of None \<Rightarrow> [] | Some y \<Rightarrow> [y])"
  by (simp add: slice_at_def split: option.splits)

lemma model_loop_direct:
  "slice_at (mt_directModels (model_loop P ms)) mid =
   List.map_filter (\<lambda>m. if m_ModelID m = mid then direct_cand P m else None) ms"
proof (induction ms rule: rev_induct)
  case Nil
  then show ?case by (simp add: model_loop_def slice_at_def List.map_filter_simps)
next
  case (snoc m ms)
  then show ?case
    by (simp only: model_loop_snoc add_model_fields map_filter_snoc slice_at_append)
qed

lemma model_loop_seen:
  "distinct (mt_seen (model_loop P ms)) \<and>
   set (mt_seen (model_loop P ms)) = m_ModelID ` {m \<in> set ms. m_IsAvailable m}"
proof (induction ms rule: rev_induct)
  case Nil
  then show ?case by (simp add: model_loop_def)
next
  case (snoc m ms)
  then show ?case by (auto simp: model_loop_snoc add_model_fields)
qed

definition alias_loop where
  "alias_loop P PM seen as = fold (add_alias P PM) as (Map.empty, seen)"

lemma alias_loop_snoc: "alias_loop P PM seen (as @ [a]) = add_alias P PM a (alias_loop P PM seen as)"
  by (simp add: alias_loop_def)

lemma add_alias_cand:
  "fst (add_alias P PM a (al, seen)) =
     (case alias_cand P (\<lambda>pid mid. case PM pid of None \<Rightarrow> None | Some b \<Rightarrow> b mid) a of None \<Rightarrow> al
      | Some c \<Rightarrow> al(a_Alias a \<mapsto> slice_at al (a_Alias a) @ [c]))"
  "snd (add_alias P PM a (al, seen)) =
     (if alias_cand P (\<lambda>pid mid. case PM pid of None \<Rightarrow> None | Some b \<Rightarrow> b mid) a = None then seen
      else List.insert (a_Alias a) seen)"
  by (auto simp: add_alias_def alias_cand_def healthy_provider_def split: option.splits)

lemma alias_loop_spec:
  assumes "distinct seen"
  shows "slice_at (fst (alias_loop P PM seen as)) al =
      List.map_filter (\<lambda>a. if a_Alias a = al
        then alias_cand P (\<lambda>pid mid. case PM pid of None \<Rightarrow> None | Some b \<Rightarrow> b mid) a else None) as"
    and "distinct (snd (alias_loop P PM seen as)) \<and> set (snd (alias_loop P PM seen as)) =
      set seen \<union> {al. slice_at (fst (alias_loop P PM seen as)) al \<noteq> []}"
proof (induction as rule: rev_induct)
  case Nil
  { case 1 then show ?case by (simp add: alias_loop_def slice_at_def List.map_filter_simps) }
  { case 2 then show ?case using assms by (simp add: alias_loop_def slice_at_def) }
next
  case (snoc a as)
  obtain f s where fs: "alias_loop P PM seen as = (f, s)" by fastforce
  define c where "c = alias_cand P (\<lambda>pid mid. case PM pid of None \<Rightarrow> None | Some b \<Rightarrow> b mid) a"
  { case 1
    then show ?case using snoc(1)
      by (simp only: alias_loop_snoc fs add_alias_cand map_filter_snoc slice_at_append fst_conv) }
  { case 2
    have sl: "slice_at (fst (alias_loop P PM seen (as @ [a]))) al = slice_at f al @
        (case (if a_Alias a = al then c else None) of None \<Rightarrow> [] | Some y \<Rightarrow> [y])" for al
      by (simp only: alias_loop_snoc fs add_alias_cand slice_at_append c_def)
    have sn: "snd (alias_loop P PM seen (as @ [a])) = (if c = None then s else List.insert (a_Alias a) s)"
      by (simp only: alias_loop_snoc fs add_alias_cand c_def)
    show ?case using snoc(2) unfolding sl sn fs by (cases c) auto }
qed

lemma build_fields:
  fixes d :: RoutingData
  defines "M \<equiv> model_loop (find_provider d) (rd_Models d)"
  shows "sn_providers (buildRoutingSnapshot d) = find_provider d"
    and "sn_providerModels (buildRoutingSnapshot d) = mt_providerModels M"
    and "sn_directModels (buildRoutingSnapshot d) = mt_directModels M"
    and "sn_endpoints (buildRoutingSnapshot d) = fold add_endpoint (rd_Endpoints d) Map.empty"
    and "sn_aliases (buildRoutingSnapshot d) = fst (alias_loop (find_provider d) (mt_providerModels M) (mt_seen M) (rd_Aliases d))"
    and "sn_publicModelIDs (buildRoutingSnapshot d) =
      sort (snd (alias_loop (find_provider d) (mt_providerModels M) (mt_seen M) (rd_Aliases d)))"
  by (simp_all add: buildRoutingSnapshot_def Let_def M_def model_loop_def alias_loop_def
      build_providers find_provider_def [abs_def] case_prod_beta)

lemma lookup_ProviderModel_build: "lookup_ProviderModel (buildRoutingSnapshot d) pid mid = find_model d pid mid"
  by (simp add: lookup_ProviderModel_def build_fields find_model_def model_loop_providerModels)

lemma ProviderByID_build: "ProviderByID (buildRoutingSnapshot d) pid = find_provider d pid"
  by (simp add: ProviderByID_def build_fields)

lemma DirectCandidates_build: "DirectCandidates (buildRoutingSnapshot d) mid = spec_direct d mid"
  by (simp add: DirectCandidates_def build_fields spec_direct_def model_loop_direct)

lemma alias_slice_build: "slice_at (sn_aliases (buildRoutingSnapshot d)) al = spec_alias d al"
proof -
  have "(\<lambda>pid mid. case mt_providerModels (model_loop (find_provider d) (rd_Models d)) pid of None \<Rightarrow> None | Some b \<Rightarrow> b mid) =
    find_model d"
    by (intro ext) (simp only: model_loop_providerModels find_model_def)
  then show ?thesis
    by (simp only: build_fields spec_alias_def alias_loop_spec(1) [OF conjunct1 [OF model_loop_seen]])
qed

lemma AliasCandidates_slice:
  "AliasCandidates s al = (if slice_at (sn_aliases s) al = [] then None else Some (slice_at (sn_aliases s) al))"
  by (simp add: AliasCandidates_def slice_at_def split: option.splits)

lemma AliasCandidates_build:
  "AliasCandidates (buildRoutingSnapshot d) al = (if spec_alias d al = [] then None else Some (spec_alias d al))"
  by (simp add: AliasCandidates_slice alias_slice_build)

lemma HasEnabledEndpoint_build:
  "HasEnabledEndpoint (buildRoutingSnapshot d) pid path \<longleftrightarrow>
   (\<exists>e \<in> set (rd_Endpoints d). e_ProviderID e = pid \<and> e_Path e = normalizeEndpointPath path \<and> e_IsSupported e \<and> e_IsEnabled e)"
proof -
  have "HasEnabledEndpoint (buildRoutingSnapshot d) pid path \<longleftrightarrow>
    normalizeEndpointPath path \<in> (case fold add_endpoint (rd_Endpoints d) Map.empty pid of None \<Rightarrow> {} | Some s \<Rightarrow> s)"
    by (simp add: HasEnabledEndpoint_def build_fields split: option.splits)
  then show ?thesis unfolding build_endpoints by auto
qed

lemma PublicModelIDs_build:
  "sorted (PublicModelIDs (buildRoutingSnapshot d))" "distinct (PublicModelIDs (buildRoutingSnapshot d))"
  "set (PublicModelIDs (buildRoutingSnapshot d)) =
     m_ModelID ` {m \<in> set (rd_Models d). m_IsAvailable m} \<union> {al. spec_alias d al \<noteq> []}"
proof -
  let ?M = "model_loop (find_provider d) (rd_Models d)"
  have d: "distinct (mt_seen ?M)" by (simp add: model_loop_seen)
  note * = alias_loop_spec(2) [OF d, of "find_provider d" "mt_providerModels ?M" "rd_Aliases d"]
  show "sorted (PublicModelIDs (buildRoutingSnapshot d))"
    by (simp add: PublicModelIDs_def build_fields)
  show "distinct (PublicModelIDs (buildRoutingSnapshot d))"
    using * by (simp add: PublicModelIDs_def build_fields)
  show "set (PublicModelIDs (buildRoutingSnapshot d)) =
     m_ModelID ` {m \<in> set (rd_Models d). m_IsAvailable m} \<union> {al. spec_alias d al \<noteq> []}"
    using * by (simp add: PublicModelIDs_def build_fields model_loop_seen alias_slice_build [symmetric])
qed

lemma snapshot_candidate_provider:
  assumes "c \<in> set (DirectCandidates (buildRoutingSnapshot d) name) \<or>
    (\<exists>cs. AliasCandidates (buildRoutingSnapshot d) name = Some cs \<and> c \<in> set cs)"
  shows "find_provider d (p_ID (rc_Provider c)) = Some (rc_Provider c) \<and> p_IsHealthy (rc_Provider c)"
proof -
  have "\<exists>pid. healthy_provider (find_provider d) pid = Some (rc_Provider c)"
    using assms by (auto simp: AliasCandidates_build DirectCandidates_build spec_direct_def spec_alias_def
        set_map_filter' direct_cand_def alias_cand_def split: if_splits)
  then obtain pid where f: "find_provider d pid = Some (rc_Provider c)" and h: "p_IsHealthy (rc_Provider c)"
    by (auto simp: healthy_provider_def split: option.splits if_splits)
  from f have "p_ID (rc_Provider c) = pid"
    by (auto simp: find_provider_def find_Some_iff)
  with f h show ?thesis by simp
qed

section \<open>The reload protocol\<close>

text \<open>
  \<open>reloadCh\<close> is a channel with one slot. \<open>LoadRoutingData\<close> reads the four tables one after
  the other, without a transaction, so a write can fall between two of the reads.
\<close>

record RoutingCatalog =
  cat_snap :: routingSnapshot
  cat_reloadCh :: nat

definition NewRoutingCatalog :: RoutingCatalog where
  "NewRoutingCatalog = \<lparr>cat_snap = \<lparr>sn_aliases = Map.empty, sn_directModels = Map.empty, sn_endpoints = Map.empty,
     sn_publicModelIDs = [], sn_providerModels = Map.empty, sn_providers = Map.empty\<rparr>, cat_reloadCh = 0\<rparr>"

definition NewRoutingCatalogFromData :: "RoutingData \<Rightarrow> RoutingCatalog" where
  "NewRoutingCatalogFromData data = \<lparr>cat_snap = buildRoutingSnapshot data, cat_reloadCh = 0\<rparr>"

definition ReloadAsync :: "RoutingCatalog \<Rightarrow> RoutingCatalog" where
  "ReloadAsync c = (if cat_reloadCh c < 1 then c\<lparr>cat_reloadCh := Suc (cat_reloadCh c)\<rparr> else c)"

definition Reload :: "RoutingCatalog \<Rightarrow> string + RoutingData \<Rightarrow> string option \<times> RoutingCatalog" where
  "Reload c res = (case res of Inl err \<Rightarrow> (Some err, c) | Inr data \<Rightarrow> (None, c\<lparr>cat_snap := buildRoutingSnapshot data\<rparr>))"

datatype load_phase =
    Waiting
  | LoadProviders
  | LoadModels "Provider list"
  | LoadAliases "Provider list" "ProviderModel list"
  | LoadEndpoints "Provider list" "ProviderModel list" "ModelAlias list"
  | Stopped

record catalog_sys =
  sys_db :: RoutingData
  sys_writers :: nat  \<comment> \<open>writers that have changed the tables and not yet called \<open>ReloadAsync\<close>\<close>
  sys_cat :: RoutingCatalog
  sys_phase :: load_phase  \<comment> \<open>where the worker goroutine of \<open>Start\<close> is\<close>
  sys_failed :: bool  \<comment> \<open>the last reload failed\<close>

inductive catalog_step :: "catalog_sys \<Rightarrow> catalog_sys \<Rightarrow> bool" where
  db_write: "catalog_step s (s\<lparr>sys_db := d, sys_writers := Suc (sys_writers s)\<rparr>)"
| notify: "sys_writers s = Suc n \<Longrightarrow>
    catalog_step s (s\<lparr>sys_writers := n, sys_cat := ReloadAsync (sys_cat s)\<rparr>)"
| receive: "sys_phase s = Waiting \<Longrightarrow> cat_reloadCh (sys_cat s) = Suc n \<Longrightarrow>
    catalog_step s (s\<lparr>sys_phase := LoadProviders, sys_cat := (sys_cat s)\<lparr>cat_reloadCh := n\<rparr>\<rparr>)"
| read_providers: "sys_phase s = LoadProviders \<Longrightarrow>
    catalog_step s (s\<lparr>sys_phase := LoadModels (rd_Providers (sys_db s))\<rparr>)"
| read_models: "sys_phase s = LoadModels ps \<Longrightarrow>
    catalog_step s (s\<lparr>sys_phase := LoadAliases ps (rd_Models (sys_db s))\<rparr>)"
| read_aliases: "sys_phase s = LoadAliases ps ms \<Longrightarrow>
    catalog_step s (s\<lparr>sys_phase := LoadEndpoints ps ms (rd_Aliases (sys_db s))\<rparr>)"
| read_endpoints: "sys_phase s = LoadEndpoints ps ms as \<Longrightarrow>
    data = \<lparr>rd_Providers = ps, rd_Models = ms, rd_Aliases = as, rd_Endpoints = rd_Endpoints (sys_db s)\<rparr> \<Longrightarrow>
    catalog_step s (s\<lparr>sys_phase := Waiting, sys_cat := snd (Reload (sys_cat s) (Inr data)), sys_failed := False\<rparr>)"
| shutdown: "sys_phase s = Waiting \<Longrightarrow> catalog_step s (s\<lparr>sys_phase := Stopped\<rparr>)"
| read_fails: "sys_phase s \<noteq> Waiting \<Longrightarrow> sys_phase s \<noteq> Stopped \<Longrightarrow>
    catalog_step s (s\<lparr>sys_phase := Waiting, sys_cat := snd (Reload (sys_cat s) (Inl err)), sys_failed := True\<rparr>)"

inductive catalog_reach :: "catalog_sys \<Rightarrow> bool" where
  boot: "catalog_reach \<lparr>sys_db = d, sys_writers = 0, sys_cat = snd (Reload NewRoutingCatalog (Inr d)),
    sys_phase = Waiting, sys_failed = False\<rparr>"
| step: "catalog_reach s \<Longrightarrow> catalog_step s t \<Longrightarrow> catalog_reach t"

fun phase_ok :: "load_phase \<Rightarrow> catalog_sys \<Rightarrow> bool" where
  "phase_ok Waiting s = (sys_failed s \<or> cat_snap (sys_cat s) = buildRoutingSnapshot (sys_db s))"
| "phase_ok LoadProviders s = True"
| "phase_ok Stopped s = True"
| "phase_ok (LoadModels ps) s = (ps = rd_Providers (sys_db s))"
| "phase_ok (LoadAliases ps ms) s = (ps = rd_Providers (sys_db s) \<and> ms = rd_Models (sys_db s))"
| "phase_ok (LoadEndpoints ps ms as) s =
     (ps = rd_Providers (sys_db s) \<and> ms = rd_Models (sys_db s) \<and> as = rd_Aliases (sys_db s))"

definition catalog_inv :: "catalog_sys \<Rightarrow> bool" where
  "catalog_inv s \<longleftrightarrow> (sys_writers s = 0 \<and> cat_reloadCh (sys_cat s) = 0 \<longrightarrow> phase_ok (sys_phase s) s) \<and>
     cat_reloadCh (sys_cat s) \<le> 1"

text \<open>A small set of tables, on which the witnesses evaluate.\<close>

definition sample_data :: RoutingData where
  "sample_data =
     (let p = \<lparr>p_ID = ''p1'', p_Name = ''gpu'', p_BaseURL = ''http://a'', p_APIKey = '''', p_IsHealthy = True,
               p_HealthCheckedAt = None, p_CreatedAt = 0, p_UpdatedAt = 0, p_CBEnabled = True,
               p_CBErrorThreshold = 1 / 2, p_CBWindowSeconds = 60, p_CBCooldownSeconds = 30\<rparr>;
          m = \<lparr>m_ID = ''m1'', m_ProviderID = ''p1'', m_ModelID = ''llama'', m_CreatedAt = 0, m_IsAvailable = True,
               m_CostPerMillionInput = None, m_CostPerMillionOutput = None, m_CostPerMillionCacheRead = None,
               m_CostPerMillionCacheWrite = None, m_MaxContext = None\<rparr>;
          a = \<lparr>a_ID = ''a1'', a_Alias = ''gpt'', a_ProviderID = ''p1'', a_ModelID = ''llama'', a_Weight = 3,
               a_Priority = 7, a_IsEnabled = True, a_CreatedAt = 0, a_UpdatedAt = 0\<rparr>;
          e = \<lparr>e_ID = ''e1'', e_ProviderID = ''p1'', e_Path = ''/v1/chat/completions'', e_Method = ''POST'',
               e_IsSupported = True, e_IsEnabled = True, e_CreatedAt = 0\<rparr>
      in \<lparr>rd_Providers = [p], rd_Models = [m], rd_Aliases = [a], rd_Endpoints = [e]\<rparr>)"

lemma RoutingData_eta [simp]:
  "\<lparr>rd_Providers = rd_Providers d, rd_Models = rd_Models d, rd_Aliases = rd_Aliases d, rd_Endpoints = rd_Endpoints d\<rparr> = d"
  by simp

lemma catalog_inv_step [inv_intros]: "catalog_step s t \<Longrightarrow> catalog_inv s \<Longrightarrow> catalog_inv t"
  by (induction rule: catalog_step.induct) (auto simp: catalog_inv_def ReloadAsync_def Reload_def)

lemma catalog_reach_inv: "catalog_reach s \<Longrightarrow> catalog_inv s"
  by (induction rule: catalog_reach.induct)
    (simp add: catalog_inv_def Reload_def NewRoutingCatalog_def, blast intro: catalog_inv_step)

section \<open>Properties\<close>

text \<open>
  C10. Eventual freshness. In every reachable state in which no writer still has to notify, the
  channel is empty and the worker waits, the snapshot is the one of the current tables
  (unless the last reload failed): notifications coalesce in the one-slot channel, and a
  reload that saw a half-done change is always followed by another one.
\<close>

theorem quiescent_catalog_is_current:
  assumes "catalog_reach s" and "sys_writers s = 0" and "cat_reloadCh (sys_cat s) = 0"
    and "sys_phase s = Waiting" and "\<not> sys_failed s"
  shows "cat_snap (sys_cat s) = buildRoutingSnapshot (sys_db s)"
  using catalog_reach_inv [OF assms(1)] assms(2-) by (simp add: catalog_inv_def)

theorem quiescent_catalog_is_current_witness:
  "cat_snap (snd (Reload NewRoutingCatalog (Inr sample_data))) = buildRoutingSnapshot sample_data"
  using quiescent_catalog_is_current [OF catalog_reach.boot, of sample_data]
  by (simp add: Reload_def NewRoutingCatalog_def)

text \<open>
  The candidates of a model name. Looking a name up in the snapshot gives exactly the
  comprehension over the tables, in table order: for an alias, one candidate per enabled
  alias row whose provider is registered and healthy and whose model is not marked
  unavailable; for a direct model, one candidate of weight 1 and priority 0 per available
  model row with a registered healthy provider.
\<close>

theorem snapshot_candidates:
  "AliasCandidates (buildRoutingSnapshot d) name = (if spec_alias d name = [] then None else Some (spec_alias d name)) \<and>
   DirectCandidates (buildRoutingSnapshot d) name = spec_direct d name"
  by (simp add: AliasCandidates_build DirectCandidates_build)

text \<open>
  Only healthy providers are candidates: every candidate the snapshot returns for a name
  carries the registered record of its provider, and that provider is healthy.
\<close>

theorem candidates_are_healthy:
  assumes "c \<in> set (DirectCandidates (buildRoutingSnapshot d) name) \<or>
    (\<exists>cs. AliasCandidates (buildRoutingSnapshot d) name = Some cs \<and> c \<in> set cs)"
  shows "ProviderByID (buildRoutingSnapshot d) (p_ID (rc_Provider c)) = Some (rc_Provider c) \<and> p_IsHealthy (rc_Provider c)"
  using snapshot_candidate_provider [OF assms] by (simp add: ProviderByID_build)

theorem candidates_are_healthy_witness:
  "p_IsHealthy (rc_Provider (hd (DirectCandidates (buildRoutingSnapshot sample_data) ''llama'')))"
proof -
  have "DirectCandidates (buildRoutingSnapshot sample_data) ''llama'' \<noteq> []"
    by (simp add: DirectCandidates_build spec_direct_def sample_data_def Let_def List.map_filter_simps
        direct_cand_def healthy_provider_def find_provider_def)
  then show ?thesis
    using candidates_are_healthy [of "hd (DirectCandidates (buildRoutingSnapshot sample_data) ''llama'')" sample_data "''llama''"]
    by simp
qed

text \<open>
  The public model list is sorted, has no duplicates, and holds exactly the available
  model ids (also those of unhealthy providers) and the alias names that have a candidate;
  so every alias in the list can be routed.
\<close>

theorem public_model_ids:
  "sorted (PublicModelIDs (buildRoutingSnapshot d)) \<and> distinct (PublicModelIDs (buildRoutingSnapshot d)) \<and>
   set (PublicModelIDs (buildRoutingSnapshot d)) =
     m_ModelID ` {m \<in> set (rd_Models d). m_IsAvailable m} \<union>
     {al. \<exists>cs. AliasCandidates (buildRoutingSnapshot d) al = Some cs}"
  by (auto simp: PublicModelIDs_build AliasCandidates_build)

text \<open>
  Endpoint lookup. A provider serves a path, with or without its leading slash, exactly
  when one of its endpoint rows for the normalised path is both supported and enabled.
\<close>

theorem enabled_endpoint_iff:
  "HasEnabledEndpoint (buildRoutingSnapshot d) pid path \<longleftrightarrow>
   (\<exists>e \<in> set (rd_Endpoints d). e_ProviderID e = pid \<and> e_Path e = normalizeEndpointPath path \<and> e_IsSupported e \<and> e_IsEnabled e)"
  by (rule HasEnabledEndpoint_build)

end
