(* ===== verification/Smart_Router.thy ===== *)
theory Smart_Router
  imports Circuit_Breaker Routing_Catalog
begin

text \<open>
  The router of \<open>internal/proxy/router.go\<close>: candidates of a model name come from the routing
  catalog, pass the circuit breakers of their providers and the endpoint filter, and one of
  the highest priority is drawn at random by weight.

  Every catalog access loads the current snapshot on its own, so one call of \<open>Route\<close> may
  see several snapshots; \<open>route_env\<close> lists what a call observes: a snapshot per access, a
  clock reading per candidate, the order \<open>sort.Slice\<close> leaves among equal priorities and the
  random number. Provider settings reach the breaker through \<open>syncBreakerConfig\<close> on every
  use. Weights are 64-bit integers and their sum wraps.
\<close>

section \<open>The router and its breakers\<close>

datatype route_error = ErrNoAvailableProvider | IntnPanic

record SmartRouter =
  sr_breakers :: "string \<rightharpoonup> CircuitBreaker"

record candidate =
  cd_provider :: Provider
  cd_modelID :: string
  cd_weight :: int
  cd_priority :: int

record RouteResult =
  rr_Provider :: Provider
  rr_ModelID :: string
  rr_TargetURL :: string
  rr_RequestedViaAlias :: bool

record route_env =
  re_alias_snap :: routingSnapshot
  re_direct_snap :: routingSnapshot
  re_endpoint_snap :: "nat \<Rightarrow> routingSnapshot"
  re_clock :: "nat \<Rightarrow> time"
  re_order :: "nat list"
  re_rand :: nat

definition NewSmartRouter :: SmartRouter where
  "NewSmartRouter = \<lparr>sr_breakers = Map.empty\<rparr>"

definition put_breaker :: "SmartRouter \<Rightarrow> string \<Rightarrow> CircuitBreaker \<Rightarrow> SmartRouter" where
  "put_breaker r providerID cb = r\<lparr>sr_breakers := (sr_breakers r)(providerID \<mapsto> cb)\<rparr>"

definition getBreaker :: "SmartRouter \<Rightarrow> string \<Rightarrow> time \<Rightarrow> CircuitBreaker \<times> SmartRouter" where
  "getBreaker r providerID now =
     (case sr_breakers r providerID of
        Some cb \<Rightarrow> (cb, r)
      | None \<Rightarrow> (let cb = NewCircuitBreaker now in (cb, put_breaker r providerID cb)))"

definition syncBreakerConfig ::
  "SmartRouter \<Rightarrow> routingSnapshot \<Rightarrow> string \<Rightarrow> Provider option \<Rightarrow> time \<Rightarrow> CircuitBreaker \<times> SmartRouter" where
  "syncBreakerConfig r snap providerID p now =
     (let (cb, r1) = getBreaker r providerID now;
          p1 = (case p of None \<Rightarrow> ProviderByID snap providerID | Some q \<Rightarrow> Some q)
      in case p1 of
           None \<Rightarrow> (cb, r1)
         | Some q \<Rightarrow>
             (let cb1 = Configure cb (p_CBErrorThreshold q) (seconds (p_CBWindowSeconds q)) (seconds (p_CBCooldownSeconds q))
              in (cb1, put_breaker r1 providerID cb1)))"

definition circuitBreakerEnabled :: "routingSnapshot \<Rightarrow> string \<Rightarrow> Provider option \<Rightarrow> bool" where
  "circuitBreakerEnabled snap providerID p =
     (case p of
        Some q \<Rightarrow> p_CBEnabled q
      | None \<Rightarrow> (case ProviderByID snap providerID of
                   Some cached \<Rightarrow> p_CBEnabled cached
                 | None \<Rightarrow> True))"

section \<open>Routing\<close>

definition to_candidate :: "RouteCandidate \<Rightarrow> candidate" where
  "to_candidate c = \<lparr>cd_provider = rc_Provider c, cd_modelID = rc_ModelID c, cd_weight = rc_Weight c, cd_priority = rc_Priority c\<rparr>"

definition resolveCandidates :: "routingSnapshot \<Rightarrow> routingSnapshot \<Rightarrow> string \<Rightarrow> candidate list \<times> bool" where
  "resolveCandidates aliasSnap directSnap modelID =
     (case AliasCandidates aliasSnap modelID of
        Some aliasCands \<Rightarrow> (map to_candidate aliasCands, True)
      | None \<Rightarrow> (map to_candidate (DirectCandidates directSnap modelID), False))"

fun filterByCircuitBreaker ::
  "SmartRouter \<Rightarrow> routingSnapshot \<Rightarrow> (nat \<Rightarrow> time) \<Rightarrow> candidate list \<Rightarrow> candidate list \<times> SmartRouter" where
  "filterByCircuitBreaker r snap clock [] = ([], r)"
| "filterByCircuitBreaker r snap clock (c # cs) =
     (let p = cd_provider c;
          (keep, r1) =
            (if \<not> circuitBreakerEnabled snap (p_ID p) (Some p) then (True, r)
             else (let (cb, r') = syncBreakerConfig r snap (p_ID p) (Some p) (clock 0);
                       (ok, cb') = Allow cb (clock 0)
                   in (ok, put_breaker r' (p_ID p) cb')));
          (out, r2) = filterByCircuitBreaker r1 snap (\<lambda>i. clock (Suc i)) cs
      in (if keep then c # out else out, r2))"

fun filterByEndpoint :: "(nat \<Rightarrow> routingSnapshot) \<Rightarrow> string \<Rightarrow> candidate list \<Rightarrow> candidate list" where
  "filterByEndpoint snaps endpointPath [] = []"
| "filterByEndpoint snaps endpointPath (c # cs) =
     (let out = filterByEndpoint (\<lambda>i. snaps (Suc i)) endpointPath cs
      in if HasEnabledEndpoint (snaps 0) (p_ID (cd_provider c)) endpointPath then c # out else out)"

text \<open>The weights of the pool, summed as Go's \<open>int\<close>.\<close>

definition total_weight :: "candidate list \<Rightarrow> int" where
  "total_weight pool = fold (\<lambda>c acc. i64 (acc + cd_weight c)) pool 0"

fun pick_cumulative :: "candidate list \<Rightarrow> int \<Rightarrow> int \<Rightarrow> candidate option" where
  "pick_cumulative [] cumulative pick = None"
| "pick_cumulative (c # cs) cumulative pick =
     (let cumulative = i64 (cumulative + cd_weight c)
      in if pick < cumulative then Some c else pick_cumulative cs cumulative pick)"

definition pick_candidate :: "candidate list \<Rightarrow> int \<Rightarrow> candidate" where
  "pick_candidate pool pick = (case pick_cumulative pool 0 pick of Some c \<Rightarrow> c | None \<Rightarrow> last pool)"

definition selection_pool :: "nat list \<Rightarrow> candidate list \<Rightarrow> candidate list" where
  "selection_pool order candidates =
     (let sorted = sort_slice order (\<lambda>c. - cd_priority c) candidates;
          topPriority = cd_priority (hd sorted);
          topGroup = filter (\<lambda>c. cd_priority c = topPriority) sorted
      in filter (\<lambda>c. cd_weight c > 0) topGroup)"

definition selectWeightedPriority :: "nat list \<Rightarrow> nat \<Rightarrow> candidate list \<Rightarrow> route_error + candidate" where
  "selectWeightedPriority order rnd candidates =
     (let pool = selection_pool order candidates; totalWeight = total_weight pool
      in if length pool = 0 \<or> totalWeight = 0 then Inl ErrNoAvailableProvider
         else case intn rnd totalWeight of
                None \<Rightarrow> Inl IntnPanic
              | Some pick \<Rightarrow> Inr (pick_candidate pool pick))"

definition target_url :: "string \<Rightarrow> string \<Rightarrow> string" where
  "target_url baseURL endpointPath = TrimRight baseURL CHR ''/'' @ ''/'' @ TrimLeft endpointPath CHR ''/''"

definition Route :: "SmartRouter \<Rightarrow> route_env \<Rightarrow> string \<Rightarrow> string \<Rightarrow> (route_error + RouteResult) \<times> SmartRouter" where
  "Route r env modelID endpointPath =
     (let (candidates, requestedViaAlias) = resolveCandidates (re_alias_snap env) (re_direct_snap env) modelID;
          (allowed, r1) = filterByCircuitBreaker r (re_direct_snap env) (re_clock env) candidates;
          serving = filterByEndpoint (re_endpoint_snap env) endpointPath allowed
      in if length serving = 0 then (Inl ErrNoAvailableProvider, r1)
         else case selectWeightedPriority (re_order env) (re_rand env) serving of
                Inl err \<Rightarrow> (Inl err, r1)
              | Inr selected \<Rightarrow>
                  (Inr \<lparr>rr_Provider = cd_provider selected, rr_ModelID = cd_modelID selected,
                        rr_TargetURL = target_url (p_BaseURL (cd_provider selected)) endpointPath,
                        rr_RequestedViaAlias = requestedViaAlias\<rparr>, r1))"

definition ReportSuccess :: "SmartRouter \<Rightarrow> routingSnapshot \<Rightarrow> routingSnapshot \<Rightarrow> string \<Rightarrow> time \<Rightarrow> SmartRouter" where
  "ReportSuccess r enabledSnap configSnap providerID now =
     (if \<not> circuitBreakerEnabled enabledSnap providerID None then r
      else (let (cb, r1) = syncBreakerConfig r configSnap providerID None now
            in put_breaker r1 providerID (RecordSuccess cb now)))"

definition ReportFailure :: "SmartRouter \<Rightarrow> routingSnapshot \<Rightarrow> routingSnapshot \<Rightarrow> string \<Rightarrow> time \<Rightarrow> SmartRouter" where
  "ReportFailure r enabledSnap configSnap providerID now =
     (if \<not> circuitBreakerEnabled enabledSnap providerID None then r
      else (let (cb, r1) = syncBreakerConfig r configSnap providerID None now
            in put_breaker r1 providerID (RecordFailure cb now)))"

section \<open>Selection\<close>

lemma total_weight_fold:
  "fold (\<lambda>c acc. i64 (acc + cd_weight c)) pool a = (if pool = [] then a else i64 (a + sum_list (map cd_weight pool)))"
  by (induction pool arbitrary: a) (auto simp: add.assoc)

lemma total_weight_i64: "total_weight pool = i64 (sum_list (map cd_weight pool))"
  by (cases "pool = []") (simp_all add: total_weight_def total_weight_fold, simp add: i64_def)

lemma sum_list_nonneg_weights: "\<forall>c \<in> set pool. 0 < cd_weight c \<Longrightarrow> 0 \<le> sum_list (map cd_weight pool)"
  by (induction pool) auto

lemma sum_list_pos_weights: "\<forall>c \<in> set pool. 0 < cd_weight c \<Longrightarrow> pool \<noteq> [] \<Longrightarrow> 0 < sum_list (map cd_weight pool)"
  using sum_list_nonneg_weights [of "tl pool"] by (cases pool) auto

lemma total_weight_small:
  assumes "\<forall>c \<in> set pool. 0 < cd_weight c" and "sum_list (map cd_weight pool) < 2 ^ 63"
  shows "total_weight pool = sum_list (map cd_weight pool)"
proof -
  have "0 \<le> sum_list (map cd_weight pool)" using assms(1) by (rule sum_list_nonneg_weights)
  with assms(2) show ?thesis by (simp add: total_weight_i64 i64_id in_i64_def)
qed

lemma selection_pool_eq:
  assumes "x \<in> set cs" and "\<forall>y \<in> set cs. cd_priority y \<le> cd_priority x"
  shows "selection_pool order cs =
    filter (\<lambda>c. cd_priority c = cd_priority x \<and> 0 < cd_weight c) (sort_slice order (\<lambda>c. - cd_priority c) cs)"
proof -
  let ?s = "sort_slice order (\<lambda>c. - cd_priority c) cs"
  have "?s \<noteq> []" using assms(1) by auto
  then have "hd ?s \<in> set cs" using hd_in_set [of ?s] by simp
  then have "cd_priority (hd ?s) \<le> cd_priority x" using assms(2) by blast
  moreover have "cd_priority x \<le> cd_priority (hd ?s)"
    using hd_sort_slice_le [OF assms(1), of "\<lambda>c. - cd_priority c" order] by simp
  ultimately show ?thesis by (simp add: selection_pool_def Let_def)
qed

lemma exists_top: "cs \<noteq> [] \<Longrightarrow> \<exists>x \<in> set cs. \<forall>y \<in> set cs. cd_priority y \<le> cd_priority x"
  using finite_imageI [OF finite_set, of cd_priority cs] Max_in [of "cd_priority ` set cs"] Max_ge [of "cd_priority ` set cs"]
  by (metis (no_types, lifting) image_eqI image_iff image_is_empty set_empty)

definition eligible :: "candidate list \<Rightarrow> candidate \<Rightarrow> bool" where
  "eligible cs c \<longleftrightarrow> c \<in> set cs \<and> 0 < cd_weight c \<and> (\<forall>d \<in> set cs. cd_priority d \<le> cd_priority c)"

lemma selection_pool_filter:
  assumes "cs \<noteq> []"
  shows "selection_pool order cs = filter (eligible cs) (sort_slice order (\<lambda>c. - cd_priority c) cs)"
proof -
  obtain x where x: "x \<in> set cs" "\<forall>y \<in> set cs. cd_priority y \<le> cd_priority x" using exists_top [OF assms] by blast
  show ?thesis
    unfolding selection_pool_eq [OF x] using x by (intro filter_cong) (force simp: eligible_def)+
qed

lemma set_selection_pool: "cs \<noteq> [] \<Longrightarrow> set (selection_pool order cs) = {c. eligible cs c}"
  by (auto simp: selection_pool_filter) (simp add: eligible_def)

lemma mset_selection_pool: "cs \<noteq> [] \<Longrightarrow> mset (selection_pool order cs) = filter_mset (eligible cs) (mset cs)"
  by (simp add: selection_pool_filter)

text \<open>The total weight of the eligible candidates, as a mathematical integer.\<close>

definition eligible_weight :: "candidate list \<Rightarrow> int" where
  "eligible_weight cs = sum_list (map cd_weight (filter (eligible cs) cs))"

lemma pool_weight: "cs \<noteq> [] \<Longrightarrow> sum_list (map cd_weight (selection_pool order cs)) = eligible_weight cs"
  by (simp add: eligible_weight_def mset_selection_pool flip: sum_mset_sum_list)

lemma pool_positive: "\<forall>c \<in> set (selection_pool order cs). 0 < cd_weight c"
  by (auto simp: selection_pool_def Let_def)

lemma pick_cumulative_in: "pick_cumulative pool cum k = Some c \<Longrightarrow> c \<in> set pool"
  by (induction pool cum k rule: pick_cumulative.induct) (auto simp: Let_def split: if_splits)

lemma pick_candidate_in: "pool \<noteq> [] \<Longrightarrow> pick_candidate pool k \<in> set pool"
  by (auto simp: pick_candidate_def pick_cumulative_in split: option.splits)

lemma pick_cumulative_total:
  assumes "\<forall>c \<in> set pool. 0 < cd_weight c" and "0 \<le> cum"
    and "cum + sum_list (map cd_weight pool) < 2 ^ 63" and "k < cum + sum_list (map cd_weight pool)" and "cum \<le> k"
  shows "\<exists>c. pick_cumulative pool cum k = Some c"
  using assms
proof (induction pool arbitrary: cum)
  case (Cons d ds)
  then have "0 \<le> sum_list (map cd_weight ds)" by (intro sum_list_nonneg_weights) auto
  with Cons.prems have "i64 (cum + cd_weight d) = cum + cd_weight d" by (intro i64_id) (auto simp: in_i64_def)
  with Cons show ?case by (auto simp: Let_def add.assoc)
qed simp

lemma pick_cumulative_count:
  assumes "\<forall>c \<in> set pool. 0 < cd_weight c" and "0 \<le> cum" and "cum + sum_list (map cd_weight pool) < 2 ^ 63"
  shows "card {k. cum \<le> k \<and> k < cum + sum_list (map cd_weight pool) \<and> pick_cumulative pool cum k = Some c} =
    nat (cd_weight c) * count (mset pool) c"
  using assms
proof (induction pool arbitrary: cum)
  case Nil
  then show ?case by simp
next
  case (Cons d ds)
  let ?w = "cd_weight d" and ?S = "sum_list (map cd_weight ds)"
  have S: "0 \<le> ?S" using Cons.prems(1) by (intro sum_list_nonneg_weights) auto
  have w: "0 < ?w" using Cons.prems(1) by simp
  then have le: "cum + ?w \<le> x \<Longrightarrow> cum \<le> x" "x < cum + ?w \<Longrightarrow> x < cum + ?w + ?S" for x using S by linarith+
  have i: "i64 (cum + ?w) = cum + ?w" using S w Cons.prems by (intro i64_id) (auto simp: in_i64_def)
  let ?B = "{k. cum + ?w \<le> k \<and> k < cum + ?w + ?S \<and> pick_cumulative ds (cum + ?w) k = Some c}"
  have split: "{k. cum \<le> k \<and> k < cum + sum_list (map cd_weight (d # ds)) \<and> pick_cumulative (d # ds) cum k = Some c} =
    (if d = c then {cum..<cum + ?w} else {}) \<union> ?B"
    using S w by (auto simp: i Let_def)
  have fin: "finite ?B" by (rule finite_subset [of _ "{cum + ?w..<cum + ?w + ?S}"]) auto
  have "card ?B = nat (cd_weight c) * count (mset ds) c"
    using Cons.prems w by (intro Cons.IH) auto
  moreover have "card ((if d = c then {cum..<cum + ?w} else {}) \<union> ?B) = (if d = c then nat ?w else 0) + card ?B"
    using fin by (subst card_Un_disjoint) auto
  ultimately show ?case unfolding split by (simp add: algebra_simps)
qed

lemma selectWeightedPriority_cases:
  assumes "cs \<noteq> []" and "eligible_weight cs < 2 ^ 63"
  shows "selectWeightedPriority order rnd cs =
    (if \<exists>c. eligible cs c
     then Inr (pick_candidate (selection_pool order cs) (int rnd mod eligible_weight cs))
     else Inl ErrNoAvailableProvider)"
proof -
  let ?pool = "selection_pool order cs"
  have pool: "?pool = [] \<longleftrightarrow> (\<nexists>c. eligible cs c)"
    using set_selection_pool [OF assms(1), of order] by (metis Collect_empty_eq set_empty)
  have tot: "total_weight ?pool = eligible_weight cs"
    using total_weight_small [OF pool_positive] pool_weight [OF assms(1), of order] assms(2) by simp
  show ?thesis
  proof (cases "?pool = []")
    case True
    with pool show ?thesis by (simp add: selectWeightedPriority_def)
  next
    case False
    then have "0 < eligible_weight cs"
      using sum_list_pos_weights [OF pool_positive, of order cs] pool_weight [OF assms(1), of order] by simp
    with False pool tot show ?thesis by (simp add: selectWeightedPriority_def Let_def intn_def)
  qed
qed

lemma selectWeightedPriority_sound:
  assumes "cs \<noteq> []" and "selectWeightedPriority order rnd cs = Inr c"
  shows "eligible cs c"
proof -
  let ?pool = "selection_pool order cs"
  from assms(2) have "?pool \<noteq> []" and c: "\<exists>k. c = pick_candidate ?pool k"
    by (auto simp: selectWeightedPriority_def Let_def split: if_splits option.splits)
  then have "c \<in> set ?pool" using pick_candidate_in by blast
  with set_selection_pool [OF assms(1)] show ?thesis by blast
qed

section \<open>The filters\<close>

lemma filterByEndpoint_in:
  "c \<in> set (filterByEndpoint snaps path cs) \<Longrightarrow> c \<in> set cs \<and> (\<exists>i. HasEnabledEndpoint (snaps i) (p_ID (cd_provider c)) path)"
  by (induction snaps path cs rule: filterByEndpoint.induct) (auto simp: Let_def split: if_splits)

lemma filterByEndpoint_const:
  "filterByEndpoint (\<lambda>_. s) path cs = filter (\<lambda>c. HasEnabledEndpoint s (p_ID (cd_provider c)) path) cs"
  by (induction cs) auto

text \<open>What happens to one candidate in \<open>filterByCircuitBreaker\<close>.\<close>

definition gate :: "SmartRouter \<Rightarrow> Provider \<Rightarrow> time \<Rightarrow> bool \<times> SmartRouter" where
  "gate r p now =
     (if \<not> p_CBEnabled p then (True, r)
      else (let cb = (case sr_breakers r (p_ID p) of Some cb \<Rightarrow> cb | None \<Rightarrow> NewCircuitBreaker now);
                (ok, cb') = Allow (Configure cb (p_CBErrorThreshold p) (seconds (p_CBWindowSeconds p))
                              (seconds (p_CBCooldownSeconds p))) now
            in (ok, put_breaker r (p_ID p) cb')))"

lemma put_breaker_simps [simp]:
  "put_breaker (put_breaker r pid cb) pid cb' = put_breaker r pid cb'"
  "sr_breakers (put_breaker r pid cb) = (sr_breakers r)(pid \<mapsto> cb)"
  by (simp_all add: put_breaker_def)

lemma filterByCircuitBreaker_Cons:
  "filterByCircuitBreaker r snap clock (c # cs) =
     (let (keep, r1) = gate r (cd_provider c) (clock 0);
          (out, r2) = filterByCircuitBreaker r1 snap (\<lambda>i. clock (Suc i)) cs
      in (if keep then c # out else out, r2))"
  by (simp add: gate_def circuitBreakerEnabled_def syncBreakerConfig_def getBreaker_def Let_def case_prod_beta
      split: option.splits)

lemma filterByCircuitBreaker_subset: "set (fst (filterByCircuitBreaker r snap clock cs)) \<subseteq> set cs"
proof (induction cs arbitrary: r clock)
  case (Cons c cs)
  then show ?case
    by (auto simp: filterByCircuitBreaker_Cons case_prod_beta Let_def simp del: filterByCircuitBreaker.simps(2)
        split: if_splits)
qed simp

text \<open>A property of the breaker map that every gate keeps is kept by the whole filter.\<close>

lemma filterByCircuitBreaker_inv:
  assumes "P (0 :: nat) r" and "\<And>i r c. P i r \<Longrightarrow> i < length cs \<Longrightarrow> c = cs ! i \<Longrightarrow> P (Suc i) (snd (gate r (cd_provider c) (clock i)))"
  shows "P (length cs) (snd (filterByCircuitBreaker r snap clock cs))"
  using assms
proof (induction cs arbitrary: r clock P)
  case Nil
  then show ?case by simp
next
  case (Cons c cs)
  have "P (Suc (length cs)) (snd (filterByCircuitBreaker (snd (gate r (cd_provider c) (clock 0))) snap (\<lambda>i. clock (Suc i)) cs))"
    using Cons.prems by (intro Cons.IH [of "\<lambda>i. P (Suc i)"]) force+
  then show ?case by (simp add: filterByCircuitBreaker_Cons case_prod_beta Let_def del: filterByCircuitBreaker.simps(2))
qed

lemma filterByCircuitBreaker_avoids:
  assumes "I r" and "\<And>r c i. I r \<Longrightarrow> c \<in> set cs \<Longrightarrow> I (snd (gate r (cd_provider c) (clock i)))"
    and "\<And>r c i. I r \<Longrightarrow> c \<in> set cs \<Longrightarrow> bad c \<Longrightarrow> \<not> fst (gate r (cd_provider c) (clock i))"
  shows "\<forall>c \<in> set (fst (filterByCircuitBreaker r snap clock cs)). \<not> bad c"
  using assms
proof (induction cs arbitrary: r clock)
  case Nil
  then show ?case by simp
next
  case (Cons c cs)
  have "\<forall>c \<in> set (fst (filterByCircuitBreaker (snd (gate r (cd_provider c) (clock 0))) snap (\<lambda>i. clock (Suc i)) cs)). \<not> bad c"
    using Cons.prems by (intro Cons.IH) auto
  moreover have "bad c \<Longrightarrow> \<not> fst (gate r (cd_provider c) (clock 0))" using Cons.prems by simp
  ultimately show ?case
    by (auto simp: filterByCircuitBreaker_Cons case_prod_beta Let_def simp del: filterByCircuitBreaker.simps(2))
qed

section \<open>The route\<close>

lemma Route_Inr:
  assumes "Route r env modelID path = (Inr res, r')"
  obtains c cs via where "resolveCandidates (re_alias_snap env) (re_direct_snap env) modelID = (cs, via)"
    and "eligible (filterByEndpoint (re_endpoint_snap env) path
           (fst (filterByCircuitBreaker r (re_direct_snap env) (re_clock env) cs))) c"
    and "res = \<lparr>rr_Provider = cd_provider c, rr_ModelID = cd_modelID c,
           rr_TargetURL = target_url (p_BaseURL (cd_provider c)) path, rr_RequestedViaAlias = via\<rparr>"
    and "r' = snd (filterByCircuitBreaker r (re_direct_snap env) (re_clock env) cs)"
proof -
  obtain cs via where res: "resolveCandidates (re_alias_snap env) (re_direct_snap env) modelID = (cs, via)" by fastforce
  obtain allowed r1 where f: "filterByCircuitBreaker r (re_direct_snap env) (re_clock env) cs = (allowed, r1)" by fastforce
  let ?serving = "filterByEndpoint (re_endpoint_snap env) path allowed"
  from assms obtain c where "?serving \<noteq> []" and "selectWeightedPriority (re_order env) (re_rand env) ?serving = Inr c"
    and "r' = r1" and "res = \<lparr>rr_Provider = cd_provider c, rr_ModelID = cd_modelID c,
           rr_TargetURL = target_url (p_BaseURL (cd_provider c)) path, rr_RequestedViaAlias = via\<rparr>"
    by (auto simp: Route_def Let_def res f split: if_splits sum.splits)
  with res f show thesis by (intro that [of cs via c]) (simp_all add: selectWeightedPriority_sound)
qed

lemma Route_router:
  "snd (Route r env modelID path) =
   snd (filterByCircuitBreaker r (re_direct_snap env) (re_clock env)
          (fst (resolveCandidates (re_alias_snap env) (re_direct_snap env) modelID)))"
  by (simp add: Route_def Let_def case_prod_beta split: sum.splits)

lemma Route_avoids:
  assumes "Route r env modelID path = (Inr res, r')" and "I r"
    and "\<And>r c i. I r \<Longrightarrow> c \<in> set (fst (resolveCandidates (re_alias_snap env) (re_direct_snap env) modelID)) \<Longrightarrow>
      I (snd (gate r (cd_provider c) (re_clock env i)))"
    and "\<And>r c i. I r \<Longrightarrow> c \<in> set (fst (resolveCandidates (re_alias_snap env) (re_direct_snap env) modelID)) \<Longrightarrow>
      bad (cd_provider c) \<Longrightarrow> \<not> fst (gate r (cd_provider c) (re_clock env i))"
  shows "\<not> bad (rr_Provider res)"
proof -
  from assms(1) obtain c cs via where cs: "resolveCandidates (re_alias_snap env) (re_direct_snap env) modelID = (cs, via)"
    and c: "eligible (filterByEndpoint (re_endpoint_snap env) path
           (fst (filterByCircuitBreaker r (re_direct_snap env) (re_clock env) cs))) c"
    and p: "rr_Provider res = cd_provider c"
    by (rule Route_Inr) simp
  have "\<forall>c \<in> set (fst (filterByCircuitBreaker r (re_direct_snap env) (re_clock env) cs)). \<not> bad (cd_provider c)"
    using assms(2-) by (intro filterByCircuitBreaker_avoids [where I = I]) (simp_all add: cs)
  moreover have "c \<in> set (fst (filterByCircuitBreaker r (re_direct_snap env) (re_clock env) cs))"
    using c filterByEndpoint_in by (fastforce simp: eligible_def)
  ultimately show ?thesis using p by simp
qed

lemma to_candidate_provider [simp]: "cd_provider (to_candidate c) = rc_Provider c"
  by (simp add: to_candidate_def)

lemma resolveCandidates_set:
  "set (fst (resolveCandidates sa sd modelID)) =
   to_candidate ` set (case AliasCandidates sa modelID of Some cs \<Rightarrow> cs | None \<Rightarrow> DirectCandidates sd modelID)"
  by (simp add: resolveCandidates_def split: option.splits)

section \<open>Reachable routers\<close>

inductive router_reach :: "time \<Rightarrow> SmartRouter \<Rightarrow> bool" where
  router_new: "router_reach now NewSmartRouter"
| router_route: "router_reach t r \<Longrightarrow> t \<le> re_clock env 0 \<Longrightarrow> mono (re_clock env) \<Longrightarrow> (\<forall>i. re_clock env i \<le> now) \<Longrightarrow>
    router_reach now (snd (Route r env modelID path))"
| router_success: "router_reach t r \<Longrightarrow> t \<le> now \<Longrightarrow> router_reach now (ReportSuccess r s1 s2 pid now)"
| router_failure: "router_reach t r \<Longrightarrow> t \<le> now \<Longrightarrow> router_reach now (ReportFailure r s1 s2 pid now)"

definition breakers_reach :: "time \<Rightarrow> SmartRouter \<Rightarrow> bool" where
  "breakers_reach now r \<longleftrightarrow> (\<forall>cb \<in> ran (sr_breakers r). cb_reach now cb)"

lemma breakers_reach_at:
  "breakers_reach t r \<Longrightarrow> t \<le> now \<Longrightarrow>
   cb_reach now (case sr_breakers r pid of Some cb \<Rightarrow> cb | None \<Rightarrow> NewCircuitBreaker now)"
  by (auto simp: breakers_reach_def ran_def intro: cb_reach_later cb_reach.cb_new split: option.splits)

lemma breakers_reach_put [inv_intros]:
  "breakers_reach t r \<Longrightarrow> t \<le> now \<Longrightarrow> cb_reach now cb \<Longrightarrow> breakers_reach now (put_breaker r pid cb)"
  by (auto simp: breakers_reach_def ran_def intro: cb_reach_later)

lemma breakers_reach_later: "breakers_reach t r \<Longrightarrow> t \<le> now \<Longrightarrow> breakers_reach now r"
  by (auto simp: breakers_reach_def intro: cb_reach_later)

lemma breakers_reach_gate [inv_intros]:
  assumes "breakers_reach t r" and "t \<le> now"
  shows "breakers_reach now (snd (gate r p now))"
  using assms cb_reach_ops(2) [OF cb_reach_ops(1) [OF breakers_reach_at [OF assms] order_refl] order_refl]
  by (simp add: gate_def Let_def case_prod_beta breakers_reach_put breakers_reach_later)

lemma breakers_reach_sync:
  assumes "breakers_reach t r" and "t \<le> now"
  shows "cb_reach now (fst (syncBreakerConfig r snap pid p now)) \<and> breakers_reach now (snd (syncBreakerConfig r snap pid p now))"
  using assms breakers_reach_at [OF assms, of pid]
  by (auto simp: syncBreakerConfig_def getBreaker_def Let_def intro!: cb_reach_ops(1) [OF _ order_refl]
      intro: breakers_reach_put breakers_reach_later cb_reach.cb_new split: option.splits)

lemma breakers_reach_report [inv_intros]:
  assumes "breakers_reach t r" and "t \<le> now"
  shows "breakers_reach now (ReportSuccess r s1 s2 pid now)" and "breakers_reach now (ReportFailure r s1 s2 pid now)"
  using assms breakers_reach_sync [OF assms, of s2 pid None]
  by (auto simp: ReportSuccess_def ReportFailure_def case_prod_beta
      intro: breakers_reach_later breakers_reach_put [OF _ order_refl] cb_reach_ops(3,4) [OF _ order_refl])

lemma breakers_reach_Route [inv_intros]:
  assumes "breakers_reach t r" and "t \<le> re_clock env 0" and "mono (re_clock env)" and "\<forall>i. re_clock env i \<le> now"
  shows "breakers_reach now (snd (Route r env modelID path))"
proof -
  let ?cs = "fst (resolveCandidates (re_alias_snap env) (re_direct_snap env) modelID)"
  let ?P = "\<lambda>i r. breakers_reach (re_clock env i) r"
  have "?P (length ?cs) (snd (filterByCircuitBreaker r (re_direct_snap env) (re_clock env) ?cs))"
  proof (rule filterByCircuitBreaker_inv [where P = ?P])
    show "?P 0 r" using assms(1,2) by (rule breakers_reach_later)
    fix i r c assume "?P i r"
    then have "breakers_reach (re_clock env i) (snd (gate r (cd_provider c) (re_clock env i)))"
      by (rule breakers_reach_gate) simp
    then show "?P (Suc i) (snd (gate r (cd_provider c) (re_clock env i)))"
      by (rule breakers_reach_later) (simp add: monoD [OF assms(3)])
  qed
  then show ?thesis using assms(4) by (simp only: Route_router) (blast intro: breakers_reach_later)
qed

lemma router_reach_breakers: "router_reach now r \<Longrightarrow> breakers_reach now r"
proof (induction rule: router_reach.induct)
  case router_new
  show ?case by (simp add: breakers_reach_def NewSmartRouter_def)
qed (auto intro: inv_intros)

section \<open>Open breakers in the router\<close>

definition held_open :: "string \<Rightarrow> duration \<Rightarrow> time \<Rightarrow> SmartRouter \<Rightarrow> bool" where
  "held_open pid d t r \<longleftrightarrow> (\<exists>cb. sr_breakers r pid = Some cb \<and> br_state cb = StateOpen \<and>
     br_lastStateChange cb = t \<and> d \<le> br_cooldownPeriod cb)"

lemma held_open_gate_other: "held_open pid d t r \<Longrightarrow> p_ID p \<noteq> pid \<Longrightarrow> held_open pid d t (snd (gate r p now))"
  by (auto simp: held_open_def gate_def Let_def case_prod_beta)

lemma held_open_gate_same:
  assumes "held_open pid d t r" and "p_ID p = pid" and "p_CBEnabled p" and "0 < d" and "in_i64 d" and "now < t + d"
    and "ev_cooldown_ge d (EvConfigure (p_CBErrorThreshold p) (seconds (p_CBWindowSeconds p)) (seconds (p_CBCooldownSeconds p)))"
  shows "\<not> fst (gate r p now) \<and> held_open pid d t (snd (gate r p now))"
proof -
  from assms(1) obtain cb where cb: "sr_breakers r pid = Some cb" "br_state cb = StateOpen"
    "br_lastStateChange cb = t" "d \<le> br_cooldownPeriod cb" by (auto simp: held_open_def)
  let ?cb = "Configure cb (p_CBErrorThreshold p) (seconds (p_CBWindowSeconds p)) (seconds (p_CBCooldownSeconds p))"
  have c: "br_state ?cb = StateOpen" "br_lastStateChange ?cb = t" "d \<le> br_cooldownPeriod ?cb"
    using cb assms(7) by (auto simp: Configure_def Let_def)
  have "time_sub now t < d" using assms(6) time_sub_ge_pos [OF assms(4,5), of now t] by linarith
  with c have "Allow ?cb now = (False, ?cb)" by (simp add: Allow_def)
  with c cb assms(2,3) show ?thesis by (simp add: gate_def held_open_def)
qed

lemma Route_held_open:
  assumes "held_open pid d t r" and "0 < d" and "in_i64 d" and "\<forall>i. re_clock env i < t + d"
    and "\<And>c. c \<in> set (fst (resolveCandidates (re_alias_snap env) (re_direct_snap env) modelID)) \<Longrightarrow> p_ID (cd_provider c) = pid \<Longrightarrow>
      p_CBEnabled (cd_provider c) \<and> ev_cooldown_ge d (EvConfigure (p_CBErrorThreshold (cd_provider c))
        (seconds (p_CBWindowSeconds (cd_provider c))) (seconds (p_CBCooldownSeconds (cd_provider c))))"
    and "Route r env modelID path = (Inr res, r')"
  shows "p_ID (rr_Provider res) \<noteq> pid"
proof (rule Route_avoids [OF assms(6), where I = "held_open pid d t" and bad = "\<lambda>p. p_ID p = pid"])
  fix r c i assume h: "held_open pid d t r"
    and c: "c \<in> set (fst (resolveCandidates (re_alias_snap env) (re_direct_snap env) modelID))"
  have same: "\<not> fst (gate r (cd_provider c) (re_clock env i)) \<and> held_open pid d t (snd (gate r (cd_provider c) (re_clock env i)))"
    if "p_ID (cd_provider c) = pid"
    using assms(2-4) assms(5) [OF c that] by (intro held_open_gate_same [OF h that]) auto
  show "held_open pid d t (snd (gate r (cd_provider c) (re_clock env i)))"
    using same held_open_gate_other [OF h] by blast
  show "p_ID (cd_provider c) = pid \<Longrightarrow> \<not> fst (gate r (cd_provider c) (re_clock env i))" using same by blast
qed (rule assms(1))

lemma candidate_provider_record:
  assumes "c \<in> set (fst (resolveCandidates (buildRoutingSnapshot d) (buildRoutingSnapshot d) modelID))"
  shows "find_provider d (p_ID (cd_provider c)) = Some (cd_provider c) \<and> p_IsHealthy (cd_provider c)"
proof -
  from assms obtain rc where "cd_provider c = rc_Provider rc" and
    "rc \<in> set (DirectCandidates (buildRoutingSnapshot d) modelID) \<or>
     (\<exists>cs. AliasCandidates (buildRoutingSnapshot d) modelID = Some cs \<and> rc \<in> set cs)"
    by (auto simp: resolveCandidates_set split: option.splits)
  then show ?thesis using snapshot_candidate_provider by simp
qed

lemma ReportFailure_trips:
  assumes "ProviderByID s2 pid = Some p" and "p_CBEnabled p" and "p_CBErrorThreshold p < 1" and "0 < p_CBErrorThreshold p"
    and "circuitBreakerEnabled s1 pid None" and "0 < seconds (p_CBCooldownSeconds p)"
    and "sr_breakers r pid = None \<or> (\<exists>cb. sr_breakers r pid = Some cb \<and> br_state cb = StateHalfOpen)"
  shows "held_open pid (seconds (p_CBCooldownSeconds p)) now (ReportFailure r s1 s2 pid now)"
  using assms
  by (auto simp: held_open_def ReportFailure_def syncBreakerConfig_def getBreaker_def NewCircuitBreaker_def breaker_defs
      error_rate_only_failures [of 1, simplified])

section \<open>A sample environment\<close>

definition sample_env :: "time \<Rightarrow> nat \<Rightarrow> route_env" where
  "sample_env now rnd = (let s = buildRoutingSnapshot sample_data in
     \<lparr>re_alias_snap = s, re_direct_snap = s, re_endpoint_snap = (\<lambda>_. s), re_clock = (\<lambda>_. now), re_order = [], re_rand = rnd\<rparr>)"

definition sample_pool :: "candidate list" where
  "sample_pool = map (\<lambda>(w, pr, m). \<lparr>cd_provider = hd (rd_Providers sample_data), cd_modelID = m, cd_weight = w, cd_priority = pr\<rparr>)
     [(1, 0, ''a''), (3, 5, ''b''), (2, 5, ''c''), (0, 5, ''d'')]"

text \<open>A second provider that serves the same alias, and a random number that would draw the first.\<close>

definition sample_data2 :: RoutingData where
  "sample_data2 =
     (let p = (hd (rd_Providers sample_data))\<lparr>p_ID := ''p2''\<rparr>; m = (hd (rd_Models sample_data))\<lparr>m_ProviderID := ''p2''\<rparr>;
          a = (hd (rd_Aliases sample_data))\<lparr>a_ProviderID := ''p2'', a_Weight := 1\<rparr>;
          e = (hd (rd_Endpoints sample_data))\<lparr>e_ProviderID := ''p2''\<rparr>
      in \<lparr>rd_Providers = rd_Providers sample_data @ [p], rd_Models = rd_Models sample_data @ [m],
          rd_Aliases = rd_Aliases sample_data @ [a], rd_Endpoints = rd_Endpoints sample_data @ [e]\<rparr>)"

definition sample_env2 :: route_env where
  "sample_env2 = (let s = buildRoutingSnapshot sample_data2 in
     \<lparr>re_alias_snap = s, re_direct_snap = s, re_endpoint_snap = (\<lambda>_. s), re_clock = (\<lambda>_. 5), re_order = [], re_rand = 0\<rparr>)"

lemma sample_snapshot:
  "AliasCandidates (buildRoutingSnapshot sample_data) ''gpt'' =
     Some [\<lparr>rc_Provider = hd (rd_Providers sample_data), rc_ModelID = ''llama'', rc_Weight = 3, rc_Priority = 7\<rparr>]"
  "HasEnabledEndpoint (buildRoutingSnapshot sample_data) ''p1'' ''v1/chat/completions''"
  by code_simp+

lemma sample_route:
  "fst (Route NewSmartRouter (sample_env 5 9) ''gpt'' ''v1/chat/completions'') =
     Inr \<lparr>rr_Provider = hd (rd_Providers sample_data), rr_ModelID = ''llama'',
          rr_TargetURL = ''http://a/v1/chat/completions'', rr_RequestedViaAlias = True\<rparr>"
  by code_simp

section \<open>Properties\<close>

text \<open>
  C2. Soundness of a route. When \<open>Route\<close> returns a result, that result is one of the
  candidates the catalog gives for the requested name (the alias rows if there are any, the
  direct models otherwise, as the flag says); the candidate has a positive weight, its provider
  was healthy in the tables and serves the path, and the target URL is the provider's base URL
  and the path joined by exactly one slash. No candidate that passed the filters has a
  higher priority.
\<close>

theorem route_sound:
  assumes "Route r env modelID path = (Inr res, r')"
    and "re_alias_snap env = buildRoutingSnapshot d" and "re_direct_snap env = buildRoutingSnapshot d"
  shows "\<exists>c \<in> set (if spec_alias d modelID \<noteq> [] then spec_alias d modelID else spec_direct d modelID).
      rr_Provider res = rc_Provider c \<and> rr_ModelID res = rc_ModelID c \<and> 0 < rc_Weight c
    \<and> p_IsHealthy (rr_Provider res) \<and> rr_RequestedViaAlias res = (spec_alias d modelID \<noteq> [])
    \<and> (\<exists>i. HasEnabledEndpoint (re_endpoint_snap env i) (p_ID (rr_Provider res)) path)
    \<and> rr_TargetURL res = TrimRight (p_BaseURL (rr_Provider res)) CHR ''/'' @ ''/'' @ TrimLeft path CHR ''/''
    \<and> (\<forall>c' \<in> set (filterByEndpoint (re_endpoint_snap env) path
           (fst (filterByCircuitBreaker r (re_direct_snap env) (re_clock env)
             (fst (resolveCandidates (re_alias_snap env) (re_direct_snap env) modelID))))).
         cd_priority c' \<le> rc_Priority c)"
proof -
  from assms(1) obtain c cs via where cs: "resolveCandidates (re_alias_snap env) (re_direct_snap env) modelID = (cs, via)"
    and el: "eligible (filterByEndpoint (re_endpoint_snap env) path
           (fst (filterByCircuitBreaker r (re_direct_snap env) (re_clock env) cs))) c"
    and res: "res = \<lparr>rr_Provider = cd_provider c, rr_ModelID = cd_modelID c,
           rr_TargetURL = target_url (p_BaseURL (cd_provider c)) path, rr_RequestedViaAlias = via\<rparr>"
    by (rule Route_Inr)
  let ?names = "if spec_alias d modelID \<noteq> [] then spec_alias d modelID else spec_direct d modelID"
  have r: "cs = map to_candidate ?names" "via = (spec_alias d modelID \<noteq> [])"
    using cs assms(2,3) by (auto simp: resolveCandidates_def AliasCandidates_build DirectCandidates_build split: if_splits)
  from el have fe: "c \<in> set (fst (filterByCircuitBreaker r (re_direct_snap env) (re_clock env) cs))"
    "\<exists>i. HasEnabledEndpoint (re_endpoint_snap env i) (p_ID (cd_provider c)) path"
    by (auto simp: eligible_def dest!: filterByEndpoint_in)
  then have "c \<in> set cs" using filterByCircuitBreaker_subset by blast
  with r obtain rc where rc: "rc \<in> set ?names" "c = to_candidate rc" by auto
  have "p_IsHealthy (cd_provider c)"
    using candidate_provider_record [of c d modelID] \<open>c \<in> set cs\<close> cs assms(2,3) by simp
  with rc r el fe(2) res cs show ?thesis
    by (intro bexI [of _ rc]) (auto simp: to_candidate_def eligible_def target_url_def)
qed

theorem route_sound_witness:
  "\<exists>c \<in> set (spec_alias sample_data ''gpt''). rc_ModelID c = ''llama'' \<and> 0 < rc_Weight c"
proof -
  have sa: "spec_alias sample_data ''gpt'' \<noteq> []"
    using sample_snapshot(1) by (simp add: AliasCandidates_build split: if_splits)
  have "Route NewSmartRouter (sample_env 5 9) ''gpt'' ''v1/chat/completions'' =
     (Inr \<lparr>rr_Provider = hd (rd_Providers sample_data), rr_ModelID = ''llama'',
          rr_TargetURL = ''http://a/v1/chat/completions'', rr_RequestedViaAlias = True\<rparr>,
      snd (Route NewSmartRouter (sample_env 5 9) ''gpt'' ''v1/chat/completions''))"
    using sample_route by (simp add: prod_eq_iff)
  from route_sound [OF this, of sample_data] sa show ?thesis
    by (fastforce simp: sample_env_def Let_def)
qed

text \<open>
  Weighted fairness. Among the candidates of the highest priority, each is drawn for as
  many of the equally likely values of \<open>rand.Intn(totalWeight)\<close> as its weight says (times the
  number of its occurrences); candidates of lower priority or without a positive weight are
  drawn for none. Holds whatever order \<open>sort.Slice\<close> leaves, for weights whose sum fits an \<open>int\<close>.
\<close>

theorem weighted_choice:
  assumes "cs \<noteq> []" and "eligible_weight cs < 2 ^ 63"
  shows "card {rnd. rnd < nat (eligible_weight cs) \<and> selectWeightedPriority order rnd cs = Inr c} =
    (if eligible cs c then nat (cd_weight c) * count (mset cs) c else 0)"
proof -
  let ?pool = "selection_pool order cs" and ?T = "eligible_weight cs"
  let ?K = "{k. 0 \<le> k \<and> k < ?T \<and> pick_cumulative ?pool 0 k = Some c}"
  note w = pool_weight [OF assms(1), of order] and pos = pool_positive [of order cs]
  have tot: "\<exists>d. pick_cumulative ?pool 0 k = Some d" if "0 \<le> k" "k < ?T" for k
    using pick_cumulative_total [OF pos, of 0 k] that assms(2) w by simp
  have pick: "selectWeightedPriority order rnd cs = Inr c \<longleftrightarrow> pick_cumulative ?pool 0 (int rnd) = Some c" if "rnd < nat ?T" for rnd
  proof -
    from that have k: "0 \<le> int rnd" "int rnd < ?T" by linarith+
    then obtain d where d: "pick_cumulative ?pool 0 (int rnd) = Some d" using tot by blast
    then have "eligible cs d" using pick_cumulative_in set_selection_pool [OF assms(1), of order] by fastforce
    with d k show ?thesis by (auto simp: selectWeightedPriority_cases [OF assms] pick_candidate_def)
  qed
  have "bij_betw int {rnd. rnd < nat ?T \<and> selectWeightedPriority order rnd cs = Inr c} ?K"
    by (rule bij_betw_byWitness [where f' = nat]) (use pick in \<open>force+\<close>)
  then have "card {rnd. rnd < nat ?T \<and> selectWeightedPriority order rnd cs = Inr c} = card ?K" by (rule bij_betw_same_card)
  also have "\<dots> = nat (cd_weight c) * count (mset ?pool) c"
    using pick_cumulative_count [OF pos, of 0 c] assms(2) w by simp
  finally show ?thesis by (simp add: mset_selection_pool [OF assms(1)])
qed

theorem weighted_choice_witness:
  "card {rnd. rnd < 5 \<and> selectWeightedPriority [2, 1] rnd sample_pool = Inr (sample_pool ! 1)} = 3"
proof -
  have "eligible_weight sample_pool = 5" "eligible sample_pool (sample_pool ! 1)"
    "count (mset sample_pool) (sample_pool ! 1) = 1" "cd_weight (sample_pool ! 1) = 3" "sample_pool \<noteq> []"
    by code_simp+
  with weighted_choice [of sample_pool "[2, 1]" "sample_pool ! 1"] show ?thesis by simp
qed

text \<open>
  C39. When routing fails. With weights that sum below \<open>2 ^ 63\<close>, \<open>Route\<close> never panics, and it
  answers \<open>ErrNoAvailableProvider\<close> exactly when no candidate that passed the breakers and serves
  the path has the highest priority among those and a positive weight.
\<close>

theorem route_error_iff:
  assumes "serving = filterByEndpoint (re_endpoint_snap env) path
      (fst (filterByCircuitBreaker r (re_direct_snap env) (re_clock env)
        (fst (resolveCandidates (re_alias_snap env) (re_direct_snap env) modelID))))"
    and "eligible_weight serving < 2 ^ 63"
  shows "fst (Route r env modelID path) = Inl e \<longleftrightarrow> e = ErrNoAvailableProvider \<and> (\<nexists>c. eligible serving c)"
proof (cases "serving = []")
  case True
  then have "\<nexists>c. eligible serving c" by (simp add: eligible_def)
  then show ?thesis using True assms(1) by (auto simp: Route_def case_prod_beta)
next
  case False
  have "fst (Route r env modelID path) = Inl e \<longleftrightarrow> selectWeightedPriority (re_order env) (re_rand env) serving = Inl e"
    using False assms(1) by (simp add: Route_def case_prod_beta Let_def split: sum.split)
  with selectWeightedPriority_cases [OF False assms(2)] show ?thesis by auto
qed

theorem route_error_iff_witness:
  "fst (Route NewSmartRouter (sample_env 5 9) ''nope'' ''/v1/chat/completions'') = Inl ErrNoAvailableProvider"
proof -
  let ?env = "sample_env 5 9"
  have s: "filterByEndpoint (re_endpoint_snap ?env) ''/v1/chat/completions''
      (fst (filterByCircuitBreaker NewSmartRouter (re_direct_snap ?env) (re_clock ?env)
        (fst (resolveCandidates (re_alias_snap ?env) (re_direct_snap ?env) ''nope'')))) = []"
    by code_simp
  show ?thesis
    using route_error_iff [OF s [symmetric], of ErrNoAvailableProvider] by (simp add: eligible_weight_def eligible_def)
qed

text \<open>
  The sum of the weights is a 64-bit \<open>int\<close> and nothing bounds the weights the admin API
  stores: two aliases of weight \<open>2 ^ 62\<close> and priority 0 wrap the sum to \<open>- 2 ^ 63\<close>, which passes
  the test for zero, and \<open>rand.Intn\<close> panics on it, for every order of the candidates.
\<close>

theorem weight_overflow_panics:
  "selectWeightedPriority order rnd
     [\<lparr>cd_provider = p, cd_modelID = m, cd_weight = 2 ^ 62, cd_priority = 0\<rparr>,
      \<lparr>cd_provider = p', cd_modelID = m', cd_weight = 2 ^ 62, cd_priority = 0\<rparr>] = Inl IntnPanic"
proof -
  let ?cs = "[\<lparr>cd_provider = p, cd_modelID = m, cd_weight = 2 ^ 62, cd_priority = 0\<rparr>,
      \<lparr>cd_provider = p', cd_modelID = m', cd_weight = 2 ^ 62, cd_priority = 0\<rparr>]"
  have el: "eligible_weight ?cs = 2 ^ 63" "eligible ?cs (hd ?cs)" by (simp_all add: eligible_weight_def eligible_def)
  then have "sum_list (map cd_weight (selection_pool order ?cs)) = 2 ^ 63" using pool_weight [of ?cs order] by simp
  then have "total_weight (selection_pool order ?cs) = - (2 ^ 63)" by (simp add: total_weight_i64 i64_def)
  moreover have "selection_pool order ?cs \<noteq> []" using el(2) set_selection_pool [of ?cs order] by auto
  ultimately show ?thesis by (simp add: selectWeightedPriority_def intn_def)
qed

text \<open>
  Failover. Take a provider with the breaker enabled and a threshold below 1. One
  reported failure of it while it has no outcomes recorded, or while its breaker is
  half-open, keeps every route chosen before its cooldown has passed away from that provider,
  whatever name is asked for.
\<close>

theorem failed_provider_is_avoided:
  assumes "find_provider d pid = Some p" and "p_CBEnabled p"
    and "0 < p_CBErrorThreshold p" and "p_CBErrorThreshold p < 1" and "0 < seconds (p_CBCooldownSeconds p)"
    and "sr_breakers r pid = None \<or> (\<exists>cb. sr_breakers r pid = Some cb \<and> br_state cb = StateHalfOpen)"
    and "s = buildRoutingSnapshot d" and "re_alias_snap env = s" and "re_direct_snap env = s"
    and "\<forall>i. re_clock env i < t + seconds (p_CBCooldownSeconds p)"
    and "Route (ReportFailure r s s pid t) env modelID path = (Inr res, r')"
  shows "p_ID (rr_Provider res) \<noteq> pid"
proof (rule Route_held_open [OF _ assms(5) seconds_range assms(10) _ assms(11)])
  have "ProviderByID s pid = Some p" using assms(1,7) by (simp add: ProviderByID_build)
  then show "held_open pid (seconds (p_CBCooldownSeconds p)) t (ReportFailure r s s pid t)"
    using assms(2-6) by (intro ReportFailure_trips) (simp_all add: circuitBreakerEnabled_def)
  fix c assume "c \<in> set (fst (resolveCandidates (re_alias_snap env) (re_direct_snap env) modelID))" and id: "p_ID (cd_provider c) = pid"
  then have "cd_provider c = p" using candidate_provider_record [of c d modelID] assms(1,7-9) by simp
  then show "p_CBEnabled (cd_provider c) \<and> ev_cooldown_ge (seconds (p_CBCooldownSeconds p))
      (EvConfigure (p_CBErrorThreshold (cd_provider c)) (seconds (p_CBWindowSeconds (cd_provider c)))
        (seconds (p_CBCooldownSeconds (cd_provider c))))"
    using assms(2) by simp
qed

theorem failed_provider_is_avoided_witness:
  "let s = buildRoutingSnapshot sample_data2;
       res = fst (Route (ReportFailure NewSmartRouter s s ''p1'' 1) sample_env2 ''gpt'' ''v1/chat/completions'')
   in isl res = False \<and> p_ID (rr_Provider (projr res)) \<noteq> ''p1''"
proof -
  let ?p = "hd (rd_Providers sample_data2)" and ?s = "buildRoutingSnapshot sample_data2"
  let ?R = "Route (ReportFailure NewSmartRouter ?s ?s ''p1'' 1) sample_env2 ''gpt'' ''v1/chat/completions''"
  have p: "find_provider sample_data2 ''p1'' = Some ?p" "p_CBEnabled ?p" "0 < p_CBErrorThreshold ?p" "p_CBErrorThreshold ?p < 1"
    "0 < seconds (p_CBCooldownSeconds ?p)" "5 < 1 + seconds (p_CBCooldownSeconds ?p)" "sr_breakers NewSmartRouter ''p1'' = None"
    by code_simp+
  have ok: "isl (fst ?R) = False" by code_simp
  then have "?R = (Inr (projr (fst ?R)), snd ?R)" by (cases ?R; cases "fst ?R") auto
  then have "p_ID (rr_Provider (projr (fst ?R))) \<noteq> ''p1''"
    using p by (intro failed_provider_is_avoided [OF p(1-5), of NewSmartRouter ?s sample_env2 1])
      (simp_all add: sample_env2_def Let_def)
  with ok show ?thesis by (simp add: Let_def)
qed

text \<open>
  Invariant. On a monotone clock every breaker a router holds, after any sequence of routes
  and reports over any snapshots, is a breaker reached from a new one by its own operations,
  and so well-formed: its settings are usable whatever the providers' settings are.
\<close>

theorem router_breakers_wf:
  assumes "router_reach now r" and "sr_breakers r pid = Some cb"
  shows "cb_reach now cb \<and> cb_wf now cb"
  using router_reach_breakers [OF assms(1)] assms(2) cb_reach_wf by (auto simp: breakers_reach_def ran_def)

theorem router_breakers_wf_witness:
  "let s = buildRoutingSnapshot sample_data; r = ReportFailure NewSmartRouter s s ''p1'' 1
   in \<exists>cb. sr_breakers r ''p1'' = Some cb \<and> cb_wf 1 cb"
proof -
  let ?s = "buildRoutingSnapshot sample_data" and ?r = "ReportFailure NewSmartRouter (buildRoutingSnapshot sample_data) (buildRoutingSnapshot sample_data) ''p1'' 1"
  have "router_reach 1 ?r" by (rule router_reach.router_failure [OF router_reach.router_new [of 1]]) simp
  moreover have "sr_breakers ?r ''p1'' \<noteq> None" by code_simp
  then obtain cb where "sr_breakers ?r ''p1'' = Some cb" by blast
  ultimately show ?thesis using router_breakers_wf [of 1 ?r "''p1''" cb] by (simp add: Let_def)
qed

end
