(* ===== verification/Go_Json.thy ===== *)
theory Go_Json
  imports Go_Strings
begin

text \<open>
  \<open>encoding/json\<close> as the gateway uses it. A document is scanned by a push-down automaton,
  one byte at a time, as the package's own scanner does; the result is a syntax tree that keeps
  number and string literals as they were written, which is what \<open>json.RawMessage\<close> needs. The
  printer writes a tree without white space and with the HTML characters escaped, as
  \<open>json.Marshal\<close> does with raw messages. On top of the tree are the string decoding and
  encoding, objects read into maps, and the conversions to the struct fields the code has.

  The theorems: every tree the scanner returns is well-formed, printing and scanning a
  well-formed tree gives it back, and decoding inverts encoding on valid UTF-8.
\<close>

section \<open>Syntax trees\<close>

datatype json =
    JNull
  | JBool bool
  | JNum string
  | JStr string
  | JArr "json list"
  | JObj "(string \<times> json) list"

section \<open>Literals\<close>

definition is_ws :: "char \<Rightarrow> bool" where
  "is_ws c \<longleftrightarrow> c \<in> {CHR '' '', CHR 0x09, CHR 0x0A, CHR 0x0D}"

definition hex_val :: "char \<Rightarrow> nat option" where
  "hex_val c =
     (let n = of_char c :: nat
      in if 48 \<le> n \<and> n \<le> 57 then Some (n - 48)
         else if 97 \<le> n \<and> n \<le> 102 then Some (n - 87)
         else if 65 \<le> n \<and> n \<le> 70 then Some (n - 55)
         else None)"

datatype str_state = SNorm | SEsc | SHex nat | SBad

fun str_step :: "str_state \<Rightarrow> char \<Rightarrow> str_state" where
  "str_step SNorm c =
     (if c = CHR 0x22 \<or> (of_char c :: nat) < 32 then SBad
      else if c = CHR 0x5C then SEsc else SNorm)"
| "str_step SEsc c =
     (if c \<in> {CHR ''b'', CHR ''f'', CHR ''n'', CHR ''r'', CHR ''t'', CHR 0x5C, CHR ''/'', CHR 0x22} then SNorm
      else if c = CHR ''u'' then SHex 3 else SBad)"
| "str_step (SHex n) c =
     (case hex_val c of None \<Rightarrow> SBad | Some _ \<Rightarrow> (case n of 0 \<Rightarrow> SNorm | Suc m \<Rightarrow> SHex m))"
| "str_step SBad c = SBad"

datatype num_state = NStart | NMinus | NZero | NInt | NDot | NFrac | NExpE | NSign | NExp | NBad

fun num_step :: "num_state \<Rightarrow> char \<Rightarrow> num_state" where
  "num_step NStart c = (if c = CHR ''-'' then NMinus else if c = CHR ''0'' then NZero else if is_digit c then NInt else NBad)"
| "num_step NMinus c = (if c = CHR ''0'' then NZero else if is_digit c then NInt else NBad)"
| "num_step NZero c = (if c = CHR ''.'' then NDot else if c = CHR ''e'' \<or> c = CHR ''E'' then NExpE else NBad)"
| "num_step NInt c = (if is_digit c then NInt else if c = CHR ''.'' then NDot
     else if c = CHR ''e'' \<or> c = CHR ''E'' then NExpE else NBad)"
| "num_step NDot c = (if is_digit c then NFrac else NBad)"
| "num_step NFrac c = (if is_digit c then NFrac else if c = CHR ''e'' \<or> c = CHR ''E'' then NExpE else NBad)"
| "num_step NExpE c = (if is_digit c then NExp else if c = CHR ''+'' \<or> c = CHR ''-'' then NSign else NBad)"
| "num_step NSign c = (if is_digit c then NExp else NBad)"
| "num_step NExp c = (if is_digit c then NExp else NBad)"
| "num_step NBad c = NBad"

definition num_accepts :: "num_state \<Rightarrow> bool" where
  "num_accepts n \<longleftrightarrow> n \<in> {NZero, NInt, NFrac, NExp}"

definition str_ok :: "string \<Rightarrow> bool" where
  "str_ok raw \<longleftrightarrow> foldl str_step SNorm raw = SNorm"

definition num_ok :: "string \<Rightarrow> bool" where
  "num_ok raw \<longleftrightarrow> num_accepts (foldl num_step NStart raw)"

section \<open>The scanner\<close>

text \<open>
  The stack holds the open containers, innermost first, with what they contain so far; the
  depth of nesting is limited to \<open>maxNestingDepth\<close>.
\<close>

definition maxNestingDepth :: nat where
  "maxNestingDepth = 10000"

datatype frame =
    FArr "json list"
  | FObj "(string \<times> json) list"
  | FKey "(string \<times> json) list" string

datatype mode =
    MVal
  | MValOrEnd
  | MKeyOrEnd
  | MKey
  | MColon string
  | MStr bool str_state string
  | MNum num_state string
  | MLit string json
  | MEnd
  | MDone json
  | MFail

type_synonym jconf = "mode \<times> frame list"

fun finish :: "json \<Rightarrow> frame list \<Rightarrow> jconf" where
  "finish v [] = (MDone v, [])"
| "finish v (FArr vs # stk) = (MEnd, FArr (vs @ [v]) # stk)"
| "finish v (FKey ms k # stk) = (MEnd, FObj (ms @ [(k, v)]) # stk)"
| "finish v (FObj ms # stk) = (MFail, [])"

definition push :: "mode \<Rightarrow> frame \<Rightarrow> frame list \<Rightarrow> jconf" where
  "push m f stk = (if length stk < maxNestingDepth then (m, f # stk) else (MFail, []))"

definition begin_value :: "char \<Rightarrow> frame list \<Rightarrow> jconf" where
  "begin_value c stk =
     (if c = CHR ''{'' then push MKeyOrEnd (FObj []) stk
      else if c = CHR ''['' then push MValOrEnd (FArr []) stk
      else if c = CHR 0x22 then (MStr False SNorm [], stk)
      else if c = CHR ''t'' then (MLit ''rue'' (JBool True), stk)
      else if c = CHR ''f'' then (MLit ''alse'' (JBool False), stk)
      else if c = CHR ''n'' then (MLit ''ull'' JNull, stk)
      else if num_step NStart c \<noteq> NBad then (MNum (num_step NStart c) [c], stk)
      else (MFail, []))"

fun end_step :: "char \<Rightarrow> frame list \<Rightarrow> jconf" where
  "end_step c (FArr vs # stk) =
     (if c = CHR '','' then (MVal, FArr vs # stk)
      else if c = CHR '']'' then finish (JArr vs) stk else (MFail, []))"
| "end_step c (FObj ms # stk) =
     (if c = CHR '','' then (MKey, FObj ms # stk)
      else if c = CHR ''}'' then finish (JObj ms) stk else (MFail, []))"
| "end_step c stk = (MFail, [])"

text \<open>One byte after a complete value: in a container, or at the top where only white space follows.\<close>

fun after_value :: "char \<Rightarrow> jconf \<Rightarrow> jconf" where
  "after_value c (MEnd, stk) = (if is_ws c then (MEnd, stk) else end_step c stk)"
| "after_value c (MDone v, stk) = (if is_ws c then (MDone v, stk) else (MFail, []))"
| "after_value c _ = (MFail, [])"

definition set_key :: "string \<Rightarrow> frame list \<Rightarrow> jconf" where
  "set_key k stk = (case stk of FObj ms # s \<Rightarrow> (MVal, FKey ms k # s) | _ \<Rightarrow> (MFail, []))"

fun json_step :: "jconf \<Rightarrow> char \<Rightarrow> jconf" where
  "json_step (MVal, stk) c = (if is_ws c then (MVal, stk) else begin_value c stk)"
| "json_step (MValOrEnd, stk) c =
     (if is_ws c then (MValOrEnd, stk) else if c = CHR '']'' then end_step c stk else begin_value c stk)"
| "json_step (MKeyOrEnd, stk) c =
     (if is_ws c then (MKeyOrEnd, stk) else if c = CHR ''}'' then end_step c stk
      else if c = CHR 0x22 then (MStr True SNorm [], stk) else (MFail, []))"
| "json_step (MKey, stk) c =
     (if is_ws c then (MKey, stk) else if c = CHR 0x22 then (MStr True SNorm [], stk) else (MFail, []))"
| "json_step (MColon k, stk) c =
     (if is_ws c then (MColon k, stk) else if c = CHR '':'' then set_key k stk else (MFail, []))"
| "json_step (MStr key st acc, stk) c =
     (if st = SNorm \<and> c = CHR 0x22 then (if key then (MColon acc, stk) else finish (JStr acc) stk)
      else if str_step st c = SBad then (MFail, []) else (MStr key (str_step st c) (acc @ [c]), stk))"
| "json_step (MNum st acc, stk) c =
     (if num_step st c \<noteq> NBad then (MNum (num_step st c) (acc @ [c]), stk)
      else if num_accepts st then after_value c (finish (JNum acc) stk) else (MFail, []))"
| "json_step (MLit rest v, stk) c =
     (case rest of
        [] \<Rightarrow> (MFail, [])
      | r # rs \<Rightarrow> if c = r then (if rs = [] then finish v stk else (MLit rs v, stk)) else (MFail, []))"
| "json_step (MEnd, stk) c = after_value c (MEnd, stk)"
| "json_step (MDone v, stk) c = after_value c (MDone v, stk)"
| "json_step (MFail, stk) c = (MFail, [])"

fun json_eof :: "jconf \<Rightarrow> json option" where
  "json_eof (MDone v, stk) = Some v"
| "json_eof (MNum st acc, []) = (if num_accepts st then Some (JNum acc) else None)"
| "json_eof _ = None"

definition json_parse :: "string \<Rightarrow> json option" where
  "json_parse s = json_eof (foldl json_step (MVal, []) s)"

section \<open>The printer\<close>

fun comma_join :: "string list \<Rightarrow> string" where
  "comma_join [] = []"
| "comma_join [s] = s"
| "comma_join (s # t # ss) = s @ CHR '','' # comma_join (t # ss)"

fun json_print :: "json \<Rightarrow> string" where
  "json_print JNull = ''null''"
| "json_print (JBool b) = (if b then ''true'' else ''false'')"
| "json_print (JNum raw) = raw"
| "json_print (JStr raw) = CHR 0x22 # raw @ [CHR 0x22]"
| "json_print (JArr vs) = CHR ''['' # comma_join (map json_print vs) @ '']''"
| "json_print (JObj ms) = CHR ''{'' # comma_join (map (\<lambda>(k, v). CHR 0x22 # k @ [CHR 0x22, CHR '':''] @ json_print v) ms) @ ''}''"

text \<open>A tree that the scanner can return with \<open>n\<close> levels of nesting left.\<close>

fun json_ok :: "nat \<Rightarrow> json \<Rightarrow> bool" where
  "json_ok n JNull = True"
| "json_ok n (JBool b) = True"
| "json_ok n (JNum raw) = num_ok raw"
| "json_ok n (JStr raw) = str_ok raw"
| "json_ok n (JArr vs) = (0 < n \<and> (\<forall>v \<in> set vs. json_ok (n - 1) v))"
| "json_ok n (JObj ms) = (0 < n \<and> (\<forall>(k, v) \<in> set ms. str_ok k \<and> json_ok (n - 1) v))"

section \<open>Printing and scanning\<close>

lemma foldl_str_bad [simp]: "foldl str_step SBad s = SBad"
  by (induction s) auto

lemma foldl_num_bad [simp]: "foldl num_step NBad s = NBad"
  by (induction s) auto

lemma scan_str:
  assumes "foldl str_step st raw = SNorm"
  shows "foldl json_step (MStr key st acc, stk) raw = (MStr key SNorm (acc @ raw), stk)"
  using assms
proof (induction raw arbitrary: st acc)
  case (Cons c cs)
  then have "str_step st c \<noteq> SBad" by auto
  moreover have "\<not> (st = SNorm \<and> c = CHR 0x22)" using calculation by auto
  ultimately show ?case using Cons by auto
qed simp

lemma not_accepts_NBad [simp]: "\<not> num_accepts NBad" "\<not> num_accepts NStart"
  by (simp_all add: num_accepts_def)

lemma scan_num:
  assumes "num_accepts (foldl num_step st raw)"
  shows "foldl json_step (MNum st acc, stk) raw = (MNum (foldl num_step st raw) (acc @ raw), stk)"
  using assms
proof (induction raw arbitrary: st acc)
  case (Cons c cs)
  then have "num_step st c \<noteq> NBad" by (auto simp: num_accepts_def)
  then show ?case using Cons by simp
qed simp

definition terminator :: "char \<Rightarrow> bool" where
  "terminator c \<longleftrightarrow> is_ws c \<or> c \<in> {CHR '','', CHR '']'', CHR ''}''}"

lemma terminator_not_num: "terminator c \<Longrightarrow> \<not> is_digit c \<and> c \<notin> {CHR ''-'', CHR ''+'', CHR ''0'', CHR ''.'', CHR ''e'', CHR ''E''}"
  by (auto simp: terminator_def is_ws_def is_digit_def)

lemma num_step_terminator: "terminator c \<Longrightarrow> num_step st c = NBad"
  using terminator_not_num [of c] by (cases st) simp_all

lemma num_head:
  "is_digit c \<or> c = CHR ''-'' \<Longrightarrow>
   c \<notin> {CHR ''{'', CHR ''['', CHR 0x22, CHR ''t'', CHR ''f'', CHR ''n'', CHR '']''} \<and> \<not> is_ws c"
  by (auto simp: is_digit_def is_ws_def)

lemma finish_cases: "\<exists>stk'. finish v stk = (MEnd, stk') \<or> finish v stk = (MDone v, []) \<or> finish v stk = (MFail, [])"
  by (cases "(v, stk)" rule: finish.cases) auto

lemma step_finish: "json_step (finish v stk) c = after_value c (finish v stk)"
  using finish_cases [of v stk] by auto

lemma begin_num:
  assumes "num_ok raw" and "m = MVal \<or> m = MValOrEnd"
  shows "\<exists>st. num_accepts st \<and> foldl json_step (m, stk) raw = (MNum st raw, stk)"
proof -
  obtain c cs where raw: "raw = c # cs" using assms(1) by (cases raw) (auto simp: num_ok_def num_accepts_def)
  have n: "num_step NStart c \<noteq> NBad"
    using assms(1) raw not_accepts_NBad(1) by (metis foldl_Cons foldl_num_bad num_ok_def)
  then have "is_digit c \<or> c = CHR ''-''" by (simp add: is_digit_def split: if_splits)
  from num_head [OF this] have "json_step (m, stk) c = (MNum (num_step NStart c) [c], stk)"
    using n assms(2) by (auto simp: begin_value_def simp del: num_step.simps)
  then show ?thesis
    using assms(1) scan_num [of "num_step NStart c" cs "[c]" stk] by (auto simp: raw num_ok_def)
qed

text \<open>Scanning a printed value; a number is complete only with the byte after it.\<close>

definition scanned :: "json \<Rightarrow> frame list \<Rightarrow> jconf \<Rightarrow> bool" where
  "scanned v stk cf \<longleftrightarrow> cf = finish v stk \<or> (\<exists>st raw. v = JNum raw \<and> num_accepts st \<and> cf = (MNum st raw, stk))"

definition scans :: "json \<Rightarrow> bool" where
  "scans v \<longleftrightarrow> (\<forall>m stk. (m = MVal \<or> m = MValOrEnd) \<longrightarrow> json_ok (maxNestingDepth - length stk) v \<longrightarrow>
     scanned v stk (foldl json_step (m, stk) (json_print v)))"

lemma scanned_step: "scanned v stk cf \<Longrightarrow> terminator c \<Longrightarrow> json_step cf c = after_value c (finish v stk)"
  by (auto simp: scanned_def step_finish num_step_terminator)

lemma scans_step:
  "scans v \<Longrightarrow> m = MVal \<or> m = MValOrEnd \<Longrightarrow> terminator c \<Longrightarrow> json_ok (maxNestingDepth - length stk) v \<Longrightarrow>
   json_step (foldl json_step (m, stk) (json_print v)) c = after_value c (finish v stk)"
  unfolding scans_def using scanned_step by blast

lemma scan_elems:
  assumes "\<forall>v \<in> set vs. scans v \<and> json_ok (maxNestingDepth - Suc (length stk)) v" and "vs \<noteq> []"
    and "m = MVal \<or> m = MValOrEnd"
  shows "foldl json_step (m, FArr us # stk) (comma_join (map json_print vs) @ '']'') = finish (JArr (us @ vs)) stk"
  using assms
proof (induction vs arbitrary: us m rule: induct_list012)
  case (2 v)
  have "terminator (CHR '']'')" by (simp add: terminator_def)
  with 2 have "json_step (foldl json_step (m, FArr us # stk) (json_print v)) CHR '']'' = after_value CHR '']'' (finish v (FArr us # stk))"
    by (intro scans_step) auto
  then show ?case by (simp add: is_ws_def)
next
  case (3 v w vs)
  have "terminator (CHR '','')" by (simp add: terminator_def)
  with 3 have "json_step (foldl json_step (m, FArr us # stk) (json_print v)) CHR '','' = after_value CHR '','' (finish v (FArr us # stk))"
    by (intro scans_step) auto
  then show ?case using 3 by (simp add: is_ws_def)
qed simp

lemma scan_key:
  assumes "str_ok k"
  shows "foldl json_step (MStr True SNorm [], FObj ms # stk) (k @ [CHR 0x22, CHR '':'']) = (MVal, FKey ms k # stk)"
proof -
  have "foldl json_step (MStr True SNorm [], FObj ms # stk) k = (MStr True SNorm k, FObj ms # stk)"
    using assms scan_str [of SNorm k True "[]"] by (simp add: str_ok_def)
  then show ?thesis by (simp add: is_ws_def set_key_def)
qed

lemma scan_members:
  assumes "\<forall>(k, v) \<in> set ms. str_ok k \<and> scans v \<and> json_ok (maxNestingDepth - Suc (length stk)) v" and "ms \<noteq> []"
    and "m = MKey \<or> m = MKeyOrEnd"
  shows "foldl json_step (m, FObj ns # stk)
      (comma_join (map (\<lambda>(k, v). CHR 0x22 # k @ [CHR 0x22, CHR '':''] @ json_print v) ms) @ ''}'') = finish (JObj (ns @ ms)) stk"
  using assms
proof (induction ms arbitrary: ns m rule: induct_list012)
  case (2 kv)
  obtain k v where kv: "kv = (k, v)" by fastforce
  have open_key: "json_step (m, FObj ns # stk) CHR 0x22 = (MStr True SNorm [], FObj ns # stk)"
    using 2 by (auto simp: is_ws_def)
  have "terminator (CHR ''}'')" by (simp add: terminator_def)
  with 2 kv have "json_step (foldl json_step (MVal, FKey ns k # stk) (json_print v)) CHR ''}'' = after_value CHR ''}'' (finish v (FKey ns k # stk))"
    by (intro scans_step) auto
  with open_key scan_key [of k ns stk] 2 kv show ?case by (simp add: is_ws_def)
next
  case (3 kv kv' ms)
  obtain k v where kv: "kv = (k, v)" by fastforce
  have open_key: "json_step (m, FObj ns # stk) CHR 0x22 = (MStr True SNorm [], FObj ns # stk)"
    using 3 by (auto simp: is_ws_def)
  have "terminator (CHR '','')" by (simp add: terminator_def)
  with 3 kv have "json_step (foldl json_step (MVal, FKey ns k # stk) (json_print v)) CHR '','' = after_value CHR '','' (finish v (FKey ns k # stk))"
    by (intro scans_step) auto
  with open_key scan_key [of k ns stk] 3 kv show ?case by (simp add: is_ws_def)
qed simp

lemma depth_pred: "maxNestingDepth - Suc n = maxNestingDepth - n - 1"
  by simp

lemma scans_all: "scans v"
proof (induction v)
  case (JNum raw)
  then show ?case using begin_num by (force simp: scans_def scanned_def)
next
  case (JStr raw)
  have "foldl json_step (MStr False SNorm [], stk) raw = (MStr False SNorm raw, stk)" if "str_ok raw" for stk
    using that scan_str [of SNorm raw False "[]"] by (simp add: str_ok_def)
  then show ?case by (auto simp: scans_def scanned_def begin_value_def is_ws_def)
next
  case (JArr vs)
  have "foldl json_step (m, stk) (json_print (JArr vs)) = finish (JArr vs) stk"
    if m: "m = MVal \<or> m = MValOrEnd" and ok: "json_ok (maxNestingDepth - length stk) (JArr vs)" for m stk
  proof -
    have d: "length stk < maxNestingDepth" using ok by simp
    have b: "json_step (m, stk) CHR ''['' = (MValOrEnd, FArr [] # stk)"
      using m d by (auto simp: begin_value_def push_def is_ws_def)
    have e: "\<forall>v \<in> set vs. scans v \<and> json_ok (maxNestingDepth - Suc (length stk)) v"
      using ok JArr unfolding depth_pred by simp
    have "foldl json_step (MValOrEnd, FArr [] # stk) (comma_join (map json_print vs) @ '']'') = finish (JArr vs) stk"
      using scan_elems [OF e, of MValOrEnd "[]"] by (cases "vs = []") (simp_all only: append_Nil, simp_all add: is_ws_def)
    then show ?thesis by (simp only: json_print.simps foldl_Cons b)
  qed
  then show ?case by (simp add: scans_def scanned_def)
next
  case (JObj ms)
  have "foldl json_step (m, stk) (json_print (JObj ms)) = finish (JObj ms) stk"
    if m: "m = MVal \<or> m = MValOrEnd" and ok: "json_ok (maxNestingDepth - length stk) (JObj ms)" for m stk
  proof -
    have d: "length stk < maxNestingDepth" using ok by simp
    have b: "json_step (m, stk) CHR ''{'' = (MKeyOrEnd, FObj [] # stk)"
      using m d by (auto simp: begin_value_def push_def is_ws_def)
    have e: "\<forall>(k, v) \<in> set ms. str_ok k \<and> scans v \<and> json_ok (maxNestingDepth - Suc (length stk)) v"
      using ok JObj unfolding depth_pred by fastforce
    have "foldl json_step (MKeyOrEnd, FObj [] # stk)
      (comma_join (map (\<lambda>(k, v). CHR 0x22 # k @ [CHR 0x22, CHR '':''] @ json_print v) ms) @ ''}'') = finish (JObj ms) stk"
      using scan_members [OF e, of MKeyOrEnd "[]"] by (cases "ms = []") (simp_all only: append_Nil, simp_all add: is_ws_def)
    then show ?thesis by (simp only: json_print.simps foldl_Cons b)
  qed
  then show ?case by (simp add: scans_def scanned_def)
qed (auto simp: scans_def scanned_def begin_value_def is_ws_def)

lemma json_eof_scanned: "scanned v [] cf \<Longrightarrow> json_eof cf = Some v"
  by (auto simp: scanned_def)

theorem parse_print: "json_ok maxNestingDepth v \<Longrightarrow> json_parse (json_print v) = Some v"
  using scans_all [of v] unfolding json_parse_def scans_def by (intro json_eof_scanned) simp

section \<open>Scanned trees are well-formed\<close>

fun frame_ok :: "nat \<Rightarrow> frame \<Rightarrow> bool" where
  "frame_ok n (FArr vs) = (\<forall>v \<in> set vs. json_ok n v)"
| "frame_ok n (FObj ms) = (\<forall>(k, v) \<in> set ms. str_ok k \<and> json_ok n v)"
| "frame_ok n (FKey ms k) = ((\<forall>(k, v) \<in> set ms. str_ok k \<and> json_ok n v) \<and> str_ok k)"

fun stack_ok :: "frame list \<Rightarrow> bool" where
  "stack_ok [] = True"
| "stack_ok (f # s) = (frame_ok (maxNestingDepth - Suc (length s)) f \<and> length s < maxNestingDepth \<and> stack_ok s)"

fun mode_ok :: "mode \<Rightarrow> bool" where
  "mode_ok (MColon k) = str_ok k"
| "mode_ok (MStr key st acc) = (foldl str_step SNorm acc = st)"
| "mode_ok (MNum st acc) = (foldl num_step NStart acc = st)"
| "mode_ok (MLit rest v) = (\<forall>n. json_ok n v)"
| "mode_ok (MDone v) = json_ok maxNestingDepth v"
| "mode_ok _ = True"

definition conf_ok :: "jconf \<Rightarrow> bool" where
  "conf_ok cf \<longleftrightarrow> mode_ok (fst cf) \<and> stack_ok (snd cf)"

lemma conf_ok_fail [simp]: "conf_ok (MFail, [])"
  by (simp add: conf_ok_def)

lemma finish_ok: "stack_ok stk \<Longrightarrow> json_ok (maxNestingDepth - length stk) v \<Longrightarrow> conf_ok (finish v stk)"
  by (cases "(v, stk)" rule: finish.cases) (auto simp: conf_ok_def)

lemma end_step_ok: "stack_ok stk \<Longrightarrow> conf_ok (end_step c stk)"
proof (induction c stk rule: end_step.induct)
  case (1 c vs stk)
  then have "json_ok (maxNestingDepth - length stk) (JArr vs)" unfolding stack_ok.simps depth_pred by simp
  with 1 show ?case by (auto simp: finish_ok conf_ok_def [of "(MVal, _)"])
next
  case (2 c ms stk)
  then have "json_ok (maxNestingDepth - length stk) (JObj ms)" unfolding stack_ok.simps depth_pred by simp
  with 2 show ?case by (auto simp: finish_ok conf_ok_def [of "(MKey, _)"])
qed auto

lemma after_value_ok: "conf_ok cf \<Longrightarrow> conf_ok (after_value c cf)"
  by (cases "(c, cf)" rule: after_value.cases) (auto simp: conf_ok_def [of "(MEnd, _)"] end_step_ok)

lemma push_ok: "stack_ok stk \<Longrightarrow> mode_ok m \<Longrightarrow> frame_ok (maxNestingDepth - Suc (length stk)) f \<Longrightarrow> conf_ok (push m f stk)"
  by (simp add: push_def) (simp add: conf_ok_def)

lemma begin_value_ok: "stack_ok stk \<Longrightarrow> conf_ok (begin_value c stk)"
  by (simp add: begin_value_def push_ok) (simp add: conf_ok_def)

lemma json_step_ok: "conf_ok cf \<Longrightarrow> conf_ok (json_step cf c)"
proof (induction cf c rule: json_step.induct)
  case (1 stk c)
  then show ?case by (simp add: begin_value_ok conf_ok_def [of "(MVal, _)"])
next
  case (2 stk c)
  then show ?case by (simp add: begin_value_ok end_step_ok conf_ok_def [of "(MValOrEnd, _)"])
next
  case (3 stk c)
  then show ?case by (auto simp: end_step_ok conf_ok_def [of "(MKeyOrEnd, _)"]) (simp add: conf_ok_def)
next
  case (5 k stk c)
  then show ?case by (auto simp: set_key_def conf_ok_def split: list.splits frame.splits)
next
  case (6 key st acc stk c)
  then show ?case by (auto simp: finish_ok str_ok_def conf_ok_def [of "(MStr _ _ _, _)"]) (simp add: conf_ok_def str_ok_def)
next
  case (7 st acc stk c)
  then have "num_accepts st \<Longrightarrow> conf_ok (finish (JNum acc) stk)" by (intro finish_ok) (simp_all add: conf_ok_def num_ok_def)
  with 7 show ?case by (auto simp: after_value_ok) (simp add: conf_ok_def)
next
  case (8 rest v stk c)
  then show ?case by (auto simp: finish_ok conf_ok_def [of "(MLit _ _, _)"] split: list.splits)
next
  case (9 stk c)
  then show ?case unfolding json_step.simps by (rule after_value_ok)
next
  case (10 v stk c)
  then show ?case unfolding json_step.simps by (rule after_value_ok)
qed (auto simp: conf_ok_def)

theorem parse_ok:
  assumes "json_parse s = Some v"
  shows "json_ok maxNestingDepth v"
proof -
  have "conf_ok (foldl json_step cf s)" if "conf_ok cf" for cf
    using that by (induction s arbitrary: cf) (simp_all add: json_step_ok)
  then have "conf_ok (foldl json_step (MVal, []) s)" by (simp add: conf_ok_def)
  with assms show ?thesis
    unfolding json_parse_def
    by (cases "foldl json_step (MVal, []) s" rule: json_eof.cases) (auto simp: conf_ok_def num_ok_def split: if_splits)
qed

section \<open>UTF-8\<close>

abbreviation byte :: "char \<Rightarrow> nat" where
  "byte c \<equiv> of_char c"

definition cont :: "char \<Rightarrow> bool" where
  "cont c \<longleftrightarrow> 128 \<le> byte c \<and> byte c \<le> 191"

text \<open>The second byte has a narrower range after the lead bytes E0, ED, F0 and F4.\<close>

definition second_ok :: "char \<Rightarrow> char \<Rightarrow> bool" where
  "second_ok a b \<longleftrightarrow> cont b \<and> (byte a = 224 \<longrightarrow> 160 \<le> byte b) \<and> (byte a = 237 \<longrightarrow> byte b \<le> 159) \<and>
     (byte a = 240 \<longrightarrow> 144 \<le> byte b) \<and> (byte a = 244 \<longrightarrow> byte b \<le> 143)"

text \<open>The width of the rune at the head of the string; 0 when \<open>utf8.DecodeRune\<close> reports an error.\<close>

definition utf8_len :: "string \<Rightarrow> nat" where
  "utf8_len s =
     (case s of [] \<Rightarrow> 0
      | a # s1 \<Rightarrow>
        (if byte a < 128 then 1
         else if 194 \<le> byte a \<and> byte a \<le> 223 then
           (case s1 of b # _ \<Rightarrow> if cont b then 2 else 0 | _ \<Rightarrow> 0)
         else if 224 \<le> byte a \<and> byte a \<le> 239 then
           (case s1 of b # c # _ \<Rightarrow>
              if second_ok a b \<and> cont c
              then 3 else 0
            | _ \<Rightarrow> 0)
         else if 240 \<le> byte a \<and> byte a \<le> 244 then
           (case s1 of b # c # d # _ \<Rightarrow>
              if second_ok a b \<and> cont c \<and> cont d
              then 4 else 0
            | _ \<Rightarrow> 0)
         else 0))"

lemma utf8_len_le: "utf8_len s \<le> length s"
  by (simp add: utf8_len_def split: list.splits)

function utf8_valid :: "string \<Rightarrow> bool" where
  "utf8_valid s = (if s = [] then True else if utf8_len s = 0 then False else utf8_valid (drop (utf8_len s) s))"
  by pat_completeness auto
termination
  by (relation "measure length") auto

declare utf8_valid.simps [simp del]

definition replacement :: string where
  "replacement = [CHR 0xEF, CHR 0xBF, CHR 0xBD]"

definition utf8_enc :: "nat \<Rightarrow> string" where
  "utf8_enc r =
     (if r < 0x80 then [char_of r]
      else if r < 0x800 then [char_of (0xC0 + r div 64), char_of (0x80 + r mod 64)]
      else if r < 0x10000 then [char_of (0xE0 + r div 4096), char_of (0x80 + r div 64 mod 64), char_of (0x80 + r mod 64)]
      else [char_of (0xF0 + r div 262144), char_of (0x80 + r div 4096 mod 64), char_of (0x80 + r div 64 mod 64), char_of (0x80 + r mod 64)])"

section \<open>String literals\<close>

text \<open>\<open>getu4\<close>: the code unit of a \<open>\uXXXX\<close> at the head.\<close>

definition getu4 :: "string \<Rightarrow> nat option" where
  "getu4 s =
     (case s of
        b # u # h1 # h2 # h3 # h4 # _ \<Rightarrow>
          (if b = CHR 0x5C \<and> u = CHR ''u'' then
             (case (hex_val h1, hex_val h2, hex_val h3, hex_val h4) of
                (Some a, Some b, Some c, Some d) \<Rightarrow> Some (a * 4096 + b * 256 + c * 16 + d)
              | _ \<Rightarrow> None)
           else None)
      | _ \<Rightarrow> None)"

definition is_surrogate :: "nat \<Rightarrow> bool" where
  "is_surrogate r \<longleftrightarrow> 0xD800 \<le> r \<and> r < 0xE000"

definition surrogate_pair :: "nat \<Rightarrow> nat option \<Rightarrow> nat option" where
  "surrogate_pair r r1 =
     (case r1 of None \<Rightarrow> None
      | Some lo \<Rightarrow>
        if 0xD800 \<le> r \<and> r < 0xDC00 \<and> 0xDC00 \<le> lo \<and> lo < 0xE000
        then Some ((r - 0xD800) * 1024 + (lo - 0xDC00) + 0x10000) else None)"

definition esc_char :: "char \<Rightarrow> char" where
  "esc_char e =
     (if e = CHR ''b'' then CHR 0x08 else if e = CHR ''f'' then CHR 0x0C else if e = CHR ''n'' then CHR 0x0A
      else if e = CHR ''r'' then CHR 0x0D else if e = CHR ''t'' then CHR 0x09 else e)"

text \<open>The value of a string literal; malformed UTF-8 and lone surrogates become U+FFFD.\<close>

function unquote :: "string \<Rightarrow> string" where
  "unquote [] = []"
| "unquote (c # s) =
     (if c = CHR 0x5C then
        (if s \<noteq> [] \<and> hd s = CHR ''u'' then
           (case getu4 (c # s) of
              None \<Rightarrow> []
            | Some r \<Rightarrow>
                (if is_surrogate r then
                   (case surrogate_pair r (getu4 (drop 5 s)) of
                      Some p \<Rightarrow> utf8_enc p @ unquote (drop 11 s)
                    | None \<Rightarrow> replacement @ unquote (drop 5 s))
                 else utf8_enc r @ unquote (drop 5 s)))
         else (case s of [] \<Rightarrow> [] | e # r \<Rightarrow> if str_step SEsc e = SBad then [] else esc_char e # unquote r))
      else if byte c < 128 then c # unquote s
      else if utf8_len (c # s) = 0 then replacement @ unquote s
      else c # take (utf8_len (c # s) - 1) s @ unquote (drop (utf8_len (c # s) - 1) s))"
  by pat_completeness auto
termination
  by (relation "measure length") auto

declare unquote.simps(2) [simp del]

definition hex_lower :: "nat \<Rightarrow> char" where
  "hex_lower n = char_of (if n < 10 then 48 + n else 87 + n)"

definition u00 :: "char \<Rightarrow> string" where
  "u00 c = [CHR 0x5C, CHR ''u'', CHR ''0'', CHR ''0'', hex_lower (byte c div 16), hex_lower (byte c mod 16)]"

definition html_char :: "char \<Rightarrow> bool" where
  "html_char c \<longleftrightarrow> c \<in> {CHR ''<'', CHR ''>'', CHR ''&''}"

definition quote_ascii :: "char \<Rightarrow> string" where
  "quote_ascii c =
     (if c = CHR 0x22 \<or> c = CHR 0x5C then [CHR 0x5C, c]
      else if c = CHR 0x08 then [CHR 0x5C, CHR ''b''] else if c = CHR 0x0C then [CHR 0x5C, CHR ''f'']
      else if c = CHR 0x0A then [CHR 0x5C, CHR ''n''] else if c = CHR 0x0D then [CHR 0x5C, CHR ''r'']
      else if c = CHR 0x09 then [CHR 0x5C, CHR ''t'']
      else if byte c < 32 \<or> html_char c then u00 c
      else [c])"

definition u2028 :: "char \<Rightarrow> string" where
  "u2028 c = [CHR 0x5C, CHR ''u'', CHR ''2'', CHR ''0'', CHR ''2'', if c = CHR 0xA8 then CHR ''8'' else CHR ''9'']"

fun line_sep :: "string \<Rightarrow> bool" where
  "line_sep (a # b # c # s) = (a = CHR 0xE2 \<and> b = CHR 0x80 \<and> (c = CHR 0xA8 \<or> c = CHR 0xA9))"
| "line_sep _ = False"

text \<open>What \<open>json.Marshal\<close> writes between the quotes for a Go string.\<close>

function quote :: "string \<Rightarrow> string" where
  "quote [] = []"
| "quote (c # s) =
     (if byte c < 128 then quote_ascii c @ quote s
      else if utf8_len (c # s) = 0 then [CHR 0x5C, CHR ''u'', CHR ''f'', CHR ''f'', CHR ''f'', CHR ''d''] @ quote s
      else if line_sep (c # s) then u2028 (s ! 1) @ quote (drop 2 s)
      else c # take (utf8_len (c # s) - 1) s @ quote (drop (utf8_len (c # s) - 1) s))"
  by pat_completeness auto
termination
  by (relation "measure length") auto

declare quote.simps(2) [simp del]

section \<open>Decoding what was encoded\<close>

lemma hex_val_lower: "n < 16 \<Longrightarrow> hex_val (hex_lower n) = Some n"
  by (auto simp: hex_val_def hex_lower_def Let_def)

lemma byte_less_256: "byte c < 256"
  by simp

lemma char_of_byte [simp]: "char_of (byte c) = c"
  by simp

lemma utf8_enc_ascii: "byte c < 128 \<Longrightarrow> utf8_enc (byte c) = [c]"
  by (simp add: utf8_enc_def)

lemma unquote_u00:
  assumes "byte c < 128"
  shows "unquote (u00 c @ t) = c # unquote t"
proof -
  have "byte c div 16 < 16" "byte c mod 16 < 16" using assms by auto
  moreover have "hex_val CHR ''0'' = Some 0" by (simp add: hex_val_def)
  ultimately have "getu4 (u00 c @ t) = Some (byte c)" by (simp add: getu4_def u00_def hex_val_lower)
  moreover have "\<not> is_surrogate (byte c)" using assms by (simp add: is_surrogate_def)
  ultimately show ?thesis using assms by (simp add: u00_def unquote.simps(2) utf8_enc_ascii)
qed

lemma unquote_ascii: "byte c < 128 \<Longrightarrow> c \<noteq> CHR 0x5C \<Longrightarrow> unquote (c # t) = c # unquote t"
  by (simp add: unquote.simps(2))

lemma unquote_esc: "e \<noteq> CHR ''u'' \<Longrightarrow> str_step SEsc e \<noteq> SBad \<Longrightarrow> unquote (CHR 0x5C # e # t) = esc_char e # unquote t"
  by (simp add: unquote.simps(2))

lemma unquote_quote_ascii: "byte c < 128 \<Longrightarrow> unquote (quote_ascii c @ t) = c # unquote t"
  by (auto simp: quote_ascii_def unquote_u00 unquote_ascii unquote_esc esc_char_def)

lemma utf8_len_cases:
  assumes "utf8_len (a # s) = Suc n"
  obtains "byte a < 128" "n = 0"
  | b r where "194 \<le> byte a" "byte a \<le> 223" "s = b # r" "cont b" "n = 1"
  | b c r where "224 \<le> byte a" "byte a \<le> 239" "s = b # c # r" "second_ok a b" "cont c" "n = 2"
  | b c d r where "240 \<le> byte a" "byte a \<le> 244" "s = b # c # d # r" "second_ok a b" "cont c" "cont d" "n = 3"
  using assms by (auto simp: utf8_len_def split: list.splits if_splits)

lemma utf8_len_simps:
  "byte a < 128 \<Longrightarrow> utf8_len (a # r) = 1"
  "194 \<le> byte a \<Longrightarrow> byte a \<le> 223 \<Longrightarrow> cont b \<Longrightarrow> utf8_len (a # b # r) = 2"
  "224 \<le> byte a \<Longrightarrow> byte a \<le> 239 \<Longrightarrow> second_ok a b \<Longrightarrow> cont c \<Longrightarrow> utf8_len (a # b # c # r) = 3"
  "240 \<le> byte a \<Longrightarrow> byte a \<le> 244 \<Longrightarrow> second_ok a b \<Longrightarrow> cont c \<Longrightarrow> cont d \<Longrightarrow> utf8_len (a # b # c # d # r) = 4"
  by (simp_all add: utf8_len_def)

lemma utf8_len_prefix:
  assumes "utf8_len (c # s) = Suc n"
  shows "utf8_len (c # take n s @ t) = Suc n" and "length (take n s) = n" and "list_all cont (take n s)"
  using assms
  by (cases rule: utf8_len_cases; auto simp: utf8_len_simps numeral_2_eq_2 numeral_3_eq_3 second_ok_def)+

lemma utf8_enc_u2028: "utf8_enc 0x2028 = [CHR 0xE2, CHR 0x80, CHR 0xA8]" "utf8_enc 0x2029 = [CHR 0xE2, CHR 0x80, CHR 0xA9]"
  using char_of_byte [of "CHR 0xE2"] char_of_byte [of "CHR 0x80"] char_of_byte [of "CHR 0xA8"] char_of_byte [of "CHR 0xA9"]
  by (simp_all add: utf8_enc_def)

lemma unquote_u2028:
  assumes "c = CHR 0xA8 \<or> c = CHR 0xA9"
  shows "unquote (u2028 c @ t) = [CHR 0xE2, CHR 0x80, c] @ unquote t"
  using assms
  by (auto simp: u2028_def unquote.simps(2) getu4_def hex_val_def is_surrogate_def utf8_enc_u2028)

lemma line_sep_cases:
  assumes "line_sep (c # s)"
  obtains x t where "c = CHR 0xE2" "s = CHR 0x80 # x # t" "x = CHR 0xA8 \<or> x = CHR 0xA9" "utf8_len (c # s) = 3"
  using assms by (cases "c # s" rule: line_sep.cases) (auto simp: utf8_len_simps second_ok_def cont_def)

lemma utf8_valid_Cons: "utf8_valid (c # s) \<longleftrightarrow> (\<exists>n. utf8_len (c # s) = Suc n \<and> utf8_valid (drop n s))"
  by (subst utf8_valid.simps) (cases "utf8_len (c # s)"; simp)

lemma unquote_quote: "utf8_valid s \<Longrightarrow> unquote (quote s) = s"
proof (induction s rule: quote.induct)
  case (2 c s)
  from 2(5) obtain n where n: "utf8_len (c # s) = Suc n" and v: "utf8_valid (drop n s)" by (auto simp: utf8_valid_Cons)
  consider (ascii) "byte c < 128" | (sep) "\<not> byte c < 128" "line_sep (c # s)" | (rune) "\<not> byte c < 128" "\<not> line_sep (c # s)" by blast
  then show ?case
  proof cases
    case ascii
    with n v have "utf8_valid s" by (simp add: utf8_len_simps)
    with ascii 2(1) show ?thesis by (simp add: quote.simps(2) unquote_quote_ascii)
  next
    case sep
    from sep(2) obtain x t where s: "c = CHR 0xE2" "s = CHR 0x80 # x # t" "x = CHR 0xA8 \<or> x = CHR 0xA9" "utf8_len (c # s) = 3"
      by (rule line_sep_cases)
    with n v have "utf8_valid (drop 2 s)" by (simp add: numeral_3_eq_3)
    with 2(3) sep n s show ?thesis by (simp add: quote.simps(2) unquote_u2028)
  next
    case rune
    with 2(4) n v have IH: "unquote (quote (drop n s)) = drop n s" by simp
    have "quote (c # s) = c # take n s @ quote (drop n s)" using rune n by (simp add: quote.simps(2))
    moreover have "unquote (c # take n s @ t) = c # take n s @ unquote t" for t
      using rune n utf8_len_prefix(1) [OF n, of t] utf8_len_prefix(2) [OF n] by (auto simp: unquote.simps(2))
    ultimately show ?thesis using IH by simp
  qed
qed simp

section \<open>Encoded strings are literals\<close>

lemma str_step_high: "list_all (\<lambda>c. 128 \<le> byte c) s \<Longrightarrow> foldl str_step SNorm s = SNorm"
  by (induction s) auto

lemma hex_val_some: "hex_val CHR ''0'' = Some 0" "hex_val CHR ''2'' = Some 2" "hex_val CHR ''8'' = Some 8" "hex_val CHR ''9'' = Some 9"
  "hex_val CHR ''f'' = Some 15" "hex_val CHR ''d'' = Some 13"
  by (simp_all add: hex_val_def)

lemma str_step_u00: "foldl str_step SNorm (u00 c) = SNorm"
proof -
  have "byte c div 16 < 16" "byte c mod 16 < 16" by (simp_all add: less_mult_imp_div_less)
  then show ?thesis by (simp add: u00_def hex_val_lower hex_val_some numeral_3_eq_3)
qed

lemma str_step_quote_ascii: "byte c < 128 \<Longrightarrow> foldl str_step SNorm (quote_ascii c) = SNorm"
  using str_step_u00 [of c] by (simp add: quote_ascii_def)

lemma str_step_u2028: "foldl str_step SNorm (u2028 c) = SNorm"
  by (simp add: u2028_def hex_val_some numeral_3_eq_3)

lemma str_ok_quote [simp]: "str_ok (quote s)"
  unfolding str_ok_def
proof (induction s rule: quote.induct)
  case (2 c s)
  show ?case
  proof (cases "byte c < 128")
    case True
    with 2(1) show ?thesis by (simp add: quote.simps(2) str_step_quote_ascii)
  next
    case False
    show ?thesis
    proof (cases "utf8_len (c # s)")
      case 0
      with 2(2) False show ?thesis by (simp add: quote.simps(2) hex_val_some numeral_3_eq_3)
    next
      case (Suc n)
      have "foldl str_step SNorm (c # take n s) = SNorm"
        using False utf8_len_prefix(3) [OF Suc] by (intro str_step_high) (auto simp: cont_def list_all_iff)
      with 2(3,4) False Suc show ?thesis
        by (cases "line_sep (c # s)") (simp_all add: quote.simps(2) str_step_u2028)
    qed
  qed
qed simp

section \<open>Decoded strings are valid UTF-8\<close>

lemma utf8_valid_Nil [simp]: "utf8_valid []"
  by (simp add: utf8_valid.simps)

lemma utf8_valid_append: "utf8_valid a \<Longrightarrow> utf8_valid (a @ b) = utf8_valid b"
proof (induction a rule: utf8_valid.induct)
  case (1 a)
  show ?case
  proof (cases a)
    case (Cons c s)
    with 1(2) obtain n where n: "utf8_len (c # s) = Suc n" and v: "utf8_valid (drop n s)" by (auto simp: utf8_valid_Cons)
    then have "utf8_valid (drop n s @ b) = utf8_valid b" using 1(1) Cons by simp
    moreover have "utf8_len (c # s @ b) = Suc n"
      using utf8_len_prefix(1) [OF n, of "drop n s @ b"] by (simp add: append_assoc [symmetric] del: append_assoc)
    moreover have "drop n (s @ b) = drop n s @ b" using utf8_len_prefix(2) [OF n] by simp
    ultimately show ?thesis using Cons by (simp add: utf8_valid_Cons)
  qed simp
qed

lemma utf8_valid_ascii: "byte c < 128 \<Longrightarrow> utf8_valid (c # s) = utf8_valid s"
  by (simp add: utf8_valid_Cons utf8_len_simps)

lemma utf8_valid_replacement: "utf8_valid (replacement @ s) = utf8_valid s"
proof -
  have "utf8_len replacement = 3" by (simp add: replacement_def utf8_len_def second_ok_def cont_def)
  then have "utf8_valid replacement" by (subst utf8_valid.simps) (simp add: replacement_def)
  then show ?thesis by (rule utf8_valid_append)
qed

lemma byte_char_of: "n < 256 \<Longrightarrow> byte (char_of n) = n"
  by simp

lemma div_digits:
  fixes a r b :: nat
  assumes "0 < a"
  shows "r div a = b * (r div (a * b)) + r div a mod b" and "a * (r div a) \<le> r" and "r < a * (r div a) + a"
proof -
  show "r div a = b * (r div (a * b)) + r div a mod b" by (simp add: div_mult2_eq)
  show "a * (r div a) \<le> r" by simp
  show "r < a * (r div a) + a" using mult_div_mod_eq [of a r] mod_less_divisor [OF assms, of r] by linarith
qed

lemma utf8_valid_enc:
  assumes "r < 0x110000" and "\<not> is_surrogate r"
  shows "utf8_valid (utf8_enc r)"
proof -
  have c: "cont (char_of (0x80 + k mod 64))" for k :: nat by (simp add: cont_def byte_char_of)
  consider "r < 0x80" | "0x80 \<le> r" "r < 0x800" | "0x800 \<le> r" "r < 0x10000" | "0x10000 \<le> r" by linarith
  then show ?thesis
  proof cases
    case 1
    then show ?thesis by (simp add: utf8_enc_def utf8_valid_Cons utf8_len_simps byte_char_of)
  next
    case 2
    have "2 \<le> r div 64" "r div 64 \<le> 31" using 2 by auto
    with 2 c [of r] show ?thesis
      by (simp add: utf8_enc_def utf8_valid_Cons utf8_len_simps byte_char_of numeral_2_eq_2)
  next
    case 3
    let ?a = "char_of (0xE0 + r div 4096) :: char" and ?b = "char_of (0x80 + r div 64 mod 64) :: char"
    have q: "r div 4096 \<le> 15" using 3 by auto
    have a: "byte ?a = 0xE0 + r div 4096" using q by (simp add: byte_char_of)
    have b: "byte ?b = 0x80 + r div 64 mod 64" by (simp add: byte_char_of)
    note d = div_digits(1) [of 64 r 64, simplified] div_digits(2,3) [of 64 r, simplified]
    have "r div 4096 = 0 \<Longrightarrow> 32 \<le> r div 64 mod 64" using 3 d by linarith
    moreover have "r div 4096 = 13 \<Longrightarrow> r div 64 mod 64 < 32" using assms(2) d unfolding is_surrogate_def by linarith
    ultimately have "second_ok ?a ?b" using q unfolding second_ok_def a b cont_def by auto
    with 3 q a c [of r] show ?thesis
      by (simp add: utf8_enc_def utf8_valid_Cons utf8_len_simps numeral_3_eq_3)
  next
    case 4
    let ?a = "char_of (0xF0 + r div 262144) :: char" and ?b = "char_of (0x80 + r div 4096 mod 64) :: char"
    have q: "r div 262144 \<le> 4" using assms(1) by auto
    have a: "byte ?a = 0xF0 + r div 262144" using q by (simp add: byte_char_of)
    have b: "byte ?b = 0x80 + r div 4096 mod 64" by (simp add: byte_char_of)
    note d = div_digits(1) [of 4096 r 64, simplified] div_digits(2,3) [of 4096 r, simplified]
    have "r div 262144 = 0 \<Longrightarrow> 16 \<le> r div 4096 mod 64" using 4 d by linarith
    moreover have "r div 262144 = 4 \<Longrightarrow> r div 4096 mod 64 < 16" using assms(1) d by linarith
    ultimately have "second_ok ?a ?b" using q unfolding second_ok_def a b cont_def by auto
    with 4 q a c [of r] c [of "r div 64"] show ?thesis
      by (simp add: utf8_enc_def utf8_valid_Cons utf8_len_simps)
  qed
qed

lemma hex_val_less: "hex_val c = Some n \<Longrightarrow> n < 16"
  by (auto simp: hex_val_def Let_def split: if_splits)

lemma getu4_less: "getu4 s = Some r \<Longrightarrow> r < 65536"
  by (auto simp: getu4_def split: list.splits if_splits option.splits dest!: hex_val_less)

lemma surrogate_pair_range: "surrogate_pair r lo = Some p \<Longrightarrow> 0x10000 \<le> p \<and> p < 0x110000"
  by (auto simp: surrogate_pair_def split: option.splits if_splits)

lemma esc_char_ascii: "str_step SEsc e \<noteq> SBad \<Longrightarrow> byte (esc_char e) < 128"
proof -
  assume "str_step SEsc e \<noteq> SBad"
  then have "e \<in> {CHR ''b'', CHR ''f'', CHR ''n'', CHR ''r'', CHR ''t'', CHR 0x5C, CHR ''/'', CHR 0x22, CHR ''u''}"
    by (simp split: if_splits) blast
  then show ?thesis by (elim insertE) (simp_all add: esc_char_def)
qed

lemma utf8_valid_unquote [simp]: "utf8_valid (unquote s)"
proof (induction s rule: length_induct)
  case (1 s)
  show ?case
  proof (cases s)
    case (Cons c t)
    then have IH: "utf8_valid (unquote (drop k t))" for k using 1 by simp
    have IH0: "utf8_valid (unquote t)" "utf8_valid (unquote (tl t))" using IH [of 0] IH [of 1] by (simp_all add: drop_Suc)
    have enc: "utf8_valid (utf8_enc r @ unquote (drop 5 t))" if "getu4 (c # t) = Some r" "\<not> is_surrogate r" for r
      using utf8_valid_append [OF utf8_valid_enc [OF _ that(2)]] getu4_less [OF that(1)] IH by simp
    have pair: "utf8_valid (utf8_enc p @ unquote (drop 11 t))" if "surrogate_pair r lo = Some p" for r lo p
      using utf8_valid_append [OF utf8_valid_enc [of p]] surrogate_pair_range [OF that] IH by (simp add: is_surrogate_def)
    have rune: "utf8_valid (c # take n t @ unquote (drop n t))" if n: "utf8_len (c # t) = Suc n" for n
      using utf8_len_prefix(1,2) [OF n] IH by (simp add: utf8_valid_Cons)
    show ?thesis
      unfolding Cons unquote.simps(2)
      using IH0 IH enc pair rune esc_char_ascii
      by (cases "utf8_len (c # t)")
        (auto simp: utf8_valid_replacement utf8_valid_ascii simp del: str_step.simps split: option.splits list.splits)
  qed simp
qed

end
