(* ===== verification/Json_Codec.thy ===== *)
theory Json_Codec
  imports Go_Json
begin

text \<open>
  \<open>json.Unmarshal\<close> and \<open>json.Marshal\<close> on the Go values the gateway has: maps from strings
  to raw messages, which it uses to rewrite single fields of a document, and structs. A Go map
  is the list of its entries sorted by key, the order in which \<open>Marshal\<close> writes them; a nil
  map is \<open>None\<close>. Decoding a struct field records a type mismatch and goes on, as the
  package does, so a decoder returns a value and whether there was an error.
\<close>

section \<open>Raw messages inside a marshalled document\<close>

text \<open>\<open>compact\<close> with HTML escaping, on the text of a string literal.\<close>

function html_raw :: "string \<Rightarrow> string" where
  "html_raw [] = []"
| "html_raw (c # s) =
     (if html_char c then u00 c @ html_raw s
      else if line_sep (c # s) then u2028 (s ! 1) @ html_raw (drop 2 s)
      else c # html_raw s)"
  by pat_completeness auto
termination
  by (relation "measure length") auto

fun json_html :: "json \<Rightarrow> json" where
  "json_html (JStr raw) = JStr (html_raw raw)"
| "json_html (JArr vs) = JArr (map json_html vs)"
| "json_html (JObj ms) = JObj (map (\<lambda>(k, v). (html_raw k, json_html v)) ms)"
| "json_html v = v"

lemma html_char_plain: "html_char c \<Longrightarrow> str_step SNorm c = SNorm \<and> str_step SEsc c = SBad \<and> hex_val c = None"
  unfolding html_char_def by (elim insertE emptyE) (simp_all add: hex_val_def)

lemma high_only_norm: "128 \<le> byte c \<Longrightarrow> foldl str_step (str_step st c) s = SNorm \<Longrightarrow> st = SNorm"
proof -
  assume c: "128 \<le> byte c" and f: "foldl str_step (str_step st c) s = SNorm"
  then have "str_step st c \<noteq> SBad" by auto
  moreover have "hex_val c = None" using c by (auto simp: hex_val_def Let_def)
  ultimately show ?thesis using c by (cases st) (auto split: if_splits)
qed

lemma html_raw_ok:
  assumes "foldl str_step st s = SNorm"
  shows "foldl str_step st (html_raw s) = SNorm"
  using assms
proof (induction s arbitrary: st rule: html_raw.induct)
  case (2 c s)
  consider (html) "html_char c" | (sep) "\<not> html_char c" "line_sep (c # s)" | (plain) "\<not> html_char c" "\<not> line_sep (c # s)" by blast
  then show ?case
  proof cases
    case html
    have "str_step st c \<noteq> SBad" using 2(4) by auto
    with html_char_plain [OF html] have st: "st = SNorm" by (cases st) (auto simp del: str_step.simps(1,2))
    with 2(4) html_char_plain [OF html] have "foldl str_step SNorm s = SNorm" by (simp del: str_step.simps)
    with 2(1) html st show ?thesis by (simp add: str_step_u00)
  next
    case sep
    from sep(2) obtain x t where s: "c = CHR 0xE2" "s = CHR 0x80 # x # t" "x = CHR 0xA8 \<or> x = CHR 0xA9"
      by (rule line_sep_cases)
    have st: "st = SNorm" using 2(4) s high_only_norm [of c st s] by simp
    with 2(4) s have "foldl str_step SNorm t = SNorm" by auto
    with 2(2) sep st s show ?thesis by (simp add: str_step_u2028)
  next
    case plain
    with 2 show ?thesis by simp
  qed
qed simp

lemma str_ok_html [simp]: "str_ok raw \<Longrightarrow> str_ok (html_raw raw)"
  by (simp add: str_ok_def html_raw_ok)

lemma json_ok_html: "json_ok n v \<Longrightarrow> json_ok n (json_html v)"
  by (induction n v rule: json_ok.induct) fastforce+

section \<open>Go maps\<close>

fun map_put :: "string \<Rightarrow> 'a \<Rightarrow> (string \<times> 'a) list \<Rightarrow> (string \<times> 'a) list" where
  "map_put k v [] = [(k, v)]"
| "map_put k v ((k', v') # m) =
     (if k = k' then (k, v) # m else if k < k' then (k, v) # (k', v') # m else (k', v') # map_put k v m)"

definition gomap_ok :: "(string \<times> 'a) list \<Rightarrow> bool" where
  "gomap_ok m \<longleftrightarrow> sorted_wrt (<) (map fst m)"

lemma map_of_put: "map_of (map_put k v m) = (map_of m)(k \<mapsto> v)"
  by (induction k v m rule: map_put.induct) (auto simp: fun_eq_iff)

lemma keys_put: "fst ` set (map_put k v m) = insert k (fst ` set m)"
  by (induction k v m rule: map_put.induct) auto

lemma gomap_ok_put [inv_intros]: "gomap_ok m \<Longrightarrow> gomap_ok (map_put k v m)"
proof (induction k v m rule: map_put.induct)
  case (2 k v k' v' m)
  then show ?case using keys_put [of k v m] by (force simp: gomap_ok_def image_iff)
qed (simp add: gomap_ok_def)

lemma values_put: "snd ` set (map_put k v m) \<subseteq> insert v (snd ` set m)"
  by (induction k v m rule: map_put.induct) auto

text \<open>Two sorted maps with the same entries are the same list.\<close>

lemma map_put_last: "\<forall>k' \<in> fst ` set m. k' < k \<Longrightarrow> map_put k v m = m @ [(k, v)]"
  by (induction m) auto

section \<open>Unmarshalling into a map\<close>

definition obj_entries :: "(string \<times> json) list \<Rightarrow> (string \<times> json) list" where
  "obj_entries ms = fold (\<lambda>(k, v). map_put (unquote k) v) ms []"

text \<open>\<open>None\<close> is an error; \<open>Some None\<close> the nil map that \<open>null\<close> gives.\<close>

definition unmarshal_value :: "json \<Rightarrow> (string \<times> json) list option option" where
  "unmarshal_value v = (case v of JObj ms \<Rightarrow> Some (Some (obj_entries ms)) | JNull \<Rightarrow> Some None | _ \<Rightarrow> None)"

definition unmarshal_map :: "string \<Rightarrow> (string \<times> json) list option option" where
  "unmarshal_map s = (case json_parse s of None \<Rightarrow> None | Some v \<Rightarrow> unmarshal_value v)"

definition marshal_value :: "(string \<times> json) list \<Rightarrow> json" where
  "marshal_value m = JObj (map (\<lambda>(k, v). (quote k, json_html v)) m)"

definition marshal_map :: "(string \<times> json) list option \<Rightarrow> string" where
  "marshal_map m = (case m of None \<Rightarrow> ''null'' | Some es \<Rightarrow> json_print (marshal_value es))"

lemma fold_put_map_of: "map_of (fold (\<lambda>(k, v). map_put (f k) v) ms m) = map_of m ++ map_of (rev (map (\<lambda>(k, v). (f k, v)) ms))"
  by (induction ms arbitrary: m) (auto simp: map_of_put fun_eq_iff map_add_def split: option.splits)

lemma fold_put_ok: "gomap_ok m \<Longrightarrow> gomap_ok (fold (\<lambda>(k, v). map_put (f k) v) ms m)"
  by (induction ms arbitrary: m) (auto intro: inv_intros)

lemma obj_entries_ok: "gomap_ok (obj_entries ms)"
  unfolding obj_entries_def by (rule fold_put_ok) (simp add: gomap_ok_def)

lemma fold_put_values:
  "snd ` set (fold (\<lambda>(k, v). map_put (f k) v) ms m) \<subseteq> snd ` set ms \<union> snd ` set m"
proof (induction ms arbitrary: m)
  case (Cons kv ms)
  obtain k v where kv: "kv = (k, v)" by fastforce
  have "snd ` set (fold (\<lambda>(k, v). map_put (f k) v) ms (map_put (f k) v m)) \<subseteq> snd ` set ms \<union> snd ` set (map_put (f k) v m)"
    by (rule Cons.IH)
  then have "snd ` set (fold (\<lambda>(k, v). map_put (f k) v) ms (map_put (f k) v m)) \<subseteq> snd ` set ms \<union> insert v (snd ` set m)"
    using values_put [of "f k" v m] by blast
  then show ?case unfolding kv by simp
qed simp

lemma fold_put_keys: "fst ` set (fold (\<lambda>(k, v). map_put (f k) v) ms m) = f ` fst ` set ms \<union> fst ` set m"
proof (induction ms arbitrary: m)
  case (Cons kv ms)
  then show ?case by (cases kv) (simp add: keys_put)
qed simp

lemma fold_put_sorted:
  assumes "gomap_ok (m @ ms)"
  shows "fold (\<lambda>(k, v). map_put k v) ms m = m @ ms"
  using assms
proof (induction ms arbitrary: m)
  case (Cons kv ms)
  obtain k v where kv: "kv = (k, v)" by fastforce
  have "map_put k v m = m @ [(k, v)]"
    using Cons.prems kv by (intro map_put_last) (auto simp: gomap_ok_def sorted_wrt_append)
  with Cons.IH [of "m @ [(k, v)]"] Cons.prems kv show ?case by simp
qed simp

text \<open>Marshalling a map and reading it back gives the same keys and the escaped values.\<close>

lemma obj_entries_marshal:
  assumes "gomap_ok m" and "\<forall>k \<in> fst ` set m. utf8_valid k"
  shows "obj_entries (map (\<lambda>(k, v). (quote k, json_html v)) m) = map (\<lambda>(k, v). (k, json_html v)) m"
proof -
  have "fold (\<lambda>(k, v). map_put (unquote k) v) (map (\<lambda>(k, v). (quote k, json_html v)) m) acc =
    fold (\<lambda>(k, v). map_put k v) (map (\<lambda>(k, v). (k, json_html v)) m) acc" for acc
    using assms(2) by (induction m arbitrary: acc) (auto simp: unquote_quote)
  moreover have "map fst (map (\<lambda>(k, v). (k, json_html v)) m) = map fst m" by (induction m) auto
  then have "gomap_ok (map (\<lambda>(k, v). (k, json_html v)) m)" using assms(1) by (simp only: gomap_ok_def)
  ultimately show ?thesis using fold_put_sorted [of "[]" "map (\<lambda>(k, v). (k, json_html v)) m"] by (simp add: obj_entries_def)
qed

lemma json_ok_marshal:
  assumes "\<forall>v \<in> snd ` set m. json_ok (maxNestingDepth - 1) v"
  shows "json_ok maxNestingDepth (marshal_value m)"
  using assms by (force simp: marshal_value_def json_ok_html maxNestingDepth_def)

theorem unmarshal_marshal:
  assumes "gomap_ok m" and "\<forall>k \<in> fst ` set m. utf8_valid k" and "\<forall>v \<in> snd ` set m. json_ok (maxNestingDepth - 1) v"
  shows "unmarshal_map (marshal_map (Some m)) = Some (Some (map (\<lambda>(k, v). (k, json_html v)) m))"
  using parse_print [OF json_ok_marshal [OF assms(3)]] obj_entries_marshal [OF assms(1,2)]
  by (simp add: unmarshal_map_def marshal_map_def unmarshal_value_def marshal_value_def)

text \<open>Every map that was read from a document can be written and read again.\<close>

definition entries_ok :: "(string \<times> json) list \<Rightarrow> bool" where
  "entries_ok m \<longleftrightarrow> gomap_ok m \<and> (\<forall>k \<in> fst ` set m. utf8_valid k) \<and> (\<forall>v \<in> snd ` set m. json_ok (maxNestingDepth - 1) v)"

lemma entries_ok_value:
  assumes "json_ok maxNestingDepth v" and "unmarshal_value v = Some (Some m)"
  shows "entries_ok m"
proof -
  obtain ms where v: "v = JObj ms" and m: "m = obj_entries ms"
    using assms(2) by (cases v) (auto simp: unmarshal_value_def)
  have f: "fst ` set m = unquote ` fst ` set ms" and s: "snd ` set m \<subseteq> snd ` set ms"
    unfolding m obj_entries_def using fold_put_keys [of unquote ms "[]"] fold_put_values [of unquote ms "[]"] by simp_all
  have "\<forall>v \<in> snd ` set ms. json_ok (maxNestingDepth - 1) v" using assms(1) v by auto
  with s have "\<forall>v \<in> snd ` set m. json_ok (maxNestingDepth - 1) v" by (meson subsetD)
  moreover have "\<forall>k \<in> fst ` set m. utf8_valid k" unfolding f by simp
  moreover note obj_entries_ok [of ms]
  ultimately show ?thesis by (simp only: entries_ok_def m simp_thms)
qed

lemma entries_ok_unmarshal: "unmarshal_map s = Some (Some m) \<Longrightarrow> entries_ok m"
  by (auto simp: unmarshal_map_def split: option.splits intro: entries_ok_value parse_ok)

lemma entries_ok_put [inv_intros]:
  "entries_ok m \<Longrightarrow> utf8_valid k \<Longrightarrow> json_ok (maxNestingDepth - 1) v \<Longrightarrow> entries_ok (map_put k v m)"
proof -
  assume m: "entries_ok m" and k: "utf8_valid k" and v: "json_ok (maxNestingDepth - 1) v"
  then have "\<forall>w \<in> insert v (snd ` set m). json_ok (maxNestingDepth - 1) w" by (simp add: entries_ok_def)
  with values_put [of k v m] have "\<forall>w \<in> snd ` set (map_put k v m). json_ok (maxNestingDepth - 1) w" by (meson subsetD)
  moreover have "\<forall>w \<in> fst ` set (map_put k v m). utf8_valid w" unfolding keys_put using m k by (simp add: entries_ok_def)
  ultimately show ?thesis using m by (simp only: entries_ok_def gomap_ok_put simp_thms)
qed

lemma entries_roundtrip:
  "entries_ok m \<Longrightarrow> unmarshal_map (marshal_map (Some m)) = Some (Some (map (\<lambda>(k, v). (k, json_html v)) m))"
  unfolding entries_ok_def by (blast intro: unmarshal_marshal)

lemma map_of_html: "map_of (map (\<lambda>(k, v). (k, json_html v)) m) k = map_option json_html (map_of m k)"
  by (induction m) auto

section \<open>Escaping keeps the values\<close>

text \<open>The tree with its strings decoded: what a reader of the document sees.\<close>

fun json_value :: "json \<Rightarrow> json" where
  "json_value (JStr raw) = JStr (unquote raw)"
| "json_value (JArr vs) = JArr (map json_value vs)"
| "json_value (JObj ms) = JObj (map (\<lambda>(k, v). (unquote k, json_value v)) ms)"
| "json_value v = v"

lemma takeWhile_cont_html: "takeWhile cont (html_raw s) = takeWhile cont s"
proof (induction s rule: html_raw.induct)
  case (2 c s)
  have nb: "\<not> cont CHR 0x5C" "\<not> cont CHR 0xE2" by (simp_all add: cont_def)
  show ?case
  proof (cases "cont c")
    case True
    then have "\<not> html_char c" "\<not> line_sep (c # s)"
      by (auto simp: html_char_def cont_def elim: line_sep_cases)
    with 2(3) True show ?thesis by simp
  next
    case False
    with nb show ?thesis by (simp add: u00_def u2028_def)
  qed
qed simp

lemma utf8_len_conts: "utf8_len (c # s) = utf8_len (c # takeWhile cont s)"
proof (cases s)
  case (Cons b s1)
  have so: "second_ok c x \<Longrightarrow> cont x" for x by (simp add: second_ok_def)
  show ?thesis
  proof (cases s1)
    case Nil
    with Cons so show ?thesis by (auto simp: utf8_len_def)
  next
    case (Cons d s2)
    with \<open>s = b # s1\<close> so show ?thesis
      by (cases s2; cases "cont b"; cases "cont d") (auto simp: utf8_len_def)
  qed
qed simp

lemma utf8_len_html: "utf8_len (c # html_raw s) = utf8_len (c # s)"
  using utf8_len_conts [of c s] utf8_len_conts [of c "html_raw s"] by (simp add: takeWhile_cont_html)

lemma html_raw_plain:
  assumes "list_all (\<lambda>c. \<not> html_char c \<and> c \<noteq> CHR 0xE2) p"
  shows "html_raw (p @ s) = p @ html_raw s"
  using assms
proof (induction p)
  case (Cons c p)
  then have "\<not> line_sep (c # p @ s)" by (auto elim: line_sep_cases)
  with Cons show ?case by simp
qed simp

lemma cont_plain: "list_all cont p \<Longrightarrow> list_all (\<lambda>c. \<not> html_char c \<and> c \<noteq> CHR 0xE2) p"
  by (induction p) (auto simp: cont_def html_char_def)

lemma hex_plain: "hex_val c \<noteq> None \<Longrightarrow> \<not> html_char c \<and> c \<noteq> CHR 0xE2 \<and> c \<noteq> CHR 0x22"
  by (auto simp: html_char_def hex_val_def)

text \<open>A literal that continues after a backslash and u has four hexadecimal digits there.\<close>

lemma str_step_hex: "str_step (SHex n) c \<noteq> SBad \<Longrightarrow> hex_val c \<noteq> None"
  by (auto split: option.splits)

lemma foldl_not_bad: "foldl str_step (str_step st c) s = SNorm \<Longrightarrow> str_step st c \<noteq> SBad"
  by (cases "str_step st c") auto

lemma hex_run:
  assumes "foldl str_step (SHex n) s = SNorm"
  shows "\<exists>h r. s = h @ r \<and> length h = Suc n \<and> list_all (\<lambda>c. hex_val c \<noteq> None) h \<and> foldl str_step SNorm r = SNorm"
  using assms
proof (induction n arbitrary: s)
  case 0
  then obtain c t where s: "s = c # t" by (cases s) auto
  with 0 have "hex_val c \<noteq> None" using foldl_not_bad str_step_hex by fastforce
  with 0 s show ?case by (intro exI [of _ "[c]"] exI [of _ t]) auto
next
  case (Suc n)
  then obtain c t where s: "s = c # t" by (cases s) auto
  with Suc.prems have "hex_val c \<noteq> None" using foldl_not_bad str_step_hex by fastforce
  moreover from this Suc.prems s have "foldl str_step (SHex n) t = SNorm" by auto
  ultimately obtain h r where "t = h @ r" "length h = Suc n" "list_all (\<lambda>c. hex_val c \<noteq> None) h" "foldl str_step SNorm r = SNorm"
    using Suc.IH [of t] by blast
  with \<open>hex_val c \<noteq> None\<close> s show ?case by (intro exI [of _ "c # h"] exI [of _ r]) simp
qed

lemma u_run:
  assumes "foldl str_step SNorm (CHR 0x5C # CHR ''u'' # s) = SNorm"
  obtains h1 h2 h3 h4 r where "s = [h1, h2, h3, h4] @ r" "list_all (\<lambda>c. hex_val c \<noteq> None) [h1, h2, h3, h4]"
    "foldl str_step SNorm r = SNorm"
proof -
  from assms have "foldl str_step (SHex 3) s = SNorm" by simp
  from hex_run [OF this] obtain h r where "s = h @ r" "length h = 4" "list_all (\<lambda>c. hex_val c \<noteq> None) h" "foldl str_step SNorm r = SNorm"
    by auto
  then show ?thesis using that by (auto simp: length_Suc_conv numeral_eq_Suc)
qed

lemma getu4_not_u: "c \<noteq> CHR 0x5C \<Longrightarrow> getu4 (c # s) = None" "e \<noteq> CHR ''u'' \<Longrightarrow> getu4 (CHR 0x5C # e # s) = None"
  by (simp_all add: getu4_def split: list.splits)

lemma pair_none: "\<not> (0xDC00 \<le> lo \<and> lo < 0xE000) \<Longrightarrow> surrogate_pair r (Some lo) = None"
  by (simp add: surrogate_pair_def)

lemma getu4_u00: "surrogate_pair r (getu4 (u00 c @ s)) = None"
proof -
  have "byte c div 16 < 16" "byte c mod 16 < 16" "byte c < 256" by (simp_all add: less_mult_imp_div_less)
  then have "getu4 (u00 c @ s) = Some (byte c)" by (simp add: getu4_def u00_def hex_val_lower hex_val_some)
  moreover have "surrogate_pair r (Some (byte c)) = None" by (rule pair_none) (use \<open>byte c < 256\<close> in linarith)
  ultimately show ?thesis by simp
qed

lemma getu4_u2028: "surrogate_pair r (getu4 (u2028 c @ s)) = None"
  by (simp add: u2028_def getu4_def hex_val_some pair_none)

lemma html_raw_u:
  assumes "list_all (\<lambda>c. hex_val c \<noteq> None) [h1, h2, h3, h4]"
  shows "html_raw (CHR 0x5C # CHR ''u'' # h1 # h2 # h3 # h4 # r) = CHR 0x5C # CHR ''u'' # h1 # h2 # h3 # h4 # html_raw r"
proof -
  have "list_all (\<lambda>c. \<not> html_char c \<and> c \<noteq> CHR 0xE2) [CHR 0x5C, CHR ''u'', h1, h2, h3, h4]"
    using assms hex_plain by (simp add: html_char_def)
  from html_raw_plain [OF this, of r] show ?thesis by simp
qed

lemma getu4_Cons:
  "getu4 (CHR 0x5C # CHR ''u'' # h1 # h2 # h3 # h4 # r) = getu4 (CHR 0x5C # CHR ''u'' # h1 # h2 # h3 # h4 # r')"
  by (simp add: getu4_def)

lemma esc_plain: "str_step SEsc e \<noteq> SBad \<Longrightarrow> \<not> html_char e \<and> e \<noteq> CHR 0xE2"
  by (auto simp: html_char_def)

lemma html_raw_esc:
  assumes "foldl str_step SNorm (CHR 0x5C # s) = SNorm"
  obtains e t where "s = e # t" "str_step SEsc e \<noteq> SBad" "html_raw (CHR 0x5C # s) = CHR 0x5C # e # html_raw t"
proof -
  obtain e t where s: "s = e # t" using assms by (cases s) auto
  with assms have e: "str_step SEsc e \<noteq> SBad" using foldl_not_bad [of SEsc e t] by simp
  have "list_all (\<lambda>c. \<not> html_char c \<and> c \<noteq> CHR 0xE2) [CHR 0x5C, e]"
    using esc_plain [OF e] by (simp add: html_char_def)
  from html_raw_plain [OF this, of t] s e that show ?thesis by simp
qed

lemma pair_html:
  assumes "foldl str_step SNorm s = SNorm"
  shows "surrogate_pair r (getu4 (html_raw s)) = surrogate_pair r (getu4 s)"
proof (cases s)
  case (Cons c t)
  show ?thesis
  proof (cases "c = CHR 0x5C")
    case False
    then have "surrogate_pair r (getu4 s) = None" unfolding Cons by (simp add: getu4_not_u surrogate_pair_def)
    moreover have "surrogate_pair r (getu4 (html_raw s)) = None"
      unfolding Cons using False by (simp add: getu4_u00 getu4_u2028 getu4_not_u) (simp add: surrogate_pair_def)
    ultimately show ?thesis by simp
  next
    case True
    from assms have "foldl str_step SNorm (CHR 0x5C # t) = SNorm" unfolding Cons True .
    then obtain e u where t: "t = e # u" "html_raw (CHR 0x5C # t) = CHR 0x5C # e # html_raw u" by (rule html_raw_esc)
    then have h: "html_raw s = CHR 0x5C # e # html_raw u" unfolding Cons True by simp
    show ?thesis
    proof (cases "e = CHR ''u''")
      case False
      with True t Cons h show ?thesis by (simp add: getu4_not_u)
    next
      case u: True
      from assms obtain h1 h2 h3 h4 w where "u = [h1, h2, h3, h4] @ w" "list_all (\<lambda>c. hex_val c \<noteq> None) [h1, h2, h3, h4]"
        unfolding Cons True t u by (rule u_run)
      then show ?thesis
        using html_raw_u [of h1 h2 h3 h4 w] getu4_Cons [of h1 h2 h3 h4 "html_raw w" w]
        unfolding Cons True t u by (simp del: html_raw.simps)
    qed
  qed
qed simp

lemma unquote_u:
  "unquote (CHR 0x5C # CHR ''u'' # h1 # h2 # h3 # h4 # s) =
     (case getu4 [CHR 0x5C, CHR ''u'', h1, h2, h3, h4] of
        None \<Rightarrow> []
      | Some r \<Rightarrow>
          (if is_surrogate r then
             (case surrogate_pair r (getu4 s) of
                Some p \<Rightarrow> utf8_enc p @ unquote (drop 6 s)
              | None \<Rightarrow> replacement @ unquote s)
           else utf8_enc r @ unquote s))"
proof -
  have "drop 11 (CHR ''u'' # h1 # h2 # h3 # h4 # s) = drop 6 s" by simp
  then show ?thesis using getu4_Cons [of h1 h2 h3 h4 s "[]"] by (subst unquote.simps(2)) (simp cong: if_cong option.case_cong)
qed

lemma unquote_html_u:
  assumes IH: "\<And>t. length t \<le> length s \<Longrightarrow> foldl str_step SNorm t = SNorm \<Longrightarrow> unquote (html_raw t) = unquote t"
    and s: "foldl str_step SNorm s = SNorm" and h: "list_all (\<lambda>c. hex_val c \<noteq> None) [h1, h2, h3, h4]"
  shows "unquote (html_raw (CHR 0x5C # CHR ''u'' # h1 # h2 # h3 # h4 # s)) = unquote (CHR 0x5C # CHR ''u'' # h1 # h2 # h3 # h4 # s)"
proof -
  have d: "unquote (drop 6 (html_raw s)) = unquote (drop 6 s)" if "surrogate_pair r (getu4 s) = Some p" for r p
  proof -
    have "getu4 s \<noteq> None" using that by (auto simp: surrogate_pair_def split: option.splits)
    then obtain g1 g2 g3 g4 w where w: "s = CHR 0x5C # CHR ''u'' # g1 # g2 # g3 # g4 # w"
      by (auto simp: getu4_def split: list.splits if_splits)
    moreover obtain g1' g2' g3' g4' w' where "g1 # g2 # g3 # g4 # w = [g1', g2', g3', g4'] @ w'"
      "list_all (\<lambda>c. hex_val c \<noteq> None) [g1', g2', g3', g4']" "foldl str_step SNorm w' = SNorm"
      using s unfolding w by (rule u_run)
    ultimately show ?thesis using html_raw_u [of g1 g2 g3 g4 w] IH [of w] by simp
  qed
  show ?thesis
    unfolding html_raw_u [OF h] unquote_u pair_html [OF s]
    using IH [of s] s d by (auto split: option.splits)
qed

lemma unquote_html: "foldl str_step SNorm s = SNorm \<Longrightarrow> unquote (html_raw s) = unquote s"
proof (induction s rule: length_induct)
  case (1 s)
  then have IH: "\<And>t. length t < length s \<Longrightarrow> foldl str_step SNorm t = SNorm \<Longrightarrow> unquote (html_raw t) = unquote t" by blast
  show ?case
  proof (cases s)
    case (Cons c t)
    consider (bs) "c = CHR 0x5C" | (html) "html_char c" | (sep) "line_sep s" "c \<noteq> CHR 0x5C" "\<not> html_char c"
      | (plain) "c \<noteq> CHR 0x5C" "\<not> html_char c" "\<not> line_sep s" by blast
    then show ?thesis
    proof cases
      case bs
      from 1(2) have "foldl str_step SNorm (CHR 0x5C # t) = SNorm" unfolding Cons bs .
      then obtain e u where t: "t = e # u" "str_step SEsc e \<noteq> SBad" "html_raw (CHR 0x5C # t) = CHR 0x5C # e # html_raw u"
        by (rule html_raw_esc)
      show ?thesis
      proof (cases "e = CHR ''u''")
        case True
        from 1(2) obtain h1 h2 h3 h4 w where w: "u = [h1, h2, h3, h4] @ w" "list_all (\<lambda>c. hex_val c \<noteq> None) [h1, h2, h3, h4]"
          "foldl str_step SNorm w = SNorm" unfolding Cons bs t True by (rule u_run)
        have "length w < length s" using w Cons t by simp
        then have "unquote (html_raw (CHR 0x5C # CHR ''u'' # h1 # h2 # h3 # h4 # w)) = unquote (CHR 0x5C # CHR ''u'' # h1 # h2 # h3 # h4 # w)"
          by (intro unquote_html_u [OF _ w(3,2)] IH) simp_all
        then show ?thesis unfolding Cons bs t True w by simp
      next
        case False
        then have "foldl str_step SNorm u = SNorm" using 1(2) t Cons bs by (auto split: if_splits)
        then have "unquote (html_raw u) = unquote u" using IH Cons t by simp
        then show ?thesis using t(3) unfolding Cons bs t(1) by (simp only: unquote_esc [OF False t(2)])
      qed
    next
      case html
      then have "foldl str_step SNorm t = SNorm" "byte c < 128"
        using 1(2) Cons html_char_plain [OF html] by (auto simp: html_char_def simp del: str_step.simps)
      then show ?thesis using IH [of t] Cons html by (auto simp: unquote_u00 unquote_ascii html_char_def)
    next
      case sep
      from sep(1) Cons obtain x u where s: "c = CHR 0xE2" "t = CHR 0x80 # x # u" "x = CHR 0xA8 \<or> x = CHR 0xA9" "utf8_len (c # t) = 3"
        by (auto elim: line_sep_cases)
      then have "foldl str_step SNorm u = SNorm" using 1(2) Cons by auto
      moreover have "unquote s = [c, CHR 0x80, x] @ unquote u" using s Cons by (simp add: unquote.simps(2))
      ultimately show ?thesis using IH [of u] Cons s sep by (simp add: unquote_u2028)
    next
      case plain
      then have hs: "html_raw s = c # html_raw t" using Cons by simp
      show ?thesis
      proof (cases "byte c < 128")
        case True
        then have "foldl str_step SNorm t = SNorm" using 1(2) Cons plain foldl_not_bad [of SNorm c t] by (auto split: if_splits)
        then show ?thesis using IH [of t] True hs Cons plain by (simp add: unquote_ascii)
      next
        case high: False
        have st: "str_step SNorm x = SNorm" if "128 \<le> byte x" for x using that by auto
        have t: "foldl str_step SNorm t = SNorm" using 1(2) Cons st [of c] high by (simp del: str_step.simps)
        show ?thesis
        proof (cases "utf8_len (c # t)")
          case 0
          then show ?thesis using IH [of t] t high plain hs Cons utf8_len_html [of c t] by (simp add: unquote.simps(2))
        next
          case (Suc n)
          note p = utf8_len_prefix(2,3) [OF Suc]
          have h: "html_raw t = take n t @ html_raw (drop n t)"
            using html_raw_plain [OF cont_plain [OF p(2)], of "drop n t"] by simp
          have "foldl str_step SNorm (take n t) = SNorm" using p(2) by (intro str_step_high) (auto simp: cont_def list_all_iff)
          then have "foldl str_step SNorm (drop n t) = SNorm" using t by (metis append_take_drop_id foldl_append)
          then have "unquote (html_raw (drop n t)) = unquote (drop n t)" using IH Cons by simp
          moreover have "utf8_len (c # html_raw t) = Suc n" using Suc utf8_len_html by simp
          ultimately show ?thesis using Suc high plain hs Cons h p(1) by (simp add: unquote.simps(2))
        qed
      qed
    qed
  qed simp
qed

lemma json_value_html: "json_ok n v \<Longrightarrow> json_value (json_html v) = json_value v"
  by (induction n v rule: json_ok.induct) (force simp: unquote_html str_ok_def)+

section \<open>Unmarshalling into structs\<close>

text \<open>
  \<open>foldName\<close>: field names match regardless of case. Two characters outside ASCII fold to
  ASCII letters, the long s (U+017F) and the Kelvin sign (U+212A).
\<close>

function fold_name :: "string \<Rightarrow> string" where
  "fold_name [] = []"
| "fold_name (c # s) =
     (if HasPrefix (c # s) [CHR 0xC5, CHR 0xBF] then CHR ''S'' # fold_name (drop 1 s)
      else if HasPrefix (c # s) [CHR 0xE2, CHR 0x84, CHR 0xAA] then CHR ''K'' # fold_name (drop 2 s)
      else (if 97 \<le> byte c \<and> byte c \<le> 122 then char_of (byte c - 32) else c) # fold_name s)"
  by pat_completeness auto
termination
  by (relation "measure length") auto

definition field_values :: "string \<Rightarrow> (string \<times> json) list \<Rightarrow> json list" where
  "field_values name ms = map snd (filter (\<lambda>(k, v). fold_name (unquote k) = fold_name name) ms)"

text \<open>A field that occurs several times is stored several times; an error does not undo a value.\<close>

definition decode_all :: "('a \<Rightarrow> json \<Rightarrow> 'a \<times> bool) \<Rightarrow> 'a \<Rightarrow> json list \<Rightarrow> 'a \<times> bool" where
  "decode_all dec x vs = fold (\<lambda>v (y, e). let (y', e') = dec y v in (y', e \<or> e')) vs (x, False)"

definition dec_string :: "string \<Rightarrow> json \<Rightarrow> string \<times> bool" where
  "dec_string x v = (case v of JStr raw \<Rightarrow> (unquote raw, False) | JNull \<Rightarrow> (x, False) | _ \<Rightarrow> (x, True))"

definition dec_bool :: "bool \<Rightarrow> json \<Rightarrow> bool \<times> bool" where
  "dec_bool x v = (case v of JBool b \<Rightarrow> (b, False) | JNull \<Rightarrow> (x, False) | _ \<Rightarrow> (x, True))"

definition dec_int :: "int \<Rightarrow> json \<Rightarrow> int \<times> bool" where
  "dec_int x v =
     (case v of JNum raw \<Rightarrow> (case Atoi raw of Some n \<Rightarrow> (n, False) | None \<Rightarrow> (x, True))
      | JNull \<Rightarrow> (x, False) | _ \<Rightarrow> (x, True))"

definition dec_struct :: "('a \<Rightarrow> (string \<times> json) list \<Rightarrow> 'a \<times> bool) \<Rightarrow> 'a \<Rightarrow> json \<Rightarrow> 'a \<times> bool" where
  "dec_struct fields x v = (case v of JObj ms \<Rightarrow> fields x ms | JNull \<Rightarrow> (x, False) | _ \<Rightarrow> (x, True))"

text \<open>A pointer field: \<open>null\<close> clears it, anything else is decoded into the value it points to.\<close>

definition dec_ptr :: "('a \<Rightarrow> json \<Rightarrow> 'a \<times> bool) \<Rightarrow> 'a \<Rightarrow> 'a option \<Rightarrow> json \<Rightarrow> 'a option \<times> bool" where
  "dec_ptr dec zero x v =
     (if v = JNull then (None, False)
      else let (y, e) = dec (case x of None \<Rightarrow> zero | Some y \<Rightarrow> y) v in (Some y, e))"

definition dec_slice :: "('a \<Rightarrow> json \<Rightarrow> 'a \<times> bool) \<Rightarrow> 'a \<Rightarrow> 'a list \<Rightarrow> json \<Rightarrow> 'a list \<times> bool" where
  "dec_slice dec zero x v =
     (case v of JArr vs \<Rightarrow> (map (fst \<circ> dec zero) vs, list_ex (snd \<circ> dec zero) vs)
      | JNull \<Rightarrow> ([], False) | _ \<Rightarrow> (x, True))"

definition unmarshal_struct :: "('a \<Rightarrow> (string \<times> json) list \<Rightarrow> 'a \<times> bool) \<Rightarrow> 'a \<Rightarrow> string \<Rightarrow> 'a \<times> bool" where
  "unmarshal_struct fields zero body =
     (case json_parse body of None \<Rightarrow> (zero, True) | Some v \<Rightarrow> dec_struct fields zero v)"

end
