(* ===== verification/Go_Http.thy ===== *)
theory Go_Http
  imports Domain_Models
begin

text \<open>
  What the gateway uses of \<open>net/http\<close>: requests, headers and responses. A header is the
  association list of its canonical keys in the order in which \<open>range\<close> visits the map, so an
  arbitrary order of the list is an arbitrary iteration order.
\<close>

section \<open>Headers\<close>

type_synonym header = "(string \<times> string list) list"

definition hdr_get :: "header \<Rightarrow> string \<Rightarrow> string" where
  "hdr_get h k = (case map_of h k of Some (v # _) \<Rightarrow> v | _ \<Rightarrow> '''')"

fun hdr_set :: "string \<Rightarrow> string \<Rightarrow> header \<Rightarrow> header" where
  "hdr_set k v [] = [(k, [v])]"
| "hdr_set k v ((k', vs) # h) = (if k = k' then (k, [v]) # h else (k', vs) # hdr_set k v h)"

fun hdr_add :: "string \<Rightarrow> string \<Rightarrow> header \<Rightarrow> header" where
  "hdr_add k v [] = [(k, [v])]"
| "hdr_add k v ((k', vs) # h) = (if k = k' then (k, vs @ [v]) # h else (k', vs) # hdr_add k v h)"

text \<open>The keys are distinct and every key has a value.\<close>

definition hdr_wf :: "header \<Rightarrow> bool" where
  "hdr_wf h \<longleftrightarrow> distinct (map fst h) \<and> (\<forall>vs \<in> snd ` set h. vs \<noteq> [])"

lemma map_of_hdr_set: "map_of (hdr_set k v h) k' = (if k' = k then Some [v] else map_of h k')"
  by (induction k v h rule: hdr_set.induct) auto

lemma map_of_hdr_add:
  "map_of (hdr_add k v h) k' = (if k' = k then Some ((case map_of h k of None \<Rightarrow> [] | Some vs \<Rightarrow> vs) @ [v]) else map_of h k')"
  by (induction k v h rule: hdr_add.induct) auto

lemma hdr_get_set [simp]: "hdr_get (hdr_set k v h) k' = (if k' = k then v else hdr_get h k')"
  by (simp add: hdr_get_def map_of_hdr_set)

lemma keys_hdr_set: "fst ` set (hdr_set k v h) = insert k (fst ` set h)"
  by (induction k v h rule: hdr_set.induct) auto

lemma keys_hdr_add: "fst ` set (hdr_add k v h) = insert k (fst ` set h)"
  by (induction k v h rule: hdr_add.induct) auto

lemma hdr_wf_set [inv_intros]: "hdr_wf h \<Longrightarrow> hdr_wf (hdr_set k v h)"
proof (induction k v h rule: hdr_set.induct)
  case (2 k v k' vs h)
  then show ?case using keys_hdr_set [of k v h] by (auto simp: hdr_wf_def)
qed (simp add: hdr_wf_def)

lemma hdr_wf_add [inv_intros]: "hdr_wf h \<Longrightarrow> hdr_wf (hdr_add k v h)"
proof (induction k v h rule: hdr_add.induct)
  case (2 k v k' vs h)
  then show ?case using keys_hdr_add [of k v h] by (auto simp: hdr_wf_def)
qed (simp add: hdr_wf_def)

section \<open>Requests and responses\<close>

text \<open>
  \<open>rq_Body\<close> is what reading the whole body gives (\<open>None\<close>: a read error, for instance a body
  larger than the \<open>MaxBytesReader\<close> limit); \<open>rq_ContentLength\<close> is the declared length.
\<close>

record http_request =
  rq_Method :: string
  rq_Path :: string
  rq_Header :: header
  rq_RemoteAddr :: string
  rq_ContentLength :: int
  rq_Body :: "string option"

record http_response =
  rs_Status :: int
  rs_Header :: header
  rs_Body :: string

end
