(* ===== verification/Request_Rewrite.thy ===== *)
theory Request_Rewrite
  imports Json_Codec Go_Http
begin

text \<open>
  How the proxy reads and rewrites JSON bodies: the helpers of \<open>internal/proxy/handler.go\<close> and
  \<open>internal/proxy/streaming.go\<close> that extract the model, replace the model name on the way to
  and from the backend, ask for usage in a stream, and read token usage and text deltas.
  The theorems say that a rewritten body is a document with the same fields and values,
  except for the fields that are meant to change.
\<close>

section \<open>Reading the request\<close>

datatype extract_error = ParseBody | ModelRequired

definition extractModelFromJSON :: "string \<Rightarrow> extract_error + string" where
  "extractModelFromJSON body =
     (let (model, err) = unmarshal_struct (\<lambda>x ms. decode_all dec_string x (field_values ''model'' ms)) '''' body
      in if err then Inl ParseBody else if model = '''' then Inl ModelRequired else Inr model)"

definition extractModelFromShowRequest :: "string \<Rightarrow> extract_error + string" where
  "extractModelFromShowRequest body =
     (let ((model, name), err) =
        unmarshal_struct
          (\<lambda>(m, n) ms. let (m', e1) = decode_all dec_string m (field_values ''model'' ms);
                             (n', e2) = decode_all dec_string n (field_values ''name'' ms)
                         in ((m', n'), e1 \<or> e2)) ('''', '''') body
      in if err then Inl ParseBody
         else if model \<noteq> '''' then Inr model else if name \<noteq> '''' then Inr name else Inl ModelRequired)"

text \<open>The \<open>stream\<close> flag of the two completion handlers; they ignore decoding errors.\<close>

definition streamCheck :: "string \<Rightarrow> bool" where
  "streamCheck body = fst (unmarshal_struct (\<lambda>x ms. decode_all dec_bool x (field_values ''stream'' ms)) False body)"

section \<open>Rewriting bodies\<close>

definition entry :: "(string \<times> json) list option \<Rightarrow> string \<Rightarrow> json option" where
  "entry obj k = (case obj of None \<Rightarrow> None | Some m \<Rightarrow> map_of m k)"

text \<open>Assigning to an entry of a nil map panics.\<close>

datatype 'a outcome = Ok 'a | Err | Panic

definition assign :: "string \<Rightarrow> json \<Rightarrow> (string \<times> json) list option \<Rightarrow> (string \<times> json) list option outcome" where
  "assign k v obj = (case obj of None \<Rightarrow> Panic | Some m \<Rightarrow> Ok (Some (map_put k v m)))"

fun bind_outcome :: "'a outcome \<Rightarrow> ('a \<Rightarrow> 'b outcome) \<Rightarrow> 'b outcome" where
  "bind_outcome (Ok x) f = f x"
| "bind_outcome Err f = Err"
| "bind_outcome Panic f = Panic"

definition injectStreamOptions :: "string \<Rightarrow> string outcome" where
  "injectStreamOptions body =
     (case unmarshal_map body of
        None \<Rightarrow> Err
      | Some obj \<Rightarrow>
          bind_outcome
            (case entry obj ''stream_options'' of
               Some existing \<Rightarrow>
                 (case unmarshal_value existing of
                    None \<Rightarrow> Ok obj
                  | Some streamOpts \<Rightarrow>
                      bind_outcome (assign ''include_usage'' (JBool True) streamOpts)
                        (\<lambda>opts. assign ''stream_options'' (case opts of None \<Rightarrow> JNull | Some m \<Rightarrow> marshal_value m) obj))
             | None \<Rightarrow> assign ''stream_options'' (JObj [(''include_usage'', JBool True)]) obj)
            (\<lambda>obj'. Ok (marshal_map obj')))"

text \<open>\<open>None\<close>: a parse error, on which the callers keep the original body.\<close>

definition set_if_present :: "string \<Rightarrow> json \<Rightarrow> (string \<times> json) list option \<Rightarrow> (string \<times> json) list option" where
  "set_if_present k v obj = (if entry obj k = None then obj else map_option (map_put k v) obj)"

definition rewriteModelInBody :: "string \<Rightarrow> string \<Rightarrow> string option" where
  "rewriteModelInBody body resolvedModelID =
     (case unmarshal_map body of
        None \<Rightarrow> None
      | Some obj \<Rightarrow>
          (let encoded = JStr (quote resolvedModelID)
           in Some (marshal_map (set_if_present ''name'' encoded (set_if_present ''model'' encoded obj)))))"

definition rewriteResponseModelForClient :: "string \<Rightarrow> string \<Rightarrow> string" where
  "rewriteResponseModelForClient body clientModel =
     (case unmarshal_map body of
        None \<Rightarrow> body
      | Some obj \<Rightarrow>
          (if entry obj ''model'' = None then body
           else marshal_map (map_option (map_put ''model'' (JStr (quote clientModel))) obj)))"

definition data_prefix :: string where
  "data_prefix = ''data:''"

definition rewriteSSEDataLineForClientModel :: "string \<Rightarrow> string \<Rightarrow> string" where
  "rewriteSSEDataLineForClientModel line clientModel =
     (if \<not> HasPrefix line data_prefix then line
      else
        (let payload = TrimSpace (drop (length data_prefix) line)
         in if payload = '''' \<or> payload = ''[DONE]'' then line
            else case unmarshal_map payload of
                   None \<Rightarrow> line
                 | Some obj \<Rightarrow>
                     (if entry obj ''model'' = None then line
                      else data_prefix @ '' '' @ marshal_map (map_option (map_put ''model'' (JStr (quote clientModel))) obj))))"

section \<open>Usage\<close>

record usage_details =
  ud_CachedTokens :: int

record usage_fields =
  uf_PromptTokens :: int
  uf_CompletionTokens :: int
  uf_TotalTokens :: int
  uf_PromptTokensDetails :: "usage_details option"

definition zero_usage :: usage_fields where
  "zero_usage = \<lparr>uf_PromptTokens = 0, uf_CompletionTokens = 0, uf_TotalTokens = 0, uf_PromptTokensDetails = None\<rparr>"

definition dec_details :: "usage_details \<Rightarrow> (string \<times> json) list \<Rightarrow> usage_details \<times> bool" where
  "dec_details x ms = (let (c, e) = decode_all dec_int (ud_CachedTokens x) (field_values ''cached_tokens'' ms) in (\<lparr>ud_CachedTokens = c\<rparr>, e))"

definition dec_usage :: "usage_fields \<Rightarrow> (string \<times> json) list \<Rightarrow> usage_fields \<times> bool" where
  "dec_usage x ms =
     (let (p, e1) = decode_all dec_int (uf_PromptTokens x) (field_values ''prompt_tokens'' ms);
          (c, e2) = decode_all dec_int (uf_CompletionTokens x) (field_values ''completion_tokens'' ms);
          (t, e3) = decode_all dec_int (uf_TotalTokens x) (field_values ''total_tokens'' ms);
          (d, e4) = decode_all (dec_ptr (dec_struct dec_details) \<lparr>ud_CachedTokens = 0\<rparr>) (uf_PromptTokensDetails x)
                      (field_values ''prompt_tokens_details'' ms)
      in (\<lparr>uf_PromptTokens = p, uf_CompletionTokens = c, uf_TotalTokens = t, uf_PromptTokensDetails = d\<rparr>,
          e1 \<or> e2 \<or> e3 \<or> e4))"

type_synonym usageOnly = "usage_fields option"

text \<open>\<open>None\<close>: the body is not JSON, or a field of the usage has the wrong type.\<close>

definition parseUsageFromBody :: "string \<Rightarrow> usageOnly option" where
  "parseUsageFromBody body =
     (let (u, err) = unmarshal_struct (\<lambda>x ms. decode_all (dec_ptr (dec_struct dec_usage) zero_usage) x (field_values ''usage'' ms)) None body
      in if err then None else Some u)"

definition applyUsageToLog :: "RequestLog \<Rightarrow> usageOnly option \<Rightarrow> RequestLog" where
  "applyUsageToLog lg u =
     (case u of
        Some (Some us) \<Rightarrow>
          (let l1 = lg\<lparr>l_PromptTokens := Some (uf_PromptTokens us), l_CompletionTokens := Some (uf_CompletionTokens us),
                        l_TotalTokens := Some (uf_TotalTokens us)\<rparr>
           in case uf_PromptTokensDetails us of
                None \<Rightarrow> l1
              | Some d \<Rightarrow> l1\<lparr>l_CachedTokens := Some (ud_CachedTokens d)\<rparr>)
      | _ \<Rightarrow> lg)"

definition dec_content :: "string \<Rightarrow> (string \<times> json) list \<Rightarrow> string \<times> bool" where
  "dec_content x ms = decode_all dec_string x (field_values ''content'' ms)"

definition dec_choice :: "string \<Rightarrow> (string \<times> json) list \<Rightarrow> string \<times> bool" where
  "dec_choice x ms = decode_all (dec_struct dec_content) x (field_values ''delta'' ms)"

definition extractOpenAIContentDelta :: "string \<Rightarrow> string" where
  "extractOpenAIContentDelta payload =
     (let (choices, err) =
        unmarshal_struct (\<lambda>x ms. decode_all (dec_slice (dec_struct dec_choice) '''') x (field_values ''choices'' ms)) [] payload
      in if err then '''' else concat choices)"

section \<open>What a rewritten body contains\<close>

text \<open>The fields of a document, with decoded values.\<close>

definition doc_field :: "string \<Rightarrow> string \<Rightarrow> json option" where
  "doc_field body k =
     (case unmarshal_map body of Some (Some m) \<Rightarrow> map_option json_value (map_of m k) | _ \<Rightarrow> None)"

lemma doc_field_marshal:
  assumes "entries_ok m"
  shows "doc_field (marshal_map (Some m)) k = map_option json_value (map_of m k)"
proof -
  have "json_value (json_html v) = json_value v" if "map_of m k = Some v" for v
  proof (rule json_value_html)
    have "v \<in> snd ` set m" using map_of_SomeD [OF that] by force
    then show "json_ok (maxNestingDepth - 1) v" using assms unfolding entries_ok_def by blast
  qed
  then show ?thesis
    by (cases "map_of m k") (simp_all add: doc_field_def entries_roundtrip [OF assms] map_of_html)
qed

lemma doc_field_put:
  assumes "entries_ok m" and "utf8_valid k" and "json_ok (maxNestingDepth - 1) v"
  shows "doc_field (marshal_map (Some (map_put k v m))) k' = (if k' = k then Some (json_value v) else map_option json_value (map_of m k'))"
  by (simp add: doc_field_marshal [OF entries_ok_put [OF assms]] map_of_put)

lemma json_value_quote [simp]: "utf8_valid s \<Longrightarrow> json_value (JStr (quote s)) = JStr s"
  by (simp add: unquote_quote)

lemma json_ok_mono: "json_ok n v \<Longrightarrow> n \<le> k \<Longrightarrow> json_ok k v"
  by (induction n v arbitrary: k rule: json_ok.induct) (fastforce dest: diff_le_mono)+

lemma map_of_value: "map_of (map (\<lambda>(k, v). (k, f v)) m) k = map_option f (map_of m k)"
  by (induction m) auto

lemma json_value_marshal:
  assumes "entries_ok m"
  shows "json_value (marshal_value m) = JObj (map (\<lambda>(k, v). (k, json_value v)) m)"
proof -
  have "unquote (quote k) = k \<and> json_value (json_html v) = json_value v" if "(k, v) \<in> set m" for k v
  proof -
    have "k \<in> fst ` set m" "v \<in> snd ` set m" using that by force+
    then show ?thesis using assms unfolding entries_ok_def by (blast intro: unquote_quote json_value_html)
  qed
  then show ?thesis by (auto simp: marshal_value_def)
qed

lemma json_ok_marshal_depth:
  assumes "\<forall>v \<in> snd ` set m. json_ok (n - 1) v" and "0 < n"
  shows "json_ok n (marshal_value m)"
  using assms by (force simp: marshal_value_def json_ok_html)

lemma utf8_valid_model: "utf8_valid ''model''" "utf8_valid ''name''" "utf8_valid ''stream_options''" "utf8_valid ''include_usage''"
  by (simp_all add: utf8_valid_ascii)

lemma entries_ok_set [inv_intros]:
  "entries_ok m \<Longrightarrow> utf8_valid k \<Longrightarrow> \<exists>m'. set_if_present k (JStr (quote s)) (Some m) = Some m' \<and> entries_ok m' \<and>
     map_of m' = (if map_of m k = None then map_of m else (map_of m)(k \<mapsto> JStr (quote s)))"
  using entries_ok_put [of m k "JStr (quote s)"] by (auto simp: set_if_present_def entry_def map_of_put)

lemma rewriteModelInBody_fields:
  assumes "unmarshal_map body = Some (Some m)"
  shows "\<exists>m'. rewriteModelInBody body rid = Some (marshal_map (Some m')) \<and> entries_ok m' \<and>
    (\<forall>k. map_of m' k = (if k \<in> {''model'', ''name''} \<and> map_of m k \<noteq> None then Some (JStr (quote rid)) else map_of m k))"
proof -
  note m = entries_ok_unmarshal [OF assms]
  obtain m1 where m1: "set_if_present ''model'' (JStr (quote rid)) (Some m) = Some m1" "entries_ok m1"
    "map_of m1 = (if map_of m ''model'' = None then map_of m else (map_of m)(''model'' \<mapsto> JStr (quote rid)))"
    using entries_ok_set [OF m utf8_valid_model(1), of rid] by blast
  obtain m2 where m2: "set_if_present ''name'' (JStr (quote rid)) (Some m1) = Some m2" "entries_ok m2"
    "map_of m2 = (if map_of m1 ''name'' = None then map_of m1 else (map_of m1)(''name'' \<mapsto> JStr (quote rid)))"
    using entries_ok_set [OF m1(2) utf8_valid_model(2), of rid] by blast
  have "rewriteModelInBody body rid = Some (marshal_map (Some m2))"
    by (simp add: rewriteModelInBody_def assms m1(1) m2(1))
  moreover have "map_of m2 k = (if k \<in> {''model'', ''name''} \<and> map_of m k \<noteq> None then Some (JStr (quote rid)) else map_of m k)" for k
    using m2(3) m1(3) by auto
  ultimately show ?thesis using m2(2) by blast
qed

section \<open>Properties\<close>


definition sample_body :: string where
  "sample_body = ''{ \"model\" : \"gpt\", \"n\": 2 }''"

lemma sample_body_map: "unmarshal_map sample_body = Some (Some [(''model'', JStr ''gpt''), (''n'', JNum ''2'')])"
  by code_simp


text \<open>
  The body sent back. For a response that is a JSON object with a \<open>model\<close>, the rewritten
  response has the model name the client asked for and every other field as the backend sent
  it; any other response is passed on byte for byte.
\<close>

theorem rewritten_response_fields:
  assumes "utf8_valid client"
  shows "(doc_field body ''model'' = None \<longrightarrow> rewriteResponseModelForClient body client = body) \<and>
    (doc_field body ''model'' \<noteq> None \<longrightarrow>
       (\<forall>k. doc_field (rewriteResponseModelForClient body client) k = (if k = ''model'' then Some (JStr client) else doc_field body k)))"
proof (cases "doc_field body ''model'' = None")
  case True
  then show ?thesis
    by (auto simp: doc_field_def rewriteResponseModelForClient_def entry_def split: option.splits)
next
  case False
  then obtain m where m: "unmarshal_map body = Some (Some m)" "map_of m ''model'' \<noteq> None"
    by (auto simp: doc_field_def split: option.splits)
  have "rewriteResponseModelForClient body client = marshal_map (Some (map_put ''model'' (JStr (quote client)) m))"
    using m by (auto simp: rewriteResponseModelForClient_def entry_def)
  moreover have "doc_field body k = map_option json_value (map_of m k)" for k by (simp add: doc_field_def m(1))
  ultimately show ?thesis
    using False assms doc_field_put [OF entries_ok_unmarshal [OF m(1)] utf8_valid_model(1), of "JStr (quote client)"] by (auto simp: unquote_quote)
qed

theorem rewritten_response_fields_witness:
  "doc_field (rewriteResponseModelForClient sample_body ''alias'') ''model'' = Some (JStr ''alias'')"
proof -
  have "doc_field sample_body ''model'' \<noteq> None" by (simp add: doc_field_def sample_body_map)
  with rewritten_response_fields [of "''alias''" sample_body] show ?thesis by (simp add: utf8_valid_ascii)
qed

text \<open>
  Usage in streams. For a request that is a JSON object, \<open>injectStreamOptions\<close> keeps every
  field but \<open>stream_options\<close>. If that was absent it becomes an object with \<open>include_usage\<close>
  true; if it was an object it keeps its other options and gets \<open>include_usage\<close> true; if it
  was \<open>null\<close> the function panics (assignment to an entry of a nil map); any other value is
  left as it is, so no usage is asked for.
\<close>

theorem inject_stream_options:
  assumes "unmarshal_map body = Some (Some m)"
  shows "(case map_of m ''stream_options'' of
      None \<Rightarrow> \<exists>out. injectStreamOptions body = Ok out \<and>
        (\<forall>k. doc_field out k = (if k = ''stream_options'' then Some (JObj [(''include_usage'', JBool True)]) else doc_field body k))
    | Some JNull \<Rightarrow> injectStreamOptions body = Panic
    | Some (JObj opts) \<Rightarrow> \<exists>out ms. injectStreamOptions body = Ok out \<and>
        (\<forall>k. k \<noteq> ''stream_options'' \<longrightarrow> doc_field out k = doc_field body k) \<and>
        doc_field out ''stream_options'' = Some (JObj ms) \<and>
        (\<forall>k. map_of ms k = (if k = ''include_usage'' then Some (JBool True) else map_option json_value (map_of (obj_entries opts) k)))
    | Some v \<Rightarrow> \<exists>out. injectStreamOptions body = Ok out \<and> (\<forall>k. doc_field out k = doc_field body k))"
proof -
  note m = entries_ok_unmarshal [OF assms]
  have body: "doc_field body k = map_option json_value (map_of m k)" for k by (simp add: doc_field_def assms)
  show ?thesis
  proof (cases "map_of m ''stream_options''")
    case None
    have "json_ok (maxNestingDepth - 1) (JObj [(''include_usage'', JBool True)])"
      by (simp add: maxNestingDepth_def str_ok_def)
    from doc_field_put [OF m utf8_valid_model(3) this] show ?thesis
      using None by (simp add: injectStreamOptions_def assms entry_def assign_def body unquote_ascii)
  next
    case (Some v)
    have other: "doc_field (marshal_map (Some m)) k = doc_field body k" for k by (simp add: doc_field_marshal [OF m] body)
    show ?thesis
    proof (cases v)
      case (JObj opts)
      let ?opts = "map_put ''include_usage'' (JBool True) (obj_entries opts)"
      have "v \<in> snd ` set m" using map_of_SomeD [OF Some] by force
      then have ok: "json_ok (maxNestingDepth - 1) v" using m unfolding entries_ok_def by blast
      then have "json_ok maxNestingDepth v" by (rule json_ok_mono) simp
      then have "entries_ok (obj_entries opts)" using JObj by (intro entries_ok_value [of v]) (simp_all add: unmarshal_value_def)
      then have e: "entries_ok ?opts" by (rule entries_ok_put [OF _ utf8_valid_model(4)]) simp
      have sub: "snd ` set ?opts \<subseteq> insert (JBool True) (snd ` set opts)"
        using values_put [of "''include_usage''" "JBool True" "obj_entries opts"] fold_put_values [of unquote opts "[]"]
        by (auto simp: obj_entries_def)
      have "\<forall>w \<in> insert (JBool True) (snd ` set opts). json_ok (maxNestingDepth - 1 - 1) w" using ok JObj by auto
      with sub have "\<forall>w \<in> snd ` set ?opts. json_ok (maxNestingDepth - 1 - 1) w" by (meson subsetD)
      then have "json_ok (maxNestingDepth - 1) (marshal_value ?opts)"
        by (rule json_ok_marshal_depth) (simp add: maxNestingDepth_def)
      from doc_field_put [OF m utf8_valid_model(3) this]
      have f: "doc_field (marshal_map (Some (map_put ''stream_options'' (marshal_value ?opts) m))) k =
          (if k = ''stream_options'' then Some (json_value (marshal_value ?opts)) else map_option json_value (map_of m k))" for k .
      have "injectStreamOptions body = Ok (marshal_map (Some (map_put ''stream_options'' (marshal_value ?opts) m)))"
        using Some JObj by (simp add: injectStreamOptions_def assms entry_def assign_def unmarshal_value_def)
      with f Some JObj json_value_marshal [OF e] show ?thesis by (simp add: body map_of_value map_of_put)
    qed (use Some other in \<open>simp_all add: injectStreamOptions_def assms entry_def unmarshal_value_def assign_def\<close>)
  qed
qed

theorem inject_stream_options_witness:
  "\<exists>out. injectStreamOptions sample_body = Ok out \<and> doc_field out ''model'' = doc_field sample_body ''model'' \<and>
     doc_field out ''stream_options'' = Some (JObj [(''include_usage'', JBool True)])"
  using inject_stream_options [OF sample_body_map] by auto

text \<open>
  Field names. The model is read from a struct field, whose name matches regardless of
  case, but it is rewritten under the exact key: a client that writes \<open>MODEL\<close> is routed by
  the alias, and the backend still receives the alias.
\<close>

theorem model_key_case_mismatch:
  "extractModelFromJSON ''{\"MODEL\":\"gpt\"}'' = Inr ''gpt'' \<and>
   rewriteModelInBody ''{\"MODEL\":\"gpt\"}'' ''llama'' = Some ''{\"MODEL\":\"gpt\"}''"
  by (intro conjI; code_simp)

end
