(* ===== verification/Go_Sha256.thy ===== *)
theory Go_Sha256
  imports Go_Strings "HOL-Library.Word"
begin

text \<open>
  \<open>crypto/sha256\<close> and \<open>encoding/hex\<close>, as \<open>HashKey\<close> uses them: the digest of a byte string,
  printed in lower-case hexadecimal. Words are 32 bits wide and additions wrap.
\<close>

unbundle bit_operations_syntax

section \<open>The compression function\<close>

type_synonym w32 = "32 word"

definition sha_k :: "w32 list" where
  "sha_k = [
    1116352408, 1899447441, 3049323471, 3921009573, 961987163, 1508970993, 2453635748, 2870763221,
    3624381080, 310598401, 607225278, 1426881987, 1925078388, 2162078206, 2614888103, 3248222580,
    3835390401, 4022224774, 264347078, 604807628, 770255983, 1249150122, 1555081692, 1996064986,
    2554220882, 2821834349, 2952996808, 3210313671, 3336571891, 3584528711, 113926993, 338241895,
    666307205, 773529912, 1294757372, 1396182291, 1695183700, 1986661051, 2177026350, 2456956037,
    2730485921, 2820302411, 3259730800, 3345764771, 3516065817, 3600352804, 4094571909, 275423344,
    430227734, 506948616, 659060556, 883997877, 958139571, 1322822218, 1537002063, 1747873779,
    1955562222, 2024104815, 2227730452, 2361852424, 2428436474, 2756734187, 3204031479, 3329325298]"

definition sha_init :: "w32 list" where
  "sha_init = [1779033703, 3144134277, 1013904242, 2773480762, 1359893119, 2600822924, 528734635, 1541459225]"

definition rotr :: "nat \<Rightarrow> w32 \<Rightarrow> w32" where
  "rotr n x = drop_bit n x OR push_bit (32 - n) x"

text \<open>The message schedule, newest word first, so that the lookback is at fixed positions.\<close>

primrec schedule :: "nat \<Rightarrow> w32 list \<Rightarrow> w32 list" where
  "schedule 0 ws = ws"
| "schedule (Suc n) ws =
     (let a = ws ! 14; b = ws ! 1;
          s0 = rotr 7 a XOR rotr 18 a XOR drop_bit 3 a;
          s1 = rotr 17 b XOR rotr 19 b XOR drop_bit 10 b
      in schedule n ((ws ! 15 + s0 + ws ! 6 + s1) # ws))"

fun sha_round :: "w32 \<times> w32 \<Rightarrow> w32 list \<Rightarrow> w32 list" where
  "sha_round (k, w) [a, b, c, d, e, f, g, h] =
     (let s1 = rotr 6 e XOR rotr 11 e XOR rotr 25 e;
          ch = (e AND f) XOR (NOT e AND g);
          t1 = h + s1 + ch + k + w;
          s0 = rotr 2 a XOR rotr 13 a XOR rotr 22 a;
          maj = (a AND b) XOR (a AND c) XOR (b AND c);
          t2 = s0 + maj
      in [t1 + t2, a, b, c, d + t1, e, f, g])"
| "sha_round _ st = st"

definition sha_block :: "w32 list \<Rightarrow> w32 list \<Rightarrow> w32 list" where
  "sha_block block st = map2 (+) st (fold sha_round (zip sha_k (rev (schedule 48 (rev block)))) st)"

section \<open>Padding and the digest\<close>

fun be_bytes :: "nat \<Rightarrow> int \<Rightarrow> int list" where
  "be_bytes 0 x = []"
| "be_bytes (Suc n) x = be_bytes n (x div 256) @ [x mod 256]"

definition be_word :: "int list \<Rightarrow> w32" where
  "be_word bs = word_of_int (fold (\<lambda>b acc. acc * 256 + b) bs 0)"

definition sha_pad :: "int list \<Rightarrow> int list" where
  "sha_pad bs = bs @ [128] @ replicate (nat ((- 9 - int (length bs)) mod 64)) 0 @ be_bytes 8 (8 * int (length bs))"

fun chunks_of :: "nat \<Rightarrow> 'a list \<Rightarrow> 'a list list" where
  "chunks_of n xs = (if n = 0 \<or> xs = [] then [] else take n xs # chunks_of n (drop n xs))"

declare chunks_of.simps [simp del]

definition sha256_words :: "int list \<Rightarrow> w32 list" where
  "sha256_words bs = fold (\<lambda>c. sha_block (map be_word (chunks_of 4 c))) (chunks_of 64 (sha_pad bs)) sha_init"

definition hex_digit :: "int \<Rightarrow> char" where
  "hex_digit n = char_of (if n < 10 then 48 + n else 87 + n)"

definition hex_byte :: "int \<Rightarrow> string" where
  "hex_byte b = [hex_digit (b div 16), hex_digit (b mod 16)]"

definition sha256_hex :: "string \<Rightarrow> string" where
  "sha256_hex s = concat (map (\<lambda>w. concat (map hex_byte (be_bytes 4 (uint w)))) (sha256_words (map of_char s)))"

section \<open>Shape of the digest\<close>

lemma length_sha_round: "length (sha_round kw st) = length st"
  by (cases "(kw, st)" rule: sha_round.cases) (auto simp: Let_def)

lemma length_fold_sha_round: "length (fold sha_round kws st) = length st"
  by (induction kws arbitrary: st) (simp_all add: length_sha_round)

lemma length_sha_block: "length (sha_block b st) = length st"
  by (simp add: sha_block_def length_fold_sha_round)

lemma length_sha256_words: "length (sha256_words bs) = 8"
proof -
  have "length (fold (\<lambda>c. sha_block (f c)) cs st) = length st" for cs :: "int list list" and st f
    by (induction cs arbitrary: st) (simp_all add: length_sha_block)
  then show ?thesis by (simp add: sha256_words_def sha_init_def)
qed

lemma length_be_bytes [simp]: "length (be_bytes n x) = n"
  by (induction n x rule: be_bytes.induct) simp_all

lemma sha_pad_multiple: "64 dvd length (sha_pad bs)"
proof -
  let ?p = "nat ((- 9 - int (length bs)) mod 64)"
  have "int (length (sha_pad bs)) = int (length bs) + 9 + (- 9 - int (length bs)) mod 64"
    by (simp add: sha_pad_def)
  also have "\<dots> mod 64 = (int (length bs) + 9 + (- 9 - int (length bs))) mod 64"
    by (rule mod_add_right_eq)
  finally have "64 dvd int (length (sha_pad bs))" by (simp add: dvd_eq_mod_eq_0)
  then show ?thesis by presburger
qed

lemma length_sha256_hex: "length (sha256_hex s) = 64"
proof -
  have h: "length (concat (map hex_byte bs)) = 2 * length bs" for bs
    by (induction bs) (simp_all add: hex_byte_def)
  have "length (concat (map (\<lambda>w :: w32. concat (map hex_byte (be_bytes 4 (uint w)))) ws)) = 8 * length ws" for ws
    by (induction ws) (simp_all add: h del: be_bytes.simps)
  then show ?thesis by (simp add: sha256_hex_def length_sha256_words)
qed

end
