(* ===== verification/API_Auth.thy ===== *)
theory API_Auth
  imports Go_Http Go_Sha256
begin

text \<open>
  Authentication: the API keys and rate limits of the proxy routes
  (\<open>internal/proxy/auth.go\<close>) and the access key of the admin routes
  (\<open>internal/auth/middleware.go\<close>). The limiter keeps, per key, two fixed windows of 60 seconds; each
  window starts with the first request after the previous one has expired. The counters are
  64-bit integers. \<open>RequireAPIKey\<close> is the decision the wrapper takes before it calls the
  wrapped handler; the key lookup of the store is its argument.
\<close>

section \<open>The rate limiter\<close>

record keyLimiterEntry =
  en_rpmStart :: time
  en_rpmCount :: int
  en_tpmStart :: time
  en_tpmTokens :: int

type_synonym KeyLimiter = "string \<rightharpoonup> keyLimiterEntry"

definition NewKeyLimiter :: KeyLimiter where
  "NewKeyLimiter = Map.empty"

text \<open>The zero entry: its window starts at the zero time.\<close>

definition zero_entry :: keyLimiterEntry where
  "zero_entry = \<lparr>en_rpmStart = 0, en_rpmCount = 0, en_tpmStart = 0, en_tpmTokens = 0\<rparr>"

definition window :: duration where
  "window = 60 * second"

definition rpm_step :: "keyLimiterEntry \<Rightarrow> time \<Rightarrow> keyLimiterEntry" where
  "rpm_step e now =
     (let e1 = (if time_sub now (en_rpmStart e) \<ge> window then e\<lparr>en_rpmStart := now, en_rpmCount := 0\<rparr> else e)
      in e1\<lparr>en_rpmCount := i64 (en_rpmCount e1 + 1)\<rparr>)"

definition tpm_step :: "keyLimiterEntry \<Rightarrow> time \<Rightarrow> int \<Rightarrow> keyLimiterEntry" where
  "tpm_step e now promptTokens =
     (let e1 = (if time_sub now (en_tpmStart e) \<ge> window then e\<lparr>en_tpmStart := now, en_tpmTokens := 0\<rparr> else e)
      in e1\<lparr>en_tpmTokens := i64 (en_tpmTokens e1 + promptTokens)\<rparr>)"

definition allow ::
  "KeyLimiter \<Rightarrow> string \<Rightarrow> int option \<Rightarrow> int option \<Rightarrow> int \<Rightarrow> time \<Rightarrow> (bool \<times> string) \<times> KeyLimiter" where
  "allow l keyID rpmLimit tpmLimit promptTokens now =
     (if rpmLimit = None \<and> tpmLimit = None then ((True, ''''), l)
      else
        (let entry = (case l keyID of Some e \<Rightarrow> e | None \<Rightarrow> zero_entry);
             e1 = (case rpmLimit of None \<Rightarrow> entry | Some _ \<Rightarrow> rpm_step entry now)
         in if (case rpmLimit of None \<Rightarrow> False | Some limit \<Rightarrow> en_rpmCount e1 > limit)
            then ((False, ''rpm limit exceeded''), l(keyID \<mapsto> e1))
            else
              (let e2 = (case tpmLimit of None \<Rightarrow> e1 | Some _ \<Rightarrow> tpm_step e1 now promptTokens)
               in if (case tpmLimit of None \<Rightarrow> False | Some limit \<Rightarrow> en_tpmTokens e2 > limit)
                  then ((False, ''tpm limit exceeded''), l(keyID \<mapsto> e2))
                  else ((True, ''''), l(keyID \<mapsto> e2)))))"

definition estimatePromptTokens :: "http_request \<Rightarrow> int" where
  "estimatePromptTokens r = (if rq_ContentLength r > 0 then quot (rq_ContentLength r) 4 else 0)"

section \<open>API keys of proxy requests\<close>

definition BearerToken :: "http_request \<Rightarrow> string" where
  "BearerToken r =
     (let auth = hdr_get (rq_Header r) ''Authorization''
      in if auth = '''' then ''''
         else if \<not> HasPrefix (ToLower auth) ''bearer '' then ''''
         else TrimSpace (drop 7 auth))"

definition HashKey :: "string \<Rightarrow> string" where
  "HashKey token = sha256_hex token"

definition getConfigInt :: "config \<Rightarrow> string \<Rightarrow> int \<Rightarrow> int" where
  "getConfigInt cfg key defaultValue =
     (case cfg key of None \<Rightarrow> defaultValue
      | Some val \<Rightarrow> (case Atoi val of None \<Rightarrow> defaultValue | Some v \<Rightarrow> v))"

definition getConfigBool :: "config \<Rightarrow> string \<Rightarrow> bool \<Rightarrow> bool" where
  "getConfigBool cfg key defaultValue =
     (case cfg key of None \<Rightarrow> defaultValue | Some val \<Rightarrow> val = ''true'')"

record keyAuth =
  ka_ID :: string
  ka_Name :: string

text \<open>
  The outcome of \<open>RequireAPIKey\<close>: an error response, or the wrapped handler is called with
  the key on its context. The store lookup may fail (\<open>Inl\<close>) or find no key. A passed key
  also has its last-used time written, in a goroutine of its own.
\<close>

datatype auth_outcome = AuthReject int string | AuthPass "keyAuth option"

definition RequireAPIKey ::
  "config \<Rightarrow> (string \<Rightarrow> string + APIKey option) \<Rightarrow> KeyLimiter \<Rightarrow> http_request \<Rightarrow> time \<Rightarrow> auth_outcome \<times> KeyLimiter \<times> string option" where
  "RequireAPIKey cfg getAPIKeyByHash limiter r now =
     (let requireKeys = getConfigBool cfg ''require_api_keys'' DefaultRequireAPIKeys;
          token = BearerToken r
      in if token = '''' then
           (if requireKeys then (AuthReject 401 ''missing API key'', limiter, None)
            else (AuthPass None, limiter, None))
         else
           case getAPIKeyByHash (HashKey token) of
             Inl _ \<Rightarrow> (AuthReject 500 ''internal error'', limiter, None)
           | Inr None \<Rightarrow> (AuthReject 401 ''invalid API key'', limiter, None)
           | Inr (Some key) \<Rightarrow>
               (if \<not> k_IsActive key then (AuthReject 401 ''invalid API key'', limiter, None)
                else
                  (let promptTokens = estimatePromptTokens r;
                       ((ok, msg), limiter') = allow limiter (k_ID key) (k_RateLimitRPM key) (k_RateLimitTPM key) promptTokens now
                   in if \<not> ok then (AuthReject 429 msg, limiter', None)
                      else (AuthPass (Some \<lparr>ka_ID = k_ID key, ka_Name = k_Name key\<rparr>), limiter', Some (k_ID key)))))"

section \<open>The access key of the admin routes\<close>

definition extractAccessKey :: "http_request \<Rightarrow> string" where
  "extractAccessKey r =
     (let authHeader = hdr_get (rq_Header r) ''Authorization''
      in if authHeader \<noteq> '''' \<and> HasPrefix authHeader ''Bearer '' then TrimSpace (drop 7 authHeader)
         else TrimSpace (hdr_get (rq_Header r) ''X-Access-Key''))"

text \<open>\<open>subtle.ConstantTimeCompare\<close> ORs the XOR of all bytes.\<close>

definition ConstantTimeCompare :: "string \<Rightarrow> string \<Rightarrow> int" where
  "ConstantTimeCompare x y =
     (if length x \<noteq> length y then 0
      else if fold (\<lambda>(a, b) v. v OR (of_char a XOR of_char b)) (zip x y) (0 :: nat) = 0 then 1 else 0)"

definition isValidKey :: "string \<Rightarrow> string \<Rightarrow> bool" where
  "isValidKey candidateKey accessKey =
     (if length candidateKey \<noteq> length accessKey then False
      else ConstantTimeCompare candidateKey accessKey = 1)"

definition ValidateAccessKey :: "string \<Rightarrow> http_request \<Rightarrow> bool" where
  "ValidateAccessKey accessKey r = isValidKey (extractAccessKey r) accessKey"

definition AccessKeyMiddleware :: "string \<Rightarrow> (http_request \<Rightarrow> http_response) \<Rightarrow> http_request \<Rightarrow> http_response" where
  "AccessKeyMiddleware accessKey handler r =
     (let candidateKey = extractAccessKey r
      in if \<not> isValidKey candidateKey accessKey
         then \<lparr>rs_Status = 401, rs_Header = [(''Content-Type'', [''application/json''])],
               rs_Body = ''{\"error\":\"unauthorized\"}''\<rparr>
         else handler r)"

text \<open>The wrapped handler starts from the headers set so far.\<close>

definition CORSMiddleware :: "(header \<Rightarrow> http_request \<Rightarrow> http_response) \<Rightarrow> http_request \<Rightarrow> http_response" where
  "CORSMiddleware handler r =
     (let h = hdr_set ''Access-Control-Allow-Headers'' ''Authorization, Content-Type, X-Access-Key''
                (hdr_set ''Access-Control-Allow-Methods'' ''GET, POST, PUT, DELETE, OPTIONS''
                  (hdr_set ''Access-Control-Allow-Origin'' ''*'' []))
      in if rq_Method r = ''OPTIONS'' then \<lparr>rs_Status = 204, rs_Header = h, rs_Body = ''''\<rparr>
         else handler h r)"

section \<open>One window of the limiter\<close>

text \<open>
  The contract of a fixed-window counter: a step at an instant either continues the window or
  starts a new one, adds the cost of the request and admits it when the count stays within
  the limit. \<open>budget\<close> is what can still be admitted in an interval of one window length
  that started at \<open>a\<close>.
\<close>

locale fixed_window =
  fixes start :: "'e \<Rightarrow> time" and used :: "'e \<Rightarrow> int" and step :: "'e \<Rightarrow> time \<Rightarrow> int \<Rightarrow> 'e"
    and cost :: "int \<Rightarrow> bool"
  assumes same_window: "cost c \<Longrightarrow> now < start e + window \<Longrightarrow> in_i64 (used e + c) \<Longrightarrow>
      start (step e now c) = start e \<and> used (step e now c) = used e + c"
    and new_window: "cost c \<Longrightarrow> start e + window \<le> now \<Longrightarrow> in_i64 c \<Longrightarrow> start (step e now c) = now \<and> used (step e now c) = c"
begin

definition budget :: "time \<Rightarrow> int \<Rightarrow> 'e \<Rightarrow> int" where
  "budget a limit e = (if a \<le> start e then max 0 (limit - used e) else max 0 (limit - used e) + max 0 limit)"

lemma budget_nonneg: "0 \<le> budget a limit e"
  by (simp add: budget_def)

lemma step_budget:
  assumes "cost c" and "0 \<le> c" and "0 \<le> used e" and "a \<le> now" and "now < a + window" and "used e + c < 2 ^ 63"
  shows "(if used (step e now c) \<le> limit then c else 0) + budget a limit (step e now c) \<le> budget a limit e"
    and "0 \<le> used (step e now c)" and "used (step e now c) \<le> used e + c"
proof -
  have "0 < window" by (simp add: window_def second_def)
  then show "(if used (step e now c) \<le> limit then c else 0) + budget a limit (step e now c) \<le> budget a limit e"
    and "0 \<le> used (step e now c)" and "used (step e now c) \<le> used e + c"
    using assms same_window [where now = now and e = e and c = c] new_window [where now = now and e = e and c = c]
    by (cases "now < start e + window"; auto simp: budget_def in_i64_def max_def)+
qed

lemma budget_bound: "0 \<le> used e \<Longrightarrow> budget a limit e \<le> 2 * max 0 limit"
  by (simp add: budget_def max_def)

end

lemma window_expired: "time_sub now t \<ge> window \<longleftrightarrow> t + window \<le> now"
  by (rule time_sub_ge_pos) (simp_all add: window_def second_def in_i64_def)

interpretation rpm: fixed_window en_rpmStart en_rpmCount "\<lambda>e now c. rpm_step e now" "\<lambda>c. c = 1"
  by unfold_locales (auto simp: rpm_step_def Let_def window_expired i64_id)

interpretation tpm: fixed_window en_tpmStart en_tpmTokens tpm_step "\<lambda>c. True"
  by unfold_locales (auto simp: tpm_step_def Let_def window_expired i64_id)

section \<open>Sequences of requests\<close>

record limiter_call =
  lc_now :: time
  lc_key :: string
  lc_rpm :: "int option"
  lc_tpm :: "int option"
  lc_tokens :: int

fun limiter_run :: "KeyLimiter \<Rightarrow> limiter_call list \<Rightarrow> bool list \<times> KeyLimiter" where
  "limiter_run l [] = ([], l)"
| "limiter_run l (c # cs) =
     (let ((ok, _), l1) = allow l (lc_key c) (lc_rpm c) (lc_tpm c) (lc_tokens c) (lc_now c);
          (oks, l2) = limiter_run l1 cs
      in (ok # oks, l2))"

text \<open>The calls of one key that were let through.\<close>

definition admitted :: "string \<Rightarrow> KeyLimiter \<Rightarrow> limiter_call list \<Rightarrow> limiter_call list" where
  "admitted k l cs = map fst (filter (\<lambda>(c, ok). ok \<and> lc_key c = k) (zip cs (fst (limiter_run l cs))))"

definition entry_at :: "KeyLimiter \<Rightarrow> string \<Rightarrow> keyLimiterEntry" where
  "entry_at l k = (case l k of Some e \<Rightarrow> e | None \<Rightarrow> zero_entry)"

lemma admitted_Nil [simp]: "admitted k l [] = []"
  by (simp add: admitted_def)

lemma admitted_Cons:
  "admitted k l (c # cs) =
     (let r = allow l (lc_key c) (lc_rpm c) (lc_tpm c) (lc_tokens c) (lc_now c)
      in (if fst (fst r) \<and> lc_key c = k then [c] else []) @ admitted k (snd r) cs)"
  by (auto simp: admitted_def Let_def case_prod_beta)

lemma allow_other: "k' \<noteq> k \<Longrightarrow> snd (allow l k rpm tpm tok now) k' = l k'"
  by (simp add: allow_def Let_def split: option.splits)

lemma step_keeps [simp]:
  "en_tpmStart (rpm_step e now) = en_tpmStart e" "en_tpmTokens (rpm_step e now) = en_tpmTokens e"
  "en_rpmStart (tpm_step e now t) = en_rpmStart e" "en_rpmCount (tpm_step e now t) = en_rpmCount e"
  by (simp_all add: rpm_step_def tpm_step_def Let_def)

text \<open>What one call does to the windows of its key.\<close>

lemma allow_rpm:
  assumes "allow l k (Some limit) tpm tok now = ((ok, msg), l')"
  shows "en_rpmStart (entry_at l' k) = en_rpmStart (rpm_step (entry_at l k) now)"
    and "en_rpmCount (entry_at l' k) = en_rpmCount (rpm_step (entry_at l k) now)"
    and "ok \<Longrightarrow> en_rpmCount (rpm_step (entry_at l k) now) \<le> limit"
  using assms by (auto simp: allow_def Let_def entry_at_def split: option.splits if_splits)

lemma allow_tpm:
  assumes "allow l k rpm (Some limit) tok now = ((ok, msg), l')"
  shows "(en_tpmStart (entry_at l' k), en_tpmTokens (entry_at l' k)) =
      (en_tpmStart (tpm_step (entry_at l k) now tok), en_tpmTokens (tpm_step (entry_at l k) now tok)) \<and>
      (ok \<longrightarrow> en_tpmTokens (tpm_step (entry_at l k) now tok) \<le> limit) \<or>
    \<not> ok \<and> (en_tpmStart (entry_at l' k), en_tpmTokens (entry_at l' k)) = (en_tpmStart (entry_at l k), en_tpmTokens (entry_at l k))"
  using assms
  by (auto simp: allow_def entry_at_def tpm_step_def Let_def split: option.splits if_splits)

lemma budget_cong:
  "en_rpmStart e = en_rpmStart e' \<Longrightarrow> en_rpmCount e = en_rpmCount e' \<Longrightarrow> rpm.budget a limit e = rpm.budget a limit e'"
  "en_tpmStart e = en_tpmStart e' \<Longrightarrow> en_tpmTokens e = en_tpmTokens e' \<Longrightarrow> tpm.budget a limit e = tpm.budget a limit e'"
  by (simp_all add: rpm.budget_def tpm.budget_def)

definition calls_in :: "time \<Rightarrow> limiter_call list \<Rightarrow> bool" where
  "calls_in a cs \<longleftrightarrow> (\<forall>c \<in> set cs. a \<le> lc_now c \<and> lc_now c < a + window)"

lemma admitted_rpm_budget:
  assumes "calls_in a cs" and "\<forall>c \<in> set cs. lc_key c = k \<longrightarrow> lc_rpm c = Some limit"
    and "0 \<le> en_rpmCount (entry_at l k)" and "en_rpmCount (entry_at l k) + int (length cs) < 2 ^ 63"
  shows "int (length (admitted k l cs)) \<le> rpm.budget a limit (entry_at l k)"
  using assms
proof (induction cs arbitrary: l)
  case Nil
  then show ?case by (simp add: rpm.budget_nonneg)
next
  case (Cons c cs)
  let ?r = "allow l (lc_key c) (lc_rpm c) (lc_tpm c) (lc_tokens c) (lc_now c)" and ?e = "entry_at l k"
  obtain ok msg l' where r: "?r = ((ok, msg), l')" by (cases ?r) auto
  show ?case
  proof (cases "lc_key c = k")
    case False
    then have "entry_at l' k = entry_at l k" using allow_other [of k "lc_key c" l] r by (metis entry_at_def snd_conv)
    moreover have "int (length (admitted k l' cs)) \<le> rpm.budget a limit (entry_at l' k)"
      using Cons.prems calculation by (intro Cons.IH) (auto simp: calls_in_def)
    ultimately show ?thesis using False r by (simp add: admitted_Cons)
  next
    case True
    then have a: "allow l k (Some limit) (lc_tpm c) (lc_tokens c) (lc_now c) = ((ok, msg), l')" using r Cons.prems(2) by simp
    let ?e' = "rpm_step ?e (lc_now c)"
    have sb: "(if en_rpmCount ?e' \<le> limit then 1 else 0) + rpm.budget a limit ?e' \<le> rpm.budget a limit ?e"
      "0 \<le> en_rpmCount ?e'" "en_rpmCount ?e' \<le> en_rpmCount ?e + 1"
      using rpm.step_budget [of 1 ?e a "lc_now c"] Cons.prems by (simp_all add: calls_in_def)
    have "int (length (admitted k l' cs)) \<le> rpm.budget a limit (entry_at l' k)"
      using Cons.prems sb(2,3) allow_rpm(2) [OF a] by (intro Cons.IH) (auto simp: calls_in_def)
    then have "int (length (admitted k l' cs)) \<le> rpm.budget a limit ?e'"
      using budget_cong(1) [OF allow_rpm(1,2) [OF a], of a limit] by simp
    then show ?thesis using r True sb(1) allow_rpm(3) [OF a] by (auto simp: admitted_Cons split: if_splits)
  qed
qed

lemma admitted_tpm_budget:
  assumes "calls_in a cs" and "\<forall>c \<in> set cs. lc_key c = k \<longrightarrow> lc_tpm c = Some limit" and "\<forall>c \<in> set cs. 0 \<le> lc_tokens c"
    and "0 \<le> en_tpmTokens (entry_at l k)" and "en_tpmTokens (entry_at l k) + sum_list (map lc_tokens cs) < 2 ^ 63"
  shows "sum_list (map lc_tokens (admitted k l cs)) \<le> tpm.budget a limit (entry_at l k)"
  using assms
proof (induction cs arbitrary: l)
  case Nil
  then show ?case by (simp add: tpm.budget_nonneg)
next
  case (Cons c cs)
  let ?r = "allow l (lc_key c) (lc_rpm c) (lc_tpm c) (lc_tokens c) (lc_now c)" and ?e = "entry_at l k"
  obtain ok msg l' where r: "?r = ((ok, msg), l')" by (cases ?r) auto
  have pos: "0 \<le> sum_list (map lc_tokens cs)" using Cons.prems(3) by (intro sum_list_nonneg) auto
  show ?case
  proof (cases "lc_key c = k")
    case False
    then have "entry_at l' k = entry_at l k" using allow_other [of k "lc_key c" l] r by (metis entry_at_def snd_conv)
    moreover have "sum_list (map lc_tokens (admitted k l' cs)) \<le> tpm.budget a limit (entry_at l' k)"
      using Cons.prems calculation by (intro Cons.IH) (auto simp: calls_in_def)
    ultimately show ?thesis using False r by (simp add: admitted_Cons)
  next
    case True
    then have a: "allow l k (lc_rpm c) (Some limit) (lc_tokens c) (lc_now c) = ((ok, msg), l')" using r Cons.prems(2) by simp
    let ?e' = "tpm_step ?e (lc_now c) (lc_tokens c)"
    have sb: "(if en_tpmTokens ?e' \<le> limit then lc_tokens c else 0) + tpm.budget a limit ?e' \<le> tpm.budget a limit ?e"
      "0 \<le> en_tpmTokens ?e'" "en_tpmTokens ?e' \<le> en_tpmTokens ?e + lc_tokens c"
      using tpm.step_budget [of "lc_tokens c" ?e a "lc_now c"] Cons.prems pos by (simp_all add: calls_in_def)
    have pre: "0 \<le> en_tpmTokens (entry_at l' k)" "en_tpmTokens (entry_at l' k) \<le> en_tpmTokens ?e + lc_tokens c"
      using allow_tpm [OF a] sb(2,3) Cons.prems by auto
    have "sum_list (map lc_tokens (admitted k l' cs)) \<le> tpm.budget a limit (entry_at l' k)"
      using Cons.prems pre by (intro Cons.IH) (auto simp: calls_in_def)
    then have "(if ok then lc_tokens c else 0) + sum_list (map lc_tokens (admitted k l' cs)) \<le> tpm.budget a limit ?e"
      using Cons.prems(3) allow_tpm [OF a] sb(1) budget_cong(2) [of "entry_at l' k" ?e' a limit]
        budget_cong(2) [of "entry_at l' k" ?e a limit] by (auto split: if_splits)
    then show ?thesis using r True by (auto simp: admitted_Cons split: if_splits)
  qed
qed

lemma allow_tpm_only:
  "fst (fst (allow l k None (Some n) tok now)) = (en_tpmTokens (tpm_step (entry_at l k) now tok) \<le> n)"
  "entry_at (snd (allow l k None (Some n) tok now)) k = tpm_step (entry_at l k) now tok"
  by (auto simp: allow_def entry_at_def Let_def not_less split: option.splits)

lemma tpm_step_at: "en_tpmStart e = now \<Longrightarrow> tpm_step e now t = e\<lparr>en_tpmTokens := i64 (en_tpmTokens e + t)\<rparr>"
  by (simp add: tpm_step_def Let_def window_expired, simp add: window_def second_def)

lemma tpm_step_new:
  "window \<le> now \<Longrightarrow> tpm_step zero_entry now t = zero_entry\<lparr>en_tpmStart := now, en_tpmTokens := i64 t\<rparr>"
  by (simp add: tpm_step_def Let_def window_expired zero_entry_def)

lemma limiter_run_fst_Cons:
  "fst (limiter_run l (c # cs)) =
     (let r = allow l (lc_key c) (lc_rpm c) (lc_tpm c) (lc_tokens c) (lc_now c) in fst (fst r) # fst (limiter_run (snd r) cs))"
  by (simp add: Let_def case_prod_beta)

section \<open>The access key\<close>

lemma xor_eq_0: "a XOR b = (0 :: nat) \<longleftrightarrow> a = b"
  by (metis xor.assoc xor.left_neutral xor_self_eq)

lemma fold_or_xor_0:
  "fold (\<lambda>(a, b) v. v OR (of_char a XOR of_char b)) ps (acc :: nat) = 0 \<longleftrightarrow> acc = 0 \<and> (\<forall>(a, b) \<in> set ps. a = b)"
proof (induction ps arbitrary: acc)
  case (Cons p ps)
  have "acc OR (of_char a XOR of_char b) = 0 \<longleftrightarrow> acc = 0 \<and> a = b" for a b :: char
    by (simp add: or_eq_0_iff xor_eq_0)
  with Cons show ?case by (auto split: prod.splits)
qed simp

lemma zip_all_eq: "length x = length y \<Longrightarrow> (\<forall>(a, b) \<in> set (zip x y). a = b) \<longleftrightarrow> x = y"
  by (induction x y rule: list_induct2) auto

lemma isValidKey_iff: "isValidKey c k \<longleftrightarrow> c = k"
  by (auto simp: isValidKey_def ConstantTimeCompare_def fold_or_xor_0 zip_all_eq)

lemma extractAccessKey_trimmed: "TrimSpace (extractAccessKey r) = extractAccessKey r"
  by (simp add: extractAccessKey_def Let_def)

section \<open>Properties\<close>

text \<open>
  C25. Requests per minute. Let a sequence of requests of any keys fall into one interval of
  60 seconds, in any order, and let a key have the limit \<open>n\<close> throughout. Whatever the limiter has
  counted before, it lets at most \<open>2 n\<close> requests of that key through: the fixed windows may
  split the interval once.
\<close>

theorem rpm_limit_bound:
  assumes "calls_in a cs" and "\<forall>c \<in> set cs. lc_key c = k \<longrightarrow> lc_rpm c = Some n"
    and "0 \<le> en_rpmCount (entry_at l k)" and "en_rpmCount (entry_at l k) + int (length cs) < 2 ^ 63"
  shows "int (length (admitted k l cs)) \<le> 2 * max 0 n"
  using admitted_rpm_budget [OF assms] rpm.budget_bound [OF assms(3), of a n] by linarith

theorem rpm_limit_bound_witness:
  "let c = \<lparr>lc_now = window, lc_key = ''k'', lc_rpm = Some 1, lc_tpm = None, lc_tokens = 0\<rparr>
   in length (admitted ''k'' NewKeyLimiter [c, c, c]) \<le> 2"
proof -
  let ?c = "\<lparr>lc_now = window, lc_key = ''k'', lc_rpm = Some 1, lc_tpm = None, lc_tokens = 0\<rparr>"
  have "calls_in window [?c, ?c, ?c]" by (simp add: calls_in_def window_def second_def)
  from rpm_limit_bound [OF this, of "''k''" 1 NewKeyLimiter] show ?thesis
    by (simp add: entry_at_def NewKeyLimiter_def zero_entry_def Let_def)
qed

text \<open>
  Tokens per minute. In the same setting, a key with a token limit \<open>n\<close> is let through with
  at most \<open>2 n\<close> estimated prompt tokens in any interval of 60 seconds, as long as the estimates
  of the interval do not overflow the counter.
\<close>

theorem tpm_limit_bound:
  assumes "calls_in a cs" and "\<forall>c \<in> set cs. lc_key c = k \<longrightarrow> lc_tpm c = Some n" and "\<forall>c \<in> set cs. 0 \<le> lc_tokens c"
    and "0 \<le> en_tpmTokens (entry_at l k)" and "en_tpmTokens (entry_at l k) + sum_list (map lc_tokens cs) < 2 ^ 63"
  shows "sum_list (map lc_tokens (admitted k l cs)) \<le> 2 * max 0 n"
  using admitted_tpm_budget [OF assms] tpm.budget_bound [OF assms(4), of a n] by linarith

theorem tpm_limit_bound_witness:
  "let c = \<lparr>lc_now = window, lc_key = ''k'', lc_rpm = None, lc_tpm = Some 10, lc_tokens = 6\<rparr>
   in sum_list (map lc_tokens (admitted ''k'' NewKeyLimiter [c, c, c])) \<le> 20"
proof -
  let ?c = "\<lparr>lc_now = window, lc_key = ''k'', lc_rpm = None, lc_tpm = Some 10, lc_tokens = 6\<rparr>"
  have "calls_in window [?c, ?c, ?c]" by (simp add: calls_in_def window_def second_def)
  from tpm_limit_bound [OF this, of "''k''" 10 NewKeyLimiter] show ?thesis
    by (simp add: entry_at_def NewKeyLimiter_def zero_entry_def Let_def)
qed

text \<open>
  The token counter overflows. The estimate is a quarter of the declared
  \<open>Content-Length\<close>, which the wrapper reads before the body; four requests of one key that
  declare the largest length wrap the counter far below zero, and the key's token limit then
  admits a request of any size for the rest of the window.
\<close>

theorem tpm_overflow_bypass:
  assumes "window \<le> now" and "0 \<le> n" and "0 \<le> tok" and "tok < 2 ^ 62"
  shows "let r = r0\<lparr>rq_ContentLength := 2 ^ 63 - 1\<rparr>;
      c = \<lparr>lc_now = now, lc_key = k, lc_rpm = None, lc_tpm = Some n, lc_tokens = estimatePromptTokens r\<rparr>
    in fst (limiter_run NewKeyLimiter [c, c, c, c, c, c\<lparr>lc_tokens := tok\<rparr>]) =
       [estimatePromptTokens r \<le> n, 2 * estimatePromptTokens r \<le> n, 3 * estimatePromptTokens r \<le> n,
        4 * estimatePromptTokens r \<le> n, True, True]"
proof -
  let ?t = "2 ^ 61 - 1 :: int"
  have wrap: "(20752587082923245563 + tok) mod 18446744073709551616 = 2305843009213693947 + tok"
    using assms(3,4) mod_pos_pos_trivial [of "2305843009213693947 + tok" 18446744073709551616]
      mod_add_self1 [of 18446744073709551616 "2305843009213693947 + tok"] by simp
  have entry_new: "entry_at NewKeyLimiter k = zero_entry" by (simp add: entry_at_def NewKeyLimiter_def)
  have t: "estimatePromptTokens (r0\<lparr>rq_ContentLength := 2 ^ 63 - 1\<rparr>) = ?t"
    by (simp add: estimatePromptTokens_def quot_def)
  show ?thesis
    using assms unfolding Let_def t limiter_run_fst_Cons
    by (simp add: allow_tpm_only tpm_step_at tpm_step_new entry_new Let_def del: limiter_run.simps(2)) (use wrap in \<open>simp add: i64_def\<close>)
qed

theorem tpm_overflow_bypass_witness:
  "let c = \<lparr>lc_now = window, lc_key = ''k'', lc_rpm = None, lc_tpm = Some 1000, lc_tokens = 2 ^ 61 - 1\<rparr>
   in fst (limiter_run NewKeyLimiter [c, c, c, c, c, c\<lparr>lc_tokens := 2 ^ 40\<rparr>]) = [False, False, False, False, True, True]"
proof -
  let ?r = "\<lparr>rq_Method = ''POST'', rq_Path = ''/'', rq_Header = [], rq_RemoteAddr = '''', rq_ContentLength = 0, rq_Body = None\<rparr>"
  have "estimatePromptTokens (?r\<lparr>rq_ContentLength := 2 ^ 63 - 1\<rparr>) = 2 ^ 61 - 1"
    by (simp add: estimatePromptTokens_def quot_def)
  with tpm_overflow_bypass [of window 1000 "2 ^ 40" ?r "''k''"] show ?thesis by (simp add: Let_def)
qed

text \<open>
  Who passes \<open>RequireAPIKey\<close>. The wrapped handler runs without an identity exactly when no
  token is presented and keys are not required, and with the identity of a key exactly when
  the presented token hashes to an active key that is within its limits; a presented token
  is always checked, also when keys are not required.
\<close>

theorem api_key_gate:
  "fst (RequireAPIKey cfg getKey l r now) = AuthPass ka \<longleftrightarrow>
     (if BearerToken r = '''' then ka = None \<and> cfg ''require_api_keys'' \<noteq> Some ''true''
      else \<exists>key. getKey (sha256_hex (BearerToken r)) = Inr (Some key) \<and> k_IsActive key \<and>
             ka = Some \<lparr>ka_ID = k_ID key, ka_Name = k_Name key\<rparr> \<and>
             fst (fst (allow l (k_ID key) (k_RateLimitRPM key) (k_RateLimitTPM key) (estimatePromptTokens r) now)))"
  by (auto simp: RequireAPIKey_def HashKey_def getConfigBool_def config_consts Let_def case_prod_beta
      split: option.splits sum.splits if_splits)

text \<open>
  A fresh window admits. Once the window of a key has expired, its next request passes the
  request limit if that is at least 1 and, with an expired token window, the token limit if
  its own estimate fits: a key is never locked out by refused requests.
\<close>

theorem expired_window_admits:
  assumes "en_rpmStart (entry_at l k) + window \<le> now" and "en_tpmStart (entry_at l k) + window \<le> now"
    and "1 \<le> n" and "tok \<le> m" and "in_i64 tok"
  shows "fst (allow l k (Some n) (Some m) tok now) = (True, '''')"
  using assms i64_id [of tok]
  by (simp add: allow_def rpm_step_def tpm_step_def Let_def window_expired entry_at_def i64_def in_i64_def split: option.splits)

theorem expired_window_admits_witness:
  "fst (allow NewKeyLimiter ''k'' (Some 1) (Some 5) 5 window) = (True, '''')"
  by (rule expired_window_admits) (simp_all add: entry_at_def NewKeyLimiter_def zero_entry_def in_i64_def)

text \<open>
  The access key. The admin handler runs exactly when the presented key equals the
  configured one, and otherwise the answer is 401 without calling it. Presented keys are
  trimmed and the configured one is not, so a configured key with white space at an end
  locks everybody out.
\<close>

theorem access_key_gate:
  "AccessKeyMiddleware ak handler r =
     (if extractAccessKey r = ak then handler r
      else \<lparr>rs_Status = 401, rs_Header = [(''Content-Type'', [''application/json''])], rs_Body = ''{\"error\":\"unauthorized\"}''\<rparr>) \<and>
   (TrimSpace ak \<noteq> ak \<longrightarrow> rs_Status (AccessKeyMiddleware ak handler r) = 401)"
  using extractAccessKey_trimmed [of r]
  by (auto simp: AccessKeyMiddleware_def isValidKey_iff)

theorem access_key_gate_witness:
  "rs_Status (AccessKeyMiddleware ''k '' (\<lambda>r. \<lparr>rs_Status = 200, rs_Header = [], rs_Body = ''ok''\<rparr>)
     \<lparr>rq_Method = ''GET'', rq_Path = ''/admin/stats'', rq_Header = [(''X-Access-Key'', [''k ''])], rq_RemoteAddr = ''127.0.0.1:1'',
      rq_ContentLength = 0, rq_Body = Some []\<rparr>) = 401"
proof -
  have "TrimSpace ''k '' \<noteq> ''k ''" by code_simp
  then show ?thesis using access_key_gate [of "''k ''"] by blast
qed

end
