(* ===== verification/Streaming.thy ===== *)
theory Streaming
  imports Request_Rewrite API_Auth
begin

text \<open>
  Streamed responses (\<open>internal/proxy/streaming.go\<close>): token usage merged over the chunks, the
  rolling buffer of raw lines, and the loop that copies server-sent events to the client line
  by line. The backend's byte stream, where it breaks, which write to the client fails and the
  clock are arguments of the loop.
\<close>

section \<open>Usage over the chunks\<close>

record UsageInfo =
  ui_PromptTokens :: int
  ui_CompletionTokens :: int
  ui_TotalTokens :: int
  ui_CachedTokens :: int
  ui_CachedTokensReported :: bool

definition mergeStreamUsage :: "UsageInfo option \<Rightarrow> int \<Rightarrow> int \<Rightarrow> int \<Rightarrow> int option \<Rightarrow> UsageInfo" where
  "mergeStreamUsage current promptTokens completionTokens totalTokens cachedDetails =
     (let cur = (case current of
                   None \<Rightarrow> \<lparr>ui_PromptTokens = 0, ui_CompletionTokens = 0, ui_TotalTokens = 0, ui_CachedTokens = 0,
                            ui_CachedTokensReported = False\<rparr>
                 | Some u \<Rightarrow> u);
          nxt = cur\<lparr>ui_PromptTokens := promptTokens, ui_CompletionTokens := completionTokens, ui_TotalTokens := totalTokens\<rparr>
      in case cachedDetails of
           None \<Rightarrow> nxt
         | Some c \<Rightarrow> nxt\<lparr>ui_CachedTokens := c, ui_CachedTokensReported := True\<rparr>)"

section \<open>The rolling buffer\<close>

record streamBufferEntry =
  sb_raw :: string
  sb_delta :: string

record StreamingBuffer =
  buf_entries :: "streamBufferEntry list"
  buf_maxSize :: int
  buf_current :: int
  buf_evicted :: bool

definition NewStreamingBuffer :: "int \<Rightarrow> StreamingBuffer" where
  "NewStreamingBuffer maxSize = \<lparr>buf_entries = [], buf_maxSize = maxSize, buf_current = 0, buf_evicted = False\<rparr>"

text \<open>The eviction loop, on the entries: they get shorter in every round.\<close>

fun evict :: "int \<Rightarrow> int \<Rightarrow> streamBufferEntry list \<Rightarrow> int \<Rightarrow> bool \<Rightarrow> streamBufferEntry list \<times> int \<times> bool" where
  "evict maxSize lineBytes [] current evicted = ([], current, evicted)"
| "evict maxSize lineBytes (e # es) current evicted =
     (if current + lineBytes > maxSize then evict maxSize lineBytes es (current - int (length (sb_raw e))) True
      else (e # es, current, evicted))"

definition Add :: "StreamingBuffer \<Rightarrow> string \<Rightarrow> string \<Rightarrow> StreamingBuffer" where
  "Add b rawLine contentDelta =
     (let lineBytes = int (length rawLine);
          (entries, current, evicted) = evict (buf_maxSize b) lineBytes (buf_entries b) (buf_current b) (buf_evicted b)
      in b\<lparr>buf_entries := entries @ [\<lparr>sb_raw = rawLine, sb_delta = contentDelta\<rparr>],
           buf_current := current + lineBytes, buf_evicted := evicted\<rparr>)"

definition GetAll :: "StreamingBuffer \<Rightarrow> streamBufferEntry list \<times> bool" where
  "GetAll b = (buf_entries b, buf_evicted b)"

definition takeStreamingChunks :: "StreamingBuffer option \<Rightarrow> streamBufferEntry list \<times> bool" where
  "takeStreamingChunks buffer = (case buffer of None \<Rightarrow> ([], False) | Some b \<Rightarrow> GetAll b)"

section \<open>Lines of a stream\<close>

text \<open>
  \<open>bufio.Scanner\<close> with \<open>ScanLines\<close>: lines without their end of line, the last one also when
  it is not terminated; a line that does not fit the buffer of 1 MiB stops the scan.
\<close>

definition maxTokenSize :: int where
  "maxTokenSize = 1048576"

definition dropCR :: "string \<Rightarrow> string" where
  "dropCR s = (if s \<noteq> [] \<and> last s = CHR 0x0D then butlast s else s)"

fun scan_lines :: "string \<Rightarrow> string \<Rightarrow> string list \<times> bool" where
  "scan_lines acc [] =
     (if acc = [] then ([], False) else if int (length acc) \<ge> maxTokenSize then ([], True) else ([dropCR acc], False))"
| "scan_lines acc (c # s) =
     (if c = CHR 0x0A then
        (if int (length acc) \<ge> maxTokenSize then ([], True)
         else let (ls, long) = scan_lines [] s in (dropCR acc # ls, long))
      else scan_lines (acc @ [c]) s)"

section \<open>The loop\<close>

text \<open>An error of the stream: whether it is the client's cancellation, and its text.\<close>

type_synonym io_error = "bool \<times> string"

record stream_env =
  se_flusher :: bool
  se_body :: string
  se_readErr :: "io_error option"
  se_writeErr :: "nat \<Rightarrow> io_error option"
  se_clock :: "nat \<Rightarrow> time"

record stream_state =
  ss_usage :: "UsageInfo option"
  ss_ttftMs :: "int option"
  ss_body :: string
  ss_bodyCapReached :: bool
  ss_buffer :: "StreamingBuffer option"
  ss_firstTokenSeen :: bool
  ss_written :: "string list"

record stream_result =
  sr_usage :: "UsageInfo option"
  sr_ttftMs :: "int option"
  sr_reconstructedBody :: string
  sr_chunks :: "streamBufferEntry list"
  sr_chunksPrefixDropped :: bool
  sr_err :: "io_error option"
  sr_written :: "string list"

definition stream_fail :: "stream_state \<Rightarrow> io_error \<Rightarrow> stream_result" where
  "stream_fail st err = \<lparr>sr_usage = ss_usage st, sr_ttftMs = ss_ttftMs st, sr_reconstructedBody = '''', sr_chunks = [],
     sr_chunksPrefixDropped = False, sr_err = Some err, sr_written = ss_written st\<rparr>"

definition stream_done :: "stream_state \<Rightarrow> stream_result" where
  "stream_done st =
     (let (entries, prefixDropped) = takeStreamingChunks (ss_buffer st)
      in \<lparr>sr_usage = ss_usage st, sr_ttftMs = ss_ttftMs st, sr_reconstructedBody = ss_body st, sr_chunks = entries,
          sr_chunksPrefixDropped = prefixDropped, sr_err = None, sr_written = ss_written st\<rparr>)"

text \<open>What one payload that is neither empty nor the end marker does to the state.\<close>

definition merge_chunk :: "string \<Rightarrow> UsageInfo option \<Rightarrow> UsageInfo option" where
  "merge_chunk payload usage =
     (case parseUsageFromBody payload of
        Some (Some u) \<Rightarrow>
          Some (mergeStreamUsage usage (uf_PromptTokens u) (uf_CompletionTokens u) (uf_TotalTokens u)
                  (map_option ud_CachedTokens (uf_PromptTokensDetails u)))
      | _ \<Rightarrow> usage)"

definition handle_payload :: "int \<Rightarrow> time \<Rightarrow> time \<Rightarrow> string \<Rightarrow> string \<Rightarrow> stream_state \<Rightarrow> stream_state" where
  "handle_payload respMax startTime now payload lineToWrite st =
     (let st1 = (if ss_firstTokenSeen st then st
                 else st\<lparr>ss_ttftMs := Some (milliseconds (time_sub now startTime)), ss_firstTokenSeen := True\<rparr>);
          st2 = st1\<lparr>ss_usage := merge_chunk payload (ss_usage st1)\<rparr>;
          deltaText = extractOpenAIContentDelta payload;
          st3 = (if \<not> ss_bodyCapReached st2 \<and> deltaText \<noteq> ''''
                 then (let body = ss_body st2 @ deltaText
                       in st2\<lparr>ss_body := body,
                              ss_bodyCapReached := (ss_bodyCapReached st2 \<or> respMax > 0 \<and> int (length body) > respMax)\<rparr>)
                 else st2)
      in st3\<lparr>ss_buffer := map_option (\<lambda>b. Add b lineToWrite deltaText) (ss_buffer st3)\<rparr>)"

definition line_out :: "string \<Rightarrow> bool \<Rightarrow> string \<Rightarrow> string" where
  "line_out clientModel requestedViaAlias line =
     (if requestedViaAlias then rewriteSSEDataLineForClientModel line clientModel else line)"

fun stream_loop ::
  "stream_env \<Rightarrow> int \<Rightarrow> time \<Rightarrow> string \<Rightarrow> bool \<Rightarrow> nat \<Rightarrow> string list \<Rightarrow> bool \<Rightarrow> stream_state \<Rightarrow> stream_result" where
  "stream_loop env respMax startTime clientModel viaAlias i [] tooLong st =
     (if tooLong then stream_fail st (False, ''reading stream: bufio.Scanner: token too long'')
      else case se_readErr env of
             Some (canceled, msg) \<Rightarrow> stream_fail st (canceled, ''reading stream: '' @ msg)
           | None \<Rightarrow> stream_done st)"
| "stream_loop env respMax startTime clientModel viaAlias i (text # rest) tooLong st =
     (let line = TrimRight text CHR 0x0D;
          lineToWrite = line_out clientModel viaAlias line
      in case se_writeErr env i of
           Some (canceled, msg) \<Rightarrow> stream_fail st (canceled, ''writing to client: '' @ msg)
         | None \<Rightarrow>
             (let st1 = st\<lparr>ss_written := ss_written st @ [lineToWrite @ [CHR 0x0A]]\<rparr>
              in if \<not> HasPrefix line data_prefix then stream_loop env respMax startTime clientModel viaAlias (Suc i) rest tooLong st1
                 else
                   (let payload = TrimSpace (TrimPrefix line data_prefix)
                    in if payload = ''[DONE]'' then stream_done st1
                       else if payload = '''' then stream_loop env respMax startTime clientModel viaAlias (Suc i) rest tooLong st1
                       else stream_loop env respMax startTime clientModel viaAlias (Suc i) rest tooLong
                              (handle_payload respMax startTime (se_clock env i) payload lineToWrite st1))))"

definition init_state :: "config \<Rightarrow> stream_state" where
  "init_state logConfig =
     (let trackStreaming = getConfigBool logConfig ''track_streaming'' False;
          bufSize = getConfigInt logConfig ''streaming_buffer_size'' DefaultStreamingBufferSize
      in \<lparr>ss_usage = None, ss_ttftMs = None, ss_body = '''', ss_bodyCapReached = False,
          ss_buffer = (if trackStreaming then Some (NewStreamingBuffer bufSize) else None),
          ss_firstTokenSeen = False, ss_written = []\<rparr>)"

definition proxyStreaming :: "stream_env \<Rightarrow> time \<Rightarrow> config \<Rightarrow> string \<Rightarrow> bool \<Rightarrow> stream_result" where
  "proxyStreaming env startTime logConfig clientModel requestedViaAlias =
     (if \<not> se_flusher env then
        stream_fail (init_state logConfig) (False, ''response writer does not support flushing (streaming impossible)'')
      else
        (let respMax = getConfigInt logConfig ''response_body_max_bytes'' DefaultResponseBodyMaxBytes;
             (lines, tooLong) = scan_lines [] (se_body env)
         in stream_loop env respMax startTime clientModel requestedViaAlias 0 lines tooLong (init_state logConfig)))"

text \<open>The body kept in a log, cut to the configured size (0: not cut); a negative size would panic.\<close>

definition truncateBodyWithConfig :: "string \<Rightarrow> int \<Rightarrow> string" where
  "truncateBodyWithConfig b maxBytes =
     (if maxBytes = 0 \<or> int (length b) \<le> maxBytes then b else take (nat maxBytes) b @ [CHR 0x0A] @ ''[truncated]'')"

section \<open>The buffer is a window on the lines\<close>

definition raw_total :: "streamBufferEntry list \<Rightarrow> int" where
  "raw_total es = sum_list (map (\<lambda>e. int (length (sb_raw e))) es)"

lemma raw_total_simps [simp]:
  "raw_total [] = 0" "raw_total (e # es) = int (length (sb_raw e)) + raw_total es"
  "raw_total (es @ fs) = raw_total es + raw_total fs"
  by (simp_all add: raw_total_def)

lemma raw_total_nonneg [simp]: "0 \<le> raw_total es"
  by (induction es) auto

text \<open>The longest suffix whose lines fit the budget.\<close>

fun fitting_suffix :: "int \<Rightarrow> streamBufferEntry list \<Rightarrow> streamBufferEntry list" where
  "fitting_suffix b [] = []"
| "fitting_suffix b (e # es) = (if raw_total (e # es) \<le> b then e # es else fitting_suffix b es)"

text \<open>The specification: the newest line, and before it as many lines as fit with it.\<close>

definition window_of :: "int \<Rightarrow> streamBufferEntry list \<Rightarrow> streamBufferEntry list" where
  "window_of maxSize es =
     (if es = [] then [] else fitting_suffix (maxSize - int (length (sb_raw (last es)))) (butlast es) @ [last es])"

lemma evict_spec:
  "evict m n es (raw_total es) ev =
     (fitting_suffix (m - n) es, raw_total (fitting_suffix (m - n) es), ev \<or> length (fitting_suffix (m - n) es) < length es)"
proof (induction es arbitrary: ev)
  case (Cons e es)
  have len: "length (fitting_suffix b xs) \<le> length xs" for b xs by (induction xs) (auto simp del: raw_total_simps)
  show ?case
  proof (cases "raw_total (e # es) + n > m")
    case True
    then show ?thesis using Cons [of True] len [of "m - n" es] by (auto simp: le_imp_less_Suc)
  qed auto
qed simp

lemma fitting_suffix_twice:
  assumes "b \<le> m"
  shows "fitting_suffix b (fitting_suffix (m - int (length (sb_raw x))) es @ [x]) = fitting_suffix b (es @ [x])"
  using assms by (induction es) auto

lemma fitting_suffix_total: "raw_total (fitting_suffix b es) \<le> b \<or> fitting_suffix b es = []"
  by (induction es) auto

definition add_all :: "int \<Rightarrow> (string \<times> string) list \<Rightarrow> StreamingBuffer" where
  "add_all maxSize ls = foldl (\<lambda>b (r, d). Add b r d) (NewStreamingBuffer maxSize) ls"

definition entry_of :: "string \<times> string \<Rightarrow> streamBufferEntry" where
  "entry_of l = \<lparr>sb_raw = fst l, sb_delta = snd l\<rparr>"

lemma add_all_snoc: "add_all m (ls @ [l]) = Add (add_all m ls) (fst l) (snd l)"
  by (simp add: add_all_def case_prod_beta)

lemma add_all_spec:
  "buf_maxSize (add_all m ls) = m \<and> buf_entries (add_all m ls) = window_of m (map entry_of ls) \<and>
   buf_current (add_all m ls) = raw_total (buf_entries (add_all m ls)) \<and>
   (buf_evicted (add_all m ls) \<longleftrightarrow> length (buf_entries (add_all m ls)) < length ls) \<and>
   length (buf_entries (add_all m ls)) \<le> length ls"
proof (induction ls rule: rev_induct)
  case Nil
  show ?case by (simp add: add_all_def NewStreamingBuffer_def window_of_def)
next
  case (snoc l ls)
  let ?b = "add_all m ls" and ?n = "int (length (fst l))"
  have e: "entry_of l = \<lparr>sb_raw = fst l, sb_delta = snd l\<rparr>" by (simp add: entry_of_def)
  have len: "length (fitting_suffix b xs) \<le> length xs" for b xs by (induction xs) (auto simp del: raw_total_simps)
  have ev: "evict m ?n (buf_entries ?b) (buf_current ?b) (buf_evicted ?b) =
     (fitting_suffix (m - ?n) (buf_entries ?b), raw_total (fitting_suffix (m - ?n) (buf_entries ?b)),
      buf_evicted ?b \<or> length (fitting_suffix (m - ?n) (buf_entries ?b)) < length (buf_entries ?b))"
    using snoc by (simp add: evict_spec)
  have "fitting_suffix (m - ?n) (window_of m (map entry_of ls)) = fitting_suffix (m - ?n) (map entry_of ls)"
  proof (cases ls rule: rev_cases)
    case (snoc ks k)
    then show ?thesis using fitting_suffix_twice [of "m - ?n" m "entry_of k" "map entry_of ks"] by (simp add: window_of_def)
  qed (simp add: window_of_def)
  with snoc ev len [of "m - ?n" "buf_entries ?b"] show ?case
    by (auto simp: add_all_snoc Add_def Let_def window_of_def e)
qed

section \<open>What the loop forwards\<close>

definition trimmed :: "string \<Rightarrow> string" where
  "trimmed text = TrimRight text CHR 0x0D"

definition payload_of :: "string \<Rightarrow> string option" where
  "payload_of line = (if HasPrefix line data_prefix then Some (TrimSpace (TrimPrefix line data_prefix)) else None)"

text \<open>The lines up to the end marker, that one included.\<close>

fun until_done :: "string list \<Rightarrow> string list" where
  "until_done [] = []"
| "until_done (l # ls) = (if payload_of l = Some ''[DONE]'' then [l] else l # until_done ls)"

definition ends_with_done :: "string list \<Rightarrow> bool" where
  "ends_with_done ls \<longleftrightarrow> Some ''[DONE]'' \<in> set (map payload_of ls)"

text \<open>The payloads that are processed: those before the end marker that are not empty.\<close>

definition payloads :: "string list \<Rightarrow> string list" where
  "payloads ls = filter (\<lambda>p. p \<noteq> '''' \<and> p \<noteq> ''[DONE]'') (List.map_filter payload_of (until_done ls))"

lemma until_done_simps:
  "payload_of l = Some ''[DONE]'' \<Longrightarrow> until_done (l # ls) = [l]"
  "payload_of l \<noteq> Some ''[DONE]'' \<Longrightarrow> until_done (l # ls) = l # until_done ls"
  by simp_all

lemma payloads_Cons:
  "payloads (l # ls) =
     (case payload_of l of
        Some p \<Rightarrow> if p = ''[DONE]'' then [] else if p = '''' then payloads ls else p # payloads ls
      | None \<Rightarrow> payloads ls)"
  by (simp add: payloads_def List.map_filter_simps split: option.splits)

lemma stream_loop_Cons:
  assumes "se_writeErr env i = None"
  shows "stream_loop env respMax t0 cm via i (text # rest) tooLong st =
    (let st1 = st\<lparr>ss_written := ss_written st @ [line_out cm via (trimmed text) @ [CHR 0x0A]]\<rparr>
     in case payload_of (trimmed text) of
          None \<Rightarrow> stream_loop env respMax t0 cm via (Suc i) rest tooLong st1
        | Some p \<Rightarrow>
            if p = ''[DONE]'' then stream_done st1
            else if p = '''' then stream_loop env respMax t0 cm via (Suc i) rest tooLong st1
            else stream_loop env respMax t0 cm via (Suc i) rest tooLong
                   (handle_payload respMax t0 (se_clock env i) p (line_out cm via (trimmed text)) st1))"
  using assms by (simp add: trimmed_def payload_of_def Let_def)

lemma handle_payload_fields [simp]:
  "ss_written (handle_payload respMax t0 now p l st) = ss_written st"
  "ss_usage (handle_payload respMax t0 now p l st) = merge_chunk p (ss_usage st)"
  "ss_firstTokenSeen (handle_payload respMax t0 now p l st)"
  by (simp_all add: handle_payload_def Let_def)

lemma stream_done_fields [simp]:
  "sr_usage (stream_done st) = ss_usage st" "sr_written (stream_done st) = ss_written st" "sr_err (stream_done st) = None"
  "sr_reconstructedBody (stream_done st) = ss_body st" "sr_ttftMs (stream_done st) = ss_ttftMs st"
  by (simp_all add: stream_done_def case_prod_beta)

lemma stream_loop_ok:
  assumes "\<And>j. se_writeErr env j = None" and "se_readErr env = None \<and> \<not> tooLong \<or> ends_with_done (map trimmed ls)"
  shows "let res = stream_loop env respMax t0 cm via i ls tooLong st
    in sr_err res = None \<and>
       sr_written res = ss_written st @ map (\<lambda>l. line_out cm via l @ [CHR 0x0A]) (until_done (map trimmed ls)) \<and>
       sr_usage res = fold merge_chunk (payloads (map trimmed ls)) (ss_usage st)"
  using assms(2)
proof (induction ls arbitrary: i st)
  case Nil
  then show ?case by (simp add: ends_with_done_def payloads_def List.map_filter_simps)
next
  case (Cons tx ls)
  then show ?case
    by (auto simp: stream_loop_Cons [OF assms(1)] Let_def payloads_Cons ends_with_done_def
        simp del: stream_loop.simps split: option.splits)
qed

section \<open>The reconstructed body\<close>

definition body_step :: "int \<Rightarrow> string \<Rightarrow> string \<times> bool \<Rightarrow> string \<times> bool" where
  "body_step respMax d bc =
     (if \<not> snd bc \<and> d \<noteq> '''' then (fst bc @ d, respMax > 0 \<and> int (length (fst bc @ d)) > respMax) else bc)"

lemma handle_payload_body:
  "(ss_body (handle_payload respMax t0 now p l st), ss_bodyCapReached (handle_payload respMax t0 now p l st)) =
   body_step respMax (extractOpenAIContentDelta p) (ss_body st, ss_bodyCapReached st)"
  by (auto simp: handle_payload_def body_step_def Let_def)

lemma stream_loop_body:
  assumes "\<And>j. se_writeErr env j = None" and "se_readErr env = None \<and> \<not> tooLong \<or> ends_with_done (map trimmed ls)"
  shows "sr_reconstructedBody (stream_loop env respMax t0 cm via i ls tooLong st) =
    fst (fold (body_step respMax) (map extractOpenAIContentDelta (payloads (map trimmed ls))) (ss_body st, ss_bodyCapReached st))"
  using assms(2)
proof (induction ls arbitrary: i st)
  case Nil
  then show ?case by (simp add: ends_with_done_def payloads_def List.map_filter_simps)
next
  case (Cons tx ls)
  then show ?case
    by (auto simp: stream_loop_Cons [OF assms(1)] Let_def payloads_Cons ends_with_done_def handle_payload_body
        simp del: stream_loop.simps split: option.splits)
qed

lemma body_step_capped: "snd bc \<Longrightarrow> fold (body_step m) ds bc = bc"
  by (induction ds) (simp_all add: body_step_def)

lemma fold_body_step:
  "let r = fst (fold (body_step m) ds (b, False)); full = b @ concat ds
   in r = full \<or> 0 < m \<and> m < int (length r) \<and> (\<exists>rest. full = r @ rest)"
proof (induction ds arbitrary: b)
  case (Cons d ds)
  show ?case
  proof (cases "d \<noteq> '''' \<and> 0 < m \<and> int (length (b @ d)) > m")
    case True
    then have "fold (body_step m) (d # ds) (b, False) = (b @ d, True)" by (simp add: body_step_def body_step_capped)
    with True show ?thesis by (auto simp: Let_def)
  next
    case False
    then have "fold (body_step m) (d # ds) (b, False) = fold (body_step m) ds (b @ d, False)" by (auto simp: body_step_def)
    with Cons [of "b @ d"] show ?thesis by (simp add: Let_def)
  qed
qed simp

lemma truncate_capped:
  assumes "r = full \<or> 0 < m \<and> m < int (length r) \<and> (\<exists>rest. full = r @ rest)"
  shows "truncateBodyWithConfig r m = truncateBodyWithConfig full m"
  using assms by (auto simp: truncateBodyWithConfig_def)

section \<open>Properties\<close>

text \<open>
  C33. A stream that the client keeps reading, and that either ends without an error or sends its
  end marker, is copied line by line: the client receives every line up to and including
  \<open>data: [DONE]\<close> and nothing after it, each ended by a newline, with the model name rewritten if
  it came by an alias. The usage returned merges the usage of all chunks before the marker, in
  order.
\<close>

theorem stream_forwards:
  assumes "se_flusher env" and "\<And>j. se_writeErr env j = None" and "scan_lines [] (se_body env) = (ls, tooLong)"
    and "se_readErr env = None \<and> \<not> tooLong \<or> ends_with_done (map trimmed ls)"
  shows "let res = proxyStreaming env t0 cfg cm via
    in sr_err res = None \<and>
       concat (sr_written res) = concat (map (\<lambda>l. line_out cm via l @ [CHR 0x0A]) (until_done (map trimmed ls))) \<and>
       sr_usage res = fold merge_chunk (payloads (map trimmed ls)) None"
  using assms(1,3) stream_loop_ok [OF assms(2) assms(4), where st = "init_state cfg" and i = 0]
  by (simp add: proxyStreaming_def Let_def init_state_def)

definition sample_stream :: stream_env where
  "sample_stream = \<lparr>se_flusher = True, se_body = ''data: {\"usage\":{\"prompt_tokens\":3}}'' @ [CHR 0x0A] @ ''data: [DONE]'' @ [CHR 0x0A] @ ''x'',
     se_readErr = None, se_writeErr = (\<lambda>_. None), se_clock = (\<lambda>_. 7)\<rparr>"

lemma sample_stream_lines:
  "scan_lines [] (se_body sample_stream) = ([''data: {\"usage\":{\"prompt_tokens\":3}}'', ''data: [DONE]'', ''x''], False)"
  by code_simp

theorem stream_forwards_witness:
  "let res = proxyStreaming sample_stream 0 Map.empty ''m'' False
   in sr_err res = None \<and>
      concat (sr_written res) = ''data: {\"usage\":{\"prompt_tokens\":3}}'' @ [CHR 0x0A] @ ''data: [DONE]'' @ [CHR 0x0A]"
proof -
  have d: "until_done (map trimmed [''data: {\"usage\":{\"prompt_tokens\":3}}'', ''data: [DONE]'', ''x'']) =
    [''data: {\"usage\":{\"prompt_tokens\":3}}'', ''data: [DONE]'']" by code_simp
  show ?thesis
    using stream_forwards [OF _ _ sample_stream_lines, where cfg = Map.empty and cm = "''m''" and via = False]
    unfolding d by (simp add: sample_stream_def Let_def line_out_def)
qed

text \<open>
  The logged body of a stream. The loop stops collecting text once the collected part is
  longer than the configured maximum; what ends up in the log is nevertheless exactly the
  concatenation of all text deltas before the end marker, cut to that maximum.
\<close>

theorem stream_log_body:
  assumes "se_flusher env" and "\<And>j. se_writeErr env j = None" and "scan_lines [] (se_body env) = (ls, tooLong)"
    and "se_readErr env = None \<and> \<not> tooLong \<or> ends_with_done (map trimmed ls)"
    and "respMax = getConfigInt cfg ''response_body_max_bytes'' DefaultResponseBodyMaxBytes"
  shows "truncateBodyWithConfig (sr_reconstructedBody (proxyStreaming env t0 cfg cm via)) respMax =
    truncateBodyWithConfig (concat (map extractOpenAIContentDelta (payloads (map trimmed ls)))) respMax"
proof (rule truncate_capped)
  let ?ds = "map extractOpenAIContentDelta (payloads (map trimmed ls))"
  have "sr_reconstructedBody (proxyStreaming env t0 cfg cm via) = fst (fold (body_step respMax) ?ds ('''', False))"
    using assms(1,3,5) stream_loop_body [OF assms(2) assms(4), where st = "init_state cfg" and i = 0]
    by (simp add: proxyStreaming_def init_state_def Let_def)
  then show "sr_reconstructedBody (proxyStreaming env t0 cfg cm via) = concat ?ds \<or>
    0 < respMax \<and> respMax < int (length (sr_reconstructedBody (proxyStreaming env t0 cfg cm via))) \<and>
    (\<exists>rest. concat ?ds = sr_reconstructedBody (proxyStreaming env t0 cfg cm via) @ rest)"
    using fold_body_step [of respMax ?ds "''''"] by (simp add: Let_def)
qed

lemma sample_payloads:
  "payloads (map trimmed [''data: {\"usage\":{\"prompt_tokens\":3}}'', ''data: [DONE]'', ''x'']) = [''{\"usage\":{\"prompt_tokens\":3}}'']"
  by code_simp

lemma sample_delta: "extractOpenAIContentDelta ''{\"usage\":{\"prompt_tokens\":3}}'' = ''''"
  by code_simp

theorem stream_log_body_witness:
  "truncateBodyWithConfig (sr_reconstructedBody (proxyStreaming sample_stream 0 Map.empty ''m'' False)) 51200 = ''''"
proof -
  have p: "concat (map extractOpenAIContentDelta (payloads (map trimmed [''data: {\"usage\":{\"prompt_tokens\":3}}'', ''data: [DONE]'', ''x'']))) = []"
    unfolding sample_payloads by (simp add: sample_delta)
  show ?thesis
    using stream_log_body [OF _ _ sample_stream_lines, where cfg = Map.empty and cm = "''m''" and via = False and respMax = 51200]
    unfolding p by (simp add: sample_stream_def getConfigInt_def config_consts truncateBodyWithConfig_def)
qed

text \<open>
  The rolling buffer. After any sequence of added lines the buffer holds the newest line and
  before it exactly the longest run of lines that fits the size together with it; the flag
  says whether an older line was lost, and the byte count is exact. The size is exceeded
  only by a single line that is larger than it.
\<close>

theorem buffer_window:
  "let b = add_all maxSize ls
   in GetAll b = (window_of maxSize (map entry_of ls), length (buf_entries b) < length ls) \<and>
      buf_current b = raw_total (buf_entries b) \<and>
      (buf_current b \<le> max 0 maxSize \<or> length (buf_entries b) = 1)"
proof -
  have "raw_total (window_of maxSize es) \<le> max 0 maxSize \<or> length (window_of maxSize es) = 1" for es
    using fitting_suffix_total [of "maxSize - int (length (sb_raw (last es)))" "butlast es"]
    by (auto simp: window_of_def)
  with add_all_spec [of maxSize ls] show ?thesis by (auto simp: GetAll_def Let_def)
qed

end
