(* ===== verification/Active_Registry.thy ===== *)
theory Active_Registry
  imports Go_Prelude "HOL-Library.AList"
begin

text \<open>
  The registry of requests in flight (\<open>internal/proxy/active.go\<close>), shared by the proxy and
  the admin API. The map is an association list without duplicate keys; the fresh identifier
  and the instant of \<open>Begin\<close> are arguments. The mutex makes every operation atomic, so a
  concurrent execution is a sequence of operations of the requests, interleaved.
\<close>

section \<open>The registry\<close>

record ActiveRequest =
  ar_ID :: string
  ar_Model :: string
  ar_Endpoint :: string
  ar_StartedAt :: time
  ar_Remote :: string

type_synonym ActiveRegistry = "(string \<times> ActiveRequest) list"

definition NewActiveRegistry :: ActiveRegistry where
  "NewActiveRegistry = []"

text \<open>\<open>Begin\<close> of the source, with the identifier that \<open>uuid.New\<close> gives.\<close>

definition Begin :: "ActiveRegistry \<Rightarrow> string \<Rightarrow> time \<Rightarrow> string \<Rightarrow> string \<Rightarrow> string \<Rightarrow> string \<times> ActiveRegistry" where
  "Begin r ident now model endpoint remote =
     (ident, AList.update ident
        \<lparr>ar_ID = ident, ar_Model = model, ar_Endpoint = endpoint, ar_StartedAt = now, ar_Remote = remote\<rparr> r)"

definition End :: "ActiveRegistry \<Rightarrow> string \<Rightarrow> ActiveRegistry" where
  "End r ident = (if ident = [] then r else AList.delete ident r)"

definition Count :: "ActiveRegistry \<Rightarrow> int" where
  "Count r = int (length r)"

definition Snapshot :: "nat list \<Rightarrow> ActiveRegistry \<Rightarrow> ActiveRequest list" where
  "Snapshot order r = shuffle order (map snd r)"

text \<open>The registry behind a pointer that may be nil.\<close>

definition SetActiveRegistry :: "ActiveRegistry option \<Rightarrow> ActiveRegistry option \<Rightarrow> ActiveRegistry option" where
  "SetActiveRegistry p r = (case r of None \<Rightarrow> p | Some x \<Rightarrow> Some x)"

definition ActiveCount :: "ActiveRegistry option \<Rightarrow> int" where
  "ActiveCount r = (case r of None \<Rightarrow> 0 | Some x \<Rightarrow> Count x)"

section \<open>Interleaved requests\<close>

datatype 'a track_event = TBegin string 'a | TEnd string

text \<open>The identifiers that begin and do not end afterwards, given those open before.\<close>

fun open_ids :: "'a track_event list \<Rightarrow> string set \<Rightarrow> string set" where
  "open_ids [] A = A"
| "open_ids (TBegin i a # es) A = open_ids es (insert i A)"
| "open_ids (TEnd i # es) A = open_ids es (A - {i})"

text \<open>What the handlers rely on: a tracker of identifiers.\<close>

locale tracker =
  fixes ids :: "'r \<Rightarrow> string set" and start :: "'r \<Rightarrow> string \<Rightarrow> 'a \<Rightarrow> 'r" and stop :: "'r \<Rightarrow> string \<Rightarrow> 'r"
  assumes ids_start: "ids (start r i a) = insert i (ids r)"
    and ids_stop: "i \<noteq> [] \<Longrightarrow> ids (stop r i) = ids r - {i}"
begin

definition step :: "'a track_event \<Rightarrow> 'r \<Rightarrow> 'r" where
  "step e r = (case e of TBegin i a \<Rightarrow> start r i a | TEnd i \<Rightarrow> stop r i)"

lemma ids_run:
  assumes "TEnd [] \<notin> set es"
  shows "ids (fold step es r) = open_ids es (ids r)"
  using assms
proof (induction es arbitrary: r)
  case (Cons e es)
  then show ?case by (cases e) (auto simp: step_def ids_start ids_stop)
qed simp

end

definition registry_ids :: "ActiveRegistry \<Rightarrow> string set" where
  "registry_ids r = fst ` set r"

definition begin_request :: "ActiveRegistry \<Rightarrow> string \<Rightarrow> time \<times> string \<times> string \<times> string \<Rightarrow> ActiveRegistry" where
  "begin_request r ident call = (case call of (now, model, endpoint, remote) \<Rightarrow> snd (Begin r ident now model endpoint remote))"

lemma registry_ids_begin: "registry_ids (begin_request r i a) = insert i (registry_ids r)"
  by (cases a) (simp add: registry_ids_def begin_request_def Begin_def AList.dom_update)

lemma registry_ids_end: "i \<noteq> [] \<Longrightarrow> registry_ids (End r i) = registry_ids r - {i}"
  by (auto simp: registry_ids_def End_def AList.delete_eq)

interpretation act: tracker registry_ids begin_request End
  by unfold_locales (simp_all add: registry_ids_begin registry_ids_end)

text \<open>One operation on the registry.\<close>

definition track :: "(time \<times> string \<times> string \<times> string) track_event \<Rightarrow> ActiveRegistry \<Rightarrow> ActiveRegistry" where
  "track e r = (case e of TBegin ident call \<Rightarrow> begin_request r ident call | TEnd ident \<Rightarrow> End r ident)"

lemma track_step: "track = act.step"
  by (auto simp: fun_eq_iff track_def act.step_def)

text \<open>A well-formed registry: no duplicate keys, and every request is filed under its own identifier.\<close>

definition registry_wf :: "ActiveRegistry \<Rightarrow> bool" where
  "registry_wf r \<longleftrightarrow> distinct (map fst r) \<and> (\<forall>(i, a) \<in> set r. ar_ID a = i)"

lemma registry_wf_empty [inv_intros]: "registry_wf NewActiveRegistry"
  by (simp add: registry_wf_def NewActiveRegistry_def)

lemma set_alist_update: "set (AList.update k v al) \<subseteq> insert (k, v) (set al)"
  by (induction al) auto

lemma registry_wf_track [inv_intros]:
  assumes "registry_wf r"
  shows "registry_wf (track e r)"
proof (cases e)
  case (TBegin i a)
  then show ?thesis
    using assms set_alist_update [of i _ r]
    by (cases a) (fastforce simp: registry_wf_def track_def begin_request_def Begin_def AList.distinct_update)
next
  case (TEnd i)
  then show ?thesis
    using assms by (auto simp: registry_wf_def track_def End_def AList.delete_eq distinct_map_filter)
qed

lemma registry_wf_run: "registry_wf r \<Longrightarrow> registry_wf (fold track es r)"
  by (induction es arbitrary: r) (auto intro: inv_intros)

lemma registry_wf_ids: "registry_wf r \<Longrightarrow> map ar_ID (map snd r) = map fst r"
  by (auto simp: registry_wf_def)

lemma registry_wf_count: "registry_wf r \<Longrightarrow> Count r = int (card (registry_ids r))"
  unfolding registry_wf_def Count_def registry_ids_def by (metis distinct_card length_map set_map)

text \<open>
  The requests in flight. However the operations of concurrent requests interleave, the
  registry lists exactly the identifiers that have begun and not ended since, each once, and
  counts them.
\<close>
theorem in_flight_exact:
  assumes "TEnd [] \<notin> set es" and "r = fold track es NewActiveRegistry"
  shows "ar_ID ` set (Snapshot order r) = open_ids es {} \<and> distinct (map ar_ID (Snapshot order r)) \<and>
    ActiveCount (Some r) = int (card (open_ids es {}))"
proof -
  have wf: "registry_wf r" using assms(2) by (simp add: registry_wf_run inv_intros)
  have ids: "registry_ids r = open_ids es {}"
    using act.ids_run [OF assms(1), of NewActiveRegistry] assms(2)
    by (simp add: NewActiveRegistry_def registry_ids_def track_step)
  have "mset (map ar_ID (Snapshot order r)) = mset (map fst r)"
    unfolding registry_wf_ids [OF wf, symmetric] by (simp add: Snapshot_def multiset.map_comp)
  then have "distinct (map ar_ID (Snapshot order r))" and "ar_ID ` set (Snapshot order r) = registry_ids r"
    using wf by (metis mset_eq_imp_distinct_iff registry_wf_def, metis mset_eq_setD registry_ids_def set_map)
  with wf ids show ?thesis by (simp add: ActiveCount_def registry_wf_count)
qed

theorem in_flight_exact_witness:
  "ActiveCount (Some (fold track [TBegin ''a'' (1, ''m'', ''/v1/x'', ''ip''), TBegin ''b'' (2, ''m'', ''/v1/x'', ''ip''), TEnd ''a'']
     NewActiveRegistry)) = 1"
  using in_flight_exact [OF _ refl, of "[TBegin ''a'' (1, ''m'', ''/v1/x'', ''ip''), TBegin ''b'' (2, ''m'', ''/v1/x'', ''ip''), TEnd ''a'']" "[]"]
  by (simp add: insert_Diff_if)

end
