(* ===== verification/Attempt_Loop.thy ===== *)
theory Attempt_Loop
  imports Smart_Router Streaming Active_Registry "HOL-Library.Sublist"
begin

text \<open>
  What the proxy handlers of \<open>internal/proxy/handler.go\<close> share: the interfaces they call
  (\<open>Router\<close>, \<open>MetricsCollector\<close>, the HTTP client), the helpers that build requests and
  responses, and the \<open>for\<close> loop over at most \<open>maxProxyAttempts\<close> attempts.

  A handler is a function from its environment to a state that carries the router and the
  trace of its visible actions in order: requests sent to backends, outcomes reported to the
  router, logs handed to the metrics collector, the response written to the client, and the
  registration in the active registry. Everything another party decides is an argument: what
  each backend answers, the clock, fresh identifiers, whether a URL parses.
\<close>

section \<open>Interfaces\<close>

text \<open>
  The \<open>Router\<close> interface, on a router state \<open>'r\<close>; \<open>'e\<close> is what one call observes of the
  outside (for \<open>SmartRouter\<close>: snapshots, instants, random numbers).
\<close>

record ('r, 'e) Router =
  ri_Route :: "'r \<Rightarrow> 'e \<Rightarrow> string \<Rightarrow> string \<Rightarrow> (route_error + RouteResult) \<times> 'r"
  ri_ReportSuccess :: "'r \<Rightarrow> 'e \<Rightarrow> string \<Rightarrow> 'r"
  ri_ReportFailure :: "'r \<Rightarrow> 'e \<Rightarrow> string \<Rightarrow> 'r"

record StreamingLogChunk =
  sc_Raw :: string
  sc_Delta :: string

record backend_request =
  bq_Method :: string
  bq_URL :: string
  bq_Header :: header
  bq_Body :: string

text \<open>The body as far as it arrived, and the error that ended it early, if any.\<close>

record backend_response =
  bk_StatusCode :: int
  bk_Header :: header
  bk_Body :: string
  bk_ReadErr :: "io_error option"

datatype event =
    Sent nat RouteResult backend_request
  | ReportedFailure string
  | ReportedSuccess string
  | Recorded RequestLog
  | RecordedStreaming RequestLog "StreamingLogChunk list" bool
  | Responded http_response
  | Tracked "(time \<times> string \<times> string \<times> string) track_event"

record 'r hstate =
  hs_router :: 'r
  hs_trace :: "event list"
  hs_panic :: bool

text \<open>
  The environment of a request. Functions of a number are indexed by the attempt, the write
  errors and the clock of a stream by the line. \<open>pe_newRequest\<close> gives the error of
  \<open>http.NewRequestWithContext\<close> for a URL, \<open>pe_jsonErr\<close> the text of the error with which
  \<open>encoding/json\<close> refuses a body, \<open>pe_header\<close> the response headers set before the handler.
\<close>

record 'e proxy_env =
  pe_logID :: string
  pe_trackID :: string
  pe_active :: bool
  pe_begin :: time
  pe_now :: "nat \<Rightarrow> time"
  pe_newRequest :: "string \<Rightarrow> string option"
  pe_jsonErr :: "string \<Rightarrow> string"
  pe_do :: "nat \<Rightarrow> backend_request \<Rightarrow> io_error + backend_response"
  pe_route :: "nat \<Rightarrow> 'e"
  pe_report :: "nat \<Rightarrow> 'e"
  pe_config :: config
  pe_header :: header
  pe_keyAuth :: "keyAuth option"
  pe_flusher :: bool
  pe_writeErr :: "nat \<Rightarrow> io_error option"
  pe_lineClock :: "nat \<Rightarrow> time"

section \<open>Helpers\<close>

definition isClientCanceled :: "io_error option \<Rightarrow> bool" where
  "isClientCanceled err = (case err of None \<Rightarrow> False | Some (canceled, _) \<Rightarrow> canceled)"

definition maxProxyAttempts :: nat where
  "maxProxyAttempts = 3"

definition hopByHopHeaders :: "string list" where
  "hopByHopHeaders = [''connection'', ''keep-alive'', ''proxy-authenticate'', ''proxy-authorization'', ''te'', ''trailers'',
     ''transfer-encoding'', ''upgrade'']"

definition respondJSON :: "header \<Rightarrow> int \<Rightarrow> json \<Rightarrow> http_response" where
  "respondJSON w status data =
     \<lparr>rs_Status = status, rs_Header = hdr_set ''Content-Type'' ''application/json'' w, rs_Body = json_print data @ [CHR 0x0A]\<rparr>"

definition respondError :: "header \<Rightarrow> int \<Rightarrow> string \<Rightarrow> http_response" where
  "respondError w status msg = respondJSON w status (JObj [(''error'', JStr (quote msg))])"

definition copied_header :: "string \<Rightarrow> bool" where
  "copied_header key \<longleftrightarrow>
     ToLower key \<notin> set [''content-length'', ''etag'', ''content-md5''] \<and> ToLower key \<notin> set hopByHopHeaders"

definition copyResponseHeaders :: "header \<Rightarrow> header \<Rightarrow> header" where
  "copyResponseHeaders w respHeader =
     fold (\<lambda>(key, vals) w. if copied_header key then fold (hdr_add key) vals w else w) respHeader w"

definition copyResponseHeadersAndWrite :: "header \<Rightarrow> backend_response \<Rightarrow> string \<Rightarrow> int \<Rightarrow> http_response" where
  "copyResponseHeadersAndWrite w resp body status =
     \<lparr>rs_Status = status,
      rs_Header = hdr_set ''Content-Length'' (Itoa (int (length body))) (copyResponseHeaders w (bk_Header resp)),
      rs_Body = body\<rparr>"

definition setBackendAuth :: "header \<Rightarrow> http_request \<Rightarrow> Provider \<Rightarrow> header" where
  "setBackendAuth h incomingReq provider =
     (if p_APIKey provider \<noteq> '''' then hdr_set ''Authorization'' (''Bearer '' @ p_APIKey provider) h
      else (let auth = hdr_get (rq_Header incomingReq) ''Authorization''
            in if auth \<noteq> '''' then hdr_set ''Authorization'' auth h else h))"

definition clientIP :: "http_request \<Rightarrow> string" where
  "clientIP r =
     (let xff = hdr_get (rq_Header r) ''X-Forwarded-For''
      in if xff \<noteq> '''' then TrimSpace (takeWhile (\<lambda>c. c \<noteq> CHR '','') xff) else rq_RemoteAddr r)"

text \<open>Headers of the client with the prefix \<open>openai-\<close> are passed on.\<close>

definition forward_openai :: "header \<Rightarrow> header \<Rightarrow> header" where
  "forward_openai incoming h =
     fold (\<lambda>(key, vals) h. if HasPrefix (ToLower key) ''openai-'' then fold (hdr_add key) vals h else h) incoming h"

text \<open>Reading the body behind \<open>http.MaxBytesReader\<close> with a limit of 32 MiB.\<close>

definition read_body :: "http_request \<Rightarrow> string option" where
  "read_body r = (case rq_Body r of None \<Rightarrow> None | Some b \<Rightarrow> if int (length b) > 33554432 then None else Some b)"

definition route_error_text :: "route_error \<Rightarrow> string" where
  "route_error_text e = (case e of ErrNoAvailableProvider \<Rightarrow> ''no available provider for model''
     | IntnPanic \<Rightarrow> ''invalid argument to Intn'')"

section \<open>Actions\<close>

definition emit :: "event \<Rightarrow> 'r hstate \<Rightarrow> 'r hstate" where
  "emit e s = s\<lparr>hs_trace := hs_trace s @ [e]\<rparr>"

definition report_failure :: "('r, 'e) Router \<Rightarrow> 'e \<Rightarrow> string \<Rightarrow> 'r hstate \<Rightarrow> 'r hstate" where
  "report_failure rt e pid s = emit (ReportedFailure pid) (s\<lparr>hs_router := ri_ReportFailure rt (hs_router s) e pid\<rparr>)"

definition report_success :: "('r, 'e) Router \<Rightarrow> 'e \<Rightarrow> string \<Rightarrow> 'r hstate \<Rightarrow> 'r hstate" where
  "report_success rt e pid s = emit (ReportedSuccess pid) (s\<lparr>hs_router := ri_ReportSuccess rt (hs_router s) e pid\<rparr>)"

text \<open>The log of a request that is given up, with its status, its message and the time it took.\<close>

definition fail_log :: "RequestLog \<Rightarrow> time \<Rightarrow> time \<Rightarrow> int \<Rightarrow> string \<Rightarrow> RequestLog" where
  "fail_log lg startTime now status msg =
     lg\<lparr>l_StatusCode := status, l_ErrorMessage := msg, l_TotalTimeMs := milliseconds (time_sub now startTime)\<rparr>"

text \<open>Log, then answer with an error.\<close>

definition give_up :: "header \<Rightarrow> RequestLog \<Rightarrow> time \<Rightarrow> time \<Rightarrow> int \<Rightarrow> string \<Rightarrow> string \<Rightarrow> 'r hstate \<Rightarrow> 'r hstate" where
  "give_up w lg startTime now status logMsg msg s =
     emit (Responded (respondError w status msg)) (emit (Recorded (fail_log lg startTime now status logMsg)) s)"

text \<open>The client went away: a log with status 499 and no answer.\<close>

definition client_gone :: "RequestLog \<Rightarrow> time \<Rightarrow> time \<Rightarrow> 'r hstate \<Rightarrow> 'r hstate" where
  "client_gone lg startTime now s = emit (Recorded (fail_log lg startTime now 499 ''client canceled request'')) s"

text \<open>Registration in the active registry around a handler body; the deferred \<open>End\<close> runs on every way out.\<close>

definition beginTracking :: "'e proxy_env \<Rightarrow> http_request \<Rightarrow> string \<Rightarrow> string \<Rightarrow> 'r hstate \<Rightarrow> string \<times> 'r hstate" where
  "beginTracking env r model endpointPath s =
     (if \<not> pe_active env then ('''', s)
      else (pe_trackID env, emit (Tracked (TBegin (pe_trackID env) (pe_begin env, model, endpointPath, clientIP r))) s))"

definition tracked :: "'e proxy_env \<Rightarrow> http_request \<Rightarrow> string \<Rightarrow> string \<Rightarrow> ('r hstate \<Rightarrow> 'r hstate) \<Rightarrow> 'r hstate \<Rightarrow> 'r hstate" where
  "tracked env r model endpointPath body s =
     (let (trackID, s1) = beginTracking env r model endpointPath s;
          s2 = body s1
      in if trackID \<noteq> '''' then emit (Tracked (TEnd trackID)) s2 else s2)"

section \<open>The loop\<close>

text \<open>A pass through the body of the loop ends by \<open>continue\<close>, by \<open>return\<close> or by \<open>break\<close> with a value.\<close>

datatype ('s, 'b) flow = Continue 's | Return 's | Break 's 'b

fun for_loop :: "(nat \<Rightarrow> 's \<Rightarrow> ('s, 'b) flow) \<Rightarrow> nat list \<Rightarrow> 's \<Rightarrow> ('s, 'b) flow" where
  "for_loop body [] s = Continue s"
| "for_loop body (a # as) s = (case body a s of Continue s' \<Rightarrow> for_loop body as s' | flow \<Rightarrow> flow)"

definition attempts :: "nat list" where
  "attempts = [1..<Suc maxProxyAttempts]"

section \<open>Reading a trace\<close>

definition sends :: "event list \<Rightarrow> (nat \<times> RouteResult \<times> backend_request) list" where
  "sends tr = List.map_filter (\<lambda>e. case e of Sent a rt rq \<Rightarrow> Some (a, rt, rq) | _ \<Rightarrow> None) tr"

definition failures :: "event list \<Rightarrow> string list" where
  "failures tr = List.map_filter (\<lambda>e. case e of ReportedFailure pid \<Rightarrow> Some pid | _ \<Rightarrow> None) tr"

definition successes :: "event list \<Rightarrow> string list" where
  "successes tr = List.map_filter (\<lambda>e. case e of ReportedSuccess pid \<Rightarrow> Some pid | _ \<Rightarrow> None) tr"

definition logs :: "event list \<Rightarrow> RequestLog list" where
  "logs tr = List.map_filter (\<lambda>e. case e of Recorded l \<Rightarrow> Some l | RecordedStreaming l _ _ \<Rightarrow> Some l | _ \<Rightarrow> None) tr"

definition responses :: "event list \<Rightarrow> http_response list" where
  "responses tr = List.map_filter (\<lambda>e. case e of Responded r \<Rightarrow> Some r | _ \<Rightarrow> None) tr"

definition tracking :: "event list \<Rightarrow> (time \<times> string \<times> string \<times> string) track_event list" where
  "tracking tr = List.map_filter (\<lambda>e. case e of Tracked t \<Rightarrow> Some t | _ \<Rightarrow> None) tr"

lemma map_filter_append [simp]: "List.map_filter f (xs @ ys) = List.map_filter f xs @ List.map_filter f ys"
  by (simp add: List.map_filter_def)

lemmas trace_defs = sends_def failures_def successes_def logs_def responses_def tracking_def

lemma trace_append [simp]:
  "sends (xs @ ys) = sends xs @ sends ys" "failures (xs @ ys) = failures xs @ failures ys"
  "successes (xs @ ys) = successes xs @ successes ys" "logs (xs @ ys) = logs xs @ logs ys"
  "responses (xs @ ys) = responses xs @ responses ys" "tracking (xs @ ys) = tracking xs @ tracking ys"
  by (simp_all add: trace_defs)

lemma trace_Nil [simp]:
  "sends [] = []" "failures [] = []" "successes [] = []" "logs [] = []" "responses [] = []" "tracking [] = []"
  by (simp_all add: trace_defs List.map_filter_def)

lemma trace_Cons [simp]:
  "sends (e # tr) = (case e of Sent a rt rq \<Rightarrow> [(a, rt, rq)] | _ \<Rightarrow> []) @ sends tr"
  "failures (e # tr) = (case e of ReportedFailure pid \<Rightarrow> [pid] | _ \<Rightarrow> []) @ failures tr"
  "successes (e # tr) = (case e of ReportedSuccess pid \<Rightarrow> [pid] | _ \<Rightarrow> []) @ successes tr"
  "logs (e # tr) = (case e of Recorded l \<Rightarrow> [l] | RecordedStreaming l _ _ \<Rightarrow> [l] | _ \<Rightarrow> []) @ logs tr"
  "responses (e # tr) = (case e of Responded r \<Rightarrow> [r] | _ \<Rightarrow> []) @ responses tr"
  "tracking (e # tr) = (case e of Tracked t \<Rightarrow> [t] | _ \<Rightarrow> []) @ tracking tr"
  by (cases e; simp add: trace_defs List.map_filter_def)+

lemma emit_simps [simp]:
  "hs_trace (emit e s) = hs_trace s @ [e]" "hs_panic (emit e s) = hs_panic s" "hs_router (emit e s) = hs_router s"
  by (simp_all add: emit_def)

lemma report_simps [simp]:
  "hs_trace (report_failure rt e pid s) = hs_trace s @ [ReportedFailure pid]"
  "hs_panic (report_failure rt e pid s) = hs_panic s"
  "hs_router (report_failure rt e pid s) = ri_ReportFailure rt (hs_router s) e pid"
  "hs_trace (report_success rt e pid s) = hs_trace s @ [ReportedSuccess pid]"
  "hs_panic (report_success rt e pid s) = hs_panic s"
  "hs_router (report_success rt e pid s) = ri_ReportSuccess rt (hs_router s) e pid"
  by (simp_all add: report_failure_def report_success_def)

lemma fail_log_simps [simp]: "l_StatusCode (fail_log lg st now status msg) = status"
  by (simp add: fail_log_def)

lemma respond_simps [simp]:
  "rs_Status (respondJSON w status data) = status" "rs_Status (respondError w status msg) = status"
  "rs_Status (copyResponseHeadersAndWrite w resp body status) = status"
  "rs_Body (copyResponseHeadersAndWrite w resp body status) = body"
  by (simp_all add: respondJSON_def respondError_def copyResponseHeadersAndWrite_def)

lemma give_up_simps [simp]:
  "hs_trace (give_up w lg st now status m msg s) =
     hs_trace s @ [Recorded (fail_log lg st now status m), Responded (respondError w status msg)]"
  "hs_panic (give_up w lg st now status m msg s) = hs_panic s"
  "hs_router (give_up w lg st now status m msg s) = hs_router s"
  "hs_trace (client_gone lg st now s) = hs_trace s @ [Recorded (fail_log lg st now 499 ''client canceled request'')]"
  "hs_panic (client_gone lg st now s) = hs_panic s"
  "hs_router (client_gone lg st now s) = hs_router s"
  by (simp_all add: give_up_def client_gone_def)

section \<open>The contract of an attempt\<close>

text \<open>
  \<open>verdict\<close> says what an attempt with a request shows of the provider: a failure, a success,
  or nothing (a client that went away, a response 4xx). An attempt that is retried either sent
  nothing or sent one request that failed, and reported that failure. The last attempt of a
  request leaves exactly one log, and an answer that agrees with it unless the client is gone;
  it sends at most one request and reports what the verdict says.
\<close>

definition provider_of :: "nat \<times> RouteResult \<times> backend_request \<Rightarrow> string" where
  "provider_of x = p_ID (rr_Provider (fst (snd x)))"

definition reports_of :: "bool \<Rightarrow> (nat \<Rightarrow> backend_request \<Rightarrow> bool option) \<Rightarrow> (nat \<times> RouteResult \<times> backend_request) list \<Rightarrow> string list" where
  "reports_of ok verdict xs = map provider_of (filter (\<lambda>(a, _, rq). verdict a rq = Some ok) xs)"

definition retried :: "(nat \<Rightarrow> backend_request \<Rightarrow> bool option) \<Rightarrow> (RouteResult \<Rightarrow> backend_request) \<Rightarrow> nat \<Rightarrow> event list \<Rightarrow> bool" where
  "retried verdict build a evs \<longleftrightarrow>
     evs = [] \<or> (\<exists>rt. evs = [Sent a rt (build rt), ReportedFailure (p_ID (rr_Provider rt))] \<and> verdict a (build rt) = Some False)"

definition concluded :: "(RequestLog \<Rightarrow> http_response \<Rightarrow> bool) \<Rightarrow> event list \<Rightarrow> bool" where
  "concluded agree evs \<longleftrightarrow>
     (\<exists>l. logs evs = [l] \<and> (responses evs = [] \<and> l_StatusCode l = 499 \<or> (\<exists>r. responses evs = [r] \<and> agree l r)))"

definition sent_once ::
  "(nat \<Rightarrow> backend_request \<Rightarrow> bool option) \<Rightarrow> (RouteResult \<Rightarrow> backend_request) \<Rightarrow> nat \<Rightarrow> event list \<Rightarrow> bool" where
  "sent_once verdict build a evs \<longleftrightarrow>
     (sends evs = [] \<or> (\<exists>rt. sends evs = [(a, rt, build rt)])) \<and>
     failures evs = reports_of False verdict (sends evs) \<and> successes evs = reports_of True verdict (sends evs)"

text \<open>
  The attempts of a whole request: their numbers increase, every one but the last failed, and
  the router learns of exactly the failures and successes the verdict names, in order.
\<close>

definition failover_ok ::
  "(nat \<Rightarrow> backend_request \<Rightarrow> bool option) \<Rightarrow> (RouteResult \<Rightarrow> backend_request) \<Rightarrow> nat list \<Rightarrow> event list \<Rightarrow> bool" where
  "failover_ok verdict build as tr \<longleftrightarrow>
     subseq (map fst (sends tr)) as \<and> (\<forall>(a, rt, rq) \<in> set (sends tr). rq = build rt) \<and>
     (\<forall>(a, rt, rq) \<in> set (butlast (sends tr)). verdict a rq = Some False) \<and>
     failures tr = reports_of False verdict (sends tr) \<and> successes tr = reports_of True verdict (sends tr)"

lemma filter_butlast_or_all:
  assumes "\<forall>x \<in> set (butlast xs). P x"
  shows "map f (filter P xs) = map f xs \<or> map f (filter P xs) = map f (butlast xs)"
proof (cases xs rule: rev_cases)
  case (snoc ys y)
  with assms have "filter P ys = ys" by (simp add: filter_id_conv)
  with snoc show ?thesis by simp
qed simp

lemma failover_ok_length: "failover_ok verdict build as tr \<Longrightarrow> length (sends tr) \<le> length as"
  unfolding failover_ok_def by (metis length_map list_emb_length)

text \<open>
  How one pass through the loop body may change the state: \<open>continue\<close> only after a retried
  attempt that was not the last one, \<open>return\<close> with the request concluded (unless the router
  panicked), and \<open>break\<close> with one request sent and no verdict yet.
\<close>

primrec attempt_law ::
  "(nat \<Rightarrow> backend_request \<Rightarrow> bool option) \<Rightarrow> (RouteResult \<Rightarrow> backend_request) \<Rightarrow> (RequestLog \<Rightarrow> http_response \<Rightarrow> bool) \<Rightarrow>
   nat \<Rightarrow> 'r hstate \<Rightarrow> ('r hstate, 'b) flow \<Rightarrow> bool" where
  "attempt_law verdict build agree a s (Continue s') \<longleftrightarrow>
     a \<noteq> maxProxyAttempts \<and> \<not> hs_panic s' \<and> (\<exists>evs. hs_trace s' = hs_trace s @ evs \<and> retried verdict build a evs)"
| "attempt_law verdict build agree a s (Return s') \<longleftrightarrow>
     (\<exists>evs. hs_trace s' = hs_trace s @ evs \<and> sent_once verdict build a evs \<and> tracking evs = [] \<and>
        (if hs_panic s' then logs evs = [] \<and> responses evs = [] else concluded agree evs))"
| "attempt_law verdict build agree a s (Break s' b) \<longleftrightarrow>
     \<not> hs_panic s' \<and> (\<exists>rt. hs_trace s' = hs_trace s @ [Sent a rt (build rt)] \<and> verdict a (build rt) = None)"

text \<open>The attempts before the last one: requests that failed, each reported.\<close>

definition failed_before ::
  "(nat \<Rightarrow> backend_request \<Rightarrow> bool option) \<Rightarrow> (RouteResult \<Rightarrow> backend_request) \<Rightarrow> nat list \<Rightarrow> event list \<Rightarrow> bool" where
  "failed_before verdict build as evs \<longleftrightarrow> logs evs = [] \<and> responses evs = [] \<and> tracking evs = [] \<and> successes evs = [] \<and>
     failures evs = map provider_of (sends evs) \<and> subseq (map fst (sends evs)) as \<and>
     (\<forall>(a, rt, rq) \<in> set (sends evs). rq = build rt \<and> verdict a rq = Some False)"

locale attempt_body =
  fixes body :: "nat \<Rightarrow> 'r hstate \<Rightarrow> ('r hstate, 'b) flow"
    and verdict :: "nat \<Rightarrow> backend_request \<Rightarrow> bool option"
    and build :: "RouteResult \<Rightarrow> backend_request"
    and agree :: "RequestLog \<Rightarrow> http_response \<Rightarrow> bool"
  assumes law: "\<not> hs_panic s \<Longrightarrow> attempt_law verdict build agree a s (body a s)"
begin

lemma continue_law: "\<not> hs_panic s \<Longrightarrow> body a s = Continue s' \<Longrightarrow>
    a \<noteq> maxProxyAttempts \<and> \<not> hs_panic s' \<and> (\<exists>evs. hs_trace s' = hs_trace s @ evs \<and> retried verdict build a evs)"
  using law [of s a] by simp

lemma return_law: "\<not> hs_panic s \<Longrightarrow> body a s = Return s' \<Longrightarrow>
    (\<exists>evs. hs_trace s' = hs_trace s @ evs \<and> sent_once verdict build a evs \<and> tracking evs = [] \<and>
       (if hs_panic s' then logs evs = [] \<and> responses evs = [] else concluded agree evs))"
  using law [of s a] by simp

lemma break_law: "\<not> hs_panic s \<Longrightarrow> body a s = Break s' b \<Longrightarrow>
    \<not> hs_panic s' \<and> (\<exists>rt. hs_trace s' = hs_trace s @ [Sent a rt (build rt)] \<and> verdict a (build rt) = None)"
  using law [of s a] by simp

lemma failed_before_Nil: "failed_before verdict build as []"
  by (simp add: failed_before_def)

lemma failed_before_Cons: "retried verdict build a evs \<Longrightarrow> failed_before verdict build as evs' \<Longrightarrow> failed_before verdict build (a # as) (evs @ evs')"
  by (auto simp: retried_def failed_before_def provider_of_def)

lemma loop_continue:
  "for_loop body as s = Continue s' \<Longrightarrow> \<not> hs_panic s \<Longrightarrow>
   maxProxyAttempts \<notin> set as \<and> \<not> hs_panic s' \<and> (\<exists>evs. hs_trace s' = hs_trace s @ evs \<and> failed_before verdict build as evs)"
proof (induction as arbitrary: s)
  case (Cons a as)
  then obtain s1 where s1: "body a s = Continue s1" "for_loop body as s1 = Continue s'" by (auto split: flow.splits)
  then obtain ev where "a \<noteq> maxProxyAttempts" "\<not> hs_panic s1" "hs_trace s1 = hs_trace s @ ev" "retried verdict build a ev"
    using continue_law [OF Cons.prems(2)] by blast
  with Cons.IH [OF s1(2)] show ?case by (auto intro: failed_before_Cons)
qed (simp add: failed_before_Nil)

lemma loop_return:
  "for_loop body as s = Return s' \<Longrightarrow> \<not> hs_panic s \<Longrightarrow>
   \<exists>as1 a as2 evs ev. as = as1 @ a # as2 \<and> hs_trace s' = hs_trace s @ evs @ ev \<and> failed_before verdict build as1 evs \<and>
     sent_once verdict build a ev \<and> tracking ev = [] \<and>
     (if hs_panic s' then logs ev = [] \<and> responses ev = [] else concluded agree ev)"
proof (induction as arbitrary: s)
  case (Cons a as)
  show ?case
  proof (cases "body a s")
    case (Continue s1)
    then obtain ev where s1: "\<not> hs_panic s1" "hs_trace s1 = hs_trace s @ ev" "retried verdict build a ev"
      using continue_law [OF Cons.prems(2)] by blast
    obtain as1 c as2 evs ev' where *: "as = as1 @ c # as2" "hs_trace s' = hs_trace s1 @ evs @ ev'" "failed_before verdict build as1 evs"
      and **: "sent_once verdict build c ev'" "tracking ev' = []"
        "if hs_panic s' then logs ev' = [] \<and> responses ev' = [] else concluded agree ev'"
      using Cons.IH [of s1] Cons.prems(1) Continue s1(1) by auto
    have "a # as = (a # as1) @ c # as2" "hs_trace s' = hs_trace s @ (ev @ evs) @ ev'" "failed_before verdict build (a # as1) (ev @ evs)"
      using s1 * by (auto intro: failed_before_Cons)
    with ** show ?thesis by blast
  next
    case (Return s1)
    with Cons.prems(1) have "s1 = s'" by simp
    then show ?thesis using return_law [OF Cons.prems(2) Return] failed_before_Nil by (metis append_Nil)
  qed (use Cons.prems in simp)
qed simp

lemma loop_break:
  "for_loop body as s = Break s' b \<Longrightarrow> \<not> hs_panic s \<Longrightarrow>
   \<not> hs_panic s' \<and> (\<exists>as1 a as2 evs rt. as = as1 @ a # as2 \<and>
     hs_trace s' = hs_trace s @ evs @ [Sent a rt (build rt)] \<and> failed_before verdict build as1 evs \<and> verdict a (build rt) = None)"
proof (induction as arbitrary: s)
  case (Cons a as)
  show ?case
  proof (cases "body a s")
    case (Continue s1)
    then obtain ev where s1: "\<not> hs_panic s1" "hs_trace s1 = hs_trace s @ ev" "retried verdict build a ev"
      using continue_law [OF Cons.prems(2)] by blast
    obtain as1 c as2 evs rt where *: "as = as1 @ c # as2" "hs_trace s' = hs_trace s1 @ evs @ [Sent c rt (build rt)]"
        "failed_before verdict build as1 evs" and **: "\<not> hs_panic s'" "verdict c (build rt) = None"
      using Cons.IH [of s1] Cons.prems(1) Continue s1(1) by auto
    have "a # as = (a # as1) @ c # as2" "hs_trace s' = hs_trace s @ (ev @ evs) @ [Sent c rt (build rt)]"
      "failed_before verdict build (a # as1) (ev @ evs)" using s1 * by (auto intro: failed_before_Cons)
    with ** show ?thesis by blast
  next
    case (Break s1 b')
    with Cons.prems(1) have "s1 = s'" by simp
    then show ?thesis using break_law [OF Cons.prems(2) Break] failed_before_Nil by (metis append_Nil)
  qed (use Cons.prems in simp)
qed simp

text \<open>A body that never breaks always returns: the code after the loop is not reached.\<close>

lemma loop_returns:
  assumes "\<And>a s s' b. body a s \<noteq> Break s' b" and "maxProxyAttempts \<in> set as" and "\<not> hs_panic s"
  shows "\<exists>s'. for_loop body as s = Return s'"
proof (cases "for_loop body as s")
  case (Continue s')
  then show ?thesis using loop_continue [OF Continue assms(3)] assms(2) by blast
next
  case (Break s' b)
  have "for_loop body as s \<noteq> Break s' b" for s
    by (induction as arbitrary: s) (auto simp: assms(1) split: flow.split)
  with Break show ?thesis by blast
qed blast

lemma failed_before_sends:
  assumes "failed_before verdict build as1 evs"
  shows "failures evs = reports_of False verdict (sends evs)" "reports_of True verdict (sends evs) = []"
  using assms by (auto simp: failed_before_def reports_of_def filter_id_conv filter_empty_conv intro!: arg_cong [where f = "map provider_of"] filter_True [symmetric])

lemma return_summary:
  assumes "for_loop body as s = Return s'" and "\<not> hs_panic s"
  shows "\<exists>tr. hs_trace s' = hs_trace s @ tr \<and> failover_ok verdict build as tr \<and> tracking tr = [] \<and>
    (if hs_panic s' then logs tr = [] \<and> responses tr = [] else concluded agree tr)"
proof -
  obtain as1 a as2 evs ev where as: "as = as1 @ a # as2" and tr: "hs_trace s' = hs_trace s @ evs @ ev"
    and before: "failed_before verdict build as1 evs" and once: "sent_once verdict build a ev" "tracking ev = []"
    and final: "if hs_panic s' then logs ev = [] \<and> responses ev = [] else concluded agree ev"
    using loop_return [OF assms] by blast
  have "subseq (map fst (sends ev)) [a]" using once(1) by (auto simp: sent_once_def)
  moreover have "subseq (map fst (sends evs)) as1" using before by (simp add: failed_before_def)
  ultimately have "subseq (map fst (sends evs) @ map fst (sends ev)) (as1 @ [a])" by (rule list_emb_append_mono [rotated])
  then have "subseq (map fst (sends (evs @ ev))) as" unfolding as
    by (metis append.assoc append_Cons append_Nil list_emb_append2 list_emb_prefix map_append trace_append(1))
  moreover have "set (butlast (sends (evs @ ev))) \<subseteq> set (sends evs)"
    using once(1) by (auto simp: sent_once_def butlast_append dest: in_set_butlastD)
  ultimately have "failover_ok verdict build as (evs @ ev)"
    using before once(1) failed_before_sends [OF before]
    unfolding failover_ok_def failed_before_def sent_once_def by (fastforce simp: reports_of_def)
  moreover have "tracking (evs @ ev) = []" "logs (evs @ ev) = logs ev" "responses (evs @ ev) = responses ev"
    using before once by (simp_all add: failed_before_def)
  ultimately show ?thesis using tr final unfolding concluded_def by (metis append.assoc)
qed

end

end
