(* ===== verification/Proxy_Handler.thy ===== *)
theory Proxy_Handler
  imports Attempt_Loop
begin

text \<open>
  The non-streaming proxy routes of \<open>internal/proxy/handler.go\<close>: \<open>proxyNonStreaming\<close> with its
  failover over at most three attempts, the handlers that call it, and the transcription
  handler with a loop of its own over a rebuilt multipart body. Debug and warning messages of
  the logger are left out.
\<close>

section \<open>Requests without streaming\<close>

text \<open>The log as it is when the request starts.\<close>

definition new_log :: "'e proxy_env \<Rightarrow> http_request \<Rightarrow> string \<Rightarrow> time \<Rightarrow> RequestLog" where
  "new_log env r model startTime =
     zero_RequestLog\<lparr>l_ID := pe_logID env, l_Timestamp := startTime, l_ClientIP := clientIP r, l_Method := rq_Method r,
       l_Path := rq_Path r, l_RequestedModel := model, l_CreatedAt := startTime\<rparr>"

definition stamp_key :: "keyAuth option \<Rightarrow> RequestLog \<Rightarrow> RequestLog" where
  "stamp_key ka lg = (case ka of None \<Rightarrow> lg | Some k \<Rightarrow> lg\<lparr>l_APIKeyID := ka_ID k, l_APIKeyName := ka_Name k\<rparr>)"

text \<open>The body sent upstream carries the resolved model, if it can be rewritten.\<close>

definition upstream_body :: "string \<Rightarrow> string \<Rightarrow> string \<Rightarrow> string" where
  "upstream_body body model resolved =
     (if resolved \<noteq> model then (case rewriteModelInBody body resolved of Some rewritten \<Rightarrow> rewritten | None \<Rightarrow> body) else body)"

definition upstream_request :: "http_request \<Rightarrow> string \<Rightarrow> string \<Rightarrow> RouteResult \<Rightarrow> backend_request" where
  "upstream_request r body model route =
     (let outBody = upstream_body body model (rr_ModelID route);
          ct = hdr_get (rq_Header r) ''Content-Type'';
          accept = hdr_get (rq_Header r) ''Accept'';
          h1 = (if ct \<noteq> '''' then hdr_set ''Content-Type'' ct [] else []);
          h2 = (if accept \<noteq> '''' then hdr_set ''Accept'' accept h1 else h1);
          h3 = forward_openai (rq_Header r) h2
      in \<lparr>bq_Method = ''POST'', bq_URL = rr_TargetURL route, bq_Header = setBackendAuth h3 r (rr_Provider route),
          bq_Body = outBody\<rparr>)"

text \<open>The log of a request that a backend answered.\<close>

definition answered_log :: "RequestLog \<Rightarrow> RouteResult \<Rightarrow> int \<Rightarrow> time \<Rightarrow> time \<Rightarrow> RequestLog" where
  "answered_log lg route status startTime now =
     lg\<lparr>l_StatusCode := status, l_ProviderID := p_ID (rr_Provider route), l_ProviderName := p_Name (rr_Provider route),
        l_ResolvedModel := rr_ModelID route, l_TotalTimeMs := milliseconds (time_sub now startTime)\<rparr>"

definition is_2xx :: "int \<Rightarrow> bool" where
  "is_2xx status \<longleftrightarrow> status \<ge> 200 \<and> status < 300"

text \<open>What a response below 500 leads to: body and usage in the log, a report, the answer.\<close>

definition non_streaming_answer ::
  "('r, 'e) Router \<Rightarrow> 'e proxy_env \<Rightarrow> string \<Rightarrow> bool \<Rightarrow> time \<Rightarrow> RequestLog \<Rightarrow> nat \<Rightarrow> RouteResult \<Rightarrow> backend_response \<Rightarrow> string \<Rightarrow>
   'r hstate \<Rightarrow> 'r hstate" where
  "non_streaming_answer rt env body isBinary startTime lg attempt route resp respOut s =
     (let status = bk_StatusCode resp;
          l1 = answered_log lg route status startTime (pe_now env attempt);
          reqMax = getConfigInt (pe_config env) ''request_body_max_bytes'' DefaultRequestBodyMaxBytes;
          respMax = getConfigInt (pe_config env) ''response_body_max_bytes'' DefaultResponseBodyMaxBytes;
          l2 = l1\<lparr>l_RequestBody := truncateBodyWithConfig body reqMax\<rparr>;
          s1 = (if is_2xx status then report_success rt (pe_report env attempt) (p_ID (rr_Provider route)) s else s);
          l3 = (if is_2xx status \<and> \<not> isBinary
                then (applyUsageToLog l2 (parseUsageFromBody respOut))\<lparr>l_ResponseBody := truncateBodyWithConfig respOut respMax\<rparr>
                else l2)
      in emit (Recorded l3) (emit (Responded (copyResponseHeadersAndWrite (pe_header env) resp respOut status)) s1))"

text \<open>One attempt. A panic of the router ends the request.\<close>

definition non_streaming_attempt ::
  "('r, 'e) Router \<Rightarrow> 'e proxy_env \<Rightarrow> http_request \<Rightarrow> string \<Rightarrow> string \<Rightarrow> string \<Rightarrow> bool \<Rightarrow> time \<Rightarrow> RequestLog \<Rightarrow>
   nat \<Rightarrow> 'r hstate \<Rightarrow> ('r hstate, unit) flow" where
  "non_streaming_attempt rt env r body model endpointPath isBinary startTime lg attempt s =
     (let (res, router') = ri_Route rt (hs_router s) (pe_route env attempt) model endpointPath;
          s1 = s\<lparr>hs_router := router'\<rparr>;
          now = pe_now env attempt;
          w = pe_header env
      in case res of
        Inl IntnPanic \<Rightarrow> Return (s1\<lparr>hs_panic := True\<rparr>)
      | Inl err \<Rightarrow>
          (if attempt = maxProxyAttempts
           then Return (give_up w lg startTime now 503 (''no available provider: '' @ route_error_text err)
                          (''no available provider: '' @ route_error_text err) s1)
           else Continue s1)
      | Inr route \<Rightarrow>
          (let req = upstream_request r body model route; pid = p_ID (rr_Provider route)
           in case pe_newRequest env (rr_TargetURL route) of
             Some msg \<Rightarrow>
               (if attempt = maxProxyAttempts
                then Return (give_up w lg startTime now 500 (''building backend request: '' @ msg) ''internal error building request'' s1)
                else Continue s1)
           | None \<Rightarrow>
               (let s2 = emit (Sent attempt route req) s1
                in case pe_do env attempt req of
                  Inl err \<Rightarrow>
                    (if isClientCanceled (Some err) then Return (client_gone lg startTime now s2)
                     else
                       (let s3 = report_failure rt (pe_report env attempt) pid s2
                        in if attempt < maxProxyAttempts then Continue s3
                           else Return (give_up w lg startTime now 502 (''backend request failed: '' @ snd err) ''backend request failed'' s3)))
                | Inr resp \<Rightarrow>
                    (if bk_ReadErr resp \<noteq> None then
                       (if isClientCanceled (bk_ReadErr resp) then Return (client_gone lg startTime now s2)
                        else
                          (let s3 = report_failure rt (pe_report env attempt) pid s2
                           in if attempt < maxProxyAttempts then Continue s3
                              else Return (give_up w lg startTime now 502 ''failed to read backend response''
                                             ''failed to read backend response'' s3)))
                     else
                       (let respBody = bk_Body resp;
                            respOut = (if rr_RequestedViaAlias route \<and> \<not> isBinary then rewriteResponseModelForClient respBody model
                                       else respBody)
                        in if bk_StatusCode resp \<ge> 500 then
                             (let s3 = report_failure rt (pe_report env attempt) pid s2
                              in if attempt < maxProxyAttempts then Continue s3
                                 else Return (emit (Recorded (answered_log lg route (bk_StatusCode resp) startTime now))
                                        (emit (Responded (copyResponseHeadersAndWrite w resp respOut (bk_StatusCode resp))) s3)))
                           else Return (non_streaming_answer rt env body isBinary startTime lg attempt route resp respOut s2))))))"

text \<open>The loop, and the guard after it (which is never reached).\<close>

definition non_streaming_run ::
  "('r, 'e) Router \<Rightarrow> 'e proxy_env \<Rightarrow> http_request \<Rightarrow> string \<Rightarrow> string \<Rightarrow> string \<Rightarrow> bool \<Rightarrow> time \<Rightarrow> 'r hstate \<Rightarrow> 'r hstate" where
  "non_streaming_run rt env r body model endpointPath isBinary startTime s =
     (let lg = stamp_key (pe_keyAuth env) (new_log env r model startTime)
      in case for_loop (non_streaming_attempt rt env r body model endpointPath isBinary startTime lg) attempts s of
           Continue s' \<Rightarrow>
             give_up (pe_header env) lg startTime (pe_now env (Suc maxProxyAttempts)) 503 ''all attempts exhausted'' ''all attempts exhausted'' s'
         | Return s' \<Rightarrow> s'
         | Break s' _ \<Rightarrow> s')"

definition proxyNonStreaming ::
  "('r, 'e) Router \<Rightarrow> 'e proxy_env \<Rightarrow> http_request \<Rightarrow> string \<Rightarrow> string \<Rightarrow> string \<Rightarrow> bool \<Rightarrow> time \<Rightarrow> 'r hstate \<Rightarrow> 'r hstate" where
  "proxyNonStreaming rt env r body model endpointPath isBinary startTime =
     tracked env r model endpointPath (non_streaming_run rt env r body model endpointPath isBinary startTime)"

section \<open>The handlers\<close>

definition extract_text :: "string \<Rightarrow> ('e proxy_env) \<Rightarrow> string \<Rightarrow> extract_error \<Rightarrow> string" where
  "extract_text required env body e = (case e of ParseBody \<Rightarrow> ''parsing request body: '' @ pe_jsonErr env body | ModelRequired \<Rightarrow> required)"

definition bad_request :: "'e proxy_env \<Rightarrow> int \<Rightarrow> string \<Rightarrow> 'r hstate \<Rightarrow> 'r hstate" where
  "bad_request env status msg s = emit (Responded (respondError (pe_header env) status msg)) s"

text \<open>Reading the body and its model, as every JSON handler does it.\<close>

definition with_model ::
  "'e proxy_env \<Rightarrow> http_request \<Rightarrow> string \<Rightarrow> (string \<Rightarrow> extract_error + string) \<Rightarrow> (string \<Rightarrow> string \<Rightarrow> 'r hstate \<Rightarrow> 'r hstate) \<Rightarrow>
   'r hstate \<Rightarrow> 'r hstate" where
  "with_model env r required extract proceed s =
     (case read_body r of
        None \<Rightarrow> bad_request env 400 ''failed to read request body'' s
      | Some body \<Rightarrow>
          (case extract body of
             Inl e \<Rightarrow> bad_request env 400 (extract_text required env body e) s
           | Inr model \<Rightarrow> proceed body model s))"

definition HandleShow :: "('r, 'e) Router \<Rightarrow> 'e proxy_env \<Rightarrow> http_request \<Rightarrow> time \<Rightarrow> 'r hstate \<Rightarrow> 'r hstate" where
  "HandleShow rt env r startTime =
     with_model env r ''model is required'' extractModelFromShowRequest
       (\<lambda>body model. proxyNonStreaming rt env r body model ''/api/show'' False startTime)"

definition HandleEmbeddings :: "('r, 'e) Router \<Rightarrow> 'e proxy_env \<Rightarrow> http_request \<Rightarrow> time \<Rightarrow> 'r hstate \<Rightarrow> 'r hstate" where
  "HandleEmbeddings rt env r startTime =
     with_model env r ''model field is required'' extractModelFromJSON
       (\<lambda>body model. proxyNonStreaming rt env r body model ''/v1/embeddings'' False startTime)"

definition HandleImageGenerations :: "('r, 'e) Router \<Rightarrow> 'e proxy_env \<Rightarrow> http_request \<Rightarrow> time \<Rightarrow> 'r hstate \<Rightarrow> 'r hstate" where
  "HandleImageGenerations rt env r startTime =
     with_model env r ''model field is required'' extractModelFromJSON
       (\<lambda>body model. proxyNonStreaming rt env r body model ''/v1/images/generations'' False startTime)"

definition HandleAudioSpeech :: "('r, 'e) Router \<Rightarrow> 'e proxy_env \<Rightarrow> http_request \<Rightarrow> time \<Rightarrow> 'r hstate \<Rightarrow> 'r hstate" where
  "HandleAudioSpeech rt env r startTime =
     with_model env r ''model field is required'' extractModelFromJSON
       (\<lambda>body model. proxyNonStreaming rt env r body model ''/v1/audio/speech'' True startTime)"

section \<open>Transcriptions\<close>

text \<open>
  A parsed multipart form. \<open>mf_Query\<close> holds the parameters of the URL, which \<open>FormValue\<close>
  prefers; the content of a file is \<open>None\<close> if it cannot be opened. The order of both lists is
  the order in which the maps are visited.
\<close>

record multipart_form =
  mf_Query :: "(string \<times> string list) list"
  mf_Value :: "(string \<times> string list) list"
  mf_File :: "(string \<times> (string \<times> string option) list) list"

definition form_values :: "(string \<times> string list) list \<Rightarrow> string \<Rightarrow> string list" where
  "form_values m k = (case map_of m k of None \<Rightarrow> [] | Some vs \<Rightarrow> vs)"

definition FormValue :: "multipart_form \<Rightarrow> string \<Rightarrow> string" where
  "FormValue f k = (case form_values (mf_Query f) k @ form_values (mf_Value f) k of [] \<Rightarrow> '''' | v # _ \<Rightarrow> v)"

definition extractModelFromMultipart :: "string + multipart_form \<Rightarrow> string + string" where
  "extractModelFromMultipart form =
     (case form of
        Inl err \<Rightarrow> Inl (''parsing multipart form: '' @ err)
      | Inr f \<Rightarrow> (let model = FormValue f ''model''
                  in if model = '''' then Inl ''model field is required'' else Inr model))"

text \<open>A part: its header lines and its content. \<open>esc\<close> escapes quotes in names.\<close>

type_synonym part = "string list \<times> string"

definition form_field :: "(string \<Rightarrow> string) \<Rightarrow> string \<Rightarrow> string \<Rightarrow> part" where
  "form_field esc key v = ([''Content-Disposition: form-data; name=\"'' @ esc key @ ''\"''], v)"

definition form_file :: "(string \<Rightarrow> string) \<Rightarrow> string \<Rightarrow> string \<Rightarrow> string \<Rightarrow> part" where
  "form_file esc key filename content =
     ([''Content-Disposition: form-data; name=\"'' @ esc key @ ''\"; filename=\"'' @ esc filename @ ''\"'',
       ''Content-Type: application/octet-stream''], content)"

definition crlf :: string where
  "crlf = [CHR 0x0D, CHR 0x0A]"

definition write_part :: "string \<Rightarrow> part \<Rightarrow> string" where
  "write_part boundary p =
     ''--'' @ boundary @ crlf @ concat (map (\<lambda>h. h @ crlf) (fst p)) @ crlf @ snd p @ crlf"

definition write_form :: "string \<Rightarrow> part list \<Rightarrow> string" where
  "write_form boundary parts =
     (if parts = [] then crlf else concat (map (write_part boundary) parts)) @ ''--'' @ boundary @ ''--'' @ crlf"

text \<open>The parts in the order the handler writes them; a file that cannot be opened stops it.\<close>

definition form_parts :: "(string \<Rightarrow> string) \<Rightarrow> multipart_form \<Rightarrow> part list option" where
  "form_parts esc f =
     (let fields = concat (map (\<lambda>(key, vals). map (form_field esc key) vals) (mf_Value f));
          files = concat (map (\<lambda>(key, fs). map (\<lambda>(filename, content). (key, filename, content)) fs) (mf_File f))
      in if \<exists>x \<in> set files. snd (snd x) = None then None
         else Some (fields @ map (\<lambda>(key, filename, content). form_file esc key filename (case content of Some c \<Rightarrow> c | None \<Rightarrow> [])) files))"

definition transcription_request :: "http_request \<Rightarrow> string \<Rightarrow> string \<Rightarrow> RouteResult \<Rightarrow> backend_request" where
  "transcription_request r multipartBody boundary route =
     \<lparr>bq_Method = ''POST'', bq_URL = rr_TargetURL route,
      bq_Header = setBackendAuth (hdr_set ''Content-Type'' (''multipart/form-data; boundary='' @ boundary) []) r (rr_Provider route),
      bq_Body = multipartBody\<rparr>"

definition transcription_attempt ::
  "('r, 'e) Router \<Rightarrow> 'e proxy_env \<Rightarrow> http_request \<Rightarrow> string \<Rightarrow> string \<Rightarrow> string \<Rightarrow> time \<Rightarrow> RequestLog \<Rightarrow>
   nat \<Rightarrow> 'r hstate \<Rightarrow> ('r hstate, unit) flow" where
  "transcription_attempt rt env r multipartBody boundary model startTime lg attempt s =
     (let (res, router') = ri_Route rt (hs_router s) (pe_route env attempt) model ''/v1/audio/transcriptions'';
          s1 = s\<lparr>hs_router := router'\<rparr>;
          now = pe_now env attempt;
          w = pe_header env
      in case res of
        Inl IntnPanic \<Rightarrow> Return (s1\<lparr>hs_panic := True\<rparr>)
      | Inl err \<Rightarrow>
          (if attempt = maxProxyAttempts
           then Return (give_up w lg startTime now 503 (''no available provider: '' @ route_error_text err)
                          (''no available provider: '' @ route_error_text err) s1)
           else Continue s1)
      | Inr route \<Rightarrow>
          (let req = transcription_request r multipartBody boundary route; pid = p_ID (rr_Provider route)
           in case pe_newRequest env (rr_TargetURL route) of
             Some msg \<Rightarrow>
               (if attempt = maxProxyAttempts
                then Return (give_up w lg startTime now 500 (''building backend request: '' @ msg) ''internal error building request'' s1)
                else Continue s1)
           | None \<Rightarrow>
               (let s2 = emit (Sent attempt route req) s1
                in case pe_do env attempt req of
                  Inl err \<Rightarrow>
                    (if isClientCanceled (Some err) then Return (client_gone lg startTime now s2)
                     else
                       (let s3 = report_failure rt (pe_report env attempt) pid s2
                        in if attempt < maxProxyAttempts then Continue s3
                           else Return (give_up w lg startTime now 502 (''backend request failed: '' @ snd err) ''backend request failed'' s3)))
                | Inr resp \<Rightarrow>
                    (if bk_ReadErr resp \<noteq> None then
                       (if isClientCanceled (bk_ReadErr resp) then Return (client_gone lg startTime now s2)
                        else
                          (let s3 = report_failure rt (pe_report env attempt) pid s2
                           in if attempt < maxProxyAttempts then Continue s3
                              else Return (give_up w lg startTime now 502 ''failed to read backend response''
                                             ''failed to read backend response'' s3)))
                     else
                       (let respOut = (if rr_RequestedViaAlias route then rewriteResponseModelForClient (bk_Body resp) model
                                       else bk_Body resp);
                            l1 = answered_log lg route (bk_StatusCode resp) startTime now
                        in if bk_StatusCode resp \<ge> 500 then
                             (let s3 = report_failure rt (pe_report env attempt) pid s2
                              in if attempt < maxProxyAttempts then Continue s3
                                 else Return (emit (Recorded l1)
                                        (emit (Responded (copyResponseHeadersAndWrite w resp respOut (bk_StatusCode resp))) s3)))
                           else
                             (let s3 = (if is_2xx (bk_StatusCode resp) then report_success rt (pe_report env attempt) pid s2 else s2);
                                  l2 = (if is_2xx (bk_StatusCode resp) then applyUsageToLog l1 (parseUsageFromBody respOut) else l1)
                              in Return (emit (Recorded l2)
                                   (emit (Responded (copyResponseHeadersAndWrite w resp respOut (bk_StatusCode resp))) s3))))))))"

text \<open>This handler neither registers the request as active nor stamps the API key on its log.\<close>

definition HandleAudioTranscriptions ::
  "('r, 'e) Router \<Rightarrow> 'e proxy_env \<Rightarrow> (string \<Rightarrow> string) \<Rightarrow> string \<Rightarrow> string + multipart_form \<Rightarrow> http_request \<Rightarrow> time \<Rightarrow>
   'r hstate \<Rightarrow> 'r hstate" where
  "HandleAudioTranscriptions rt env esc boundary form r startTime s =
     (case extractModelFromMultipart form of
        Inl msg \<Rightarrow> bad_request env 400 msg s
      | Inr model \<Rightarrow>
          (case (case form of Inl _ \<Rightarrow> Some [] | Inr f \<Rightarrow> form_parts esc f) of
             None \<Rightarrow> bad_request env 500 ''failed to open uploaded file'' s
           | Some parts \<Rightarrow>
               (let multipartBody = write_form boundary parts;
                    lg = new_log env r model startTime
                in case for_loop (transcription_attempt rt env r multipartBody boundary model startTime lg) attempts s of
                     Continue s' \<Rightarrow>
                       give_up (pe_header env) lg startTime (pe_now env (Suc maxProxyAttempts)) 503
                         ''all attempts exhausted'' ''all attempts exhausted'' s'
                   | Return s' \<Rightarrow> s'
                   | Break s' _ \<Rightarrow> s')))"

section \<open>The contract of a non-streaming request\<close>

definition verdict_of :: "'e proxy_env \<Rightarrow> nat \<Rightarrow> backend_request \<Rightarrow> bool option" where
  "verdict_of env attempt req =
     (case pe_do env attempt req of
        Inl err \<Rightarrow> if isClientCanceled (Some err) then None else Some False
      | Inr resp \<Rightarrow>
          if bk_ReadErr resp \<noteq> None then (if isClientCanceled (bk_ReadErr resp) then None else Some False)
          else if bk_StatusCode resp \<ge> 500 then Some False
          else if is_2xx (bk_StatusCode resp) then Some True else None)"

definition same_status :: "RequestLog \<Rightarrow> http_response \<Rightarrow> bool" where
  "same_status l r \<longleftrightarrow> rs_Status r = l_StatusCode l"

lemma applyUsageToLog_simps [simp]: "l_StatusCode (applyUsageToLog lg u) = l_StatusCode lg"
  by (simp add: applyUsageToLog_def Let_def split: option.splits)

lemma answered_log_simps [simp]: "l_StatusCode (answered_log lg route status st now) = status"
  by (simp add: answered_log_def)

lemma non_streaming_attempt_law:
  assumes "\<not> hs_panic s"
  shows "attempt_law (verdict_of env) (upstream_request r body model) same_status a s
    (non_streaming_attempt rt env r body model path isBinary st lg a s)"
proof (cases "ri_Route rt (hs_router s) (pe_route env a) model path")
  case (Pair rres router')
  note defs = non_streaming_attempt_def non_streaming_answer_def Let_def retried_def sent_once_def concluded_def same_status_def
    reports_of_def provider_of_def verdict_of_def
  show ?thesis
  proof (cases rres)
    case (Inl e)
    then show ?thesis using assms Pair by (cases e) (auto simp: defs)
  next
    case (Inr route)
    show ?thesis
    proof (cases "pe_newRequest env (rr_TargetURL route)")
      case None
      then show ?thesis using assms Pair Inr
        by (cases "pe_do env a (upstream_request r body model route)") (auto simp: defs)
    qed (use assms Pair Inr in \<open>auto simp: defs\<close>)
  qed
qed


interpretation ns: attempt_body "non_streaming_attempt rt env r body model path isBinary st lg"
  "verdict_of env" "upstream_request r body model" same_status
  for rt env r body model path isBinary st lg
  by unfold_locales (rule non_streaming_attempt_law)

lemma last_attempt [simp]: "maxProxyAttempts \<in> set attempts"
  by (simp add: attempts_def maxProxyAttempts_def)

lemma length_attempts [simp]: "length attempts = 3"
  by (simp add: attempts_def maxProxyAttempts_def)

lemma non_streaming_no_break: "non_streaming_attempt rt env r body model path isBinary st lg a s \<noteq> Break s' b"
  by (auto simp: non_streaming_attempt_def Let_def split: prod.splits sum.splits route_error.splits option.splits if_splits)

lemma transcription_no_break: "transcription_attempt rt env r mbody bd model st lg a s \<noteq> Break s' b"
  by (auto simp: transcription_attempt_def Let_def split: prod.splits sum.splits route_error.splits option.splits if_splits)

text \<open>The registration around a handler body frames its trace.\<close>

definition framed :: "'e proxy_env \<Rightarrow> http_request \<Rightarrow> string \<Rightarrow> string \<Rightarrow> event list \<Rightarrow> event list" where
  "framed env r model path tr =
     (if \<not> pe_active env then tr
      else Tracked (TBegin (pe_trackID env) (pe_begin env, model, path, clientIP r)) # tr @
           (if pe_trackID env = '''' then [] else [Tracked (TEnd (pe_trackID env))]))"

lemma tracked_trace:
  assumes "\<And>s1. \<not> hs_panic s1 \<Longrightarrow> \<exists>tr. hs_trace (body s1) = hs_trace s1 @ tr \<and> P (hs_panic (body s1)) tr" and "\<not> hs_panic s"
  shows "\<exists>tr. hs_trace (tracked env r model path body s) = hs_trace s @ framed env r model path tr \<and>
    P (hs_panic (tracked env r model path body s)) tr"
  using assms(1) [of s] assms(1) [of "snd (beginTracking env r model path s)"] assms(2)
  by (auto simp: tracked_def beginTracking_def framed_def)

lemma framed_simps [simp]:
  "sends (framed env r model path tr) = sends tr" "failures (framed env r model path tr) = failures tr"
  "successes (framed env r model path tr) = successes tr" "logs (framed env r model path tr) = logs tr"
  "responses (framed env r model path tr) = responses tr"
  by (simp_all add: framed_def)

lemma non_streaming_run_returns:
  assumes "\<not> hs_panic s"
  shows "for_loop (non_streaming_attempt rt env r body model path isBinary st (stamp_key (pe_keyAuth env) (new_log env r model st))) attempts s =
    Return (non_streaming_run rt env r body model path isBinary st s)"
proof -
  have "\<exists>s'. for_loop (non_streaming_attempt rt env r body model path isBinary st (stamp_key (pe_keyAuth env) (new_log env r model st)))
    attempts s = Return s'" by (rule ns.loop_returns [OF non_streaming_no_break last_attempt assms])
  then show ?thesis by (auto simp: non_streaming_run_def Let_def)
qed

lemma proxyNonStreaming_trace:
  assumes "\<not> hs_panic s"
  shows "\<exists>tr. hs_trace (proxyNonStreaming rt env r body model path isBinary st s) = hs_trace s @ framed env r model path tr \<and>
    failover_ok (verdict_of env) (upstream_request r body model) attempts tr \<and> tracking tr = [] \<and>
    (if hs_panic (proxyNonStreaming rt env r body model path isBinary st s) then logs tr = [] \<and> responses tr = []
     else concluded same_status tr)"
  unfolding proxyNonStreaming_def
  by (rule tracked_trace [OF ns.return_summary [OF non_streaming_run_returns] assms])


section \<open>The contract of a transcription\<close>

lemma transcription_attempt_law:
  assumes "\<not> hs_panic s"
  shows "attempt_law (verdict_of env) (transcription_request r mbody bd) same_status a s
    (transcription_attempt rt env r mbody bd model st lg a s)"
proof (cases "ri_Route rt (hs_router s) (pe_route env a) model ''/v1/audio/transcriptions''")
  case (Pair rres router')
  note defs = transcription_attempt_def Let_def retried_def sent_once_def concluded_def same_status_def
    reports_of_def provider_of_def verdict_of_def
  show ?thesis
  proof (cases rres)
    case (Inl e)
    then show ?thesis using assms Pair by (cases e) (auto simp: defs)
  next
    case (Inr route)
    show ?thesis
    proof (cases "pe_newRequest env (rr_TargetURL route)")
      case None
      then show ?thesis using assms Pair Inr
        by (cases "pe_do env a (transcription_request r mbody bd route)") (auto simp: defs)
    qed (use assms Pair Inr in \<open>auto simp: defs\<close>)
  qed
qed

interpretation tr: attempt_body "transcription_attempt rt env r mbody bd model st lg"
  "verdict_of env" "transcription_request r mbody bd" same_status
  for rt env r mbody bd model st lg
  by unfold_locales (rule transcription_attempt_law)


lemma transcription_trace:
  assumes "\<not> hs_panic s" and "extractModelFromMultipart (Inr f) = Inr model" and "form_parts esc f = Some parts"
  shows "\<exists>tr. hs_trace (HandleAudioTranscriptions rt env esc bd (Inr f) r st s) = hs_trace s @ tr \<and>
    failover_ok (verdict_of env) (transcription_request r (write_form bd parts) bd) attempts tr \<and> tracking tr = [] \<and>
    (if hs_panic (HandleAudioTranscriptions rt env esc bd (Inr f) r st s) then logs tr = [] \<and> responses tr = []
     else concluded same_status tr)"
proof -
  let ?body = "transcription_attempt rt env r (write_form bd parts) bd model st (new_log env r model st)"
  have "\<exists>s'. for_loop ?body attempts s = Return s'" by (rule tr.loop_returns [OF transcription_no_break last_attempt assms(1)])
  then have "for_loop ?body attempts s = Return (HandleAudioTranscriptions rt env esc bd (Inr f) r st s)"
    by (auto simp: HandleAudioTranscriptions_def assms(2,3) Let_def)
  then show ?thesis by (rule tr.return_summary [OF _ assms(1)])
qed

section \<open>Headers\<close>

lemma map_of_add_all: "map_of (fold (hdr_add k) vs h) k' =
    (if k' = k \<and> vs \<noteq> [] then Some ((case map_of h k of None \<Rightarrow> [] | Some us \<Rightarrow> us) @ vs) else map_of h k')"
  by (induction vs arbitrary: h) (auto simp: map_of_hdr_add)

text \<open>Adding the values of the selected keys of a header to another one.\<close>

definition add_selected :: "(string \<Rightarrow> bool) \<Rightarrow> header \<Rightarrow> header \<Rightarrow> header" where
  "add_selected sel src h = fold (\<lambda>(key, vals) h. if sel key then fold (hdr_add key) vals h else h) src h"

lemma copyResponseHeaders_add: "copyResponseHeaders w h = add_selected copied_header h w"
  by (simp add: copyResponseHeaders_def add_selected_def)

lemma forward_openai_add: "forward_openai src h = add_selected (\<lambda>k. HasPrefix (ToLower k) ''openai-'') src h"
  by (simp add: forward_openai_def add_selected_def)

lemma map_of_add_selected:
  assumes "hdr_wf src"
  shows "map_of (add_selected sel src h) k =
    (case map_of src k of
       Some vs \<Rightarrow> if sel k then Some ((case map_of h k of None \<Rightarrow> [] | Some us \<Rightarrow> us) @ vs) else map_of h k
     | None \<Rightarrow> map_of h k)"
  using assms
proof (induction src arbitrary: h)
  case (Cons x src)
  obtain key vals where x: "x = (key, vals)" by fastforce
  from Cons.prems x have "map_of src key = None" "vals \<noteq> []" and wf: "hdr_wf src"
    by (auto simp: hdr_wf_def map_of_eq_None_iff image_iff)
  then show ?case using Cons.IH [OF wf, of "if sel key then fold (hdr_add key) vals h else h"]
    by (auto simp: x add_selected_def map_of_add_all split: option.splits)
qed (simp add: add_selected_def)


lemma keys_add_all: "fst ` set (fold (hdr_add k) vs h) \<subseteq> insert k (fst ` set h)"
proof (induction vs arbitrary: h)
  case (Cons v vs)
  show ?case using Cons [of "hdr_add k v h"] by (simp add: keys_hdr_add)
qed auto

lemma setBackendAuth_keys: "fst ` set (setBackendAuth h r p) \<subseteq> insert ''Authorization'' (fst ` set h)"
  unfolding setBackendAuth_def Let_def by (simp add: keys_hdr_set subset_insertI)

lemma setBackendAuth_get: "hdr_get (setBackendAuth h r p) ''Authorization'' =
    (if p_APIKey p \<noteq> '''' then ''Bearer '' @ p_APIKey p
     else if hdr_get (rq_Header r) ''Authorization'' \<noteq> '''' then hdr_get (rq_Header r) ''Authorization''
     else hdr_get h ''Authorization'')"
  unfolding setBackendAuth_def Let_def by simp

lemma sorted_wrt_subseq: "subseq xs ys \<Longrightarrow> sorted_wrt P ys \<Longrightarrow> sorted_wrt P xs"
  by (induction rule: list_emb.induct) (auto dest: list_emb_set)

lemma keys_add_selected: "fst ` set (add_selected sel src h) \<subseteq> fst ` set h \<union> {k \<in> fst ` set src. sel k}"
proof (induction src arbitrary: h)
  case (Cons x src)
  have eq: "add_selected sel (x # src) h = add_selected sel src (if sel (fst x) then fold (hdr_add (fst x)) (snd x) h else h)"
    by (simp add: add_selected_def case_prod_beta)
  show ?case
  proof (cases "sel (fst x)")
    case True
    with Cons [of "fold (hdr_add (fst x)) (snd x) h"] keys_add_all [of "fst x" "snd x" h]
    have "fst ` set (add_selected sel (x # src) h) \<subseteq> insert (fst x) (fst ` set h) \<union> {k \<in> fst ` set src. sel k}"
      unfolding eq by auto
    with True show ?thesis by auto
  next
    case False
    with Cons [of h] show ?thesis unfolding eq by auto
  qed
qed (simp add: add_selected_def)

lemma hdr_get_add_selected: "\<not> sel k \<Longrightarrow> hdr_get (add_selected sel src h) k = hdr_get h k"
proof (induction src arbitrary: h)
  case (Cons x src)
  then have "hdr_get (add_selected sel (x # src) h) k = hdr_get (if sel (fst x) then fold (hdr_add (fst x)) (snd x) h else h) k"
    using Cons.IH [of "if sel (fst x) then fold (hdr_add (fst x)) (snd x) h else h"]
    by (simp add: add_selected_def case_prod_beta)
  also have "\<dots> = hdr_get h k" using Cons.prems by (auto simp: hdr_get_def map_of_add_all)
  finally show ?case .
qed (simp add: add_selected_def)

section \<open>Properties\<close>

text \<open>The state in which a request enters its handler.\<close>

definition fresh :: "'r \<Rightarrow> 'r hstate" where
  "fresh router = \<lparr>hs_router = router, hs_trace = [], hs_panic = False\<rparr>"

lemma fresh_simps [simp]: "hs_trace (fresh router) = []" "hs_panic (fresh router) = False" "hs_router (fresh router) = router"
  by (simp_all add: fresh_def)


text \<open>
  C4. Failover. A non-streaming request sends at most three requests to backends, with
  increasing attempt numbers, each built from its route; all but the last one failed (a
  transport error, a broken body or a status of 500 and above, but not a cancelled client). The router
  is told of exactly the failures, and of a success exactly if the last answer was 2xx.
\<close>
theorem failover_discipline:
  "let tr = hs_trace (proxyNonStreaming rt env r body model path isBinary st (fresh router)); xs = sends tr
   in length xs \<le> 3 \<and> sorted_wrt (<) (map fst xs) \<and>
      list_all (\<lambda>(a, route, rq). rq = upstream_request r body model route) xs \<and>
      list_all (\<lambda>(a, route, rq). verdict_of env a rq = Some False) (butlast xs) \<and>
      failures tr = map provider_of (filter (\<lambda>(a, route, rq). verdict_of env a rq = Some False) xs) \<and>
      successes tr = map provider_of (filter (\<lambda>(a, route, rq). verdict_of env a rq = Some True) xs)"
proof -
  obtain tr where tr: "hs_trace (proxyNonStreaming rt env r body model path isBinary st (fresh router)) = framed env r model path tr"
    and ok: "failover_ok (verdict_of env) (upstream_request r body model) attempts tr"
    using proxyNonStreaming_trace [of "fresh router" rt env r body model path isBinary st] by auto
  have "sorted_wrt (<) attempts" by (simp add: attempts_def maxProxyAttempts_def)
  then have "sorted_wrt (<) (map fst (sends tr))" using ok unfolding failover_ok_def
    by (metis sorted_wrt_subseq)
  then show ?thesis using ok failover_ok_length [OF ok]
    by (simp add: tr Let_def failover_ok_def reports_of_def list_all_iff)
qed



text \<open>
  What the client gets of a backend's response. The body is written with a
  \<open>Content-Length\<close> of its own length; the backend's headers are added to those set before,
  except for the hop-by-hop headers and those derived from the body.
\<close>
theorem response_headers:
  assumes "hdr_wf (bk_Header resp)"
  shows "let out = copyResponseHeadersAndWrite w resp body status
    in rs_Status out = status \<and> rs_Body out = body \<and>
       map_of (rs_Header out) = (\<lambda>k.
         if k = ''Content-Length'' then Some [Itoa (int (length body))]
         else if ToLower k \<in> set hopByHopHeaders \<union> {''content-length'', ''etag'', ''content-md5''} then map_of w k
         else case map_of (bk_Header resp) k of
                None \<Rightarrow> map_of w k
              | Some vs \<Rightarrow> Some ((case map_of w k of None \<Rightarrow> [] | Some us \<Rightarrow> us) @ vs))"
  unfolding Let_def
proof (intro conjI ext)
  fix k
  show "map_of (rs_Header (copyResponseHeadersAndWrite w resp body status)) k =
    (if k = ''Content-Length'' then Some [Itoa (int (length body))]
     else if ToLower k \<in> set hopByHopHeaders \<union> {''content-length'', ''etag'', ''content-md5''} then map_of w k
     else case map_of (bk_Header resp) k of None \<Rightarrow> map_of w k
          | Some vs \<Rightarrow> Some ((case map_of w k of None \<Rightarrow> [] | Some us \<Rightarrow> us) @ vs))"
    by (simp add: copyResponseHeadersAndWrite_def map_of_hdr_set copyResponseHeaders_add map_of_add_selected [OF assms]
        copied_header_def split: option.split)
qed simp_all

definition sample_response :: backend_response where
  "sample_response = \<lparr>bk_StatusCode = 200, bk_Header = [(''Content-Length'', [''99'']), (''Connection'', [''close'']), (''X-Id'', [''a'', ''b''])],
     bk_Body = ''{\"model\":\"llama\"}'', bk_ReadErr = None\<rparr>"

theorem response_headers_witness:
  "map_of (rs_Header (copyResponseHeadersAndWrite [(''X-Id'', [''0''])] sample_response ''ok'' 200)) ''X-Id'' = Some [''0'', ''a'', ''b''] \<and>
   map_of (rs_Header (copyResponseHeadersAndWrite [(''X-Id'', [''0''])] sample_response ''ok'' 200)) ''Connection'' = None"
proof -
  have wf: "hdr_wf (bk_Header sample_response)" by code_simp
  have "ToLower ''Connection'' \<in> set hopByHopHeaders" "ToLower ''X-Id'' \<notin> set hopByHopHeaders \<union> {''content-length'', ''etag'', ''content-md5''}"
    by code_simp+
  then show ?thesis using response_headers [OF wf, of "[(''X-Id'', [''0''])]" "''ok''" 200]
    by (simp add: Let_def sample_response_def)
qed


lemma attempts_unfold: "attempts = 1 # [2..<4]"
  by (simp add: attempts_def maxProxyAttempts_def numeral_eq_Suc)

lemma stamped_log_simps [simp]:
  "l_RequestedModel (stamp_key ka (new_log env r model st)) = model"
  "l_PromptTokens (stamp_key ka (new_log env r model st)) = None"
  "l_CompletionTokens (stamp_key ka (new_log env r model st)) = None"
  by (simp_all add: stamp_key_def new_log_def zero_RequestLog_def split: option.split)

lemma answered_log_fields [simp]:
  "l_ProviderID (answered_log lg route status st now) = p_ID (rr_Provider route)"
  "l_ResolvedModel (answered_log lg route status st now) = rr_ModelID route"
  "l_RequestedModel (answered_log lg route status st now) = l_RequestedModel lg"
  "l_PromptTokens (answered_log lg route status st now) = l_PromptTokens lg"
  "l_CompletionTokens (answered_log lg route status st now) = l_CompletionTokens lg"
  by (simp_all add: answered_log_def)

lemma applyUsageToLog_fields [simp]:
  "l_ProviderID (applyUsageToLog lg u) = l_ProviderID lg" "l_ResolvedModel (applyUsageToLog lg u) = l_ResolvedModel lg"
  "l_RequestedModel (applyUsageToLog lg u) = l_RequestedModel lg"
  by (simp_all add: applyUsageToLog_def Let_def split: option.split)

lemma applyUsageToLog_tokens:
  "case u of
     Some (Some us) \<Rightarrow> l_PromptTokens (applyUsageToLog lg u) = Some (uf_PromptTokens us) \<and>
       l_CompletionTokens (applyUsageToLog lg u) = Some (uf_CompletionTokens us)
   | _ \<Rightarrow> l_PromptTokens (applyUsageToLog lg u) = l_PromptTokens lg \<and> l_CompletionTokens (applyUsageToLog lg u) = l_CompletionTokens lg"
  by (simp add: applyUsageToLog_def Let_def split: option.split)

lemma tracked_eq:
  "hs_trace (tracked env r model path body s) =
     (if pe_active env
      then hs_trace (body (emit (Tracked (TBegin (pe_trackID env) (pe_begin env, model, path, clientIP r))) s)) @
           (if pe_trackID env = '''' then [] else [Tracked (TEnd (pe_trackID env))])
      else hs_trace (body s))"
  "hs_router (tracked env r model path body s) =
     hs_router (body (if pe_active env then emit (Tracked (TBegin (pe_trackID env) (pe_begin env, model, path, clientIP r))) s else s))"
  by (simp_all add: tracked_def beginTracking_def Let_def)

lemma non_streaming_run_success:
  assumes "ri_Route rt (hs_router s) (pe_route env 1) model path = (Inr route, router')"
    and "pe_newRequest env (rr_TargetURL route) = None"
    and "pe_do env 1 (upstream_request r body model route) = Inr resp" and "bk_ReadErr resp = None" and "is_2xx (bk_StatusCode resp)"
    and "out = (if rr_RequestedViaAlias route then rewriteResponseModelForClient (bk_Body resp) model else bk_Body resp)"
  shows "non_streaming_run rt env r body model path False st s =
    non_streaming_answer rt env body False st (stamp_key (pe_keyAuth env) (new_log env r model st)) 1 route resp out
      (emit (Sent 1 route (upstream_request r body model route)) (s\<lparr>hs_router := router'\<rparr>))"
proof -
  have low: "\<not> 500 \<le> bk_StatusCode resp" using assms(5) by (simp add: is_2xx_def)
  show ?thesis using assms low
    by (simp add: non_streaming_run_def attempts_unfold non_streaming_attempt_def Let_def del: upt_rec_numeral)
qed

text \<open>
  A successful first attempt. If the router gives a route and the backend answers it with
  2xx, the client gets that status and the backend's body (with its own model name put back if
  it asked by an alias), the success is reported, and the log names the provider, the
  resolved model and the usage the backend counted.
\<close>
theorem first_success:
  assumes "ri_Route rt router (pe_route env 1) model path = (Inr route, router')"
    and "pe_newRequest env (rr_TargetURL route) = None"
    and "pe_do env 1 (upstream_request r body model route) = Inr resp" and "bk_ReadErr resp = None" and "is_2xx (bk_StatusCode resp)"
    and "out = (if rr_RequestedViaAlias route then rewriteResponseModelForClient (bk_Body resp) model else bk_Body resp)"
  shows "let s = proxyNonStreaming rt env r body model path False st (fresh router); pid = p_ID (rr_Provider route)
    in \<exists>l. hs_router s = ri_ReportSuccess rt router' (pe_report env 1) pid \<and>
       hs_trace s = framed env r model path [Sent 1 route (upstream_request r body model route), ReportedSuccess pid,
         Responded (copyResponseHeadersAndWrite (pe_header env) resp out (bk_StatusCode resp)), Recorded l] \<and>
       l_StatusCode l = bk_StatusCode resp \<and> l_ProviderID l = pid \<and> l_RequestedModel l = model \<and>
       l_ResolvedModel l = rr_ModelID route \<and>
       (case parseUsageFromBody out of
          Some (Some u) \<Rightarrow> l_PromptTokens l = Some (uf_PromptTokens u) \<and> l_CompletionTokens l = Some (uf_CompletionTokens u)
        | _ \<Rightarrow> l_PromptTokens l = None \<and> l_CompletionTokens l = None)"
proof -
  let ?lg = "answered_log (stamp_key (pe_keyAuth env) (new_log env r model st)) route (bk_StatusCode resp) st (pe_now env 1)"
  let ?l2 = "?lg\<lparr>l_RequestBody := truncateBodyWithConfig body (getConfigInt (pe_config env) ''request_body_max_bytes'' DefaultRequestBodyMaxBytes)\<rparr>"
  let ?l = "(applyUsageToLog ?l2 (parseUsageFromBody out))\<lparr>l_ResponseBody :=
      truncateBodyWithConfig out (getConfigInt (pe_config env) ''response_body_max_bytes'' DefaultResponseBodyMaxBytes)\<rparr>"
  have run: "non_streaming_run rt env r body model path False st s =
      emit (Recorded ?l) (emit (Responded (copyResponseHeadersAndWrite (pe_header env) resp out (bk_StatusCode resp)))
        (report_success rt (pe_report env 1) (p_ID (rr_Provider route))
          (emit (Sent 1 route (upstream_request r body model route)) (s\<lparr>hs_router := router'\<rparr>))))"
    if "hs_router s = router" for s
    using non_streaming_run_success [OF _ assms(2-6), of rt s path router' st] assms(1,5) that
    by (simp add: non_streaming_answer_def Let_def)
  show ?thesis
    unfolding Let_def proxyNonStreaming_def
    by (rule exI [of _ ?l]) (use applyUsageToLog_tokens [where u = "parseUsageFromBody out" and lg = ?l2] in \<open>simp add: tracked_eq run framed_def split: option.splits\<close>)
qed

text \<open>A router with one route, and a backend that gives one answer.\<close>

definition const_router :: "RouteResult \<Rightarrow> (unit, unit) Router" where
  "const_router route = \<lparr>ri_Route = (\<lambda>r e m p. (Inr route, r)), ri_ReportSuccess = (\<lambda>r e pid. r), ri_ReportFailure = (\<lambda>r e pid. r)\<rparr>"

definition sample_route_result :: RouteResult where
  "sample_route_result = \<lparr>rr_Provider = hd (rd_Providers sample_data), rr_ModelID = ''llama'',
     rr_TargetURL = ''http://a/v1/embeddings'', rr_RequestedViaAlias = True\<rparr>"

definition sample_proxy_env :: "unit proxy_env" where
  "sample_proxy_env = \<lparr>pe_logID = ''l1'', pe_trackID = ''t1'', pe_active = True, pe_begin = 0, pe_now = (\<lambda>_. 5),
     pe_newRequest = (\<lambda>_. None), pe_jsonErr = (\<lambda>_. ''bad''), pe_do = (\<lambda>_ _. Inr sample_response), pe_route = (\<lambda>_. ()),
     pe_report = (\<lambda>_. ()), pe_config = Map.empty, pe_header = [], pe_keyAuth = None, pe_flusher = True,
     pe_writeErr = (\<lambda>_. None), pe_lineClock = (\<lambda>_. 0)\<rparr>"

definition sample_request :: http_request where
  "sample_request = \<lparr>rq_Method = ''POST'', rq_Path = ''/v1/embeddings'', rq_Header = [(''Authorization'', [''Bearer k''])],
     rq_RemoteAddr = ''10.0.0.1:99'', rq_ContentLength = 15, rq_Body = Some ''{\"model\":\"gpt\"}''\<rparr>"

theorem first_success_witness:
  "let s = proxyNonStreaming (const_router sample_route_result) sample_proxy_env sample_request ''{\"model\":\"gpt\"}'' ''gpt'' ''/v1/embeddings'' False 0 (fresh ())
   in successes (hs_trace s) = [''p1''] \<and> map rs_Body (responses (hs_trace s)) = [rewriteResponseModelForClient ''{\"model\":\"llama\"}'' ''gpt'']"
proof -
  let ?rt = "const_router sample_route_result"
  let ?s = "proxyNonStreaming ?rt sample_proxy_env sample_request ''{\"model\":\"gpt\"}'' ''gpt'' ''/v1/embeddings'' False 0 (fresh ())"
  have "ri_Route ?rt () (pe_route sample_proxy_env 1) ''gpt'' ''/v1/embeddings'' = (Inr sample_route_result, ())"
    "pe_newRequest sample_proxy_env (rr_TargetURL sample_route_result) = None"
    "pe_do sample_proxy_env 1 (upstream_request sample_request ''{\"model\":\"gpt\"}'' ''gpt'' sample_route_result) = Inr sample_response"
    "bk_ReadErr sample_response = None" "is_2xx (bk_StatusCode sample_response)"
    by (simp_all add: const_router_def sample_proxy_env_def sample_response_def is_2xx_def)
  from first_success [OF this refl, of 0] show ?thesis
    by (auto simp: Let_def sample_route_result_def sample_data_def sample_response_def)
qed

text \<open>
  Transcriptions are not resolved. The transcription handler follows the same failover
  discipline, but every request it sends, whatever model the route resolved to, carries the
  form the client sent: a client that asks by an alias makes the backend see the alias.
\<close>
theorem transcription_keeps_model:
  assumes "extractModelFromMultipart (Inr f) = Inr model" and "form_parts esc f = Some parts"
  shows "let s = HandleAudioTranscriptions rt env esc bd (Inr f) r st (fresh router); xs = sends (hs_trace s)
    in length xs \<le> 3 \<and> list_all (\<lambda>(a, route, rq). bq_Body rq = write_form bd parts) xs \<and>
       list_all (\<lambda>(a, route, rq). verdict_of env a rq = Some False) (butlast xs)"
proof -
  obtain tr where "hs_trace (HandleAudioTranscriptions rt env esc bd (Inr f) r st (fresh router)) = tr"
    and ok: "failover_ok (verdict_of env) (transcription_request r (write_form bd parts) bd) attempts tr"
    using transcription_trace [OF _ assms, of "fresh router" rt env bd r st] by auto
  then show ?thesis using failover_ok_length [OF ok]
    by (auto simp: Let_def failover_ok_def list_all_iff transcription_request_def)
qed

definition sample_form :: multipart_form where
  "sample_form = \<lparr>mf_Query = [], mf_Value = [(''model'', [''gpt''])], mf_File = [(''file'', [(''a.wav'', Some ''RIFF'')])]\<rparr>"

text \<open>An environment whose client goes away while the backend works.\<close>

definition gone_env :: "unit proxy_env" where
  "gone_env = sample_proxy_env\<lparr>pe_do := (\<lambda>_ _. Inl (True, ''context canceled''))\<rparr>"

theorem transcription_keeps_model_witness:
  "map (\<lambda>(a, route, rq). (rr_ModelID route, bq_Body rq = write_form ''b'' (the (form_parts id sample_form))))
     (sends (hs_trace (HandleAudioTranscriptions (const_router sample_route_result) gone_env id ''b'' (Inr sample_form) sample_request 0 (fresh ())))) =
   [(''llama'', True)]"
proof -
  let ?xs = "sends (hs_trace (HandleAudioTranscriptions (const_router sample_route_result) gone_env id ''b'' (Inr sample_form) sample_request 0 (fresh ())))"
  have parts: "extractModelFromMultipart (Inr sample_form) = Inr ''gpt''" "form_parts id sample_form = Some (the (form_parts id sample_form))"
    by code_simp+
  have "map (\<lambda>(a, route, rq). rr_ModelID route) ?xs = [''llama'']" by code_simp
  then obtain a route rq where "?xs = [(a, route, rq)]" "rr_ModelID route = ''llama''" by auto
  with transcription_keeps_model [OF parts, of "const_router sample_route_result" gone_env "''b''" sample_request 0 "()"]
  show ?thesis by (simp add: Let_def)
qed

end
