(* ===== verification/Proxy_Streaming.thy ===== *)
theory Proxy_Streaming
  imports Proxy_Handler
begin

text \<open>
  The streaming half of \<open>internal/proxy/handler.go\<close>: \<open>handleStreamingRequest\<close> tries up to
  three backends until one answers below 500, and then copies its stream; once it has begun
  there is no failover. With it come the two completion handlers, which choose between the
  streaming and the non-streaming path, and the model list.
\<close>

section \<open>A streaming request\<close>

definition streaming_request :: "http_request \<Rightarrow> string \<Rightarrow> string \<Rightarrow> RouteResult \<Rightarrow> backend_request" where
  "streaming_request r modifiedBody model route =
     (let streamBody = upstream_body modifiedBody model (rr_ModelID route);
          accept = hdr_get (rq_Header r) ''Accept'';
          h1 = hdr_set ''Content-Type'' ''application/json'' [];
          h2 = (if accept \<noteq> '''' then hdr_set ''Accept'' accept h1 else hdr_set ''Accept'' ''text/event-stream'' h1);
          h3 = forward_openai (rq_Header r) h2
      in \<lparr>bq_Method = ''POST'', bq_URL = rr_TargetURL route, bq_Header = setBackendAuth h3 r (rr_Provider route),
          bq_Body = streamBody\<rparr>)"

text \<open>One attempt to find a backend; the break carries the attempt, the route and the open response.\<close>

definition streaming_attempt ::
  "('r, 'e) Router \<Rightarrow> 'e proxy_env \<Rightarrow> http_request \<Rightarrow> string \<Rightarrow> string \<Rightarrow> string \<Rightarrow> time \<Rightarrow> RequestLog \<Rightarrow>
   nat \<Rightarrow> 'r hstate \<Rightarrow> ('r hstate, nat \<times> RouteResult \<times> backend_response) flow" where
  "streaming_attempt rt env r modifiedBody model endpointPath startTime lg attempt s =
     (let (res, router') = ri_Route rt (hs_router s) (pe_route env attempt) model endpointPath;
          s1 = s\<lparr>hs_router := router'\<rparr>;
          now = pe_now env attempt;
          w = pe_header env
      in case res of
        Inl IntnPanic \<Rightarrow> Return (s1\<lparr>hs_panic := True\<rparr>)
      | Inl err \<Rightarrow>
          (if attempt = maxProxyAttempts
           then Return (give_up w lg startTime now 503 (''no available provider: '' @ route_error_text err)
                          (''no available provider: '' @ route_error_text err) s1)
           else Continue s1)
      | Inr route \<Rightarrow>
          (let req = streaming_request r modifiedBody model route; pid = p_ID (rr_Provider route)
           in case pe_newRequest env (rr_TargetURL route) of
             Some msg \<Rightarrow>
               (if attempt = maxProxyAttempts
                then Return (give_up w lg startTime now 500 (''building backend request: '' @ msg) ''internal error building request'' s1)
                else Continue s1)
           | None \<Rightarrow>
               (let s2 = emit (Sent attempt route req) s1
                in case pe_do env attempt req of
                  Inl err \<Rightarrow>
                    (if isClientCanceled (Some err) then Return (client_gone lg startTime now s2)
                     else
                       (let s3 = report_failure rt (pe_report env attempt) pid s2
                        in if attempt < maxProxyAttempts then Continue s3
                           else Return (give_up w lg startTime now 502 (''backend request failed: '' @ snd err) ''backend request failed'' s3)))
                | Inr resp \<Rightarrow>
                    (if bk_StatusCode resp \<ge> 500 then
                       (let s3 = report_failure rt (pe_report env attempt) pid s2
                        in if attempt < maxProxyAttempts then Continue s3
                           else Return (emit (Responded (respondError w 503 ''backend error''))
                                  (emit (Recorded (lg\<lparr>l_StatusCode := 503, l_ProviderID := pid, l_ProviderName := p_Name (rr_Provider route),
                                      l_TotalTimeMs := milliseconds (time_sub now startTime)\<rparr>)) s3)))
                     else Break s2 (attempt, route, resp)))))"

text \<open>The headers of a stream, and what of it reaches the client.\<close>

definition stream_headers :: "header \<Rightarrow> header" where
  "stream_headers w =
     hdr_set ''X-Accel-Buffering'' ''no'' (hdr_set ''Connection'' ''keep-alive''
       (hdr_set ''Cache-Control'' ''no-cache'' (hdr_set ''Content-Type'' ''text/event-stream'' w)))"

definition apply_stream_usage :: "UsageInfo option \<Rightarrow> RequestLog \<Rightarrow> RequestLog" where
  "apply_stream_usage usage lg =
     (case usage of
        None \<Rightarrow> lg
      | Some u \<Rightarrow>
          (let l1 = lg\<lparr>l_PromptTokens := Some (ui_PromptTokens u), l_CompletionTokens := Some (ui_CompletionTokens u),
                        l_TotalTokens := Some (ui_TotalTokens u)\<rparr>
           in if ui_CachedTokensReported u then l1\<lparr>l_CachedTokens := Some (ui_CachedTokens u)\<rparr> else l1))"

definition stream_env_of :: "'e proxy_env \<Rightarrow> backend_response \<Rightarrow> stream_env" where
  "stream_env_of env resp =
     \<lparr>se_flusher = pe_flusher env, se_body = bk_Body resp, se_readErr = bk_ReadErr resp, se_writeErr = pe_writeErr env,
      se_clock = pe_lineClock env\<rparr>"

text \<open>The answer: the stream is copied, the outcome reported, and the log completed and handed over.\<close>

definition stream_answer ::
  "('r, 'e) Router \<Rightarrow> 'e proxy_env \<Rightarrow> string \<Rightarrow> time \<Rightarrow> RequestLog \<Rightarrow> nat \<times> RouteResult \<times> backend_response \<Rightarrow> 'r hstate \<Rightarrow> 'r hstate" where
  "stream_answer rt env model startTime lg found s =
     (let (attempt, route, resp) = found;
          pid = p_ID (rr_Provider route);
          logConfig = pe_config env;
          res = proxyStreaming (stream_env_of env resp) startTime logConfig model (rr_RequestedViaAlias route);
          s1 = emit (Responded \<lparr>rs_Status = 200, rs_Header = stream_headers (pe_header env), rs_Body = concat (sr_written res)\<rparr>) s;
          l1 = lg\<lparr>l_ProviderID := pid, l_ProviderName := p_Name (rr_Provider route), l_ResolvedModel := rr_ModelID route,
                  l_TTFTMs := sr_ttftMs res, l_TotalTimeMs := milliseconds (time_sub (pe_now env (Suc maxProxyAttempts)) startTime)\<rparr>;
          (s2, l2) =
            (case sr_err res of
               Some err \<Rightarrow>
                 (if isClientCanceled (Some err) then s1 else report_failure rt (pe_report env attempt) pid s1,
                  l1\<lparr>l_StatusCode := 200, l_ErrorMessage := ''stream error: '' @ snd err\<rparr>)
             | None \<Rightarrow> (report_success rt (pe_report env attempt) pid s1, l1\<lparr>l_StatusCode := bk_StatusCode resp\<rparr>));
          l3 = apply_stream_usage (sr_usage res) l2;
          respMax = getConfigInt logConfig ''response_body_max_bytes'' DefaultResponseBodyMaxBytes;
          l4 = (if sr_reconstructedBody res \<noteq> '''' then l3\<lparr>l_ResponseBody := truncateBodyWithConfig (sr_reconstructedBody res) respMax\<rparr>
                else l3);
          chunks = map (\<lambda>ch. \<lparr>sc_Raw = sb_raw ch, sc_Delta = sb_delta ch\<rparr>) (sr_chunks res)
      in if length (sr_chunks res) > 0 then emit (RecordedStreaming l4 chunks (sr_chunksPrefixDropped res)) s2
         else emit (Recorded l4) s2)"

definition streaming_run ::
  "('r, 'e) Router \<Rightarrow> 'e proxy_env \<Rightarrow> http_request \<Rightarrow> string \<Rightarrow> string \<Rightarrow> string \<Rightarrow> time \<Rightarrow> 'r hstate \<Rightarrow> 'r hstate" where
  "streaming_run rt env r body model endpointPath startTime s =
     (case injectStreamOptions body of
        Panic \<Rightarrow> s\<lparr>hs_panic := True\<rparr>
      | Err \<Rightarrow> bad_request env 400 (''failed to inject stream options: '' @ pe_jsonErr env body) s
      | Ok modifiedBody \<Rightarrow>
          (let reqMax = getConfigInt (pe_config env) ''request_body_max_bytes'' DefaultRequestBodyMaxBytes;
               lg = stamp_key (pe_keyAuth env)
                      ((new_log env r model startTime)\<lparr>l_IsStreamed := True, l_RequestBody := truncateBodyWithConfig body reqMax\<rparr>)
           in case for_loop (streaming_attempt rt env r modifiedBody model endpointPath startTime lg) attempts s of
                Return s' \<Rightarrow> s'
              | Continue s' \<Rightarrow>
                  give_up (pe_header env) lg startTime (pe_now env (Suc maxProxyAttempts)) 503
                    ''no backend response available'' ''no backend response available'' s'
              | Break s' found \<Rightarrow> stream_answer rt env model startTime lg found s'))"

definition handleStreamingRequest ::
  "('r, 'e) Router \<Rightarrow> 'e proxy_env \<Rightarrow> http_request \<Rightarrow> string \<Rightarrow> string \<Rightarrow> string \<Rightarrow> time \<Rightarrow> 'r hstate \<Rightarrow> 'r hstate" where
  "handleStreamingRequest rt env r body model endpointPath startTime =
     tracked env r model endpointPath (streaming_run rt env r body model endpointPath startTime)"

section \<open>The completion handlers\<close>

definition HandleChatCompletions :: "('r, 'e) Router \<Rightarrow> 'e proxy_env \<Rightarrow> http_request \<Rightarrow> time \<Rightarrow> 'r hstate \<Rightarrow> 'r hstate" where
  "HandleChatCompletions rt env r startTime =
     with_model env r ''model field is required'' extractModelFromJSON
       (\<lambda>body model. if streamCheck body then handleStreamingRequest rt env r body model ''/v1/chat/completions'' startTime
                     else proxyNonStreaming rt env r body model ''/v1/chat/completions'' False startTime)"

definition HandleCompletions :: "('r, 'e) Router \<Rightarrow> 'e proxy_env \<Rightarrow> http_request \<Rightarrow> time \<Rightarrow> 'r hstate \<Rightarrow> 'r hstate" where
  "HandleCompletions rt env r startTime =
     with_model env r ''model field is required'' extractModelFromJSON
       (\<lambda>body model. if streamCheck body then handleStreamingRequest rt env r body model ''/v1/completions'' startTime
                     else proxyNonStreaming rt env r body model ''/v1/completions'' False startTime)"

section \<open>The contract of the streaming loop\<close>

definition stream_verdict :: "'e proxy_env \<Rightarrow> nat \<Rightarrow> backend_request \<Rightarrow> bool option" where
  "stream_verdict env attempt req =
     (case pe_do env attempt req of
        Inl err \<Rightarrow> if isClientCanceled (Some err) then None else Some False
      | Inr resp \<Rightarrow> if bk_StatusCode resp \<ge> 500 then Some False else None)"

lemma streaming_attempt_law:
  assumes "\<not> hs_panic s"
  shows "attempt_law (stream_verdict env) (streaming_request r mbody model) same_status a s
    (streaming_attempt rt env r mbody model path st lg a s)"
proof (cases "ri_Route rt (hs_router s) (pe_route env a) model path")
  case (Pair rres router')
  note defs = streaming_attempt_def Let_def retried_def sent_once_def concluded_def same_status_def
    reports_of_def provider_of_def stream_verdict_def
  show ?thesis
  proof (cases rres)
    case (Inl e)
    then show ?thesis using assms Pair by (cases e) (auto simp: defs)
  next
    case (Inr route)
    show ?thesis
    proof (cases "pe_newRequest env (rr_TargetURL route)")
      case None
      then show ?thesis using assms Pair Inr
        by (cases "pe_do env a (streaming_request r mbody model route)") (auto simp: defs)
    qed (use assms Pair Inr in \<open>auto simp: defs\<close>)
  qed
qed

interpretation st: attempt_body "streaming_attempt rt env r mbody model path start lg"
  "stream_verdict env" "streaming_request r mbody model" same_status
  for rt env r mbody model path start lg
  by unfold_locales (rule streaming_attempt_law)

text \<open>A break happens only with a response below 500 to the request just sent.\<close>

lemma streaming_attempt_break:
  assumes "streaming_attempt rt env r mbody model path start lg a s = Break s' found"
  shows "\<exists>route resp. found = (a, route, resp) \<and> pe_do env a (streaming_request r mbody model route) = Inr resp \<and>
    bk_StatusCode resp < 500 \<and> hs_trace s' = hs_trace s @ [Sent a route (streaming_request r mbody model route)]"
  using assms
  by (auto simp: streaming_attempt_def Let_def split: prod.splits sum.splits route_error.splits option.splits if_splits)

lemma streaming_loop_break:
  assumes "for_loop (streaming_attempt rt env r mbody model path start lg) as s = Break s' found"
  shows "\<exists>a route resp. found = (a, route, resp) \<and> a \<in> set as \<and> pe_do env a (streaming_request r mbody model route) = Inr resp \<and>
    bk_StatusCode resp < 500 \<and> (\<exists>pre. hs_trace s' = pre @ [Sent a route (streaming_request r mbody model route)])"
  using assms
proof (induction as arbitrary: s)
  case (Cons a as)
  show ?case
  proof (cases "streaming_attempt rt env r mbody model path start lg a s")
    case (Continue s1)
    with Cons.prems have "for_loop (streaming_attempt rt env r mbody model path start lg) as s1 = Break s' found" by simp
    from Cons.IH [OF this] show ?thesis by auto
  next
    case (Break s1 f)
    with Cons.prems streaming_attempt_break [OF Break] show ?thesis by auto
  qed (use Cons.prems in simp)
qed simp

section \<open>The whole request\<close>

text \<open>What the answer adds to the trace: a response, at most one report, one log.\<close>

lemma stream_answer_trace:
  assumes "found = (a, route, resp)"
    and "res = proxyStreaming (stream_env_of env resp) start (pe_config env) model (rr_RequestedViaAlias route)"
  shows "\<exists>evs. hs_trace (stream_answer rt env model start lg found s) = hs_trace s @ evs \<and>
    hs_panic (stream_answer rt env model start lg found s) = hs_panic s \<and> sends evs = [] \<and> tracking evs = [] \<and>
    responses evs = [\<lparr>rs_Status = 200, rs_Header = stream_headers (pe_header env), rs_Body = concat (sr_written res)\<rparr>] \<and>
    (case sr_err res of
       None \<Rightarrow> successes evs = [p_ID (rr_Provider route)] \<and> failures evs = []
     | Some err \<Rightarrow> successes evs = [] \<and> failures evs = (if isClientCanceled (Some err) then [] else [p_ID (rr_Provider route)])) \<and>
    (\<exists>l. logs evs = [l] \<and> l_StatusCode l = (if sr_err res = None then bk_StatusCode resp else 200) \<and>
       l_ProviderID l = p_ID (rr_Provider route) \<and> l_ResolvedModel l = rr_ModelID route \<and>
       l_PromptTokens l = (case sr_usage res of None \<Rightarrow> l_PromptTokens lg | Some u \<Rightarrow> Some (ui_PromptTokens u)))"
  using assms
  by (auto simp: stream_answer_def Let_def apply_stream_usage_def split: option.split if_split)

lemma streaming_run_trace:
  assumes "\<not> hs_panic s"
  shows "\<exists>tr. hs_trace (streaming_run rt env r body model path start s) = hs_trace s @ tr \<and>
    (case injectStreamOptions body of
       Ok mbody \<Rightarrow>
         subseq (map fst (sends tr)) attempts \<and>
         list_all (\<lambda>(a, route, rq). rq = streaming_request r mbody model route) (sends tr) \<and>
         list_all (\<lambda>(a, route, rq). stream_verdict env a rq = Some False) (butlast (sends tr)) \<and>
         (failures tr = map provider_of (sends tr) \<and> successes tr = [] \<or>
          failures tr = map provider_of (butlast (sends tr)) \<and> (successes tr = [] \<or> successes tr = [provider_of (last (sends tr))])) \<and>
         (if hs_panic (streaming_run rt env r body model path start s) then logs tr = [] \<and> responses tr = []
          else \<exists>l. logs tr = [l] \<and> (responses tr = [] \<and> l_StatusCode l = 499 \<or> (\<exists>resp. responses tr = [resp])))
     | Err \<Rightarrow> \<not> hs_panic (streaming_run rt env r body model path start s) \<and> tr = [Responded (respondError (pe_header env) 400
         (''failed to inject stream options: '' @ pe_jsonErr env body))]
     | Panic \<Rightarrow> hs_panic (streaming_run rt env r body model path start s) \<and> tr = [])"
  (is "\<exists>tr. ?T tr")
proof (cases "injectStreamOptions body")
  case (Ok mbody)
  define lg where "lg = stamp_key (pe_keyAuth env) ((new_log env r model start)\<lparr>l_IsStreamed := True,
      l_RequestBody := truncateBodyWithConfig body (getConfigInt (pe_config env) ''request_body_max_bytes'' DefaultRequestBodyMaxBytes)\<rparr>)"
  let ?body = "streaming_attempt rt env r mbody model path start lg"
  show ?thesis
  proof (cases "for_loop ?body attempts s")
    case (Continue s')
    then show ?thesis using st.loop_continue [OF Continue assms] last_attempt by blast
  next
    case (Return s')
    then have run: "streaming_run rt env r body model path start s = s'" by (simp add: streaming_run_def Ok Let_def lg_def)
    from st.return_summary [OF Return assms] obtain tr where tr: "hs_trace s' = hs_trace s @ tr"
      and ok: "failover_ok (stream_verdict env) (streaming_request r mbody model) attempts tr"
      and fin: "if hs_panic s' then logs tr = [] \<and> responses tr = [] else concluded same_status tr" by blast
    have neg: "stream_verdict env a rq \<noteq> Some True" for a rq by (simp add: stream_verdict_def split: sum.split)
    have "failures tr = map provider_of (sends tr) \<or> failures tr = map provider_of (butlast (sends tr))"
      using ok filter_butlast_or_all [of "sends tr" "\<lambda>(a, _, rq). stream_verdict env a rq = Some False" provider_of]
      unfolding failover_ok_def reports_of_def by metis
    then have "?T tr" using tr ok fin by (auto simp: run Ok failover_ok_def reports_of_def neg list_all_iff concluded_def)
    then show ?thesis by blast
  next
    case (Break s' found)
    obtain a route resp where found: "found = (a, route, resp)" using prod_cases3 by blast
    from st.loop_break [OF Break assms] obtain as1 b as2 evs rt' where pan: "\<not> hs_panic s'" and as: "attempts = as1 @ b # as2"
      and tr1: "hs_trace s' = hs_trace s @ evs @ [Sent b rt' (streaming_request r mbody model rt')]"
      and before: "failed_before (stream_verdict env) (streaming_request r mbody model) as1 evs" by blast
    from streaming_loop_break [OF Break] found have "b = a" "rt' = route" using tr1 by auto
    obtain ev where ev: "hs_trace (stream_answer rt env model start lg found s') = hs_trace s' @ ev"
      "hs_panic (stream_answer rt env model start lg found s') = hs_panic s'" "sends ev = []" 
      "(\<exists>l. logs ev = [l]) \<and> (\<exists>x. responses ev = [x])"
      "successes ev = [p_ID (rr_Provider route)] \<and> failures ev = [] \<or> successes ev = [] \<and> (failures ev = [] \<or> failures ev = [p_ID (rr_Provider route)])"
      using stream_answer_trace [OF found refl, where rt = rt and env = env and start = start and model = model and lg = lg and s = s'] by (auto split: option.splits if_splits)
    have run: "streaming_run rt env r body model path start s = stream_answer rt env model start lg found s'"
      using Break by (simp add: streaming_run_def Ok Let_def lg_def)
    let ?tr = "evs @ [Sent a route (streaming_request r mbody model route)] @ ev"
    have "subseq (map fst (sends evs) @ [a]) (as1 @ a # as2)"
      using before unfolding failed_before_def by (intro list_emb_append_mono) auto
    then have "?T ?tr"
      using before ev pan tr1 as \<open>b = a\<close> \<open>rt' = route\<close>
      by (auto simp: run Ok failed_before_def list_all_iff provider_of_def butlast_append)
    then show ?thesis by blast
  qed
qed (auto simp: streaming_run_def bad_request_def assms)


section \<open>The model list\<close>

record modelAttr =
  at_ContextWindow :: int
  at_MaxTokens :: int
  at_MaxPromptTokens :: int
  at_MaxCompletionTokens :: int

record modelObject =
  mo_ID :: string
  mo_Object :: string
  mo_Created :: int
  mo_OwnedBy :: string
  mo_Attr :: "modelAttr option"

text \<open>Each look-up loads the snapshot of its own: one for the list, two per model.\<close>

definition listModelObjects :: "routingSnapshot \<Rightarrow> (string \<Rightarrow> routingSnapshot \<times> routingSnapshot) \<Rightarrow> modelObject list" where
  "listModelObjects snap snaps =
     map (\<lambda>ident.
       \<lparr>mo_ID = ident, mo_Object = ''model'', mo_Created = 0, mo_OwnedBy = ''llmate'',
        mo_Attr = (case ProviderModelForModelID (fst (snaps ident)) (snd (snaps ident)) ident of
                     None \<Rightarrow> None
                   | Some pm \<Rightarrow> map_option (\<lambda>c. \<lparr>at_ContextWindow = c, at_MaxTokens = c, at_MaxPromptTokens = c, at_MaxCompletionTokens = c\<rparr>)
                                  (m_MaxContext pm))\<rparr>)
       (PublicModelIDs snap)"

definition num_json :: "int \<Rightarrow> json" where
  "num_json i = JNum (Itoa i)"

definition model_json :: "modelObject \<Rightarrow> json" where
  "model_json m =
     JObj ([(''id'', JStr (quote (mo_ID m))), (''object'', JStr (quote (mo_Object m))), (''created'', num_json (mo_Created m)),
            (''owned_by'', JStr (quote (mo_OwnedBy m)))] @
       (case mo_Attr m of None \<Rightarrow> []
        | Some a \<Rightarrow> [(''attr'', JObj [(''context_window'', num_json (at_ContextWindow a)), (''max_tokens'', num_json (at_MaxTokens a)),
                       (''max_prompt_tokens'', num_json (at_MaxPromptTokens a)),
                       (''max_completion_tokens'', num_json (at_MaxCompletionTokens a))])]))"

definition HandleListModels :: "header \<Rightarrow> routingSnapshot \<Rightarrow> (string \<Rightarrow> routingSnapshot \<times> routingSnapshot) \<Rightarrow> http_response" where
  "HandleListModels w snap snaps =
     respondJSON w 200 (JObj [(''data'', JArr (map model_json (listModelObjects snap snaps))), (''object'', JStr ''list'')])"

text \<open>\<open>url.PathUnescape\<close>: a percent sign must be followed by two hexadecimal digits.\<close>

fun PathUnescape :: "string \<Rightarrow> string option" where
  "PathUnescape [] = Some []"
| "PathUnescape (c # s) =
     (if c = CHR 0x25 then
        (case s of
           a # b # s' \<Rightarrow> (case (hex_val a, hex_val b) of
                            (Some x, Some y) \<Rightarrow> map_option ((#) (char_of (16 * x + y))) (PathUnescape s')
                          | _ \<Rightarrow> None)
         | _ \<Rightarrow> None)
      else map_option ((#) c) (PathUnescape s))"

text \<open>\<open>modelID\<close> is the path parameter the router found, \<open>quoted\<close> the verb \<open>%q\<close> of \<open>fmt\<close>.\<close>

definition HandleGetModel ::
  "header \<Rightarrow> (string \<Rightarrow> string) \<Rightarrow> string \<Rightarrow> routingSnapshot \<Rightarrow> (string \<Rightarrow> routingSnapshot \<times> routingSnapshot) \<Rightarrow> http_response" where
  "HandleGetModel w quoted modelID snap snaps =
     (if modelID = '''' then respondError w 400 ''model parameter required''
      else
        (let decoded = (case PathUnescape modelID of None \<Rightarrow> modelID | Some d \<Rightarrow> d)
         in case find (\<lambda>obj. mo_ID obj = decoded) (listModelObjects snap snaps) of
              Some obj \<Rightarrow> respondJSON w 200 (model_json obj)
            | None \<Rightarrow> respondError w 404 (''model '' @ quoted decoded @ '' not found'')))"


section \<open>Properties\<close>

lemma handleStreaming_trace:
  assumes "\<not> hs_panic s"
  shows "\<exists>tr. hs_trace (handleStreamingRequest rt env r body model path start s) = hs_trace s @ framed env r model path tr \<and>
    (case injectStreamOptions body of
       Ok mbody \<Rightarrow>
         subseq (map fst (sends tr)) attempts \<and>
         list_all (\<lambda>(a, route, rq). rq = streaming_request r mbody model route) (sends tr) \<and>
         list_all (\<lambda>(a, route, rq). stream_verdict env a rq = Some False) (butlast (sends tr)) \<and>
         (failures tr = map provider_of (sends tr) \<and> successes tr = [] \<or>
          failures tr = map provider_of (butlast (sends tr)) \<and> (successes tr = [] \<or> successes tr = [provider_of (last (sends tr))])) \<and>
         (if hs_panic (handleStreamingRequest rt env r body model path start s) then logs tr = [] \<and> responses tr = []
          else \<exists>l. logs tr = [l] \<and> (responses tr = [] \<and> l_StatusCode l = 499 \<or> (\<exists>resp. responses tr = [resp])))
     | Err \<Rightarrow> \<not> hs_panic (handleStreamingRequest rt env r body model path start s) \<and>
         tr = [Responded (respondError (pe_header env) 400 (''failed to inject stream options: '' @ pe_jsonErr env body))]
     | Panic \<Rightarrow> hs_panic (handleStreamingRequest rt env r body model path start s) \<and> tr = [])"
  unfolding handleStreamingRequest_def by (rule tracked_trace [OF streaming_run_trace assms])


text \<open>The first attempt finds a backend that answers below 500.\<close>

lemma streaming_run_first:
  assumes "injectStreamOptions body = Ok mbody"
    and "ri_Route rt (hs_router s) (pe_route env 1) model path = (Inr route, router')"
    and "pe_newRequest env (rr_TargetURL route) = None"
    and "pe_do env 1 (streaming_request r mbody model route) = Inr resp" and "bk_StatusCode resp < 500"
  shows "\<exists>lg. streaming_run rt env r body model path start s =
    stream_answer rt env model start lg (1, route, resp)
      (emit (Sent 1 route (streaming_request r mbody model route)) (s\<lparr>hs_router := router'\<rparr>))"
  using assms
  by (simp add: streaming_run_def attempts_unfold streaming_attempt_def Let_def del: upt_rec_numeral) blast

text \<open>
  The answer to a stream. Whatever status below 500 the backend answers with, also a
  client error, the client gets status 200 and an event stream with the lines copied so far. A stream
  copied without an error is reported as a success of the provider and logged with the
  backend's status; one that breaks is reported as a failure, unless the client cancelled it,
  and logged with status 200.
\<close>
theorem stream_outcome:
  assumes "injectStreamOptions body = Ok mbody" and "ri_Route rt router (pe_route env 1) model path = (Inr route, router')"
    and "pe_newRequest env (rr_TargetURL route) = None"
    and "pe_do env 1 (streaming_request r mbody model route) = Inr resp" and "bk_StatusCode resp < 500"
    and "res = proxyStreaming (stream_env_of env resp) start (pe_config env) model (rr_RequestedViaAlias route)"
  shows "let tr = hs_trace (handleStreamingRequest rt env r body model path start (fresh router)); pid = p_ID (rr_Provider route)
    in responses tr = [\<lparr>rs_Status = 200, rs_Header = stream_headers (pe_header env), rs_Body = concat (sr_written res)\<rparr>] \<and>
       map l_StatusCode (logs tr) = [if sr_err res = None then bk_StatusCode resp else 200] \<and>
       successes tr = (if sr_err res = None then [pid] else []) \<and>
       failures tr = (if sr_err res = None \<or> isClientCanceled (sr_err res) then [] else [pid])"
proof -
  define s0 where "s0 = (if pe_active env then emit (Tracked (TBegin (pe_trackID env) (pe_begin env, model, path, clientIP r))) (fresh router)
    else fresh router)"
  have "hs_router s0 = router" by (simp add: s0_def)
  then obtain lg where run: "streaming_run rt env r body model path start s0 =
      stream_answer rt env model start lg (1, route, resp)
        (emit (Sent 1 route (streaming_request r mbody model route)) (s0\<lparr>hs_router := router'\<rparr>))"
    using streaming_run_first [OF assms(1) _ assms(3-5), of rt s0 path router' start] assms(2) by metis
  obtain evs where evs: "hs_trace (streaming_run rt env r body model path start s0) =
      hs_trace s0 @ [Sent 1 route (streaming_request r mbody model route)] @ evs"
    "responses evs = [\<lparr>rs_Status = 200, rs_Header = stream_headers (pe_header env), rs_Body = concat (sr_written res)\<rparr>]"
    "case sr_err res of
       None \<Rightarrow> successes evs = [p_ID (rr_Provider route)] \<and> failures evs = []
     | Some err \<Rightarrow> successes evs = [] \<and> failures evs = (if isClientCanceled (Some err) then [] else [p_ID (rr_Provider route)])"
    "map l_StatusCode (logs evs) = [if sr_err res = None then bk_StatusCode resp else 200]"
    using stream_answer_trace [OF refl assms(6), where rt = rt and lg = lg and a = 1 and
        s = "emit (Sent 1 route (streaming_request r mbody model route)) (s0\<lparr>hs_router := router'\<rparr>)"]
    unfolding run by auto
  define post where "post = (if pe_active env \<and> pe_trackID env \<noteq> '''' then [Tracked (TEnd (pe_trackID env))] else [])"
  have "hs_trace (handleStreamingRequest rt env r body model path start (fresh router)) =
      hs_trace s0 @ [Sent 1 route (streaming_request r mbody model route)] @ evs @ post"
    using evs(1) by (cases "pe_active env") (simp_all add: handleStreamingRequest_def tracked_eq s0_def post_def)
  moreover have "responses (hs_trace s0) = []" "logs (hs_trace s0) = []" "successes (hs_trace s0) = []" "failures (hs_trace s0) = []"
    "responses post = []" "logs post = []" "successes post = []" "failures post = []"
    by (simp_all add: s0_def post_def)
  ultimately show ?thesis using evs(2-4) by (simp add: Let_def split: option.splits)
qed

text \<open>A backend that refuses the model with status 404 and an empty body.\<close>

definition refusing_env :: "unit proxy_env" where
  "refusing_env = sample_proxy_env\<lparr>pe_do := (\<lambda>_ _. Inr \<lparr>bk_StatusCode = 404, bk_Header = [], bk_Body = [], bk_ReadErr = None\<rparr>)\<rparr>"

lemma inject_empty: "injectStreamOptions ''{}'' = Ok ''{\"stream_options\":{\"include_usage\":true}}''"
  by code_simp

theorem stream_outcome_witness:
  "let tr = hs_trace (handleStreamingRequest (const_router sample_route_result) refusing_env sample_request ''{}'' ''gpt'' ''/v1/chat/completions'' 0 (fresh ()))
   in map rs_Status (responses tr) = [200] \<and> map l_StatusCode (logs tr) = [404] \<and> successes tr = [''p1'']"
proof -
  let ?rt = "const_router sample_route_result" and ?resp = "\<lparr>bk_StatusCode = 404, bk_Header = [], bk_Body = [], bk_ReadErr = None\<rparr>"
  let ?res = "proxyStreaming (stream_env_of refusing_env ?resp) 0 (pe_config refusing_env) ''gpt'' (rr_RequestedViaAlias sample_route_result)"
  have route: "ri_Route ?rt () (pe_route refusing_env 1) ''gpt'' ''/v1/chat/completions'' = (Inr sample_route_result, ())"
    by (simp add: const_router_def)
  have new: "pe_newRequest refusing_env (rr_TargetURL sample_route_result) = None"
    by (simp add: refusing_env_def sample_proxy_env_def)
  have resp: "pe_do refusing_env 1 rq = Inr ?resp" for rq by (simp add: refusing_env_def)
  have ok: "sr_err ?res = None" and pid: "p_ID (rr_Provider sample_route_result) = ''p1''" by code_simp+
  have low: "bk_StatusCode ?resp < 500" by simp
  show ?thesis
    using stream_outcome [OF inject_empty route new resp low refl, of sample_request 0] unfolding Let_def pid by (simp add: ok)
qed


end
