(* ===== verification/Store_Schema.thy ===== *)
theory Store_Schema
  imports Domain_Models "HOL-Library.Product_Lexorder"
begin

text \<open>
  The tables of the database (\<open>internal/db\<close> and its migrations) and the statements that the
  store runs on them. A table is the list of its rows in the order of insertion; a column that
  may be NULL is an option; time columns hold instants (the text the driver writes for UTC
  times sorts as the instants do). A statement yields the number of rows it touched and the new
  tables, or the constraint of the schema that it violates, and then leaves the tables as they
  are. The outcomes of the driver are an argument: a fault says for each call in turn
  whether it fails. Where SQL leaves the order of rows open, a code of a permutation decides.
\<close>

section \<open>Rows\<close>

record providers_row =
  pr_id :: string
  pr_name :: string
  pr_base_url :: string
  pr_api_key :: "string option"
  pr_is_healthy :: bool
  pr_health_checked_at :: "time option"
  pr_created_at :: time
  pr_updated_at :: time
  pr_cb_enabled :: bool
  pr_cb_error_threshold :: float64
  pr_cb_window_seconds :: int
  pr_cb_cooldown_seconds :: int

record request_logs_row =
  lr_id :: string
  lr_timestamp :: time
  lr_client_ip :: string
  lr_method :: string
  lr_path :: string
  lr_requested_model :: "string option"
  lr_resolved_model :: "string option"
  lr_provider_id :: "string option"
  lr_provider_name :: "string option"
  lr_status_code :: int
  lr_is_streamed :: bool
  lr_ttft_ms :: "int option"
  lr_total_time_ms :: int
  lr_prompt_tokens :: "int option"
  lr_completion_tokens :: "int option"
  lr_total_tokens :: "int option"
  lr_cached_tokens :: "int option"
  lr_error_message :: "string option"
  lr_created_at :: time
  lr_estimated_cost_usd :: "float64 option"
  lr_request_body :: "string option"
  lr_response_body :: "string option"
  lr_api_key_id :: "string option"
  lr_api_key_name :: "string option"

text \<open>
  The rows of the other tables have the columns of the struct they are read into; chunks of a
  stream have no column for the cumulative body, which is empty in a row.
\<close>

record db =
  db_providers :: "providers_row list"
  db_endpoints :: "ProviderEndpoint list"
  db_models :: "ProviderModel list"
  db_aliases :: "ModelAlias list"
  db_request_logs :: "request_logs_row list"
  db_streaming_logs :: "StreamingLog list"
  db_api_keys :: "APIKey list"
  db_config :: "(string \<times> string \<times> time) list"

definition empty_db :: db where
  "empty_db = \<lparr>db_providers = [], db_endpoints = [], db_models = [], db_aliases = [], db_request_logs = [],
     db_streaming_logs = [], db_api_keys = [], db_config = []\<rparr>"

section \<open>Errors and faults\<close>

datatype cause =
    Driver string
  | UniqueFailed string
  | ForeignKeyFailed
  | ErrNoRows
  | NoRowsForID string bool  \<comment> \<open>the flag: wraps \<open>sql.ErrNoRows\<close>\<close>
  | Message string

datatype store_error = StoreError (se_context: string) (se_cause: cause)

text \<open>\<open>errors.Is(err, sql.ErrNoRows)\<close>.\<close>

definition is_no_rows :: "store_error \<Rightarrow> bool" where
  "is_no_rows e = (case se_cause e of ErrNoRows \<Rightarrow> True | NoRowsForID i w \<Rightarrow> w | _ \<Rightarrow> False)"

type_synonym fault = "nat \<Rightarrow> string option"
type_synonym stmt = "db \<Rightarrow> cause + nat \<times> db"

definition no_fault :: fault where
  "no_fault i = None"

definition run_stmt :: "fault \<Rightarrow> nat \<Rightarrow> string \<Rightarrow> stmt \<Rightarrow> db \<Rightarrow> (store_error + nat) \<times> db" where
  "run_stmt flt i ctx st d =
     (case flt i of
        Some e \<Rightarrow> (Inl (StoreError ctx (Driver e)), d)
      | None \<Rightarrow> (case st d of Inl c \<Rightarrow> (Inl (StoreError ctx c), d) | Inr (n, d') \<Rightarrow> (Inr n, d')))"

text \<open>One statement whose number of rows does not matter.\<close>

definition exec :: "fault \<Rightarrow> string \<Rightarrow> stmt \<Rightarrow> db \<Rightarrow> (store_error + unit) \<times> db" where
  "exec flt ctx st d = (case run_stmt flt 0 ctx st d of (Inl e, d') \<Rightarrow> (Inl e, d') | (Inr n, d') \<Rightarrow> (Inr (), d'))"

text \<open>One statement that has to touch a row; reading the count may fail after the change was made.\<close>

definition exec_rows :: "fault \<Rightarrow> string \<Rightarrow> cause \<Rightarrow> stmt \<Rightarrow> db \<Rightarrow> (store_error + unit) \<times> db" where
  "exec_rows flt ctx none st d =
     (case run_stmt flt 0 ctx st d of
        (Inl e, d') \<Rightarrow> (Inl e, d')
      | (Inr n, d') \<Rightarrow>
          (case flt 1 of
             Some e \<Rightarrow> (Inl (StoreError (ctx @ '' rows affected'') (Driver e)), d')
           | None \<Rightarrow> if n = 0 then (Inl (StoreError ctx none), d') else (Inr (), d')))"

definition exec_count :: "fault \<Rightarrow> string \<Rightarrow> stmt \<Rightarrow> db \<Rightarrow> (store_error + nat) \<times> db" where
  "exec_count flt ctx st d =
     (case run_stmt flt 0 ctx st d of
        (Inl e, d') \<Rightarrow> (Inl e, d')
      | (Inr n, d') \<Rightarrow>
          (case flt 1 of Some e \<Rightarrow> (Inl (StoreError (ctx @ '' rows affected'') (Driver e)), d') | None \<Rightarrow> (Inr n, d')))"

text \<open>A transaction: all its statements, or none.\<close>

fun tx_stmts :: "fault \<Rightarrow> nat \<Rightarrow> (string \<times> stmt) list \<Rightarrow> db \<Rightarrow> store_error + db" where
  "tx_stmts flt i [] d = Inr d"
| "tx_stmts flt i ((ctx, st) # sts) d =
     (case run_stmt flt i ctx st d of (Inl e, d') \<Rightarrow> Inl e | (Inr n, d') \<Rightarrow> tx_stmts flt (Suc i) sts d')"

definition transaction :: "fault \<Rightarrow> string \<Rightarrow> (string \<times> stmt) list \<Rightarrow> db \<Rightarrow> (store_error + unit) \<times> db" where
  "transaction flt ctx sts d =
     (case flt 0 of
        Some e \<Rightarrow> (Inl (StoreError (ctx @ '' begin tx'') (Driver e)), d)
      | None \<Rightarrow>
          (case tx_stmts flt 1 sts d of
             Inl e \<Rightarrow> (Inl e, d)
           | Inr d' \<Rightarrow>
               (case flt (Suc (length sts)) of
                  Some e \<Rightarrow> (Inl (StoreError (ctx @ '' commit'') (Driver e)), d)
                | None \<Rightarrow> (Inr (), d'))))"

text \<open>A query, which may fail when it starts, when a row is read and at its end.\<close>

definition query :: "fault \<Rightarrow> nat \<Rightarrow> string \<Rightarrow> 'a \<Rightarrow> store_error + 'a" where
  "query flt i ctx x =
     (case (flt i, flt (i + 1), flt (i + 2)) of
        (Some e, _, _) \<Rightarrow> Inl (StoreError ctx (Driver e))
      | (None, Some e, _) \<Rightarrow> Inl (StoreError (ctx @ '' scan'') (Driver e))
      | (None, None, Some e) \<Rightarrow> Inl (StoreError (ctx @ '' rows'') (Driver e))
      | (None, None, None) \<Rightarrow> Inr x)"

definition query_row :: "fault \<Rightarrow> nat \<Rightarrow> string \<Rightarrow> 'a list \<Rightarrow> store_error + 'a" where
  "query_row flt i ctx rows =
     (case flt i of
        Some e \<Rightarrow> Inl (StoreError ctx (Driver e))
      | None \<Rightarrow> (case rows of [] \<Rightarrow> Inl (StoreError ctx ErrNoRows) | r # _ \<Rightarrow> Inr r))"

definition order_by :: "nat list \<Rightarrow> ('r \<Rightarrow> 'k::linorder) \<Rightarrow> 'r list \<Rightarrow> 'r list" where
  "order_by ks key rows = sort_key key (shuffle ks rows)"

lemma set_order_by [simp]: "set (order_by ks key rows) = set rows"
  by (simp add: order_by_def)

lemma mset_order_by [simp]: "mset (order_by ks key rows) = mset rows"
  by (simp add: order_by_def)

lemma sorted_order_by: "sorted (map key (order_by ks key rows))"
  by (simp add: order_by_def)

lemma length_order_by [simp]: "length (order_by ks key rows) = length rows"
  by (simp add: order_by_def)

section \<open>The constraints of the schema\<close>

definition unique_on :: "('r \<Rightarrow> 'k) \<Rightarrow> 'r list \<Rightarrow> bool" where
  "unique_on key rows \<longleftrightarrow> distinct (map key rows)"

definition provider_ids :: "db \<Rightarrow> string set" where
  "provider_ids d = pr_id ` set (db_providers d)"

definition log_ids :: "db \<Rightarrow> string set" where
  "log_ids d = lr_id ` set (db_request_logs d)"

definition endpoint_key :: "ProviderEndpoint \<Rightarrow> string \<times> string \<times> string" where
  "endpoint_key e = (e_ProviderID e, e_Path e, e_Method e)"

definition model_key :: "ProviderModel \<Rightarrow> string \<times> string" where
  "model_key m = (m_ProviderID m, m_ModelID m)"

definition alias_key :: "ModelAlias \<Rightarrow> string \<times> string \<times> string" where
  "alias_key a = (a_Alias a, a_ProviderID a, a_ModelID a)"

definition cb_row_ok :: "providers_row \<Rightarrow> bool" where
  "cb_row_ok r \<longleftrightarrow> 0 < pr_cb_error_threshold r \<and> pr_cb_error_threshold r \<le> 1 \<and> 0 < pr_cb_window_seconds r \<and> 0 < pr_cb_cooldown_seconds r"

definition refs_ok :: "('r \<Rightarrow> string) \<Rightarrow> string set \<Rightarrow> 'r list \<Rightarrow> bool" where
  "refs_ok ref ids rows \<longleftrightarrow> list_all (\<lambda>r. ref r \<in> ids) rows"

text \<open>
  The primary keys and unique columns, the foreign keys, and what the store adds to them:
  providers have usable breaker settings.
\<close>

definition providers_ok :: "providers_row list \<Rightarrow> bool" where
  "providers_ok rows \<longleftrightarrow> unique_on pr_id rows \<and> unique_on pr_base_url rows \<and> list_all cb_row_ok rows"

definition endpoints_ok :: "string set \<Rightarrow> ProviderEndpoint list \<Rightarrow> bool" where
  "endpoints_ok ids rows \<longleftrightarrow> unique_on e_ID rows \<and> unique_on endpoint_key rows \<and> refs_ok e_ProviderID ids rows"

definition models_ok :: "string set \<Rightarrow> ProviderModel list \<Rightarrow> bool" where
  "models_ok ids rows \<longleftrightarrow> unique_on m_ID rows \<and> unique_on model_key rows \<and> refs_ok m_ProviderID ids rows"

definition aliases_ok :: "string set \<Rightarrow> ModelAlias list \<Rightarrow> bool" where
  "aliases_ok ids rows \<longleftrightarrow> unique_on a_ID rows \<and> unique_on alias_key rows \<and> refs_ok a_ProviderID ids rows"

definition chunks_ok :: "string set \<Rightarrow> StreamingLog list \<Rightarrow> bool" where
  "chunks_ok ids rows \<longleftrightarrow> unique_on s_ID rows \<and> refs_ok s_RequestLogID ids rows"

definition keys_ok :: "APIKey list \<Rightarrow> bool" where
  "keys_ok rows \<longleftrightarrow> unique_on k_ID rows \<and> unique_on k_KeyHash rows"

definition db_ok :: "db \<Rightarrow> bool" where
  "db_ok d \<longleftrightarrow> providers_ok (db_providers d) \<and> endpoints_ok (provider_ids d) (db_endpoints d) \<and>
     models_ok (provider_ids d) (db_models d) \<and> aliases_ok (provider_ids d) (db_aliases d) \<and>
     unique_on lr_id (db_request_logs d) \<and> chunks_ok (log_ids d) (db_streaming_logs d) \<and>
     keys_ok (db_api_keys d) \<and> unique_on fst (db_config d)"

lemma db_ok_empty: "db_ok empty_db"
  by (simp add: db_ok_def empty_db_def providers_ok_def endpoints_ok_def models_ok_def aliases_ok_def chunks_ok_def keys_ok_def unique_on_def refs_ok_def)

section \<open>Keyed tables\<close>

text \<open>What the statements do to a table keeps its keys: appending a row with a fresh key, deleting rows, changing other columns.\<close>

lemma unique_on_Nil [simp]: "unique_on key []"
  by (simp add: unique_on_def)

lemma unique_on_snoc [simp]: "unique_on key (rows @ [r]) \<longleftrightarrow> unique_on key rows \<and> key r \<notin> key ` set rows"
  by (auto simp: unique_on_def)

lemma unique_on_filter [simp, intro]: "unique_on key rows \<Longrightarrow> unique_on key (filter P rows)"
  by (simp add: unique_on_def distinct_map_filter)

lemma unique_on_map: "(\<And>r. r \<in> set rows \<Longrightarrow> key (f r) = key r) \<Longrightarrow> unique_on key (map f rows) \<longleftrightarrow> unique_on key rows"
  by (simp add: unique_on_def comp_def cong: map_cong)

lemma map_key_update: "(\<And>r. key (f r) = key r) \<Longrightarrow> map key (map (\<lambda>r. if P r then f r else r) rows) = map key rows"
  by (induction rows) simp_all

lemma unique_key_update: "(\<And>r. key (f r) = key r) \<Longrightarrow> unique_on key (map (\<lambda>r. if P r then f r else r) rows) \<longleftrightarrow> unique_on key rows"
  by (simp only: unique_on_def map_key_update)

lemma image_key_update: "(\<And>r. key (f r) = key r) \<Longrightarrow> key ` set (map (\<lambda>r. if P r then f r else r) rows) = key ` set rows"
  by (metis map_key_update list.set_map)

text \<open>Changing the key of the one row with a given identifier.\<close>

lemma unique_on_update:
  assumes "unique_on key rows" and "unique_on ident rows"
    and "\<And>r. r \<in> set rows \<Longrightarrow> ident r \<noteq> i \<Longrightarrow> key r \<noteq> k" and "\<And>r. key (f r) = k"
  shows "unique_on key (map (\<lambda>r. if ident r = i then f r else r) rows)"
  using assms
proof (induction rows)
  case (Cons r rows)
  have IH: "unique_on key (map (\<lambda>r. if ident r = i then f r else r) rows)"
    by (rule Cons.IH) (use Cons.prems in \<open>auto simp: unique_on_def\<close>)
  have "key (if ident r = i then f r else r) \<notin> key ` (\<lambda>r. if ident r = i then f r else r) ` set rows"
  proof (cases "ident r = i")
    case True
    then have "\<forall>x \<in> set rows. ident x \<noteq> i" using Cons.prems(2) by (auto simp: unique_on_def image_iff)
    then show ?thesis using True Cons.prems(3,4) by (auto simp: image_iff)
  next
    case False
    then have "key r \<noteq> k" using Cons.prems(3) by simp
    then show ?thesis using False Cons.prems(1,4) by (auto simp: unique_on_def image_iff)
  qed
  then show ?case using IH by (auto simp: unique_on_def image_image)
qed simp

lemma refs_ok_simps [simp]:
  "refs_ok ref ids []" "refs_ok ref ids (r # rows) \<longleftrightarrow> ref r \<in> ids \<and> refs_ok ref ids rows"
  "refs_ok ref ids (rows @ rows') \<longleftrightarrow> refs_ok ref ids rows \<and> refs_ok ref ids rows'"
  by (auto simp: refs_ok_def)

lemma refs_ok_filter [simp, intro]: "refs_ok ref ids rows \<Longrightarrow> refs_ok ref ids (filter P rows)"
  by (auto simp: refs_ok_def list_all_iff)

lemma refs_ok_map: "(\<And>r. r \<in> set rows \<Longrightarrow> ref (f r) \<in> ids \<or> ref (f r) = ref r) \<Longrightarrow> refs_ok ref ids rows \<Longrightarrow> refs_ok ref ids (map f rows)"
  by (auto simp: refs_ok_def list_all_iff) metis

lemma refs_ok_update: "(\<And>r. ref (f r) = ref r) \<Longrightarrow> refs_ok ref ids (map (\<lambda>r. if P r then f r else r) rows) \<longleftrightarrow> refs_ok ref ids rows"
  by (induction rows) simp_all

lemma refs_ok_cascade: "refs_ok ref ids rows \<Longrightarrow> refs_ok ref (ids - {i}) (filter (\<lambda>r. ref r \<noteq> i) rows)"
  by (auto simp: refs_ok_def list_all_iff)

lemma refs_ok_mono: "refs_ok ref ids rows \<Longrightarrow> ids \<subseteq> ids' \<Longrightarrow> refs_ok ref ids' rows"
  by (auto simp: refs_ok_def list_all_iff)

lemma unique_find:
  assumes "unique_on key rows" and "r \<in> set rows"
  shows "filter (\<lambda>x. key x = key r) rows = [r]"
  using assms
proof (induction rows)
  case (Cons x rows)
  show ?case
  proof (cases "x = r")
    case True
    with Cons.prems have "filter (\<lambda>x. key x = key r) rows = []" by (auto simp: unique_on_def filter_empty_conv image_iff)
    with True show ?thesis by simp
  next
    case False
    with Cons show ?thesis by (auto simp: unique_on_def image_iff)
  qed
qed simp

lemma list_all_key_update: "(\<And>r. Q (f r) = Q r) \<Longrightarrow> list_all Q (map (\<lambda>r. if P r then f r else r) rows) \<longleftrightarrow> list_all Q rows"
  by (induction rows) simp_all

lemma providers_ok_update:
  "(\<And>r. pr_id (f r) = pr_id r) \<Longrightarrow> (\<And>r. pr_base_url (f r) = pr_base_url r) \<Longrightarrow> (\<And>r. cb_row_ok (f r) = cb_row_ok r) \<Longrightarrow>
   providers_ok (map (\<lambda>r. if P r then f r else r) rows) \<longleftrightarrow> providers_ok rows"
  by (simp add: providers_ok_def unique_key_update list_all_key_update)

lemma endpoints_ok_update:
  "(\<And>r. e_ID (f r) = e_ID r) \<Longrightarrow> (\<And>r. endpoint_key (f r) = endpoint_key r) \<Longrightarrow>
   endpoints_ok ids (map (\<lambda>r. if P r then f r else r) rows) \<longleftrightarrow> endpoints_ok ids rows"
  by (simp add: endpoints_ok_def unique_key_update refs_ok_update endpoint_key_def)

lemma models_ok_update:
  "(\<And>r. m_ID (f r) = m_ID r) \<Longrightarrow> (\<And>r. model_key (f r) = model_key r) \<Longrightarrow>
   models_ok ids (map (\<lambda>r. if P r then f r else r) rows) \<longleftrightarrow> models_ok ids rows"
  by (simp add: models_ok_def unique_key_update refs_ok_update model_key_def)

lemma keys_ok_update:
  "(\<And>r. k_ID (f r) = k_ID r) \<Longrightarrow> (\<And>r. k_KeyHash (f r) = k_KeyHash r) \<Longrightarrow>
   keys_ok (map (\<lambda>r. if P r then f r else r) rows) \<longleftrightarrow> keys_ok rows"
  by (simp add: keys_ok_def unique_key_update)

text \<open>A new provider keeps every reference.\<close>

lemma tables_ok_mono:
  "ids \<subseteq> ids' \<Longrightarrow> endpoints_ok ids es \<Longrightarrow> endpoints_ok ids' es"
  "ids \<subseteq> ids' \<Longrightarrow> models_ok ids ms \<Longrightarrow> models_ok ids' ms"
  "ids \<subseteq> ids' \<Longrightarrow> aliases_ok ids as \<Longrightarrow> aliases_ok ids' as"
  "lids \<subseteq> lids' \<Longrightarrow> chunks_ok lids cs \<Longrightarrow> chunks_ok lids' cs"
  by (auto simp: endpoints_ok_def models_ok_def aliases_ok_def chunks_ok_def intro: refs_ok_mono)

lemma tables_ok_cascade:
  "endpoints_ok ids es \<Longrightarrow> endpoints_ok (ids - {i}) (filter (\<lambda>e. e_ProviderID e \<noteq> i) es)"
  "models_ok ids ms \<Longrightarrow> models_ok (ids - {i}) (filter (\<lambda>m. m_ProviderID m \<noteq> i) ms)"
  "aliases_ok ids as \<Longrightarrow> aliases_ok (ids - {i}) (filter (\<lambda>a. a_ProviderID a \<noteq> i) as)"
  by (auto simp: endpoints_ok_def models_ok_def aliases_ok_def refs_ok_cascade)

lemma tables_ok_filter:
  "models_ok ids ms \<Longrightarrow> models_ok ids (filter Pm ms)" "aliases_ok ids as \<Longrightarrow> aliases_ok ids (filter Pa as)"
  "keys_ok kys \<Longrightarrow> keys_ok (filter Pk kys)"
  by (auto simp: models_ok_def aliases_ok_def keys_ok_def)

text \<open>Changing one table leaves the others' constraints alone.\<close>

lemma db_ok_frame:
  "db_ok d \<Longrightarrow> providers_ok ps \<Longrightarrow> pr_id ` set ps = provider_ids d \<Longrightarrow> db_ok (d\<lparr>db_providers := ps\<rparr>)"
  "db_ok d \<Longrightarrow> endpoints_ok (provider_ids d) es \<Longrightarrow> db_ok (d\<lparr>db_endpoints := es\<rparr>)"
  "db_ok d \<Longrightarrow> models_ok (provider_ids d) ms \<Longrightarrow> db_ok (d\<lparr>db_models := ms\<rparr>)"
  "db_ok d \<Longrightarrow> aliases_ok (provider_ids d) as \<Longrightarrow> db_ok (d\<lparr>db_aliases := as\<rparr>)"
  "db_ok d \<Longrightarrow> keys_ok kys \<Longrightarrow> db_ok (d\<lparr>db_api_keys := kys\<rparr>)"
  "db_ok d \<Longrightarrow> unique_on fst cfg \<Longrightarrow> db_ok (d\<lparr>db_config := cfg\<rparr>)"
  "db_ok d \<Longrightarrow> unique_on lr_id lgs \<Longrightarrow> log_ids d \<subseteq> lr_id ` set lgs \<Longrightarrow> db_ok (d\<lparr>db_request_logs := lgs\<rparr>)"
  "db_ok d \<Longrightarrow> chunks_ok (log_ids d) cs \<Longrightarrow> db_ok (d\<lparr>db_streaming_logs := cs\<rparr>)"
  by (auto simp: db_ok_def provider_ids_def log_ids_def intro: tables_ok_mono)

lemma db_ok_tables:
  assumes "db_ok d"
  shows "providers_ok (db_providers d)" "endpoints_ok (provider_ids d) (db_endpoints d)" "models_ok (provider_ids d) (db_models d)"
    "aliases_ok (provider_ids d) (db_aliases d)" "keys_ok (db_api_keys d)" "unique_on fst (db_config d)"
    "unique_on lr_id (db_request_logs d)" "chunks_ok (log_ids d) (db_streaming_logs d)"
  using assms by (simp_all add: db_ok_def)

lemma tables_ok_snoc:
  "endpoints_ok ids es \<Longrightarrow> e_ID e \<notin> e_ID ` set es \<Longrightarrow> endpoint_key e \<notin> endpoint_key ` set es \<Longrightarrow> e_ProviderID e \<in> ids \<Longrightarrow> endpoints_ok ids (es @ [e])"
  "models_ok ids ms \<Longrightarrow> m_ID m \<notin> m_ID ` set ms \<Longrightarrow> model_key m \<notin> model_key ` set ms \<Longrightarrow> m_ProviderID m \<in> ids \<Longrightarrow> models_ok ids (ms @ [m])"
  "aliases_ok ids as \<Longrightarrow> a_ID a \<notin> a_ID ` set as \<Longrightarrow> alias_key a \<notin> alias_key ` set as \<Longrightarrow> a_ProviderID a \<in> ids \<Longrightarrow> aliases_ok ids (as @ [a])"
  "keys_ok kys \<Longrightarrow> k_ID k \<notin> k_ID ` set kys \<Longrightarrow> k_KeyHash k \<notin> k_KeyHash ` set kys \<Longrightarrow> keys_ok (kys @ [k])"
  by (simp_all add: endpoints_ok_def models_ok_def aliases_ok_def keys_ok_def)

text \<open>A statement keeps a property, and so does everything built from such statements.\<close>

definition keeps :: "(db \<Rightarrow> bool) \<Rightarrow> stmt \<Rightarrow> bool" where
  "keeps P st \<longleftrightarrow> (\<forall>d n d'. P d \<longrightarrow> st d = Inr (n, d') \<longrightarrow> P d')"

lemma keepsI [intro?]: "(\<And>d n d'. P d \<Longrightarrow> st d = Inr (n, d') \<Longrightarrow> P d') \<Longrightarrow> keeps P st"
  by (auto simp: keeps_def)

lemma keeps_run: "keeps P st \<Longrightarrow> P d \<Longrightarrow> P (snd (run_stmt flt i ctx st d))"
  by (auto simp: keeps_def run_stmt_def split: option.split sum.split)

lemma keeps_exec: "keeps P st \<Longrightarrow> P d \<Longrightarrow> P (snd (exec flt ctx st d))"
  using keeps_run [of P st d flt 0 ctx] by (auto simp: exec_def split: prod.split sum.split)

lemma keeps_exec_rows: "keeps P st \<Longrightarrow> P d \<Longrightarrow> P (snd (exec_rows flt ctx none st d))"
  using keeps_run [of P st d flt 0 ctx] by (auto simp: exec_rows_def split: prod.split sum.split option.split)

lemma keeps_exec_count: "keeps P st \<Longrightarrow> P d \<Longrightarrow> P (snd (exec_count flt ctx st d))"
  using keeps_run [of P st d flt 0 ctx] by (auto simp: exec_count_def split: prod.split sum.split option.split)

lemma keeps_tx_stmts: "list_all (\<lambda>(ctx, st). keeps P st) sts \<Longrightarrow> P d \<Longrightarrow> tx_stmts flt i sts d = Inr d' \<Longrightarrow> P d'"
proof (induction flt i sts d rule: tx_stmts.induct)
  case (2 flt i ctx st sts d)
  then show ?case using keeps_run [of P st d flt i ctx] by (auto split: prod.splits sum.splits)
qed simp

lemma keeps_transaction: "list_all (\<lambda>(ctx, st). keeps P st) sts \<Longrightarrow> P d \<Longrightarrow> P (snd (transaction flt ctx sts d))"
  using keeps_tx_stmts [of P sts d flt 1] by (auto simp: transaction_def split: option.split sum.split)

text \<open>A transaction that fails leaves no trace, whichever of its calls failed.\<close>

lemma transaction_atomic: "fst (transaction flt ctx sts d) = Inl e \<Longrightarrow> snd (transaction flt ctx sts d) = d"
  by (auto simp: transaction_def split: option.splits sum.splits)

lemma exec_atomic: "fst (exec flt ctx st d) = Inl e \<Longrightarrow> snd (exec flt ctx st d) = d"
  by (auto simp: exec_def run_stmt_def split: option.splits sum.splits prod.splits)

text \<open>What a transaction that commits has done.\<close>

definition effect :: "stmt \<Rightarrow> db \<Rightarrow> db" where
  "effect st d = (case st d of Inl c \<Rightarrow> d | Inr (n, d') \<Rightarrow> d')"

lemma run_stmt_effect: "run_stmt flt i ctx st d = (Inr n, d') \<Longrightarrow> d' = effect st d \<and> st d = Inr (n, d')"
  by (auto simp: run_stmt_def effect_def split: option.splits sum.splits)

lemma tx_stmts_effect: "tx_stmts flt i sts d = Inr d' \<Longrightarrow> d' = fold (\<lambda>(ctx, st). effect st) sts d"
proof (induction flt i sts d rule: tx_stmts.induct)
  case (2 flt i ctx st sts d)
  then show ?case by (auto split: prod.splits sum.splits dest!: run_stmt_effect)
qed simp

lemma transaction_effect:
  "fst (transaction flt ctx sts d) = Inr () \<Longrightarrow> snd (transaction flt ctx sts d) = fold (\<lambda>(ctx, st). effect st) sts d"
  by (auto simp: transaction_def split: option.splits sum.splits dest: tx_stmts_effect)

lemma exec_effect: "fst (exec flt ctx st d) = Inr () \<Longrightarrow> (\<exists>n. st d = Inr (n, snd (exec flt ctx st d))) \<and> flt 0 = None"
  by (auto simp: exec_def run_stmt_def split: option.splits sum.splits prod.splits)

lemmas db_ok_run = keeps_exec [where P = db_ok] keeps_exec_rows [where P = db_ok] keeps_exec_count [where P = db_ok]
  keeps_transaction [where P = db_ok]

end
