(* ===== verification/Store.thy ===== *)
theory Store
  imports Store_Schema
begin

text \<open>
  The store of providers, endpoints, models, aliases, API keys and settings
  (\<open>sqlite_provider.go\<close>, \<open>sqlite_endpoint.go\<close>, \<open>sqlite_model.go\<close>, \<open>sqlite_alias.go\<close>,
  \<open>sqlite_api_key.go\<close>, \<open>sqlite_config.go\<close>, \<open>sqlite_routing.go\<close>). First each operation as the
  statements it runs, then that every operation keeps the constraints of the schema, and what
  the operations mean for the look-ups that follow them.
\<close>

section \<open>Values and columns\<close>

definition nullStr :: "string \<Rightarrow> string option" where
  "nullStr v = (if v = '''' then None else Some v)"

definition str_of :: "string option \<Rightarrow> string" where
  "str_of v = (case v of None \<Rightarrow> '''' | Some s \<Rightarrow> s)"

lemma str_of_nullStr [simp]: "str_of (nullStr v) = v"
  by (simp add: str_of_def nullStr_def)

lemma str_of_Some [simp]: "str_of (Some v) = v"
  by (simp add: str_of_def)

definition scanProvider :: "providers_row \<Rightarrow> Provider" where
  "scanProvider r = \<lparr>p_ID = pr_id r, p_Name = pr_name r, p_BaseURL = pr_base_url r, p_APIKey = str_of (pr_api_key r),
     p_IsHealthy = pr_is_healthy r, p_HealthCheckedAt = pr_health_checked_at r, p_CreatedAt = pr_created_at r, p_UpdatedAt = pr_updated_at r,
     p_CBEnabled = pr_cb_enabled r, p_CBErrorThreshold = pr_cb_error_threshold r, p_CBWindowSeconds = pr_cb_window_seconds r,
     p_CBCooldownSeconds = pr_cb_cooldown_seconds r\<rparr>"

definition provider_columns :: "Provider \<Rightarrow> providers_row" where
  "provider_columns p = \<lparr>pr_id = p_ID p, pr_name = p_Name p, pr_base_url = p_BaseURL p, pr_api_key = nullStr (p_APIKey p),
     pr_is_healthy = p_IsHealthy p, pr_health_checked_at = p_HealthCheckedAt p, pr_created_at = p_CreatedAt p, pr_updated_at = p_UpdatedAt p,
     pr_cb_enabled = p_CBEnabled p, pr_cb_error_threshold = p_CBErrorThreshold p, pr_cb_window_seconds = p_CBWindowSeconds p,
     pr_cb_cooldown_seconds = p_CBCooldownSeconds p\<rparr>"

lemma scan_provider_columns [simp]: "scanProvider (provider_columns p) = p"
  by (simp add: scanProvider_def provider_columns_def)

section \<open>Providers\<close>

definition insert_provider :: "providers_row \<Rightarrow> stmt" where
  "insert_provider r d =
     (if pr_id r \<in> set (map pr_id (db_providers d)) then Inl (UniqueFailed ''providers.id'')
      else if pr_base_url r \<in> set (map pr_base_url (db_providers d)) then Inl (UniqueFailed ''providers.base_url'')
      else Inr (1, d\<lparr>db_providers := db_providers d @ [r]\<rparr>))"

definition CreateProvider :: "fault \<Rightarrow> Provider \<Rightarrow> db \<Rightarrow> (store_error + unit) \<times> db" where
  "CreateProvider flt p = exec flt ''create provider'' (insert_provider (provider_columns (NormalizeCircuitBreaker p)))"

definition GetProvider :: "fault \<Rightarrow> string \<Rightarrow> db \<Rightarrow> store_error + Provider" where
  "GetProvider flt i d = query_row flt 0 ''get provider'' (map scanProvider (filter (\<lambda>r. pr_id r = i) (db_providers d)))"

definition ListProviders :: "fault \<Rightarrow> nat list \<Rightarrow> db \<Rightarrow> store_error + Provider list" where
  "ListProviders flt ks d = query flt 0 ''list providers'' (map scanProvider (order_by ks (\<lambda>r. - pr_created_at r) (db_providers d)))"

definition update_provider :: "Provider \<Rightarrow> stmt" where
  "update_provider p d =
     (if p_ID p \<in> set (map pr_id (db_providers d)) \<and>
         p_BaseURL p \<in> set (map pr_base_url (filter (\<lambda>r. pr_id r \<noteq> p_ID p) (db_providers d)))
      then Inl (UniqueFailed ''providers.base_url'')
      else Inr (length (filter (\<lambda>r. pr_id r = p_ID p) (db_providers d)),
        d\<lparr>db_providers := map (\<lambda>r. if pr_id r = p_ID p
             then r\<lparr>pr_name := p_Name p, pr_base_url := p_BaseURL p, pr_api_key := nullStr (p_APIKey p), pr_updated_at := p_UpdatedAt p,
                    pr_cb_enabled := p_CBEnabled p, pr_cb_error_threshold := p_CBErrorThreshold p,
                    pr_cb_window_seconds := p_CBWindowSeconds p, pr_cb_cooldown_seconds := p_CBCooldownSeconds p\<rparr>
             else r) (db_providers d)\<rparr>))"

definition UpdateProvider :: "fault \<Rightarrow> Provider \<Rightarrow> db \<Rightarrow> (store_error + unit) \<times> db" where
  "UpdateProvider flt p =
     (let p' = NormalizeCircuitBreaker p
      in exec_rows flt ''update provider'' (NoRowsForID (p_ID p') False) (update_provider p'))"

text \<open>Deleting a provider deletes the rows that refer to it.\<close>

definition delete_provider :: "string \<Rightarrow> stmt" where
  "delete_provider i d =
     Inr (length (filter (\<lambda>r. pr_id r = i) (db_providers d)),
       d\<lparr>db_providers := filter (\<lambda>r. pr_id r \<noteq> i) (db_providers d),
         db_endpoints := filter (\<lambda>e. e_ProviderID e \<noteq> i) (db_endpoints d),
         db_models := filter (\<lambda>m. m_ProviderID m \<noteq> i) (db_models d),
         db_aliases := filter (\<lambda>a. a_ProviderID a \<noteq> i) (db_aliases d)\<rparr>)"

definition DeleteProvider :: "fault \<Rightarrow> string \<Rightarrow> db \<Rightarrow> (store_error + unit) \<times> db" where
  "DeleteProvider flt i d =
     (case flt 0 of
        Some e \<Rightarrow> (Inl (StoreError ''delete provider begin tx'' (Driver e)), d)
      | None \<Rightarrow>
          (case run_stmt flt 1 ''delete provider'' (delete_provider i) d of
             (Inl e, d') \<Rightarrow> (Inl e, d)
           | (Inr n, d') \<Rightarrow>
               (case flt 2 of
                  Some e \<Rightarrow> (Inl (StoreError ''delete provider rows affected'' (Driver e)), d)
                | None \<Rightarrow>
                    (if n = 0 then (Inl (StoreError ''delete provider'' (NoRowsForID i False)), d)
                     else case flt 3 of Some e \<Rightarrow> (Inl (StoreError '''' (Driver e)), d) | None \<Rightarrow> (Inr (), d')))))"

definition update_health :: "string \<Rightarrow> bool \<Rightarrow> time \<Rightarrow> stmt" where
  "update_health i healthy now d =
     Inr (length (filter (\<lambda>r. pr_id r = i) (db_providers d)),
       d\<lparr>db_providers := map (\<lambda>r. if pr_id r = i then r\<lparr>pr_is_healthy := healthy, pr_health_checked_at := Some now\<rparr> else r) (db_providers d)\<rparr>)"

definition UpdateProviderHealth :: "fault \<Rightarrow> string \<Rightarrow> bool \<Rightarrow> time \<Rightarrow> db \<Rightarrow> (store_error + unit) \<times> db" where
  "UpdateProviderHealth flt i healthy now = exec_rows flt ''update provider health'' (NoRowsForID i False) (update_health i healthy now)"

section \<open>Endpoints\<close>

definition has_provider :: "string \<Rightarrow> db \<Rightarrow> bool" where
  "has_provider i d \<longleftrightarrow> i \<in> set (map pr_id (db_providers d))"

definition upsert_endpoint :: "string \<Rightarrow> ProviderEndpoint \<Rightarrow> stmt" where
  "upsert_endpoint pid ep d =
     (let ep' = ep\<lparr>e_ProviderID := pid\<rparr>
      in if endpoint_key ep' \<in> set (map endpoint_key (db_endpoints d))
         then Inr (1, d\<lparr>db_endpoints := map (\<lambda>e. if endpoint_key e = endpoint_key ep'
                then e\<lparr>e_IsSupported := e_IsSupported ep, e_IsEnabled := e_IsEnabled ep\<rparr> else e) (db_endpoints d)\<rparr>)
         else if e_ID ep \<in> set (map e_ID (db_endpoints d)) then Inl (UniqueFailed ''provider_endpoints.id'')
         else if \<not> has_provider pid d then Inl ForeignKeyFailed
         else Inr (1, d\<lparr>db_endpoints := db_endpoints d @ [ep']\<rparr>))"

definition UpsertProviderEndpoints :: "fault \<Rightarrow> string \<Rightarrow> ProviderEndpoint list \<Rightarrow> db \<Rightarrow> (store_error + unit) \<times> db" where
  "UpsertProviderEndpoints flt pid eps =
     transaction flt ''upsert provider endpoints'' (map (\<lambda>ep. (''upsert provider endpoints insert'', upsert_endpoint pid ep)) eps)"

definition ListProviderEndpoints :: "fault \<Rightarrow> string \<Rightarrow> db \<Rightarrow> store_error + ProviderEndpoint list" where
  "ListProviderEndpoints flt pid d =
     query flt 0 ''list provider endpoints'' (order_by [] (\<lambda>e. (e_Path e, e_Method e)) (filter (\<lambda>e. e_ProviderID e = pid) (db_endpoints d)))"

definition enable_endpoint :: "ProviderEndpoint \<Rightarrow> stmt" where
  "enable_endpoint ep d =
     Inr (length (filter (\<lambda>e. e_ID e = e_ID ep) (db_endpoints d)),
       d\<lparr>db_endpoints := map (\<lambda>e. if e_ID e = e_ID ep then e\<lparr>e_IsEnabled := e_IsEnabled ep\<rparr> else e) (db_endpoints d)\<rparr>)"

definition UpdateProviderEndpoint :: "fault \<Rightarrow> ProviderEndpoint \<Rightarrow> db \<Rightarrow> (store_error + unit) \<times> db" where
  "UpdateProviderEndpoint flt ep = exec_rows flt ''update provider endpoint'' (NoRowsForID (e_ID ep) False) (enable_endpoint ep)"

definition GetEnabledEndpoint :: "fault \<Rightarrow> string \<Rightarrow> string \<Rightarrow> db \<Rightarrow> store_error + ProviderEndpoint option" where
  "GetEnabledEndpoint flt pid path d =
     (case query_row flt 0 ''get enabled endpoint''
        (order_by [] e_Method (filter (\<lambda>e. e_ProviderID e = pid \<and> e_Path e = path \<and> e_IsSupported e \<and> e_IsEnabled e) (db_endpoints d))) of
        Inr e \<Rightarrow> Inr (Some e)
      | Inl err \<Rightarrow> if se_cause err = ErrNoRows then Inr None else Inl err)"

definition listAllEndpoints :: "fault \<Rightarrow> nat list \<Rightarrow> db \<Rightarrow> store_error + ProviderEndpoint list" where
  "listAllEndpoints flt ks d = query flt 0 ''list all endpoints'' (order_by ks (\<lambda>e. (e_ProviderID e, e_Path e)) (db_endpoints d))"

section \<open>Models\<close>

definition insert_model :: "ProviderModel \<Rightarrow> stmt" where
  "insert_model m d =
     (if m_ID m \<in> set (map m_ID (db_models d)) then Inl (UniqueFailed ''provider_models.id'')
      else if model_key m \<in> set (map model_key (db_models d)) then Inl (UniqueFailed ''provider_models.provider_id, provider_models.model_id'')
      else if \<not> has_provider (m_ProviderID m) d then Inl ForeignKeyFailed
      else Inr (1, d\<lparr>db_models := db_models d @ [m]\<rparr>))"

text \<open>\<open>INSERT OR IGNORE\<close> passes over a row that violates uniqueness, not one without its provider.\<close>

definition insert_model_or_ignore :: "ProviderModel \<Rightarrow> stmt" where
  "insert_model_or_ignore m d =
     (case insert_model m d of Inl (UniqueFailed c) \<Rightarrow> Inr (0, d) | r \<Rightarrow> r)"

definition new_model :: "string \<Rightarrow> string \<Rightarrow> string \<Rightarrow> time \<Rightarrow> ProviderModel" where
  "new_model i pid mid now = \<lparr>m_ID = i, m_ProviderID = pid, m_ModelID = mid, m_CreatedAt = now, m_IsAvailable = False,
     m_CostPerMillionInput = None, m_CostPerMillionOutput = None, m_CostPerMillionCacheRead = None, m_CostPerMillionCacheWrite = None,
     m_MaxContext = None\<rparr>"

text \<open>\<open>uuids\<close> are the identifiers drawn for the names in turn; empty names are passed over.\<close>

definition SyncProviderModels :: "fault \<Rightarrow> (nat \<Rightarrow> string) \<Rightarrow> time \<Rightarrow> string \<Rightarrow> string list \<Rightarrow> db \<Rightarrow> (store_error + unit) \<times> db" where
  "SyncProviderModels flt uuids now pid modelIDs =
     transaction flt ''sync provider models''
       (map (\<lambda>(i, mid). (''sync provider models insert'', insert_model_or_ignore (new_model (uuids i) pid mid now)))
          (enumerate 0 (filter (\<lambda>mid. mid \<noteq> '''') modelIDs)))"

definition CreateProviderModel :: "fault \<Rightarrow> ProviderModel \<Rightarrow> db \<Rightarrow> (store_error + unit) \<times> db" where
  "CreateProviderModel flt m =
     exec flt ''create provider model''
       (insert_model ((new_model (m_ID m) (m_ProviderID m) (m_ModelID m) (m_CreatedAt m))\<lparr>m_IsAvailable := m_IsAvailable m, m_MaxContext := m_MaxContext m\<rparr>))"

definition delete_model :: "string \<Rightarrow> string \<Rightarrow> stmt" where
  "delete_model pid i d =
     Inr (length (filter (\<lambda>m. m_ID m = i \<and> m_ProviderID m = pid) (db_models d)),
       d\<lparr>db_models := filter (\<lambda>m. \<not> (m_ID m = i \<and> m_ProviderID m = pid)) (db_models d)\<rparr>)"

definition DeleteProviderModel :: "fault \<Rightarrow> string \<Rightarrow> string \<Rightarrow> db \<Rightarrow> (store_error + unit) \<times> db" where
  "DeleteProviderModel flt pid i = exec_rows flt ''delete provider model'' (NoRowsForID i True) (delete_model pid i)"

definition update_models :: "(ProviderModel \<Rightarrow> bool) \<Rightarrow> (ProviderModel \<Rightarrow> ProviderModel) \<Rightarrow> stmt" where
  "update_models P f d =
     Inr (length (filter P (db_models d)), d\<lparr>db_models := map (\<lambda>m. if P m then f m else m) (db_models d)\<rparr>)"

definition SetProviderModelsAvailability :: "fault \<Rightarrow> string \<Rightarrow> string list \<Rightarrow> db \<Rightarrow> (store_error + unit) \<times> db" where
  "SetProviderModelsAvailability flt pid available =
     transaction flt ''set provider models availability''
       ((''set provider models availability clear'', update_models (\<lambda>m. m_ProviderID m = pid) (\<lambda>m. m\<lparr>m_IsAvailable := False\<rparr>)) #
        map (\<lambda>mid. (''set provider models availability enable'',
               update_models (\<lambda>m. m_ProviderID m = pid \<and> m_ModelID m = mid) (\<lambda>m. m\<lparr>m_IsAvailable := True\<rparr>)))
          (filter (\<lambda>mid. mid \<noteq> '''') available))"

definition UpdateProviderModelAvailability :: "fault \<Rightarrow> string \<Rightarrow> string \<Rightarrow> bool \<Rightarrow> db \<Rightarrow> (store_error + unit) \<times> db" where
  "UpdateProviderModelAvailability flt pid i available =
     exec_rows flt ''update provider model availability'' (NoRowsForID i True)
       (update_models (\<lambda>m. m_ID m = i \<and> m_ProviderID m = pid) (\<lambda>m. m\<lparr>m_IsAvailable := available\<rparr>))"

definition ListProviderModels :: "fault \<Rightarrow> string \<Rightarrow> db \<Rightarrow> store_error + ProviderModel list" where
  "ListProviderModels flt pid d =
     query flt 0 ''list provider models'' (order_by [] m_ModelID (filter (\<lambda>m. m_ProviderID m = pid) (db_models d)))"

definition ListAllModels :: "fault \<Rightarrow> db \<Rightarrow> store_error + ProviderModel list" where
  "ListAllModels flt d = query flt 0 ''list all models'' (order_by [] model_key (db_models d))"

definition UpdateProviderModelCosts :: "fault \<Rightarrow> string \<Rightarrow> ProviderModel \<Rightarrow> db \<Rightarrow> (store_error + unit) \<times> db" where
  "UpdateProviderModelCosts flt i c =
     exec_rows flt ''update provider model costs'' (NoRowsForID i True)
       (update_models (\<lambda>m. m_ID m = i)
          (\<lambda>m. m\<lparr>m_CostPerMillionInput := m_CostPerMillionInput c, m_CostPerMillionOutput := m_CostPerMillionOutput c,
                 m_CostPerMillionCacheRead := m_CostPerMillionCacheRead c, m_CostPerMillionCacheWrite := m_CostPerMillionCacheWrite c,
                 m_MaxContext := m_MaxContext c\<rparr>))"

definition GetProviderModelCosts :: "fault \<Rightarrow> string \<Rightarrow> string \<Rightarrow> db \<Rightarrow> store_error + ProviderModel option" where
  "GetProviderModelCosts flt pid mid d =
     (case query_row flt 0 ''get provider model costs'' (filter (\<lambda>m. m_ProviderID m = pid \<and> m_ModelID m = mid) (db_models d)) of
        Inr m \<Rightarrow> Inr (Some m)
      | Inl err \<Rightarrow> if se_cause err = ErrNoRows then Inr None else Inl err)"

definition GetHealthyProvidersForModel :: "fault \<Rightarrow> nat list \<Rightarrow> string \<Rightarrow> db \<Rightarrow> store_error + Provider list" where
  "GetHealthyProvidersForModel flt ks mid d =
     query flt 0 ''get healthy providers for model''
       (map scanProvider (order_by ks pr_name
          (filter (\<lambda>r. pr_is_healthy r \<and> list_ex (\<lambda>m. m_ProviderID m = pr_id r \<and> m_ModelID m = mid \<and> m_IsAvailable m) (db_models d))
             (db_providers d))))"

section \<open>Aliases\<close>

definition insert_alias :: "ModelAlias \<Rightarrow> stmt" where
  "insert_alias a d =
     (if a_ID a \<in> set (map a_ID (db_aliases d)) then Inl (UniqueFailed ''model_aliases.id'')
      else if alias_key a \<in> set (map alias_key (db_aliases d))
      then Inl (UniqueFailed ''model_aliases.alias, model_aliases.provider_id, model_aliases.model_id'')
      else if \<not> has_provider (a_ProviderID a) d then Inl ForeignKeyFailed
      else Inr (1, d\<lparr>db_aliases := db_aliases d @ [a]\<rparr>))"

definition CreateAlias :: "fault \<Rightarrow> ModelAlias \<Rightarrow> db \<Rightarrow> (store_error + unit) \<times> db" where
  "CreateAlias flt a = exec flt ''create alias'' (insert_alias a)"

definition ListAliases :: "fault \<Rightarrow> nat list \<Rightarrow> db \<Rightarrow> store_error + ModelAlias list" where
  "ListAliases flt ks d = query flt 0 ''list aliases'' (order_by ks (\<lambda>a. (a_Alias a, - a_Priority a)) (db_aliases d))"

definition update_alias :: "ModelAlias \<Rightarrow> stmt" where
  "update_alias a d =
     (if a_ID a \<notin> set (map a_ID (db_aliases d)) then Inr (0, d)
      else if alias_key a \<in> set (map alias_key (filter (\<lambda>b. a_ID b \<noteq> a_ID a) (db_aliases d)))
      then Inl (UniqueFailed ''model_aliases.alias, model_aliases.provider_id, model_aliases.model_id'')
      else if \<not> has_provider (a_ProviderID a) d then Inl ForeignKeyFailed
      else Inr (length (filter (\<lambda>b. a_ID b = a_ID a) (db_aliases d)),
        d\<lparr>db_aliases := map (\<lambda>b. if a_ID b = a_ID a then a\<lparr>a_CreatedAt := a_CreatedAt b\<rparr> else b) (db_aliases d)\<rparr>))"

definition UpdateAlias :: "fault \<Rightarrow> ModelAlias \<Rightarrow> db \<Rightarrow> (store_error + unit) \<times> db" where
  "UpdateAlias flt a = exec_rows flt ''update alias'' (NoRowsForID (a_ID a) False) (update_alias a)"

definition delete_alias :: "string \<Rightarrow> stmt" where
  "delete_alias i d =
     Inr (length (filter (\<lambda>a. a_ID a = i) (db_aliases d)), d\<lparr>db_aliases := filter (\<lambda>a. a_ID a \<noteq> i) (db_aliases d)\<rparr>)"

definition DeleteAlias :: "fault \<Rightarrow> string \<Rightarrow> db \<Rightarrow> (store_error + unit) \<times> db" where
  "DeleteAlias flt i = exec flt ''delete alias'' (delete_alias i)"

definition ResolveAlias :: "fault \<Rightarrow> nat list \<Rightarrow> string \<Rightarrow> db \<Rightarrow> store_error + ModelAlias list" where
  "ResolveAlias flt ks al d =
     query flt 0 ''resolve alias'' (order_by ks (\<lambda>a. - a_Priority a) (filter (\<lambda>a. a_Alias a = al \<and> a_IsEnabled a) (db_aliases d)))"

section \<open>API keys\<close>

definition insert_key :: "APIKey \<Rightarrow> stmt" where
  "insert_key k d =
     (if k_ID k \<in> set (map k_ID (db_api_keys d)) then Inl (UniqueFailed ''api_keys.id'')
      else if k_KeyHash k \<in> set (map k_KeyHash (db_api_keys d)) then Inl (UniqueFailed ''api_keys.key_hash'')
      else Inr (1, d\<lparr>db_api_keys := db_api_keys d @ [k]\<rparr>))"

definition CreateAPIKey :: "fault \<Rightarrow> APIKey \<Rightarrow> db \<Rightarrow> (store_error + unit) \<times> db" where
  "CreateAPIKey flt k = exec flt ''create api key'' (insert_key k)"

definition GetAPIKeyByHash :: "fault \<Rightarrow> string \<Rightarrow> db \<Rightarrow> store_error + APIKey option" where
  "GetAPIKeyByHash flt h d =
     (case query_row flt 0 ''get api key by hash'' (filter (\<lambda>k. k_KeyHash k = h) (db_api_keys d)) of
        Inr k \<Rightarrow> Inr (Some k)
      | Inl err \<Rightarrow> if se_cause err = ErrNoRows then Inr None else Inl err)"

definition GetAPIKey :: "fault \<Rightarrow> string \<Rightarrow> db \<Rightarrow> store_error + APIKey" where
  "GetAPIKey flt i d =
     (case query_row flt 0 ''get api key'' (filter (\<lambda>k. k_ID k = i) (db_api_keys d)) of
        Inr k \<Rightarrow> Inr k
      | Inl err \<Rightarrow> if se_cause err = ErrNoRows then Inl (StoreError '''' ErrNoRows) else Inl err)"

definition ListAPIKeys :: "fault \<Rightarrow> nat list \<Rightarrow> db \<Rightarrow> store_error + APIKey list" where
  "ListAPIKeys flt ks d = query flt 0 ''list api keys'' (order_by ks (\<lambda>k. - k_CreatedAt k) (db_api_keys d))"

definition update_keys :: "string \<Rightarrow> (APIKey \<Rightarrow> APIKey) \<Rightarrow> stmt" where
  "update_keys i f d =
     Inr (length (filter (\<lambda>k. k_ID k = i) (db_api_keys d)), d\<lparr>db_api_keys := map (\<lambda>k. if k_ID k = i then f k else k) (db_api_keys d)\<rparr>)"

definition UpdateAPIKey :: "fault \<Rightarrow> APIKey \<Rightarrow> db \<Rightarrow> (store_error + unit) \<times> db" where
  "UpdateAPIKey flt k =
     exec flt ''update api key''
       (update_keys (k_ID k) (\<lambda>r. r\<lparr>k_Name := k_Name k, k_IsActive := k_IsActive k, k_RateLimitRPM := k_RateLimitRPM k, k_RateLimitTPM := k_RateLimitTPM k\<rparr>))"

definition delete_key :: "string \<Rightarrow> stmt" where
  "delete_key i d =
     Inr (length (filter (\<lambda>k. k_ID k = i) (db_api_keys d)), d\<lparr>db_api_keys := filter (\<lambda>k. k_ID k \<noteq> i) (db_api_keys d)\<rparr>)"

definition DeleteAPIKey :: "fault \<Rightarrow> string \<Rightarrow> db \<Rightarrow> (store_error + unit) \<times> db" where
  "DeleteAPIKey flt i = exec flt ''delete api key'' (delete_key i)"

definition TouchAPIKeyLastUsed :: "fault \<Rightarrow> string \<Rightarrow> time \<Rightarrow> db \<Rightarrow> (store_error + unit) \<times> db" where
  "TouchAPIKeyLastUsed flt i now = exec flt ''touch api key last used'' (update_keys i (\<lambda>r. r\<lparr>k_LastUsedAt := Some now\<rparr>))"

section \<open>Settings\<close>

definition GetAllConfig :: "fault \<Rightarrow> db \<Rightarrow> store_error + config" where
  "GetAllConfig flt d =
     (case (flt 0, flt 1, flt 2) of
        (Some e, _, _) \<Rightarrow> Inl (StoreError ''get all config'' (Driver e))
      | (None, Some e, _) \<Rightarrow> Inl (StoreError ''scan config row'' (Driver e))
      | (None, None, Some e) \<Rightarrow> Inl (StoreError '''' (Driver e))
      | (None, None, None) \<Rightarrow> Inr (fold (\<lambda>(k, v, t) m. m(k \<mapsto> v)) (db_config d) Map.empty))"

definition upsert_config :: "string \<Rightarrow> string \<Rightarrow> time \<Rightarrow> stmt" where
  "upsert_config k v now d =
     Inr (1, if k \<in> set (map fst (db_config d))
             then d\<lparr>db_config := map (\<lambda>(k', v', t). if k' = k then (k, v, now) else (k', v', t)) (db_config d)\<rparr>
             else d\<lparr>db_config := db_config d @ [(k, v, now)]\<rparr>)"

definition SetConfig :: "fault \<Rightarrow> string \<Rightarrow> string \<Rightarrow> time \<Rightarrow> db \<Rightarrow> (store_error + unit) \<times> db" where
  "SetConfig flt k v now = exec flt (''set config '' @ k) (upsert_config k v now)"

section \<open>Routing data\<close>

text \<open>The four queries of a load run one after the other, and each may see other tables.\<close>

definition wrap :: "string \<Rightarrow> store_error + 'a \<Rightarrow> store_error + 'a" where
  "wrap ctx r = (case r of Inl e \<Rightarrow> Inl (StoreError (ctx @ '': '' @ se_context e) (se_cause e)) | Inr x \<Rightarrow> Inr x)"

definition LoadRoutingData ::
  "(nat \<Rightarrow> fault) \<Rightarrow> (nat \<Rightarrow> nat list) \<Rightarrow> (nat \<Rightarrow> db) \<Rightarrow> store_error + RoutingData" where
  "LoadRoutingData flt ks d =
     (case wrap ''load routing data providers'' (ListProviders (flt 0) (ks 0) (d 0)) of Inl e \<Rightarrow> Inl e | Inr ps \<Rightarrow>
      case wrap ''load routing data models'' (ListAllModels (flt 1) (d 1)) of Inl e \<Rightarrow> Inl e | Inr ms \<Rightarrow>
      case wrap ''load routing data aliases'' (ListAliases (flt 2) (ks 2) (d 2)) of Inl e \<Rightarrow> Inl e | Inr as \<Rightarrow>
      case wrap ''load routing data endpoints'' (listAllEndpoints (flt 3) (ks 3) (d 3)) of Inl e \<Rightarrow> Inl e | Inr eps \<Rightarrow>
        Inr \<lparr>rd_Providers = ps, rd_Models = ms, rd_Aliases = as, rd_Endpoints = eps\<rparr>)"


section \<open>Every statement keeps the constraints\<close>

lemma cb_row_ok_columns: "cb_settings_ok p \<Longrightarrow> cb_row_ok (provider_columns p)"
  by (simp add: cb_settings_ok_def cb_row_ok_def provider_columns_def)

lemma keeps_insert_provider:
  assumes "cb_row_ok r"
  shows "keeps db_ok (insert_provider r)"
proof
  fix d n d'
  assume ok: "db_ok d" and st: "insert_provider r d = Inr (n, d')"
  then have d': "d' = d\<lparr>db_providers := db_providers d @ [r]\<rparr>" and "providers_ok (db_providers d @ [r])"
    using assms by (auto simp: insert_provider_def db_ok_def providers_ok_def split: if_splits)
  moreover have "provider_ids d \<subseteq> provider_ids d'" "log_ids d' = log_ids d" by (auto simp: d' provider_ids_def log_ids_def)
  ultimately show "db_ok d'" using ok tables_ok_mono(1-3) [of "provider_ids d" "provider_ids d'"] by (simp add: db_ok_def)
qed

lemma keeps_update_provider:
  assumes "cb_settings_ok p"
  shows "keeps db_ok (update_provider p)"
proof
  fix d n d'
  assume ok: "db_ok d" and st: "update_provider p d = Inr (n, d')"
  let ?f = "\<lambda>r. r\<lparr>pr_name := p_Name p, pr_base_url := p_BaseURL p, pr_api_key := nullStr (p_APIKey p), pr_updated_at := p_UpdatedAt p,
                    pr_cb_enabled := p_CBEnabled p, pr_cb_error_threshold := p_CBErrorThreshold p,
                    pr_cb_window_seconds := p_CBWindowSeconds p, pr_cb_cooldown_seconds := p_CBCooldownSeconds p\<rparr>"
  let ?rows = "map (\<lambda>r. if pr_id r = p_ID p then ?f r else r) (db_providers d)"
  from st have d': "d' = d\<lparr>db_providers := ?rows\<rparr>" by (auto simp: update_provider_def split: if_splits)
  have "unique_on pr_base_url ?rows"
  proof (cases "p_ID p \<in> pr_id ` set (db_providers d)")
    case True
    then have "p_BaseURL p \<notin> pr_base_url ` {r \<in> set (db_providers d). pr_id r \<noteq> p_ID p}"
      using st by (simp add: update_provider_def split: if_splits)
    then have "pr_base_url r \<noteq> p_BaseURL p" if "r \<in> set (db_providers d)" "pr_id r \<noteq> p_ID p" for r
      using that by (metis (mono_tags, lifting) imageI mem_Collect_eq)
    then show ?thesis
      by (intro unique_on_update [of _ _ pr_id _ "p_BaseURL p"]) (use ok in \<open>auto simp: db_ok_def providers_ok_def\<close>)
  next
    case False
    then have "?rows = db_providers d" by (intro map_idI) (metis image_eqI)
    then show ?thesis using ok by (simp only: db_ok_def providers_ok_def)
  qed
  moreover have "list_all cb_row_ok ?rows"
    using ok assms by (auto simp: db_ok_def providers_ok_def list_all_iff cb_row_ok_def cb_settings_ok_def)
  moreover have "unique_on pr_id ?rows" using ok by (subst unique_key_update) (simp_all add: db_ok_def providers_ok_def)
  moreover have "pr_id ` set ?rows = provider_ids d" unfolding provider_ids_def by (rule image_key_update) simp
  ultimately show "db_ok d'" unfolding d' by (intro db_ok_frame ok) (simp_all only: providers_ok_def)
qed

lemma keeps_delete_provider: "keeps db_ok (delete_provider i)"
proof
  fix d n d'
  assume ok: "db_ok d" and st: "delete_provider i d = Inr (n, d')"
  then have d': "d' = snd (projr (delete_provider i d))" by simp
  have "provider_ids d' = provider_ids d - {i}" by (auto simp: d' delete_provider_def provider_ids_def)
  moreover have "log_ids d' = log_ids d" by (simp add: d' delete_provider_def log_ids_def)
  ultimately show "db_ok d'" using ok
    by (auto simp: d' delete_provider_def db_ok_def tables_ok_cascade providers_ok_def list_all_iff)
qed

lemma keeps_update_health: "keeps db_ok (update_health i h now)"
proof
  fix d n d'
  assume ok: "db_ok d" and st: "update_health i h now d = Inr (n, d')"
  let ?f = "\<lambda>r. r\<lparr>pr_is_healthy := h, pr_health_checked_at := Some now\<rparr>"
  have "providers_ok (map (\<lambda>r. if pr_id r = i then ?f r else r) (db_providers d))"
    using db_ok_tables(1) [OF ok] by (subst providers_ok_update) (simp_all add: cb_row_ok_def)
  moreover have "pr_id ` set (map (\<lambda>r. if pr_id r = i then ?f r else r) (db_providers d)) = provider_ids d"
    unfolding provider_ids_def by (rule image_key_update) simp
  ultimately show "db_ok d'" using st by (auto simp: update_health_def simp del: set_map intro: db_ok_frame(1) [OF ok])
qed

lemma keeps_upsert_endpoint: "keeps db_ok (upsert_endpoint pid ep)"
proof
  fix d n d'
  assume ok: "db_ok d" and st: "upsert_endpoint pid ep d = Inr (n, d')"
  let ?f = "\<lambda>e. e\<lparr>e_IsSupported := e_IsSupported ep, e_IsEnabled := e_IsEnabled ep\<rparr>"
  have upd: "endpoints_ok (provider_ids d) (map (\<lambda>e. if P e then ?f e else e) (db_endpoints d))" for P
    using db_ok_tables(2) [OF ok] by (subst endpoints_ok_update) (simp_all add: endpoint_key_def)
  show "db_ok d'"
  proof (cases "endpoint_key (ep\<lparr>e_ProviderID := pid\<rparr>) \<in> set (map endpoint_key (db_endpoints d))")
    case True
    then show ?thesis using st ok upd by (auto simp: upsert_endpoint_def intro: db_ok_frame)
  next
    case False
    then show ?thesis using st ok db_ok_tables(2) [OF ok]
      by (auto simp: upsert_endpoint_def has_provider_def provider_ids_def split: if_splits intro!: db_ok_frame tables_ok_snoc)
  qed
qed

lemma keeps_enable_endpoint: "keeps db_ok (enable_endpoint ep)"
  by (rule keepsI) (auto simp: enable_endpoint_def endpoints_ok_update endpoint_key_def intro!: db_ok_frame db_ok_tables)

lemma keeps_insert_model: "keeps db_ok (insert_model m)"
  by (rule keepsI) (auto simp: insert_model_def has_provider_def provider_ids_def split: if_splits
      intro!: db_ok_frame tables_ok_snoc dest: db_ok_tables(3))

lemma keeps_insert_model_or_ignore: "keeps db_ok (insert_model_or_ignore m)"
  using keeps_insert_model [of m]
  by (auto simp: keeps_def insert_model_or_ignore_def split: sum.splits cause.splits)

lemma keeps_delete_model: "keeps db_ok (delete_model pid i)"
  by (rule keepsI) (auto simp: delete_model_def intro!: db_ok_frame tables_ok_filter db_ok_tables)

lemma keeps_update_models:
  assumes "\<And>m. m_ID (f m) = m_ID m" and "\<And>m. model_key (f m) = model_key m"
  shows "keeps db_ok (update_models P f)"
  by (rule keepsI) (auto simp: update_models_def models_ok_update [of f, OF assms] intro!: db_ok_frame db_ok_tables)

lemma keeps_insert_alias: "keeps db_ok (insert_alias a)"
  by (rule keepsI) (auto simp: insert_alias_def has_provider_def provider_ids_def split: if_splits
      intro!: db_ok_frame tables_ok_snoc dest: db_ok_tables(4))

lemma keeps_update_alias: "keeps db_ok (update_alias a)"
proof
  fix d n d'
  assume ok: "db_ok d" and st: "update_alias a d = Inr (n, d')"
  let ?rows = "map (\<lambda>b. if a_ID b = a_ID a then a\<lparr>a_CreatedAt := a_CreatedAt b\<rparr> else b) (db_aliases d)"
  show "db_ok d'"
  proof (cases "a_ID a \<in> set (map a_ID (db_aliases d))")
    case True
    define clash where "clash \<longleftrightarrow> alias_key a \<in> set (map alias_key (filter (\<lambda>b. a_ID b \<noteq> a_ID a) (db_aliases d)))"
    define prov where "prov \<longleftrightarrow> has_provider (a_ProviderID a) d"
    have "update_alias a d = (if clash then Inl (UniqueFailed ''model_aliases.alias, model_aliases.provider_id, model_aliases.model_id'')
        else if \<not> prov then Inl ForeignKeyFailed else Inr (length (filter (\<lambda>b. a_ID b = a_ID a) (db_aliases d)), d\<lparr>db_aliases := ?rows\<rparr>))"
      unfolding update_alias_def clash_def prov_def using True by (simp only: not_True_eq_False if_False)
    then have d': "d' = d\<lparr>db_aliases := ?rows\<rparr>" and prov: "prov" and "\<not> clash"
      using st by (cases clash; cases prov; simp)+
    then have "alias_key a \<notin> alias_key ` {b \<in> set (db_aliases d). a_ID b \<noteq> a_ID a}" by (simp add: clash_def)
    then have free: "alias_key b \<noteq> alias_key a" if "b \<in> set (db_aliases d)" "a_ID b \<noteq> a_ID a" for b
      using that by (metis (mono_tags, lifting) imageI mem_Collect_eq)
    have aok: "unique_on a_ID (db_aliases d)" "unique_on alias_key (db_aliases d)" "refs_ok a_ProviderID (provider_ids d) (db_aliases d)"
      using ok by (simp_all add: db_ok_def aliases_ok_def)
    have "unique_on alias_key ?rows"
      by (rule unique_on_update [of _ _ a_ID _ "alias_key a"]) (use aok free in \<open>auto simp: alias_key_def\<close>)
    moreover have "unique_on a_ID ?rows"
      using unique_on_map [of "db_aliases d" a_ID "\<lambda>b. if a_ID b = a_ID a then a\<lparr>a_CreatedAt := a_CreatedAt b\<rparr> else b"] aok(1) by simp
    moreover have "refs_ok a_ProviderID (provider_ids d) ?rows"
      by (rule refs_ok_map) (use aok prov in \<open>auto simp: prov_def has_provider_def provider_ids_def\<close>)
    ultimately show ?thesis unfolding d' by (intro db_ok_frame ok) (simp only: aliases_ok_def)
  next
    case False
    then show ?thesis using st ok by (simp add: update_alias_def)
  qed
qed

lemma keeps_delete_alias: "keeps db_ok (delete_alias i)"
  by (rule keepsI) (auto simp: delete_alias_def intro!: db_ok_frame tables_ok_filter db_ok_tables)

lemma keeps_insert_key: "keeps db_ok (insert_key k)"
  by (rule keepsI) (auto simp: insert_key_def split: if_splits intro!: db_ok_frame tables_ok_snoc dest: db_ok_tables(5))

lemma keeps_update_keys: "(\<And>k. k_ID (f k) = k_ID k) \<Longrightarrow> (\<And>k. k_KeyHash (f k) = k_KeyHash k) \<Longrightarrow> keeps db_ok (update_keys i f)"
  by (rule keepsI) (auto simp: update_keys_def keys_ok_update intro!: db_ok_frame db_ok_tables)

lemma keeps_delete_key: "keeps db_ok (delete_key i)"
  by (rule keepsI) (auto simp: delete_key_def intro!: db_ok_frame tables_ok_filter db_ok_tables)

lemma keeps_upsert_config: "keeps db_ok (upsert_config k v now)"
proof
  fix d n d'
  assume ok: "db_ok d" and "upsert_config k v now d = Inr (n, d')"
  moreover have "unique_on fst (map (\<lambda>(k', v', t). if k' = k then (k, v, now) else (k', v', t)) rows) \<longleftrightarrow> unique_on fst rows"
    for rows :: "(string \<times> string \<times> time) list"
    by (rule unique_on_map) auto
  ultimately show "db_ok d'"
    using db_ok_tables(6) [OF ok] by (auto simp: upsert_config_def simp del: set_map split: if_splits intro: db_ok_frame(6) [OF ok])
      (auto intro!: db_ok_frame(6) [OF ok])
qed

lemmas keeps_stmts = keeps_update_provider keeps_update_health keeps_upsert_endpoint keeps_enable_endpoint
  keeps_insert_model keeps_insert_model_or_ignore keeps_delete_model keeps_insert_alias keeps_update_alias keeps_delete_alias keeps_insert_key
  keeps_delete_key keeps_upsert_config

lemma db_ok_DeleteProvider: "db_ok d \<Longrightarrow> db_ok (snd (DeleteProvider flt i d))"
  using keeps_run [OF keeps_delete_provider, of d flt 1 "''delete provider''" i]
  by (auto simp: DeleteProvider_def split: option.splits prod.splits sum.splits)



lemma db_ok_ops:
  assumes "db_ok d"
  shows "db_ok (snd (CreateProvider flt p d))" "db_ok (snd (UpdateProvider flt p d))" "db_ok (snd (UpdateProviderHealth flt i h now d))"
    "db_ok (snd (UpdateProviderEndpoint flt ep d))" "db_ok (snd (CreateProviderModel flt m d))" "db_ok (snd (DeleteProviderModel flt i j d))"
    "db_ok (snd (CreateAlias flt a d))" "db_ok (snd (UpdateAlias flt a d))" "db_ok (snd (DeleteAlias flt i d))"
    "db_ok (snd (CreateAPIKey flt k d))" "db_ok (snd (DeleteAPIKey flt i d))" "db_ok (snd (SetConfig flt i v now d))"
  unfolding CreateProvider_def UpdateProvider_def Let_def UpdateProviderHealth_def UpdateProviderEndpoint_def
    CreateProviderModel_def DeleteProviderModel_def CreateAlias_def UpdateAlias_def DeleteAlias_def CreateAPIKey_def DeleteAPIKey_def SetConfig_def
  by (intro db_ok_run keeps_stmts keeps_insert_provider cb_row_ok_columns NormalizeCircuitBreaker_ok assms)+

lemma db_ok_update_ops:
  assumes "db_ok d"
  shows "db_ok (snd (UpdateProviderModelAvailability flt i j b d))" "db_ok (snd (UpdateProviderModelCosts flt i m d))"
    "db_ok (snd (UpdateAPIKey flt k d))" "db_ok (snd (TouchAPIKeyLastUsed flt i now d))"
  unfolding UpdateProviderModelAvailability_def UpdateProviderModelCosts_def UpdateAPIKey_def TouchAPIKeyLastUsed_def
  by (intro db_ok_run keeps_update_models keeps_update_keys assms; simp add: model_key_def)+

lemma db_ok_tx_ops:
  assumes "db_ok d"
  shows "db_ok (snd (UpsertProviderEndpoints flt i eps d))" "db_ok (snd (SyncProviderModels flt uuids now i mids d))"
    "db_ok (snd (SetProviderModelsAvailability flt i mids d))"
  unfolding UpsertProviderEndpoints_def SyncProviderModels_def SetProviderModelsAvailability_def
  by (rule db_ok_run(4) [OF _ assms]; auto simp: list_all_iff model_key_def intro!: keeps_stmts keeps_update_models)+

lemmas db_ok_intros [inv_intros] = db_ok_ops db_ok_update_ops db_ok_tx_ops db_ok_DeleteProvider


section \<open>What the operations mean for the look-ups\<close>

lemma filter_key_append: "key r \<noteq> k \<Longrightarrow> filter (\<lambda>x. key x = k) (rows @ [r]) = filter (\<lambda>x. key x = k) rows"
  by simp

text \<open>
  Registering a provider. \<open>CreateProvider\<close> succeeds exactly if the database does not fail and neither the
  identifier nor the base URL is taken. Then the provider is found under its identifier with the
  breaker settings brought into range and every other field as given, the other providers are
  found as before, and on any error nothing has changed.
\<close>
theorem provider_roundtrip:
  "let (res, d') = CreateProvider flt p d
   in (res = Inr () \<longleftrightarrow> flt 0 = None \<and> p_ID p \<notin> provider_ids d \<and> p_BaseURL p \<notin> pr_base_url ` set (db_providers d)) \<and>
      (if res = Inr ()
       then GetProvider no_fault (p_ID p) d' = Inr (NormalizeCircuitBreaker p) \<and>
            (\<forall>i. i = p_ID p \<or> GetProvider no_fault i d' = GetProvider no_fault i d)
       else d' = d)"
proof -
  let ?r = "provider_columns (NormalizeCircuitBreaker p)"
  have ids: "pr_id ?r = p_ID p" "pr_base_url ?r = p_BaseURL p"
    by (simp_all add: provider_columns_def NormalizeCircuitBreaker_frame)
  have none: "filter (\<lambda>r. pr_id r = p_ID p) (db_providers d) = []" if "p_ID p \<notin> provider_ids d"
    using that by (auto simp: provider_ids_def filter_empty_conv) (metis imageI)
  show ?thesis
  proof (cases "flt 0 = None \<and> p_ID p \<notin> provider_ids d \<and> p_BaseURL p \<notin> pr_base_url ` set (db_providers d)")
    case True
    then have "CreateProvider flt p d = (Inr (), d\<lparr>db_providers := db_providers d @ [?r]\<rparr>)"
      by (simp add: CreateProvider_def exec_def run_stmt_def insert_provider_def ids provider_ids_def)
    then show ?thesis using True none
      by (simp add: GetProvider_def query_row_def no_fault_def ids)
  next
    case False
    then have "\<exists>e. CreateProvider flt p d = (Inl e, d)"
      by (auto simp: CreateProvider_def exec_def run_stmt_def insert_provider_def ids provider_ids_def split: option.splits)
    with False show ?thesis by auto
  qed
qed

text \<open>
  Deleting a provider. If \<open>DeleteProvider\<close> succeeds, the provider is gone, and with it exactly the
  endpoints, models and aliases that refer to it; the request logs that name it stay, and so
  does everything else. If it fails, nothing has changed.
\<close>
theorem delete_cascades:
  assumes "db_ok d"
  shows "let (res, d') = DeleteProvider flt i d
    in if res = Inr ()
       then i \<in> provider_ids d \<and> provider_ids d' = provider_ids d - {i} \<and>
            db_endpoints d' = filter (\<lambda>e. e_ProviderID e \<noteq> i) (db_endpoints d) \<and>
            db_models d' = filter (\<lambda>m. m_ProviderID m \<noteq> i) (db_models d) \<and>
            db_aliases d' = filter (\<lambda>a. a_ProviderID a \<noteq> i) (db_aliases d) \<and>
            db_request_logs d' = db_request_logs d \<and> db_api_keys d' = db_api_keys d \<and> db_config d' = db_config d \<and> db_ok d'
       else d' = d"
proof (cases "fst (DeleteProvider flt i d) = Inr ()")
  case True
  then have d': "DeleteProvider flt i d = (Inr (), effect (delete_provider i) d)" and "filter (\<lambda>r. pr_id r = i) (db_providers d) \<noteq> []"
    by (auto simp: DeleteProvider_def run_stmt_def delete_provider_def effect_def split: option.splits if_splits)
  then have "i \<in> provider_ids d" by (auto simp: provider_ids_def filter_empty_conv)
  moreover have "provider_ids (effect (delete_provider i) d) = provider_ids d - {i}"
    by (auto simp: effect_def delete_provider_def provider_ids_def)
  moreover have "db_ok (effect (delete_provider i) d)" using db_ok_DeleteProvider [OF assms, of flt i] d' by simp
  ultimately show ?thesis by (simp add: d') (simp add: effect_def delete_provider_def)
next
  case False
  then have "snd (DeleteProvider flt i d) = d"
    by (auto simp: DeleteProvider_def split: option.splits sum.splits prod.splits if_splits)
  with False show ?thesis by (cases "DeleteProvider flt i d") auto
qed

lemma fold_update_models:
  "db_models (fold (\<lambda>(ctx, st). effect st) (map (\<lambda>mid. (c mid, update_models (P mid) f)) mids) d) =
   fold (\<lambda>mid. map (\<lambda>m. if P mid m then f m else m)) mids (db_models d)"
  by (induction mids arbitrary: d) (simp_all add: effect_def update_models_def)

lemma fold_map_commute: "fold (\<lambda>x. map (g x)) xs rows = map (\<lambda>r. fold (\<lambda>x. g x) xs r) rows"
  by (induction xs arbitrary: rows) simp_all

lemma fold_enable:
  "fold (\<lambda>mid m. if m_ProviderID m = pid \<and> m_ModelID m = mid then m\<lparr>m_IsAvailable := True\<rparr> else m) mids m =
   (if m_ProviderID m = pid \<and> m_ModelID m \<in> set mids then m\<lparr>m_IsAvailable := True\<rparr> else m)"
  by (induction mids arbitrary: m) auto

text \<open>
  The models a provider offers. If \<open>SetProviderModelsAvailability\<close> succeeds, exactly the named
  models of the provider are available, the empty name apart, and nothing else about any model
  has changed; if any of its statements fails, no model has.
\<close>
theorem availability_exact:
  "let (res, d') = SetProviderModelsAvailability flt pid mids d
   in db_models d' =
      (if res = Inr ()
       then map (\<lambda>m. if m_ProviderID m = pid then m\<lparr>m_IsAvailable := (m_ModelID m \<in> set mids \<and> m_ModelID m \<noteq> '''')\<rparr> else m) (db_models d)
       else db_models d)"
proof -
  let ?sts = "(''set provider models availability clear'', update_models (\<lambda>m. m_ProviderID m = pid) (\<lambda>m. m\<lparr>m_IsAvailable := False\<rparr>)) #
        map (\<lambda>mid. (''set provider models availability enable'',
               update_models (\<lambda>m. m_ProviderID m = pid \<and> m_ModelID m = mid) (\<lambda>m. m\<lparr>m_IsAvailable := True\<rparr>)))
          (filter (\<lambda>mid. mid \<noteq> '''') mids)"
  have "db_models (fold (\<lambda>(ctx, st). effect st) ?sts d) =
      map (\<lambda>m. if m_ProviderID m = pid then m\<lparr>m_IsAvailable := (m_ModelID m \<in> set mids \<and> m_ModelID m \<noteq> '''')\<rparr> else m) (db_models d)"
    by (simp add: fold_update_models) (simp add: effect_def update_models_def fold_map_commute fold_enable)
  then show ?thesis
    using transaction_effect [of flt "''set provider models availability''" ?sts d]
      transaction_atomic [of flt "''set provider models availability''" ?sts d]
    by (cases "SetProviderModelsAvailability flt pid mids d"; cases "fst (SetProviderModelsAvailability flt pid mids d)")
      (auto simp: SetProviderModelsAvailability_def)
qed


definition listed_models :: "string \<Rightarrow> ProviderModel list \<Rightarrow> string set" where
  "listed_models pid ms = {m_ModelID m | m. m \<in> set ms \<and> m_ProviderID m = pid}"

lemma listed_models_key: "mid \<in> listed_models pid ms \<longleftrightarrow> (pid, mid) \<in> model_key ` set ms"
  by (auto simp: listed_models_def model_key_def image_iff)

lemma listed_models_snoc [simp]:
  "listed_models pid (ms @ [m]) = listed_models pid ms \<union> (if m_ProviderID m = pid then {m_ModelID m} else {})"
  by (auto simp: listed_models_def)

lemma insert_model_or_ignore_cases:
  assumes "insert_model_or_ignore m d = Inr (n, d')" and "m_ID m \<notin> m_ID ` set (db_models d)"
  shows "db_models d' = db_models d @ (if m_ModelID m \<in> listed_models (m_ProviderID m) (db_models d) then [] else [m])"
  using assms by (auto simp: insert_model_or_ignore_def insert_model_def listed_models_key model_key_def split: if_splits)

lemma sync_loop:
  assumes "tx_stmts flt j (map (\<lambda>(i, mid). (c, insert_model_or_ignore (new_model (uuids i) pid mid now))) (enumerate k mids)) d = Inr d'"
    and "inj uuids" and "\<forall>i \<ge> k. uuids i \<notin> m_ID ` set (db_models d)"
  shows "\<exists>new. db_models d' = db_models d @ new \<and> (\<forall>m \<in> set new. \<exists>i. m = new_model (uuids i) pid (m_ModelID m) now) \<and>
    distinct (map m_ModelID new) \<and> m_ModelID ` set new = set mids - listed_models pid (db_models d)"
  using assms
proof (induction mids arbitrary: j k d)
  case (Cons mid mids)
  let ?m = "new_model (uuids k) pid mid now" and ?c = "mid \<in> listed_models pid (db_models d)"
  obtain n d1 where st: "insert_model_or_ignore ?m d = Inr (n, d1)"
    and rest: "tx_stmts flt (Suc j) (map (\<lambda>(i, mid). (c, insert_model_or_ignore (new_model (uuids i) pid mid now))) (enumerate (Suc k) mids)) d1 = Inr d'"
    using Cons.prems(1) by (auto split: prod.splits sum.splits dest!: run_stmt_effect)
  have m: "m_ID ?m = uuids k" "m_ProviderID ?m = pid" "m_ModelID ?m = mid" by (simp_all add: new_model_def)
  have d1: "db_models d1 = db_models d @ (if ?c then [] else [?m])"
    using insert_model_or_ignore_cases [OF st] Cons.prems(3) m by auto
  have "\<forall>i \<ge> Suc k. uuids i \<notin> m_ID ` set (db_models d1)"
    using Cons.prems(2,3) m(1) by (auto simp: d1 inj_def) (metis Suc_n_not_le_n)
  then obtain new where new: "db_models d' = db_models d1 @ new" "\<forall>x \<in> set new. \<exists>i. x = new_model (uuids i) pid (m_ModelID x) now"
    "distinct (map m_ModelID new)" "m_ModelID ` set new = set mids - listed_models pid (db_models d1)"
    using Cons.IH [OF rest Cons.prems(2)] by blast
  have "distinct (map m_ModelID ((if ?c then [] else [?m]) @ new))" using new(3,4) m by (auto simp: d1)
  moreover have "m_ModelID ` set ((if ?c then [] else [?m]) @ new) = set (mid # mids) - listed_models pid (db_models d)"
    using new(4) m by (auto simp: d1)
  ultimately show ?case
    using new(1,2) m(3) by (intro exI [of _ "(if ?c then [] else [?m]) @ new"]) (auto simp: d1)
qed simp

text \<open>
  Synchronising a provider's models. If \<open>SyncProviderModels\<close> succeeds, the names not yet listed
  for the provider have each been added once, as unavailable models without a price, and no
  existing record has changed or gone; if it fails, nothing has changed. The identifiers
  drawn are assumed new: one that is taken would drop its model without an error.
\<close>
theorem sync_adds_missing:
  assumes "inj uuids" and "\<forall>i. uuids i \<notin> m_ID ` set (db_models d)"
  shows "let (res, d') = SyncProviderModels flt uuids now pid mids d
    in if res = Inr ()
       then \<exists>new. db_models d' = db_models d @ new \<and> (\<forall>m \<in> set new. \<exists>i. m = new_model (uuids i) pid (m_ModelID m) now) \<and>
              distinct (map m_ModelID new) \<and> m_ModelID ` set new = set mids - {''''} - listed_models pid (db_models d)
       else d' = d"
proof -
  let ?sts = "map (\<lambda>(i, mid). (''sync provider models insert'', insert_model_or_ignore (new_model (uuids i) pid mid now)))
      (enumerate 0 (filter (\<lambda>mid. mid \<noteq> '''') mids))"
  have mids: "set (filter (\<lambda>mid. mid \<noteq> '''') mids) = set mids - {''''}" by auto
  show ?thesis
  proof (cases "fst (SyncProviderModels flt uuids now pid mids d) = Inr ()")
    case True
    then obtain d' where d': "SyncProviderModels flt uuids now pid mids d = (Inr (), d')" and tx: "tx_stmts flt 1 ?sts d = Inr d'"
      by (auto simp: SyncProviderModels_def transaction_def split: option.splits sum.splits)
    from sync_loop [OF tx assms(1)] assms(2) show ?thesis unfolding mids d' by simp
  next
    case False
    then have "snd (SyncProviderModels flt uuids now pid mids d) = d"
      unfolding SyncProviderModels_def by (auto simp: transaction_def split: option.splits sum.splits)
    with False show ?thesis by (cases "SyncProviderModels flt uuids now pid mids d") auto
  qed
qed

section \<open>A small database\<close>

definition sample_provider :: Provider where
  "sample_provider = \<lparr>p_ID = ''p'', p_Name = ''local'', p_BaseURL = ''http://a'', p_APIKey = '''', p_IsHealthy = True,
     p_HealthCheckedAt = None, p_CreatedAt = 0, p_UpdatedAt = 0, p_CBEnabled = True, p_CBErrorThreshold = 0,
     p_CBWindowSeconds = 0, p_CBCooldownSeconds = 0\<rparr>"

definition sample_db :: db where
  "sample_db = snd (SyncProviderModels no_fault show_nat 0 ''p'' [''gpt''] (snd (CreateProvider no_fault sample_provider empty_db)))"

lemma sample_db_ok: "db_ok sample_db"
  unfolding sample_db_def by (intro inv_intros db_ok_empty)

theorem delete_cascades_witness:
  "let (res, d') = DeleteProvider no_fault ''p'' sample_db in res = Inr () \<and> db_models sample_db \<noteq> [] \<and> db_models d' = [] \<and> db_ok d'"
proof -
  have "fst (DeleteProvider no_fault ''p'' sample_db) = Inr ()" "length (db_models sample_db) = 1"
    "filter (\<lambda>m. m_ProviderID m \<noteq> ''p'') (db_models sample_db) = []" by code_simp+
  moreover from this(1) obtain d' where d': "DeleteProvider no_fault ''p'' sample_db = (Inr (), d')" by (metis prod.collapse)
  ultimately show ?thesis
    using delete_cascades [OF sample_db_ok, of no_fault "''p''"] unfolding d' by (simp del: filter_False) force
qed

theorem sync_adds_missing_witness:
  "\<exists>new. db_models (snd (SyncProviderModels no_fault show_nat 1 ''p'' [''a'', '''', ''b'', ''b''] (snd (CreateProvider no_fault sample_provider empty_db)))) = new \<and>
     distinct (map m_ModelID new) \<and> m_ModelID ` set new = {''a'', ''b''}"
proof -
  let ?d = "snd (CreateProvider no_fault sample_provider empty_db)"
  have 1: "length (db_models ?d) = 0" "fst (SyncProviderModels no_fault show_nat 1 ''p'' [''a'', '''', ''b'', ''b''] ?d) = Inr ()" by code_simp+
  have "inj show_nat" by (rule inj_on_inverseI [of _ read_digits]) (rule read_show_nat)
  then show ?thesis
    using sync_adds_missing [of show_nat ?d no_fault 1 "''p''" "[''a'', '''', ''b'', ''b'']"] 1
    by (auto simp: case_prod_beta Let_def listed_models_def)
qed

end
