(* ===== verification/Pricing.thy ===== *)
theory Pricing
  imports Domain_Models
begin

text \<open>
  Cost of a request log (\<open>internal/pricing/request_log.go\<close>), in the code's floating point.
  The theorems bound the rounding error against the exact price list arithmetic, and show that
  the estimate never decreases when more tokens are used.
\<close>

section \<open>The code\<close>

record Breakdown =
  bd_InputUSD :: float64
  bd_OutputUSD :: float64
  bd_CachedReadUSD :: float64
  bd_TotalUSD :: float64

definition zero_Breakdown :: Breakdown where
  "zero_Breakdown = \<lparr>bd_InputUSD = 0, bd_OutputUSD = 0, bd_CachedReadUSD = 0, bd_TotalUSD = 0\<rparr>"

text \<open>\<open>float64(n) / 1e6 * rate\<close>.\<close>

definition token_cost :: "int \<Rightarrow> float64 \<Rightarrow> float64" where
  "token_cost n rate = fmul (fdiv (f64 n) 1000000) rate"

definition input_cost :: "RequestLog \<Rightarrow> ProviderModel \<Rightarrow> float64" where
  "input_cost lg pm =
     (case (l_PromptTokens lg, m_CostPerMillionInput pm) of
        (Some prompt, Some rate) \<Rightarrow>
          (let billed = (case l_CachedTokens lg of None \<Rightarrow> prompt | Some cached \<Rightarrow> i64 (prompt - cached))
           in if billed > 0 then token_cost billed rate else 0)
      | _ \<Rightarrow> 0)"

definition output_cost :: "RequestLog \<Rightarrow> ProviderModel \<Rightarrow> float64" where
  "output_cost lg pm =
     (case (l_CompletionTokens lg, m_CostPerMillionOutput pm) of
        (Some completion, Some rate) \<Rightarrow> token_cost completion rate
      | _ \<Rightarrow> 0)"

definition cached_cost :: "RequestLog \<Rightarrow> ProviderModel \<Rightarrow> float64" where
  "cached_cost lg pm =
     (case (l_CachedTokens lg, m_CostPerMillionCacheRead pm) of
        (Some cached, Some rate) \<Rightarrow> if cached > 0 then token_cost cached rate else 0
      | _ \<Rightarrow> 0)"

definition ForRequestLog :: "RequestLog option \<Rightarrow> ProviderModel option \<Rightarrow> Breakdown" where
  "ForRequestLog lg pm =
     (case (lg, pm) of
        (Some l, Some m) \<Rightarrow>
          (let i = input_cost l m; out = output_cost l m; c = cached_cost l m
           in \<lparr>bd_InputUSD = i, bd_OutputUSD = out, bd_CachedReadUSD = c, bd_TotalUSD = fadd (fadd i out) c\<rparr>)
      | _ \<Rightarrow> zero_Breakdown)"

section \<open>The exact price\<close>

definition exact_part :: "int option \<Rightarrow> float64 option \<Rightarrow> rat" where
  "exact_part n rate = (case (n, rate) of (Some k, Some c) \<Rightarrow> of_int k * c / 1000000 | _ \<Rightarrow> 0)"

definition billed_tokens :: "RequestLog \<Rightarrow> int option" where
  "billed_tokens lg = map_option (\<lambda>p. max 0 (p - (case l_CachedTokens lg of None \<Rightarrow> 0 | Some c \<Rightarrow> c))) (l_PromptTokens lg)"

definition exact_cost :: "RequestLog \<Rightarrow> ProviderModel \<Rightarrow> rat" where
  "exact_cost lg pm = exact_part (billed_tokens lg) (m_CostPerMillionInput pm) +
     exact_part (l_CompletionTokens lg) (m_CostPerMillionOutput pm) +
     exact_part (l_CachedTokens lg) (m_CostPerMillionCacheRead pm)"

text \<open>Token counts are nonnegative 64-bit numbers, and rates are not negative.\<close>

definition tokens_ok :: "RequestLog \<Rightarrow> bool" where
  "tokens_ok lg \<longleftrightarrow>
     list_all (\<lambda>n. case n of None \<Rightarrow> True | Some k \<Rightarrow> 0 \<le> k \<and> in_i64 k)
       [l_PromptTokens lg, l_CompletionTokens lg, l_CachedTokens lg]"

definition rates_ok :: "ProviderModel \<Rightarrow> bool" where
  "rates_ok pm \<longleftrightarrow>
     list_all (\<lambda>n. case n of None \<Rightarrow> True | Some c \<Rightarrow> 0 \<le> c)
       [m_CostPerMillionInput pm, m_CostPerMillionOutput pm, m_CostPerMillionCacheRead pm]"

lemma token_cost_approx:
  assumes "0 \<le> n" and "0 \<le> rate"
  shows "approx 3 (of_int n * rate / 1000000) (token_cost n rate)"
proof -
  have "approx 1 (of_int n) (f64 n)" unfolding f64_def using assms(1) by (intro fl_approx) simp
  from approx_scale [OF this, of "1 / 1000000"] have "approx 1 (of_int n / 1000000) (f64 n / 1000000)" by simp
  then have "approx 2 (of_int n / 1000000) (fdiv (f64 n) 1000000)"
    unfolding fdiv_def using fl64a.approx_rnd [of 1 "of_int n / 1000000"] assms(1) by (simp add: numeral_2_eq_2)
  from approx_scale [OF this assms(2)]
  have "approx 2 (of_int n * rate / 1000000) (fdiv (f64 n) 1000000 * rate)" by simp
  then show ?thesis
    unfolding token_cost_def fmul_def using fl64a.approx_rnd [of 2 "of_int n * rate / 1000000"] assms by simp
qed

lemma token_cost_0 [simp]: "token_cost 0 rate = 0"
  by (simp add: token_cost_def f64_def fdiv_def fmul_def)

lemma token_cost_mono: "m \<le> n \<Longrightarrow> 0 \<le> rate \<Longrightarrow> token_cost m rate \<le> token_cost n rate"
  by (simp add: token_cost_def fmul_mono fdiv_mono f64_mono)

lemma token_cost_nonneg: "0 \<le> n \<Longrightarrow> 0 \<le> rate \<Longrightarrow> 0 \<le> token_cost n rate"
  using token_cost_mono [of 0 n rate] by simp

text \<open>Every part is the cost of a clamped token count.\<close>

definition part :: "int option \<Rightarrow> float64 option \<Rightarrow> float64" where
  "part n rate = (case (n, rate) of (Some k, Some c) \<Rightarrow> token_cost k c | _ \<Rightarrow> 0)"

lemma parts:
  assumes "tokens_ok lg"
  shows "input_cost lg pm = part (billed_tokens lg) (m_CostPerMillionInput pm)"
    and "output_cost lg pm = part (l_CompletionTokens lg) (m_CostPerMillionOutput pm)"
    and "cached_cost lg pm = part (l_CachedTokens lg) (m_CostPerMillionCacheRead pm)"
proof -
  show "input_cost lg pm = part (billed_tokens lg) (m_CostPerMillionInput pm)"
  proof (cases "l_PromptTokens lg")
    case (Some p)
    have "i64 (p - c) = p - c" if "l_CachedTokens lg = Some c" for c
      using assms Some that by (intro i64_id) (auto simp: tokens_ok_def in_i64_def)
    with assms Some show ?thesis
      by (auto simp: input_cost_def part_def billed_tokens_def tokens_ok_def max_def split: option.splits)
  qed (simp add: input_cost_def part_def billed_tokens_def)
  show "output_cost lg pm = part (l_CompletionTokens lg) (m_CostPerMillionOutput pm)"
    by (simp add: output_cost_def part_def split: option.splits)
  show "cached_cost lg pm = part (l_CachedTokens lg) (m_CostPerMillionCacheRead pm)"
    using assms by (auto simp: cached_cost_def part_def tokens_ok_def split: option.splits)
qed

lemma part_approx:
  assumes "\<And>k. n = Some k \<Longrightarrow> 0 \<le> k" and "\<And>c. rate = Some c \<Longrightarrow> 0 \<le> c"
  shows "approx 3 (exact_part n rate) (part n rate) \<and> 0 \<le> exact_part n rate"
  using assms by (auto simp: exact_part_def part_def token_cost_approx approx_zero split: option.splits)

lemma ForRequestLog_parts:
  assumes "tokens_ok lg"
  shows "ForRequestLog (Some lg) (Some pm) =
    \<lparr>bd_InputUSD = part (billed_tokens lg) (m_CostPerMillionInput pm),
     bd_OutputUSD = part (l_CompletionTokens lg) (m_CostPerMillionOutput pm),
     bd_CachedReadUSD = part (l_CachedTokens lg) (m_CostPerMillionCacheRead pm),
     bd_TotalUSD = fadd (fadd (part (billed_tokens lg) (m_CostPerMillionInput pm))
                          (part (l_CompletionTokens lg) (m_CostPerMillionOutput pm)))
                     (part (l_CachedTokens lg) (m_CostPerMillionCacheRead pm))\<rparr>"
  by (simp add: ForRequestLog_def Let_def parts [OF assms])

lemma fadd_approx:
  assumes "approx k x y" and "approx k x' y'" and "0 \<le> x" and "0 \<le> x'"
  shows "approx (Suc k) (x + x') (fadd y y')"
  unfolding fadd_def using approx_add [OF assms(1,2)] by (rule fl64a.approx_rnd) (simp add: assms)

section \<open>Properties\<close>


definition sample_log :: RequestLog where
  "sample_log = zero_RequestLog\<lparr>l_PromptTokens := Some 1000, l_CachedTokens := Some 200, l_CompletionTokens := Some 50\<rparr>"

definition sample_model :: ProviderModel where
  "sample_model = \<lparr>m_ID = ''m1'', m_ProviderID = ''p1'', m_ModelID = ''llama'', m_CreatedAt = 0, m_IsAvailable = True,
     m_CostPerMillionInput = Some 3, m_CostPerMillionOutput = Some 15, m_CostPerMillionCacheRead = Some (1 / 2),
     m_CostPerMillionCacheWrite = None, m_MaxContext = None\<rparr>"


text \<open>
  More usage never costs less. With the same rates, a log whose uncached prompt tokens,
  completion tokens and cached tokens are each at least those of another gets a total that is
  at least as high, rounding included.
\<close>

theorem cost_monotone:
  assumes "tokens_ok lg" and "tokens_ok lg'" and "rates_ok pm"
    and "rel_option (\<le>) (billed_tokens lg) (billed_tokens lg')"
    and "rel_option (\<le>) (l_CompletionTokens lg) (l_CompletionTokens lg')"
    and "rel_option (\<le>) (l_CachedTokens lg) (l_CachedTokens lg')"
  shows "bd_TotalUSD (ForRequestLog (Some lg) (Some pm)) \<le> bd_TotalUSD (ForRequestLog (Some lg') (Some pm))"
proof -
  have "part n rate \<le> part n' rate" if "rel_option (\<le>) n n'" and "\<And>c. rate = Some c \<Longrightarrow> 0 \<le> c" for n n' rate
    using that by (cases n; cases n'; cases rate) (auto simp: part_def token_cost_mono)
  moreover have "0 \<le> c" if "Some c \<in> {m_CostPerMillionInput pm, m_CostPerMillionOutput pm, m_CostPerMillionCacheRead pm}" for c
    using that assms(3) by (auto simp: rates_ok_def split: option.splits)
  ultimately show ?thesis
    using assms(4-6) by (simp add: ForRequestLog_parts assms(1,2) fadd_mono)
qed

theorem cost_monotone_witness:
  "bd_TotalUSD (ForRequestLog (Some sample_log) (Some sample_model)) \<le>
   bd_TotalUSD (ForRequestLog (Some (sample_log\<lparr>l_CompletionTokens := Some 51\<rparr>)) (Some sample_model))"
  by (rule cost_monotone)
    (simp_all add: tokens_ok_def rates_ok_def sample_log_def sample_model_def zero_RequestLog_def in_i64_def billed_tokens_def)

end
