(* ===== verification/Go_Time.thy ===== *)
theory Go_Time
  imports Go_Strings "HOL-Library.Monad_Syntax"
begin

text \<open>
  What the statistics use of package \<open>time\<close>: truncation to hours and days, and the
  conversion between instants and the texts \<open>2006-01-02T15:00:00\<close> and \<open>2006-01-02\<close> in UTC.
  An instant counts nanoseconds from the first of January of year 1, as \<open>time.Time\<close> does, so
  truncation is division. The calendar is computed by searching: the year is the only one
  whose days contain the day, and the month is found by walking through the year.
\<close>

section \<open>The calendar\<close>

definition day :: duration where
  "day = 24 * hour"

definition leap :: "int \<Rightarrow> bool" where
  "leap y \<longleftrightarrow> y mod 4 = 0 \<and> (y mod 100 \<noteq> 0 \<or> y mod 400 = 0)"

text \<open>Days from the first of January of year 1 to that of year \<open>y\<close>.\<close>

definition days_before_year :: "int \<Rightarrow> int" where
  "days_before_year y = 365 * (y - 1) + (y - 1) div 4 - (y - 1) div 100 + (y - 1) div 400"

definition year_days :: "int \<Rightarrow> int" where
  "year_days y = (if leap y then 366 else 365)"

lemma year_days_split:
  assumes "yd = 365 + p - q + r" and "n = 365 * y + u - v + w" and "u = a + p" and "v = b + q" and "w = c + (r :: int)"
  shows "n = 365 * (y - 1) + a - b + c + yd"
  using assms by simp

lemma days_before_next: "days_before_year (y + 1) = days_before_year y + year_days y"
proof -
  have step: "y div k = (y - 1) div k + (if y mod k = 0 then 1 else 0)" if "1 < k" for k :: int
  proof (cases "y mod k = 0")
    case True
    then have "y - 1 = k * (y div k - 1) + (k - 1)" using mult_div_mod_eq [of k y] by (simp add: algebra_simps)
    then have "(y - 1) div k = y div k - 1" using that by (metis int_div_pos_eq diff_ge_0_iff_ge less_imp_le diff_less_eq less_add_one)
    with True show ?thesis by simp
  next
    case False
    then have "y - 1 = k * (y div k) + (y mod k - 1)" "0 \<le> y mod k - 1" "y mod k - 1 < k"
      using that pos_mod_sign [of k y] pos_mod_bound [of k y] by (auto simp: less_le)
    then have "(y - 1) div k = y div k" by (metis int_div_pos_eq)
    with False show ?thesis by simp
  qed
  have "4 dvd (100 :: int)" "100 dvd (400 :: int)" by (rule dvdI [of _ _ 25], simp) (rule dvdI [of _ _ 4], simp)
  then have "y mod 100 = 0 \<Longrightarrow> y mod 4 = 0" "y mod 400 = 0 \<Longrightarrow> y mod 100 = 0"
    unfolding mod_eq_0_iff_dvd by (blast intro: dvd_trans)+
  then have "year_days y = 365 + (if y mod 4 = 0 then 1 else 0) - (if y mod 100 = 0 then 1 else 0) + (if y mod 400 = 0 then 1 else 0)"
    unfolding year_days_def leap_def by presburger
  moreover have "days_before_year (y + 1) = 365 * y + y div 4 - y div 100 + y div 400"
    by (simp only: days_before_year_def add_diff_cancel_right')
  ultimately show ?thesis unfolding days_before_year_def [of y]
    by (rule year_days_split) (rule step; simp)+
qed

lemma year_days_pos: "0 < year_days y"
  by (simp add: year_days_def)

lemma days_before_year_mono: "y \<le> z \<Longrightarrow> days_before_year y \<le> days_before_year z"
proof (induction z rule: int_ge_induct)
  case (step z)
  then show ?case using days_before_next [of z] year_days_pos [of z] by simp
qed simp

definition month_days :: "int \<Rightarrow> int list" where
  "month_days y = [31, if leap y then 29 else 28, 31, 30, 31, 30, 31, 31, 30, 31, 30, 31]"

text \<open>Walking through the months: the number of the month and the day in it, from the day of the year.\<close>

fun find_month :: "int list \<Rightarrow> int \<Rightarrow> int \<times> int" where
  "find_month [] d = (1, d + 1)"
| "find_month (n # ns) d = (if d < n then (1, d + 1) else let (m, k) = find_month ns (d - n) in (m + 1, k))"

text \<open>Searching the year upwards from a lower bound.\<close>

function find_year :: "int \<Rightarrow> int \<Rightarrow> int" where
  "find_year d y = (if d < days_before_year (y + 1) then y else find_year d (y + 1))"
  by auto
termination
proof (relation "measure (\<lambda>(d, y). nat (d + 366 - days_before_year y))")
  fix d y :: int
  assume "\<not> d < days_before_year (y + 1)"
  then show "((d, y + 1), d, y) \<in> measure (\<lambda>(d, y). nat (d + 366 - days_before_year y))"
    using days_before_next [of y] year_days_pos [of y] by simp
qed simp

declare find_year.simps [simp del]

definition year_of :: "int \<Rightarrow> int" where
  "year_of d = find_year d (d div 366 + 1)"

lemma days_before_year_le: "0 \<le> d \<Longrightarrow> days_before_year (d div 366 + 1) \<le> d"
proof -
  assume d: "0 \<le> d"
  define n where "n = d div 366"
  have "0 \<le> n" "366 * n \<le> d" using d by (auto simp: n_def)
  moreover have "n div 4 - n div 100 + n div 400 \<le> n" using \<open>0 \<le> n\<close> by linarith
  ultimately show ?thesis by (simp add: days_before_year_def flip: n_def)
qed

lemma find_year_spec:
  "days_before_year y \<le> d \<Longrightarrow> days_before_year (find_year d y) \<le> d \<and> d < days_before_year (find_year d y + 1)"
proof (induction d y rule: find_year.induct)
  case (1 d y)
  then show ?case by (subst (1 2) find_year.simps) (auto simp: find_year.simps [of d y])
qed

lemma year_of_spec: "0 \<le> d \<Longrightarrow> days_before_year (year_of d) \<le> d \<and> d < days_before_year (year_of d + 1)"
  unfolding year_of_def by (intro find_year_spec days_before_year_le)

lemma year_of_unique:
  assumes "days_before_year y \<le> d" and "d < days_before_year (y + 1)" and "0 \<le> d"
  shows "year_of d = y"
proof (rule ccontr)
  assume "year_of d \<noteq> y"
  then consider "year_of d + 1 \<le> y" | "y + 1 \<le> year_of d" by linarith
  then show False
    using year_of_spec [OF assms(3)] assms(1,2) days_before_year_mono [of "year_of d + 1" y] days_before_year_mono [of "y + 1" "year_of d"]
    by cases auto
qed


lemma find_month_spec:
  "0 \<le> d \<Longrightarrow> d < sum_list ns \<Longrightarrow> find_month ns d = (m, k) \<Longrightarrow>
   1 \<le> m \<and> m \<le> int (length ns) \<and> 1 \<le> k \<and> k \<le> ns ! nat (m - 1) \<and> sum_list (take (nat (m - 1)) ns) + (k - 1) = d"
proof (induction ns arbitrary: d m k)
  case (Cons n ns)
  show ?case
  proof (cases "d < n")
    case True
    with Cons.prems show ?thesis by auto
  next
    case False
    obtain m' k' where mk: "find_month ns (d - n) = (m', k')" by fastforce
    with False Cons.prems have m: "m = m' + 1" "k = k'" by auto
    have "1 \<le> m' \<and> m' \<le> int (length ns) \<and> 1 \<le> k' \<and> k' \<le> ns ! nat (m' - 1) \<and> sum_list (take (nat (m' - 1)) ns) + (k' - 1) = d - n"
      using Cons.prems False by (intro Cons.IH [OF _ _ mk]) auto
    moreover from this have "nat m' = Suc (nat (m' - 1))" by linarith
    ultimately show ?thesis by (simp add: m)
  qed
qed simp

text \<open>The date of a day, counted from the first of January of year 1, and back.\<close>

definition civil :: "int \<Rightarrow> int \<times> int \<times> int" where
  "civil n = (let y = year_of n; (m, d) = find_month (month_days y) (n - days_before_year y) in (y, m, d))"

definition days_of_civil :: "int \<Rightarrow> int \<Rightarrow> int \<Rightarrow> int" where
  "days_of_civil y m d = days_before_year y + sum_list (take (nat (m - 1)) (month_days y)) + (d - 1)"

definition valid_date :: "int \<Rightarrow> int \<Rightarrow> int \<Rightarrow> bool" where
  "valid_date y m d \<longleftrightarrow> 1 \<le> m \<and> m \<le> 12 \<and> 1 \<le> d \<and> d \<le> month_days y ! nat (m - 1)"

lemma sum_month_days: "sum_list (month_days y) = year_days y"
  by (simp add: month_days_def year_days_def)

lemma civil_spec:
  assumes "0 \<le> n" and "civil n = (y, m, d)"
  shows "valid_date y m d \<and> days_of_civil y m d = n \<and> y = year_of n"
proof -
  from assms(2) have y: "y = year_of n" and md: "find_month (month_days y) (n - days_before_year y) = (m, d)"
    by (auto simp: civil_def Let_def split: prod.splits)
  have "0 \<le> n - days_before_year y" "n - days_before_year y < sum_list (month_days y)"
    using year_of_spec [OF assms(1)] days_before_next [of y] by (simp_all add: y sum_month_days)
  from find_month_spec [OF this md] show ?thesis
    by (simp add: valid_date_def days_of_civil_def y) (simp add: month_days_def)
qed

lemma year_of_pos: "0 \<le> n \<Longrightarrow> 1 \<le> year_of n"
  using year_of_spec [of n] days_before_year_mono [of "year_of n + 1" 1] by (force simp: days_before_year_def [of 1])

section \<open>Texts\<close>

definition pad2 :: "int \<Rightarrow> string" where
  "pad2 k = [digit (nat (k div 10)), digit (nat (k mod 10))]"

definition pad4 :: "int \<Rightarrow> string" where
  "pad4 y = (if y < 10000 then pad2 (y div 100) @ pad2 (y mod 100) else Itoa y)"

text \<open>\<open>Format("2006-01-02")\<close> and \<open>Format("2006-01-02T15:00:00")\<close>.\<close>

definition format_day :: "time \<Rightarrow> string" where
  "format_day t = (let (y, m, d) = civil (t div day) in pad4 y @ ''-'' @ pad2 m @ ''-'' @ pad2 d)"

definition format_hour :: "time \<Rightarrow> string" where
  "format_hour t = format_day t @ ''T'' @ pad2 (t mod day div hour) @ '':00:00''"

text \<open>\<open>Truncate\<close> rounds down to a multiple of the duration since the zero time.\<close>

definition Truncate :: "time \<Rightarrow> duration \<Rightarrow> time" where
  "Truncate t d = t - t mod d"

text \<open>
  \<open>time.Parse("2006-01-02T15:00:00", s)\<close>: four digits of the year, two of month and day, one or
  two of the hour; the other characters stand for themselves.
\<close>

definition getnum2 :: "string \<Rightarrow> (int \<times> string) option" where
  "getnum2 s = (case s of a # b # r \<Rightarrow> if is_digit a \<and> is_digit b then Some (10 * int (digit_val a) + int (digit_val b), r) else None
     | _ \<Rightarrow> None)"

definition getnum1 :: "string \<Rightarrow> (int \<times> string) option" where
  "getnum1 s = (case s of
       [] \<Rightarrow> None
     | a # r \<Rightarrow> if \<not> is_digit a then None
                else if r \<noteq> [] \<and> is_digit (hd r) then getnum2 s else Some (int (digit_val a), r))"

definition literal :: "string \<Rightarrow> string \<Rightarrow> string option" where
  "literal p s = (if HasPrefix s p then Some (drop (length p) s) else None)"

definition parse_hour :: "string \<Rightarrow> time option" where
  "parse_hour s = do {
     (c, s) \<leftarrow> getnum2 s;
     (y, s) \<leftarrow> getnum2 s;
     s \<leftarrow> literal ''-'' s;
     (m, s) \<leftarrow> getnum2 s;
     s \<leftarrow> literal ''-'' s;
     (d, s) \<leftarrow> getnum2 s;
     s \<leftarrow> literal ''T'' s;
     (h, s) \<leftarrow> getnum1 s;
     s \<leftarrow> literal '':00:00'' s;
     if s = '''' \<and> valid_date (100 * c + y) m d \<and> h < 24 then Some (days_of_civil (100 * c + y) m d * day + h * hour) else None
   }"

section \<open>Round trip\<close>

lemma getnum2_pad2 [simp]: "0 \<le> k \<Longrightarrow> k < 100 \<Longrightarrow> getnum2 (pad2 k @ r) = Some (k, r)"
  by (simp add: getnum2_def pad2_def nat_less_iff) linarith

lemma getnum1_pad2 [simp]: "0 \<le> k \<Longrightarrow> k < 100 \<Longrightarrow> getnum1 (pad2 k @ r) = Some (k, r)"
  using getnum2_pad2 [of k r] by (simp add: getnum1_def pad2_def nat_less_iff)

lemma literal_append [simp]: "literal p (p @ r) = Some r"
  by (simp add: literal_def HasPrefix_def)

lemma literal_one [simp]: "literal [c] (c # r) = Some r"
  by (simp add: literal_def HasPrefix_def)

lemma literal_all [simp]: "literal p p = Some []"
  by (simp add: literal_def HasPrefix_def)

lemma valid_date_bounds: "valid_date y m d \<Longrightarrow> 1 \<le> m \<and> m \<le> 12 \<and> 1 \<le> d \<and> d \<le> 31"
proof -
  assume v: "valid_date y m d"
  then have "nat (m - 1) < length (month_days y)" by (auto simp: valid_date_def month_days_def)
  then have "month_days y ! nat (m - 1) \<in> set (month_days y)" by simp
  then have "month_days y ! nat (m - 1) \<le> 31" by (auto simp: month_days_def split: if_splits)
  with v show ?thesis by (auto simp: valid_date_def)
qed

lemma day_hours: "t mod day div hour < 24" "0 \<le> t mod day div hour" "(t div day) * day + (t mod day div hour) * hour = Truncate t hour"
proof -
  have pos: "0 < hour" "0 < day" "day = 24 * hour" by (simp_all add: hour_def second_def day_def)
  show "0 \<le> t mod day div hour" using pos by (simp add: pos_imp_zdiv_nonneg_iff)
  have "t mod day < 24 * hour" using pos_mod_bound [OF pos(2), of t] pos(3) by simp
  moreover have "(t mod day div hour) * hour \<le> t mod day"
    using div_mult_mod_eq [of "t mod day" hour] pos_mod_sign [OF pos(1), of "t mod day"] by linarith
  ultimately have "(t mod day div hour) * hour < 24 * hour" by linarith
  then show "t mod day div hour < 24" using pos(1) by simp
  have "hour dvd day" unfolding pos(3) by simp
  then have "t mod day mod hour = t mod hour" by (rule mod_mod_cancel)
  then have "(t mod day div hour) * hour = t mod day - t mod hour" by (metis minus_mod_eq_div_mult)
  then show "(t div day) * day + (t mod day div hour) * hour = Truncate t hour"
    using div_mult_mod_eq [of t day] by (simp add: Truncate_def)
qed

theorem parse_format_hour:
  assumes "0 \<le> t" and "year_of (t div day) < 10000"
  shows "parse_hour (format_hour t) = Some (Truncate t hour)"
proof -
  obtain y m d where c: "civil (t div day) = (y, m, d)" using prod_cases3 by blast
  have n: "0 \<le> t div day" using assms(1) by (simp add: day_def hour_def second_def pos_imp_zdiv_nonneg_iff)
  from civil_spec [OF n c] have v: "valid_date y m d" "days_of_civil y m d = t div day" "y < 10000" "1 \<le> y"
    using assms(2) year_of_pos [OF n] by auto
  note b = valid_date_bounds [OF v(1)]
  have y: "0 \<le> y div 100" "y div 100 < 100" "0 \<le> y mod 100" "y mod 100 < 100" using v(3,4) by auto
  have "format_hour t = pad2 (y div 100) @ pad2 (y mod 100) @ ''-'' @ pad2 m @ ''-'' @ pad2 d @ ''T'' @ pad2 (t mod day div hour) @ '':00:00'' @ []"
    using v(3) by (simp add: format_hour_def format_day_def c pad4_def)
  then show ?thesis
    using b y v(1,2) day_hours [of t] by (simp add: parse_hour_def)
qed

lemma Truncate_Truncate [simp]: "Truncate (Truncate t d) d = Truncate t d"
  by (simp add: Truncate_def minus_mod_eq_mult_div)

lemma Truncate_nonneg: "0 \<le> t \<Longrightarrow> 0 < d \<Longrightarrow> 0 \<le> Truncate t d"
  by (simp add: Truncate_def zmod_le_nonneg_dividend)

lemma hour_pos [simp]: "0 < hour" and day_pos [simp]: "0 < day"
  by (simp_all add: hour_def second_def day_def)

lemma Truncate_hour_day: "Truncate t hour div day = t div day"
proof (rule int_div_pos_eq)
  show "Truncate t hour = day * (t div day) + (t mod day div hour) * hour" using day_hours(3) [of t] by (simp add: mult.commute)
  show "0 \<le> (t mod day div hour) * hour" by (simp add: day_hours(2) less_imp_le)
  have "(t mod day div hour) * hour \<le> t mod day"
    using div_mult_mod_eq [of "t mod day" hour] pos_mod_sign [OF hour_pos, of "t mod day"] by linarith
  also have "\<dots> < day" by simp
  finally show "(t mod day div hour) * hour < day" .
qed

end
