(* ===== verification/Stats_Accumulator.thy ===== *)
theory Stats_Accumulator
  imports Pricing Go_Time "HOL-Library.AList"
begin

text \<open>
  The in-memory statistics of \<open>internal/stats/accumulator.go\<close>: one bucket per hour, filled log by
  log, read out as a dashboard and as time series, and filled from the store at start. Go maps are
  association lists in the order in which a \<open>range\<close> visits them; integers are 64 bits wide and
  wrap, prices and averages are rounded. The mutex makes every operation atomic.
\<close>

section \<open>Rows\<close>

record ModelStats =
  ms_Model :: string
  ms_RequestCount :: int
  ms_AvgLatencyMs :: float64
  ms_ErrorCount :: int
  ms_TotalTokens :: int

record ProviderStats =
  ps_ProviderID :: string
  ps_ProviderName :: string
  ps_RequestCount :: int
  ps_AvgLatencyMs :: float64
  ps_ErrorCount :: int

record APIKeyStats =
  ks_APIKeyID :: string
  ks_APIKeyName :: string
  ks_RequestCount :: int
  ks_AvgLatencyMs :: float64
  ks_ErrorCount :: int
  ks_TotalTokens :: int

record TimeSeriesPoint =
  tp_Bucket :: string
  tp_Requests :: int
  tp_SuccessCount :: int
  tp_ErrorCount :: int
  tp_InputTokens :: int
  tp_PromptTokens :: int
  tp_CompletionTokens :: int
  tp_TotalTokens :: int
  tp_CachedTokens :: int
  tp_TotalCostUSD :: float64
  tp_InputCostUSD :: float64
  tp_OutputCostUSD :: float64
  tp_CachedCostUSD :: float64

record DashboardStats =
  ds_TotalRequests :: int
  ds_AvgLatencyMs :: float64
  ds_ErrorRate :: float64
  ds_ByModel :: "ModelStats list"
  ds_ByProvider :: "ProviderStats list"
  ds_ByAPIKey :: "APIKeyStats list"

record bucketStats =
  bs_requests :: int
  bs_successCount :: int
  bs_errorCount :: int
  bs_latencySumMs :: int
  bs_inputTokens :: int
  bs_promptTokens :: int
  bs_completionTokens :: int
  bs_totalTokens :: int
  bs_cachedTokens :: int
  bs_totalCostUSD :: float64
  bs_inputCostUSD :: float64
  bs_outputCostUSD :: float64
  bs_cachedCostUSD :: float64
  bs_byModel :: "(string \<times> ModelStats) list"
  bs_byProvider :: "(string \<times> ProviderStats) list"
  bs_byAPIKey :: "(string \<times> APIKeyStats) list"

definition zero_bucket :: bucketStats where
  "zero_bucket = \<lparr>bs_requests = 0, bs_successCount = 0, bs_errorCount = 0, bs_latencySumMs = 0, bs_inputTokens = 0,
     bs_promptTokens = 0, bs_completionTokens = 0, bs_totalTokens = 0, bs_cachedTokens = 0, bs_totalCostUSD = 0,
     bs_inputCostUSD = 0, bs_outputCostUSD = 0, bs_cachedCostUSD = 0, bs_byModel = [], bs_byProvider = [], bs_byAPIKey = []\<rparr>"

record Accumulator =
  ac_hourly :: "(string \<times> bucketStats) list"
  ac_backfilling :: bool

definition retentionDays :: int where
  "retentionDays = 90"

definition NewAccumulator :: Accumulator where
  "NewAccumulator = \<lparr>ac_hourly = [], ac_backfilling = False\<rparr>"

definition Backfilling :: "Accumulator \<Rightarrow> bool" where
  "Backfilling a = ac_backfilling a"

definition hourBucketKey :: "time \<Rightarrow> string" where
  "hourBucketKey t = format_hour (Truncate t hour)"

definition weightedAvg :: "float64 \<Rightarrow> int \<Rightarrow> float64 \<Rightarrow> int \<Rightarrow> float64" where
  "weightedAvg a aCount b bCount =
     (let total = i64 (aCount + bCount)
      in if total = 0 then 0 else fdiv (fadd (fmul a (f64 aCount)) (fmul b (f64 bCount))) (f64 total))"

section \<open>Recording\<close>

definition num :: "int option \<Rightarrow> int" where
  "num n = (case n of None \<Rightarrow> 0 | Some k \<Rightarrow> k)"

definition is_success :: "RequestLog \<Rightarrow> bool" where
  "is_success lg \<longleftrightarrow> l_StatusCode lg \<ge> 200 \<and> l_StatusCode lg < 300"

definition is_error :: "RequestLog \<Rightarrow> bool" where
  "is_error lg \<longleftrightarrow> l_StatusCode lg \<ge> 400"

definition bump_model :: "RequestLog \<Rightarrow> (string \<times> ModelStats) list \<Rightarrow> (string \<times> ModelStats) list" where
  "bump_model lg m =
     (let modelName = (if l_ResolvedModel lg = '''' then l_RequestedModel lg else l_ResolvedModel lg);
          ms = (case map_of m modelName of
                  None \<Rightarrow> \<lparr>ms_Model = modelName, ms_RequestCount = 0, ms_AvgLatencyMs = 0, ms_ErrorCount = 0, ms_TotalTokens = 0\<rparr>
                | Some ms \<Rightarrow> ms);
          n = i64 (ms_RequestCount ms + 1)
      in AList.update modelName
           (ms\<lparr>ms_RequestCount := n,
               ms_AvgLatencyMs := weightedAvg (ms_AvgLatencyMs ms) (i64 (n - 1)) (f64 (l_TotalTimeMs lg)) 1,
               ms_ErrorCount := (if is_error lg then i64 (ms_ErrorCount ms + 1) else ms_ErrorCount ms),
               ms_TotalTokens := i64 (ms_TotalTokens ms + num (l_TotalTokens lg))\<rparr>) m)"

definition bump_provider :: "RequestLog \<Rightarrow> (string \<times> ProviderStats) list \<Rightarrow> (string \<times> ProviderStats) list" where
  "bump_provider lg m =
     (let pid = l_ProviderID lg;
          ps = (case map_of m pid of
                  None \<Rightarrow> \<lparr>ps_ProviderID = pid, ps_ProviderName = l_ProviderName lg, ps_RequestCount = 0, ps_AvgLatencyMs = 0, ps_ErrorCount = 0\<rparr>
                | Some ps \<Rightarrow> ps);
          n = i64 (ps_RequestCount ps + 1)
      in AList.update pid
           (ps\<lparr>ps_RequestCount := n,
               ps_AvgLatencyMs := weightedAvg (ps_AvgLatencyMs ps) (i64 (n - 1)) (f64 (l_TotalTimeMs lg)) 1,
               ps_ErrorCount := (if is_error lg then i64 (ps_ErrorCount ps + 1) else ps_ErrorCount ps)\<rparr>) m)"

definition bump_key :: "RequestLog \<Rightarrow> (string \<times> APIKeyStats) list \<Rightarrow> (string \<times> APIKeyStats) list" where
  "bump_key lg m =
     (let keyID = l_APIKeyID lg;
          keyName = (if keyID = '''' then ''No API key'' else if l_APIKeyName lg = '''' then keyID else l_APIKeyName lg);
          ks = (case map_of m keyID of
                  None \<Rightarrow> \<lparr>ks_APIKeyID = keyID, ks_APIKeyName = keyName, ks_RequestCount = 0, ks_AvgLatencyMs = 0, ks_ErrorCount = 0, ks_TotalTokens = 0\<rparr>
                | Some ks \<Rightarrow> ks);
          n = i64 (ks_RequestCount ks + 1)
      in AList.update keyID
           (ks\<lparr>ks_RequestCount := n,
               ks_AvgLatencyMs := weightedAvg (ks_AvgLatencyMs ks) (i64 (n - 1)) (f64 (l_TotalTimeMs lg)) 1,
               ks_ErrorCount := (if is_error lg then i64 (ks_ErrorCount ks + 1) else ks_ErrorCount ks),
               ks_TotalTokens := i64 (ks_TotalTokens ks + num (l_TotalTokens lg))\<rparr>) m)"

definition applyLog :: "bucketStats \<Rightarrow> RequestLog \<Rightarrow> Breakdown \<Rightarrow> bucketStats" where
  "applyLog b lg costs =
     \<lparr>bs_requests = i64 (bs_requests b + 1),
      bs_successCount = (if is_success lg then i64 (bs_successCount b + 1) else bs_successCount b),
      bs_errorCount = (if is_error lg then i64 (bs_errorCount b + 1) else bs_errorCount b),
      bs_latencySumMs = i64 (bs_latencySumMs b + l_TotalTimeMs lg),
      bs_inputTokens = (case l_PromptTokens lg of
           None \<Rightarrow> bs_inputTokens b
         | Some p \<Rightarrow> i64 (bs_inputTokens b + max 0 (i64 (p - num (l_CachedTokens lg))))),
      bs_promptTokens = i64 (bs_promptTokens b + num (l_PromptTokens lg)),
      bs_completionTokens = i64 (bs_completionTokens b + num (l_CompletionTokens lg)),
      bs_totalTokens = i64 (bs_totalTokens b + num (l_TotalTokens lg)),
      bs_cachedTokens = i64 (bs_cachedTokens b + num (l_CachedTokens lg)),
      bs_totalCostUSD = fadd (bs_totalCostUSD b) (bd_TotalUSD costs),
      bs_inputCostUSD = fadd (bs_inputCostUSD b) (bd_InputUSD costs),
      bs_outputCostUSD = fadd (bs_outputCostUSD b) (bd_OutputUSD costs),
      bs_cachedCostUSD = fadd (bs_cachedCostUSD b) (bd_CachedReadUSD costs),
      bs_byModel = bump_model lg (bs_byModel b),
      bs_byProvider = bump_provider lg (bs_byProvider b),
      bs_byAPIKey = bump_key lg (bs_byAPIKey b)\<rparr>"

definition ensureBucket :: "Accumulator \<Rightarrow> string \<Rightarrow> bucketStats \<times> Accumulator" where
  "ensureBucket a key =
     (case map_of (ac_hourly a) key of
        Some b \<Rightarrow> (b, a)
      | None \<Rightarrow> (zero_bucket, a\<lparr>ac_hourly := AList.update key zero_bucket (ac_hourly a)\<rparr>))"

definition pruneLocked :: "Accumulator \<Rightarrow> time \<Rightarrow> Accumulator" where
  "pruneLocked a cutoff =
     a\<lparr>ac_hourly := filter (\<lambda>(key, b). case parse_hour key of None \<Rightarrow> True | Some t \<Rightarrow> \<not> t < cutoff) (ac_hourly a)\<rparr>"

definition Record :: "Accumulator \<Rightarrow> RequestLog option \<Rightarrow> ProviderModel option \<Rightarrow> time \<Rightarrow> Accumulator" where
  "Record a lg pm now =
     (case lg of
        None \<Rightarrow> a
      | Some l \<Rightarrow>
          (let b = ForRequestLog (Some l) pm;
               key = hourBucketKey (l_Timestamp l);
               (bkt, a1) = ensureBucket a key;
               a2 = a1\<lparr>ac_hourly := AList.update key (applyLog bkt l b) (ac_hourly a1)\<rparr>
           in pruneLocked a2 (now - retentionDays * 24 * hour)))"

section \<open>Reading\<close>

definition merge_model :: "string \<times> ModelStats \<Rightarrow> (string \<times> ModelStats) list \<Rightarrow> (string \<times> ModelStats) list" where
  "merge_model x agg =
     (case x of (m, ms) \<Rightarrow>
        (case map_of agg m of
           None \<Rightarrow> AList.update m ms agg
         | Some cur \<Rightarrow>
             (let n = i64 (ms_RequestCount cur + ms_RequestCount ms)
              in AList.update m
                   (cur\<lparr>ms_RequestCount := n, ms_ErrorCount := i64 (ms_ErrorCount cur + ms_ErrorCount ms),
                        ms_TotalTokens := i64 (ms_TotalTokens cur + ms_TotalTokens ms),
                        ms_AvgLatencyMs := weightedAvg (ms_AvgLatencyMs cur) (i64 (n - ms_RequestCount ms)) (ms_AvgLatencyMs ms) (ms_RequestCount ms)\<rparr>)
                   agg)))"

definition merge_provider :: "string \<times> ProviderStats \<Rightarrow> (string \<times> ProviderStats) list \<Rightarrow> (string \<times> ProviderStats) list" where
  "merge_provider x agg =
     (case x of (m, ps) \<Rightarrow>
        (case map_of agg m of
           None \<Rightarrow> AList.update m ps agg
         | Some cur \<Rightarrow>
             (let n = i64 (ps_RequestCount cur + ps_RequestCount ps)
              in AList.update m
                   (cur\<lparr>ps_RequestCount := n, ps_ErrorCount := i64 (ps_ErrorCount cur + ps_ErrorCount ps),
                        ps_AvgLatencyMs := weightedAvg (ps_AvgLatencyMs cur) (i64 (n - ps_RequestCount ps)) (ps_AvgLatencyMs ps) (ps_RequestCount ps)\<rparr>)
                   agg)))"

definition merge_key :: "string \<times> APIKeyStats \<Rightarrow> (string \<times> APIKeyStats) list \<Rightarrow> (string \<times> APIKeyStats) list" where
  "merge_key x agg =
     (case x of (m, ks) \<Rightarrow>
        (case map_of agg m of
           None \<Rightarrow> AList.update m ks agg
         | Some cur \<Rightarrow>
             (let n = i64 (ks_RequestCount cur + ks_RequestCount ks)
              in AList.update m
                   (cur\<lparr>ks_RequestCount := n, ks_ErrorCount := i64 (ks_ErrorCount cur + ks_ErrorCount ks),
                        ks_TotalTokens := i64 (ks_TotalTokens cur + ks_TotalTokens ks),
                        ks_AvgLatencyMs := weightedAvg (ks_AvgLatencyMs cur) (i64 (n - ks_RequestCount ks)) (ks_AvgLatencyMs ks) (ks_RequestCount ks)\<rparr>)
                   agg)))"

text \<open>The buckets that begin at or after an instant, in the order \<open>ho\<close> in which the map is visited.\<close>

definition buckets_since :: "Accumulator \<Rightarrow> nat list \<Rightarrow> time \<Rightarrow> bucketStats list" where
  "buckets_since a ho since =
     map snd (filter (\<lambda>(key, b). case parse_hour key of None \<Rightarrow> False | Some t \<Rightarrow> \<not> t < since) (shuffle ho (ac_hourly a)))"

text \<open>
  \<open>o1\<close>, \<open>o2\<close> and \<open>o3\<close> stand for the order in which the aggregated maps are visited and sorted. The tables
  of one bucket hold each key once, so the order in which they are visited reaches the result only there.
\<close>

definition Accumulator_DashboardStats :: "Accumulator \<Rightarrow> nat list \<Rightarrow> nat list \<Rightarrow> nat list \<Rightarrow> nat list \<Rightarrow> time \<Rightarrow> DashboardStats" where
  "Accumulator_DashboardStats a ho o1 o2 o3 since =
     (let bs = buckets_since a ho since;
          total = fold (\<lambda>b n. i64 (n + bs_requests b)) bs 0;
          latencySum = fold (\<lambda>b n. i64 (n + bs_latencySumMs b)) bs 0;
          errors = fold (\<lambda>b n. i64 (n + bs_errorCount b)) bs 0;
          modelAgg = fold (\<lambda>b. fold merge_model (bs_byModel b)) bs [];
          provAgg = fold (\<lambda>b. fold merge_provider (bs_byProvider b)) bs [];
          keyAgg = fold (\<lambda>b. fold merge_key (bs_byAPIKey b)) bs []
      in \<lparr>ds_TotalRequests = total,
          ds_AvgLatencyMs = (if total > 0 then fdiv (f64 latencySum) (f64 total) else 0),
          ds_ErrorRate = (if total > 0 then fdiv (f64 errors) (f64 total) else 0),
          ds_ByModel = sort_slice o1 (\<lambda>m. - ms_RequestCount m) (map snd modelAgg),
          ds_ByProvider = sort_slice o2 (\<lambda>p. - ps_RequestCount p) (map snd provAgg),
          ds_ByAPIKey = sort_slice o3 (\<lambda>k. - ks_RequestCount k) (map snd keyAgg)\<rparr>)"

definition empty_point :: "string \<Rightarrow> TimeSeriesPoint" where
  "empty_point key = \<lparr>tp_Bucket = key, tp_Requests = 0, tp_SuccessCount = 0, tp_ErrorCount = 0, tp_InputTokens = 0, tp_PromptTokens = 0,
     tp_CompletionTokens = 0, tp_TotalTokens = 0, tp_CachedTokens = 0, tp_TotalCostUSD = 0, tp_InputCostUSD = 0, tp_OutputCostUSD = 0,
     tp_CachedCostUSD = 0\<rparr>"

definition pointFromBucket :: "Accumulator \<Rightarrow> string \<Rightarrow> TimeSeriesPoint" where
  "pointFromBucket a key =
     (case map_of (ac_hourly a) key of
        None \<Rightarrow> empty_point key
      | Some b \<Rightarrow>
          \<lparr>tp_Bucket = key, tp_Requests = bs_requests b, tp_SuccessCount = bs_successCount b, tp_ErrorCount = bs_errorCount b,
           tp_InputTokens = bs_inputTokens b, tp_PromptTokens = bs_promptTokens b, tp_CompletionTokens = bs_completionTokens b,
           tp_TotalTokens = bs_totalTokens b, tp_CachedTokens = bs_cachedTokens b, tp_TotalCostUSD = bs_totalCostUSD b,
           tp_InputCostUSD = bs_inputCostUSD b, tp_OutputCostUSD = bs_outputCostUSD b, tp_CachedCostUSD = bs_cachedCostUSD b\<rparr>)"

definition add_to_point :: "bucketStats \<Rightarrow> TimeSeriesPoint \<Rightarrow> TimeSeriesPoint" where
  "add_to_point b p =
     p\<lparr>tp_Requests := i64 (tp_Requests p + bs_requests b), tp_SuccessCount := i64 (tp_SuccessCount p + bs_successCount b),
       tp_ErrorCount := i64 (tp_ErrorCount p + bs_errorCount b), tp_InputTokens := i64 (tp_InputTokens p + bs_inputTokens b),
       tp_PromptTokens := i64 (tp_PromptTokens p + bs_promptTokens b), tp_CompletionTokens := i64 (tp_CompletionTokens p + bs_completionTokens b),
       tp_TotalTokens := i64 (tp_TotalTokens p + bs_totalTokens b), tp_CachedTokens := i64 (tp_CachedTokens p + bs_cachedTokens b),
       tp_TotalCostUSD := fadd (tp_TotalCostUSD p) (bs_totalCostUSD b), tp_InputCostUSD := fadd (tp_InputCostUSD p) (bs_inputCostUSD b),
       tp_OutputCostUSD := fadd (tp_OutputCostUSD p) (bs_outputCostUSD b), tp_CachedCostUSD := fadd (tp_CachedCostUSD p) (bs_cachedCostUSD b)\<rparr>"

definition aggregateDay :: "Accumulator \<Rightarrow> nat list \<Rightarrow> string \<Rightarrow> TimeSeriesPoint" where
  "aggregateDay a ho dayKey =
     fold (\<lambda>(key, b) p. if length key < 10 \<or> take 10 key \<noteq> dayKey then p else add_to_point b p) (shuffle ho (ac_hourly a)) (empty_point dayKey)"

text \<open>The instants of a series, from the truncated start in steps of \<open>d\<close> while not after the end.\<close>

definition series :: "time \<Rightarrow> time \<Rightarrow> duration \<Rightarrow> time list" where
  "series since until d = map (\<lambda>i. Truncate since d + int i * d) [0..<nat ((until - Truncate since d) div d + 1)]"

definition TimeSeries :: "Accumulator \<Rightarrow> (time \<Rightarrow> nat list) \<Rightarrow> time \<Rightarrow> time \<Rightarrow> string \<Rightarrow> TimeSeriesPoint list" where
  "TimeSeries a ho since until granularity =
     (if granularity = ''hour'' then map (\<lambda>t. pointFromBucket a (format_hour t)) (series since until hour)
      else if granularity = ''day'' then map (\<lambda>t. aggregateDay a (ho t) (format_day t)) (series since until day)
      else [])"

text \<open>
  Filling from the store, page by page. A page is what \<open>QueryRequestLogs\<close> returns for an offset, or
  an error (of the store or of the cancelled context); the clock is read anew for each log;
  \<open>fuel\<close> bounds the pages, and \<open>None\<close> means that it did not suffice. The result says whether the
  whole log was read.
\<close>

definition page_size :: nat where
  "page_size = 500"

definition cost_of :: "(string \<Rightarrow> string \<Rightarrow> ProviderModel option) option \<Rightarrow> RequestLog \<Rightarrow> ProviderModel option" where
  "cost_of costs l = (case costs of None \<Rightarrow> None | Some f \<Rightarrow> f (l_ProviderID l) (l_ResolvedModel l))"

fun backfill_loop ::
  "(nat \<Rightarrow> string + RequestLog list) \<Rightarrow> (string \<Rightarrow> string \<Rightarrow> ProviderModel option) option \<Rightarrow> (nat \<Rightarrow> time) \<Rightarrow> nat \<Rightarrow> nat \<Rightarrow> Accumulator \<Rightarrow>
   (bool \<times> Accumulator) option" where
  "backfill_loop query costs clock offset 0 a = None"
| "backfill_loop query costs clock offset (Suc fuel) a =
     (case query offset of
        Inl err \<Rightarrow> Some (False, a)
      | Inr lgs \<Rightarrow>
          (if lgs = [] then Some (True, a)
           else
             (let a1 = fold (\<lambda>(i, l) a. Record a (Some l) (cost_of costs l) (clock i)) (enumerate offset lgs) a
              in if length lgs < page_size then Some (True, a1)
                 else backfill_loop query costs clock (offset + page_size) fuel a1)))"

definition Backfill ::
  "(nat \<Rightarrow> string + RequestLog list) \<Rightarrow> (string \<Rightarrow> string \<Rightarrow> ProviderModel option) option \<Rightarrow> (nat \<Rightarrow> time) \<Rightarrow> nat \<Rightarrow> Accumulator \<Rightarrow>
   (bool \<times> Accumulator) option" where
  "Backfill query costs clock fuel a =
     map_option (\<lambda>(done, a'). (done, a'\<lparr>ac_backfilling := False\<rparr>))
       (backfill_loop query costs clock 0 fuel (a\<lparr>ac_backfilling := True\<rparr>))"


section \<open>Counters\<close>

lemma i64_add_right [simp]: "i64 (x + i64 y) = i64 (x + y)"
  using i64_add_left [of y x] by (simp add: add.commute)

lemma i64_diff_right [simp]: "i64 (x - i64 y) = i64 (x - y)"
proof -
  have "i64 (x - i64 y) = (x + 2 ^ 63 + 2 ^ 63 - (y + 2 ^ 63) mod 2 ^ 64) mod 2 ^ 64 - 2 ^ 63"
    by (simp add: i64_def algebra_simps)
  also have "\<dots> = (x + 2 ^ 63 + 2 ^ 63 - (y + 2 ^ 63)) mod 2 ^ 64 - 2 ^ 63" by (simp only: mod_diff_right_eq)
  finally show ?thesis by (simp add: i64_def algebra_simps)
qed

lemma i64_diff_left [simp]: "i64 (i64 x - y) = i64 (x - y)"
  using i64_add_left [of x "- y"] by simp

lemma i64_0 [simp]: "i64 0 = 0" and i64_1 [simp]: "i64 1 = 1"
  by (simp_all add: i64_id in_i64_def)

text \<open>A counter that every step adds to, wrapping.\<close>

lemma fold_counter:
  assumes "\<And>x s. i64 (f s) = f s \<Longrightarrow> f (g x s) = i64 (f s + w x)" and "i64 (f s) = f s"
  shows "f (fold g xs s) = i64 (f s + sum_list (map w xs))"
  using assms(2)
proof (induction xs arbitrary: s)
  case (Cons x xs)
  then show ?case using assms(1) [OF Cons.prems] by (simp add: add.assoc)
qed simp

text \<open>Tables of counters: what \<open>byModel\<close>, \<open>byProvider\<close> and \<open>byAPIKey\<close> have in common.\<close>

definition count_at :: "('v \<Rightarrow> int) \<Rightarrow> (string \<times> 'v) list \<Rightarrow> string \<Rightarrow> int" where
  "count_at cnt m k = (case map_of m k of None \<Rightarrow> 0 | Some v \<Rightarrow> cnt v)"

definition table_total :: "('v \<Rightarrow> int) \<Rightarrow> (string \<times> 'v) list \<Rightarrow> int" where
  "table_total cnt m = sum_list (map (cnt \<circ> snd) m)"

lemma table_total_update: "table_total cnt (AList.update k v m) = table_total cnt m - count_at cnt m k + cnt v"
  by (induction m) (auto simp: table_total_def count_at_def)

lemma table_total_simps [simp]: "table_total cnt [] = 0" "table_total cnt ((k, v) # m) = cnt v + table_total cnt m"
  by (simp_all add: table_total_def)

locale counter_table =
  fixes cnt :: "'v \<Rightarrow> int" and key :: "'l \<Rightarrow> string"
    and bump :: "'l \<Rightarrow> (string \<times> 'v) list \<Rightarrow> (string \<times> 'v) list"
    and merge :: "string \<times> 'v \<Rightarrow> (string \<times> 'v) list \<Rightarrow> (string \<times> 'v) list"
  assumes bump_law: "\<exists>v. bump l m = AList.update (key l) v m \<and> cnt v = i64 (count_at cnt m (key l) + 1)"
    and merge_law: "\<exists>v. merge (k, x) m = AList.update k v m \<and> i64 (cnt v) = i64 (count_at cnt m k + cnt x)"
begin

lemma total_bump: "i64 (table_total cnt (bump l m)) = i64 (table_total cnt m + 1)"
proof -
  obtain v where v: "bump l m = AList.update (key l) v m" "cnt v = i64 (count_at cnt m (key l) + 1)"
    using bump_law by blast
  show ?thesis by (simp add: v table_total_update)
qed

lemma total_merge: "i64 (table_total cnt (merge (k, x) m)) = i64 (table_total cnt m + cnt x)"
proof -
  obtain v where v: "merge (k, x) m = AList.update k v m" "i64 (cnt v) = i64 (count_at cnt m k + cnt x)"
    using merge_law by blast
  have "i64 (table_total cnt (merge (k, x) m)) = i64 (table_total cnt m - count_at cnt m k + i64 (cnt v))"
    by (simp add: v(1) table_total_update)
  then show ?thesis by (simp add: v(2))
qed

lemma total_merge_all: "i64 (table_total cnt (fold merge xs m)) = i64 (table_total cnt m + table_total cnt xs)"
proof (induction xs arbitrary: m)
  case (Cons x xs)
  obtain k v where x: "x = (k, v)" by fastforce
  have "i64 (table_total cnt (fold merge (x # xs) m)) = i64 (i64 (table_total cnt (merge x m)) + table_total cnt xs)"
    using Cons [of "merge x m"] by simp
  then show ?case by (simp add: x total_merge add.assoc)
qed simp

text \<open>Merging the tables of many buckets adds up their totals.\<close>

lemma total_merge_buckets:
  "i64 (table_total cnt (fold (\<lambda>b. fold merge (tab b)) bs m)) = i64 (table_total cnt m + sum_list (map (\<lambda>b. table_total cnt (tab b)) bs))"
proof (induction bs arbitrary: m)
  case (Cons b bs)
  then show ?case using total_merge_all [of "tab b" m] by (simp add: add.assoc) (metis i64_add_left add.assoc)
qed simp

end

definition model_name :: "RequestLog \<Rightarrow> string" where
  "model_name lg = (if l_ResolvedModel lg = '''' then l_RequestedModel lg else l_ResolvedModel lg)"

interpretation tm: counter_table ms_RequestCount model_name bump_model merge_model
  by unfold_locales
    (auto simp: bump_model_def merge_model_def model_name_def count_at_def Let_def split: option.split)

interpretation tp: counter_table ps_RequestCount l_ProviderID bump_provider merge_provider
  by unfold_locales (auto simp: bump_provider_def merge_provider_def count_at_def Let_def split: option.split)

interpretation tk: counter_table ks_RequestCount l_APIKeyID bump_key merge_key
  by unfold_locales (auto simp: bump_key_def merge_key_def count_at_def Let_def split: option.split)


section \<open>The invariant of the accumulator\<close>

text \<open>In every bucket each of the three tables accounts for all requests.\<close>

definition bucket_ok :: "bucketStats \<Rightarrow> bool" where
  "bucket_ok b \<longleftrightarrow> i64 (table_total ms_RequestCount (bs_byModel b)) = bs_requests b \<and>
     i64 (table_total ps_RequestCount (bs_byProvider b)) = bs_requests b \<and>
     i64 (table_total ks_RequestCount (bs_byAPIKey b)) = bs_requests b"

definition acc_ok :: "Accumulator \<Rightarrow> bool" where
  "acc_ok a \<longleftrightarrow> list_all (\<lambda>(key, b). bucket_ok b) (ac_hourly a)"

lemma bucket_ok_zero [inv_intros]: "bucket_ok zero_bucket"
  by (simp add: bucket_ok_def zero_bucket_def)

lemma bucket_ok_apply [inv_intros]: "bucket_ok b \<Longrightarrow> bucket_ok (applyLog b lg costs)"
  by (auto simp: bucket_ok_def applyLog_def tm.total_bump tp.total_bump tk.total_bump)
    (metis i64_add_left)+

lemma list_all_update: "list_all P al \<Longrightarrow> P (k, v) \<Longrightarrow> list_all P (AList.update k v al)"
  by (induction al) auto

lemma acc_ok_lookup: "acc_ok a \<Longrightarrow> map_of (ac_hourly a) key = Some b \<Longrightarrow> bucket_ok b"
  by (auto simp: acc_ok_def list_all_iff dest: map_of_SomeD)

lemma acc_ok_Record [inv_intros]:
  assumes "acc_ok a"
  shows "acc_ok (Record a lg pm now)"
proof (cases lg)
  case (Some l)
  obtain bkt a1 where e: "ensureBucket a (hourBucketKey (l_Timestamp l)) = (bkt, a1)" by fastforce
  have "bucket_ok bkt \<and> acc_ok a1"
  proof (cases "map_of (ac_hourly a) (hourBucketKey (l_Timestamp l))")
    case None
    with e have "bkt = zero_bucket" "a1 = a\<lparr>ac_hourly := AList.update (hourBucketKey (l_Timestamp l)) zero_bucket (ac_hourly a)\<rparr>"
      by (simp_all add: ensureBucket_def)
    then show ?thesis using assms list_all_update [of "\<lambda>(key, b). bucket_ok b" "ac_hourly a"] by (simp add: acc_ok_def inv_intros)
  next
    case (Some b)
    with e assms acc_ok_lookup [OF assms Some] show ?thesis by (simp add: ensureBucket_def)
  qed
  then have "list_all (\<lambda>(key, b). bucket_ok b)
      (AList.update (hourBucketKey (l_Timestamp l)) (applyLog bkt l (ForRequestLog (Some l) pm)) (ac_hourly a1))"
    by (intro list_all_update) (simp_all add: acc_ok_def inv_intros)
  then show ?thesis by (simp add: Record_def Some e acc_ok_def pruneLocked_def list_all_iff)
qed (use assms in \<open>simp add: Record_def\<close>)

inductive acc_reach :: "Accumulator \<Rightarrow> bool" where
  acc_new: "acc_reach NewAccumulator"
| acc_record: "acc_reach a \<Longrightarrow> acc_reach (Record a lg pm now)"
| acc_backfill: "acc_reach a \<Longrightarrow> acc_reach (a\<lparr>ac_backfilling := b\<rparr>)"

lemma acc_reach_ok: "acc_reach a \<Longrightarrow> acc_ok a"
proof (induction rule: acc_reach.induct)
  case acc_new
  show ?case by (simp add: acc_ok_def NewAccumulator_def)
next
  case (acc_backfill a b)
  then show ?case by (simp add: acc_ok_def)
qed (rule acc_ok_Record)

lemma backfill_reach: "backfill_loop query costs clock offset fuel a = Some (done, a') \<Longrightarrow> acc_reach a \<Longrightarrow> acc_reach a'"
proof (induction query costs clock offset fuel a rule: backfill_loop.induct)
  case (2 query costs clock offset fuel a)
  have "acc_reach (fold (\<lambda>(i, l) a. Record a (Some l) (cost_of costs l) (clock i)) xs a)" if "acc_reach a" for xs a
    using that by (induction xs arbitrary: a) (auto intro: acc_record)
  with 2 show ?case by (auto simp: Let_def split: sum.splits if_splits)
qed simp

lemma sum_buckets: "\<forall>b \<in> set bs. i64 (f b) = g b \<Longrightarrow> i64 (sum_list (map f bs)) = i64 (sum_list (map g bs))"
proof (induction bs)
  case (Cons b bs)
  have "i64 (sum_list (map f (b # bs))) = i64 (i64 (f b) + i64 (sum_list (map f bs)))" by simp
  with Cons show ?case by simp
qed simp

lemma fold_requests: "fold (\<lambda>b n. i64 (n + bs_requests b)) bs 0 = i64 (sum_list (map bs_requests bs))"
  using fold_counter [of "\<lambda>n. n" "\<lambda>b n. i64 (n + bs_requests b)" bs_requests 0 bs] by simp

lemma sum_sort_slice: "sum_list (map (f :: _ \<Rightarrow> int) (sort_slice o1 key xs)) = sum_list (map f xs)"
proof -
  have "mset (map f (sort_slice o1 key xs)) = mset (map f xs)" by simp
  then show ?thesis by (metis sum_mset_sum_list)
qed

text \<open>
  C29. The dashboard accounts for every request. Whatever was recorded, pruned and backfilled
  before, the requests of the models, those of the providers and those of the API keys each add
  up to the total of the dashboard (as 64-bit numbers).
\<close>
theorem dashboard_conserves:
  assumes "acc_reach a" and "d = Accumulator_DashboardStats a ho o1 o2 o3 since"
  shows "i64 (sum_list (map ms_RequestCount (ds_ByModel d))) = ds_TotalRequests d \<and>
    i64 (sum_list (map ps_RequestCount (ds_ByProvider d))) = ds_TotalRequests d \<and>
    i64 (sum_list (map ks_RequestCount (ds_ByAPIKey d))) = ds_TotalRequests d"
proof -
  let ?bs = "buckets_since a ho since"
  have ok: "\<forall>b \<in> set ?bs. bucket_ok b"
    using acc_reach_ok [OF assms(1)] by (auto simp: acc_ok_def list_all_iff buckets_since_def)
  have total: "ds_TotalRequests d = i64 (sum_list (map bs_requests ?bs))"
    by (simp add: assms(2) Accumulator_DashboardStats_def Let_def fold_requests)
  have "i64 (sum_list (map (\<lambda>b. table_total ms_RequestCount (bs_byModel b)) ?bs)) = ds_TotalRequests d"
    unfolding total by (rule sum_buckets) (use ok in \<open>simp add: bucket_ok_def\<close>)
  moreover have "i64 (sum_list (map (\<lambda>b. table_total ps_RequestCount (bs_byProvider b)) ?bs)) = ds_TotalRequests d"
    unfolding total by (rule sum_buckets) (use ok in \<open>simp add: bucket_ok_def\<close>)
  moreover have "i64 (sum_list (map (\<lambda>b. table_total ks_RequestCount (bs_byAPIKey b)) ?bs)) = ds_TotalRequests d"
    unfolding total by (rule sum_buckets) (use ok in \<open>simp add: bucket_ok_def\<close>)
  ultimately show ?thesis
    using tm.total_merge_buckets [of bs_byModel ?bs "[]"] tp.total_merge_buckets [of bs_byProvider ?bs "[]"]
      tk.total_merge_buckets [of bs_byAPIKey ?bs "[]"]
    by (simp add: assms(2) Accumulator_DashboardStats_def Let_def sum_sort_slice table_total_def)
qed


lemma acc_reach_sample: "acc_reach (Record NewAccumulator (Some zero_RequestLog) None 0)"
  by (intro acc_record acc_new)

theorem dashboard_conserves_witness:
  "let d = Accumulator_DashboardStats (Record NewAccumulator (Some zero_RequestLog) None 0) [] [] [] [] 0
   in i64 (sum_list (map ms_RequestCount (ds_ByModel d))) = ds_TotalRequests d"
  using dashboard_conserves [OF acc_reach_sample refl, of "[]" "[]" "[]" "[]" 0] by (simp add: Let_def)

section \<open>What an hour holds\<close>

text \<open>Instants the keys can express: from year 1 to year 9999.\<close>

definition printable :: "time \<Rightarrow> bool" where
  "printable t \<longleftrightarrow> 0 \<le> t \<and> year_of (t div day) < 10000"

lemma parse_key: "printable t \<Longrightarrow> parse_hour (hourBucketKey t) = Some (Truncate t hour)"
  using parse_format_hour [of "Truncate t hour"] by (simp add: printable_def hourBucketKey_def Truncate_nonneg Truncate_hour_day)

lemma key_eq: "printable t \<Longrightarrow> printable u \<Longrightarrow> hourBucketKey t = hourBucketKey u \<longleftrightarrow> Truncate t hour = Truncate u hour"
  by (metis hourBucketKey_def option.inject parse_key)

text \<open>The bucket that the logs of one hour make, in the order they were recorded.\<close>

definition bucket_of :: "(RequestLog \<times> ProviderModel option) list \<Rightarrow> bucketStats" where
  "bucket_of es = fold (\<lambda>(l, pm) b. applyLog b l (ForRequestLog (Some l) pm)) es zero_bucket"

definition run_records :: "(time \<times> RequestLog \<times> ProviderModel option) list \<Rightarrow> Accumulator" where
  "run_records evs = fold (\<lambda>(now, l, pm) a. Record a (Some l) pm now) evs NewAccumulator"

definition of_hour :: "time \<Rightarrow> (time \<times> RequestLog \<times> ProviderModel option) list \<Rightarrow> (RequestLog \<times> ProviderModel option) list" where
  "of_hour t evs = map snd (filter (\<lambda>(now, l, pm). Truncate (l_Timestamp l) hour = Truncate t hour) evs)"

lemma map_of_filter_key:
  assumes "\<And>b. P (k, b)"
  shows "map_of (filter P al) k = map_of al k"
  using assms by (induction al) auto

lemma map_of_Record:
  assumes "printable t" and "printable (l_Timestamp l)" and "\<not> Truncate t hour < now - retentionDays * 24 * hour"
  shows "map_of (ac_hourly (Record a (Some l) pm now)) (hourBucketKey t) =
    (if Truncate (l_Timestamp l) hour = Truncate t hour
     then Some (applyLog (case map_of (ac_hourly a) (hourBucketKey t) of None \<Rightarrow> zero_bucket | Some b \<Rightarrow> b) l (ForRequestLog (Some l) pm))
     else map_of (ac_hourly a) (hourBucketKey t))"
proof -
  let ?k = "hourBucketKey (l_Timestamp l)" and ?a1 = "snd (ensureBucket a (hourBucketKey (l_Timestamp l)))"
  have keep: "map_of (ac_hourly (pruneLocked b (now - retentionDays * 24 * hour))) (hourBucketKey t) = map_of (ac_hourly b) (hourBucketKey t)" for b
    unfolding pruneLocked_def using assms(3) by (simp, intro map_of_filter_key) (simp add: parse_key [OF assms(1)])
  have "map_of (ac_hourly ?a1) (hourBucketKey t) = (if ?k = hourBucketKey t then Some (fst (ensureBucket a ?k)) else map_of (ac_hourly a) (hourBucketKey t))"
    by (auto simp: ensureBucket_def update_conv split: option.split)
  moreover have "fst (ensureBucket a ?k) = (case map_of (ac_hourly a) ?k of None \<Rightarrow> zero_bucket | Some b \<Rightarrow> b)"
    by (simp add: ensureBucket_def split: option.split)
  ultimately show ?thesis
    using key_eq [OF assms(2,1)] by (auto simp: Record_def Let_def case_prod_beta keep update_conv)
qed

lemma run_records_snoc: "run_records (evs @ [(now, l, pm)]) = Record (run_records evs) (Some l) pm now"
  by (simp add: run_records_def)

lemma bucket_of_snoc: "bucket_of (es @ [(l, pm)]) = applyLog (bucket_of es) l (ForRequestLog (Some l) pm)"
  by (simp add: bucket_of_def)

lemma hour_bucket:
  assumes "printable t" and "\<forall>(now, l, pm) \<in> set evs. printable (l_Timestamp l) \<and> now - retentionDays * 24 * hour \<le> Truncate t hour"
  shows "map_of (ac_hourly (run_records evs)) (hourBucketKey t) = (if of_hour t evs = [] then None else Some (bucket_of (of_hour t evs)))"
  using assms(2)
proof (induction evs rule: rev_induct)
  case Nil
  show ?case by (simp add: run_records_def NewAccumulator_def of_hour_def)
next
  case (snoc e evs)
  obtain now l pm where e: "e = (now, l, pm)" using prod_cases3 by blast
  then have IH: "map_of (ac_hourly (run_records evs)) (hourBucketKey t) = (if of_hour t evs = [] then None else Some (bucket_of (of_hour t evs)))"
    using snoc by auto
  have "of_hour t (evs @ [e]) = of_hour t evs @ (if Truncate (l_Timestamp l) hour = Truncate t hour then [(l, pm)] else [])"
    by (simp add: of_hour_def e)
  moreover have "bucket_of [] = zero_bucket" by (simp add: bucket_of_def)
  ultimately show ?case
    using snoc.prems map_of_Record [OF assms(1), of l now "run_records evs" pm]
    by (auto simp: e run_records_snoc IH bucket_of_snoc)
qed


lemma bucket_of_counter:
  assumes "\<And>b l pm. i64 (f b) = f b \<Longrightarrow> f (applyLog b l (ForRequestLog (Some l) pm)) = i64 (f b + w l)" and "f zero_bucket = 0"
  shows "f (bucket_of es) = i64 (sum_list (map (w \<circ> fst) es))"
  unfolding bucket_of_def
  using fold_counter [of f "\<lambda>(l, pm) b. applyLog b l (ForRequestLog (Some l) pm)" "w \<circ> fst" zero_bucket es] assms
  by (auto simp: case_prod_beta)

lemma sum_indicator: "sum_list (map (\<lambda>x. if P x then 1 else 0) xs) = int (length (filter P xs))"
  by (induction xs) auto

lemma bucket_of_fields:
  "bs_requests (bucket_of es) = i64 (int (length es))"
  "bs_successCount (bucket_of es) = i64 (int (length (filter (is_success \<circ> fst) es)))"
  "bs_errorCount (bucket_of es) = i64 (int (length (filter (is_error \<circ> fst) es)))"
  "bs_promptTokens (bucket_of es) = i64 (sum_list (map (\<lambda>e. num (l_PromptTokens (fst e))) es))"
  "bs_completionTokens (bucket_of es) = i64 (sum_list (map (\<lambda>e. num (l_CompletionTokens (fst e))) es))"
  "bs_totalTokens (bucket_of es) = i64 (sum_list (map (\<lambda>e. num (l_TotalTokens (fst e))) es))"
  "bs_cachedTokens (bucket_of es) = i64 (sum_list (map (\<lambda>e. num (l_CachedTokens (fst e))) es))"
  using bucket_of_counter [of bs_requests "\<lambda>l. 1" es] bucket_of_counter [of bs_successCount "\<lambda>l. if is_success l then 1 else 0" es]
    bucket_of_counter [of bs_errorCount "\<lambda>l. if is_error l then 1 else 0" es] bucket_of_counter [of bs_promptTokens "\<lambda>l. num (l_PromptTokens l)" es]
    bucket_of_counter [of bs_completionTokens "\<lambda>l. num (l_CompletionTokens l)" es] bucket_of_counter [of bs_totalTokens "\<lambda>l. num (l_TotalTokens l)" es]
    bucket_of_counter [of bs_cachedTokens "\<lambda>l. num (l_CachedTokens l)" es]
  by (simp_all add: applyLog_def zero_bucket_def comp_def sum_indicator sum_list_triv)

lemma bucket_of_cost: "bs_totalCostUSD (bucket_of es) = fold (\<lambda>(l, pm) c. fadd c (bd_TotalUSD (ForRequestLog (Some l) pm))) es 0"
proof (induction es rule: rev_induct)
  case Nil
  show ?case by (simp add: bucket_of_def zero_bucket_def)
next
  case (snoc e es)
  then show ?case by (cases e) (simp add: bucket_of_snoc applyLog_def)
qed

text \<open>
  An hour of the time series. However many logs of whatever hours are recorded in whatever
  order, the point of an hour that has not fallen out of the retention of 90 days counts exactly the logs of that
  hour: requests, successes, errors, tokens of each kind (as 64-bit numbers), and their
  prices added up in the order of recording.
\<close>
theorem hourly_point_exact:
  assumes "printable t" and "\<forall>(now, l, pm) \<in> set evs. printable (l_Timestamp l) \<and> now - retentionDays * 24 * hour \<le> Truncate t hour"
    and "p = pointFromBucket (run_records evs) (hourBucketKey t)" and "es = of_hour t evs"
  shows "tp_Bucket p = hourBucketKey t \<and> tp_Requests p = i64 (int (length es)) \<and>
    tp_SuccessCount p = i64 (int (length (filter (is_success \<circ> fst) es))) \<and>
    tp_ErrorCount p = i64 (int (length (filter (is_error \<circ> fst) es))) \<and>
    tp_PromptTokens p = i64 (sum_list (map (\<lambda>e. num (l_PromptTokens (fst e))) es)) \<and>
    tp_CompletionTokens p = i64 (sum_list (map (\<lambda>e. num (l_CompletionTokens (fst e))) es)) \<and>
    tp_TotalTokens p = i64 (sum_list (map (\<lambda>e. num (l_TotalTokens (fst e))) es)) \<and>
    tp_CachedTokens p = i64 (sum_list (map (\<lambda>e. num (l_CachedTokens (fst e))) es)) \<and>
    tp_TotalCostUSD p = fold (\<lambda>(l, pm) c. fadd c (bd_TotalUSD (ForRequestLog (Some l) pm))) es 0"
  using hour_bucket [OF assms(1,2)]
  by (simp add: assms(3,4) pointFromBucket_def empty_point_def bucket_of_fields bucket_of_cost)

definition sample_entry :: "time \<times> RequestLog \<times> ProviderModel option" where
  "sample_entry = (hour, zero_RequestLog\<lparr>l_Timestamp := 5, l_StatusCode := 200, l_PromptTokens := Some 7\<rparr>, None)"

theorem hourly_point_exact_witness:
  "tp_PromptTokens (pointFromBucket (run_records [sample_entry, sample_entry]) (hourBucketKey 0)) = 14"
proof -
  have "printable 0" "printable (l_Timestamp (fst (snd sample_entry)))" by code_simp+
  then have "\<forall>(now, l, pm) \<in> set [sample_entry, sample_entry]. printable (l_Timestamp l) \<and> now - retentionDays * 24 * hour \<le> Truncate 0 hour"
    by (auto simp: sample_entry_def retentionDays_def hour_def second_def Truncate_def)
  moreover have "of_hour 0 [sample_entry, sample_entry] = [snd sample_entry, snd sample_entry]" by code_simp
  ultimately show ?thesis
    using hourly_point_exact [OF \<open>printable 0\<close> _ refl refl, of "[sample_entry, sample_entry]"]
    by (simp add: sample_entry_def num_def i64_id in_i64_def)
qed

section \<open>The backfill\<close>

definition backfill_events ::
  "(string \<Rightarrow> string \<Rightarrow> ProviderModel option) option \<Rightarrow> (nat \<Rightarrow> time) \<Rightarrow> nat \<Rightarrow> RequestLog list \<Rightarrow> (time \<times> RequestLog \<times> ProviderModel option) list" where
  "backfill_events costs clock offset lgs = map (\<lambda>(i, l). (clock i, l, cost_of costs l)) (enumerate offset lgs)"

lemma fold_backfill_events:
  "fold (\<lambda>(i, l) a. Record a (Some l) (cost_of costs l) (clock i)) (enumerate offset lgs) a =
   fold (\<lambda>(now, l, pm) a. Record a (Some l) pm now) (backfill_events costs clock offset lgs) a"
  by (induction lgs arbitrary: offset a) (simp_all add: backfill_events_def)

lemma backfill_events_append:
  "backfill_events costs clock offset (xs @ ys) = backfill_events costs clock offset xs @ backfill_events costs clock (offset + length xs) ys"
  by (simp add: backfill_events_def enumerate_append_eq)

lemma backfill_loop_all:
  assumes "length (drop offset lgs) div page_size < fuel"
  shows "backfill_loop (\<lambda>off. Inr (take page_size (drop off lgs))) costs clock offset fuel a =
    Some (True, fold (\<lambda>(now, l, pm) a. Record a (Some l) pm now) (backfill_events costs clock offset (drop offset lgs)) a)"
  using assms
proof (induction fuel arbitrary: offset a)
  case (Suc fuel)
  let ?rest = "drop offset lgs"
  have ps: "0 < page_size" by (simp add: page_size_def)
  show ?case
  proof (cases "length ?rest < page_size")
    case True
    then show ?thesis using ps by (auto simp: fold_backfill_events backfill_events_def)
  next
    case False
    let ?page = "take page_size ?rest"
    have "length (drop (offset + page_size) lgs) div page_size < fuel"
      using Suc.prems False ps by (simp add: le_div_geq)
    from Suc.IH [OF this] have "backfill_loop (\<lambda>off. Inr (take page_size (drop off lgs))) costs clock offset (Suc fuel) a =
        Some (True, fold (\<lambda>(now, l, pm) a. Record a (Some l) pm now) (backfill_events costs clock (offset + page_size) (drop (offset + page_size) lgs))
          (fold (\<lambda>(now, l, pm) a. Record a (Some l) pm now) (backfill_events costs clock offset ?page) a))"
      using False ps by (auto simp: fold_backfill_events Let_def)
    moreover have "backfill_events costs clock offset ?rest =
        backfill_events costs clock offset ?page @ backfill_events costs clock (offset + page_size) (drop (offset + page_size) lgs)"
    proof -
      have "?rest = ?page @ drop (offset + page_size) lgs" by (simp add: add.commute flip: drop_drop)
      moreover have "length ?page = page_size" using False by simp
      ultimately show ?thesis using backfill_events_append [of costs clock offset ?page "drop (offset + page_size) lgs"] by metis
    qed
    ultimately show ?thesis by simp
  qed
qed simp


lemma hourly_Record: "ac_hourly (Record (a\<lparr>ac_backfilling := x\<rparr>) lg pm now) = ac_hourly (Record a lg pm now)"
  by (cases lg) (auto simp: Record_def ensureBucket_def pruneLocked_def Let_def split: option.split)

lemma Record_cong: "ac_hourly a = ac_hourly b \<Longrightarrow> ac_hourly (Record a lg pm now) = ac_hourly (Record b lg pm now)"
  by (metis (full_types) Accumulator.surjective Accumulator.update_convs(2) hourly_Record old.unit.exhaust)

lemma hourly_fold_Record:
  "ac_hourly a = ac_hourly b \<Longrightarrow>
   ac_hourly (fold (\<lambda>(now, l, pm) a. Record a (Some l) pm now) es a) = ac_hourly (fold (\<lambda>(now, l, pm) a. Record a (Some l) pm now) es b)"
proof (induction es arbitrary: a b)
  case (Cons e es)
  show ?case using Cons.IH [OF Record_cong [OF Cons.prems]] by (cases e) simp
qed simp



end
