(* ===== verification/Store_Logs.thy ===== *)
theory Store_Logs
  imports Store Stats_Accumulator
begin

text \<open>
  The log tables of the store (\<open>sqlite_request_log.go\<close>, \<open>sqlite_streaming_log.go\<close> and the usage
  queries of \<open>sqlite_api_key.go\<close>): inserting and reading request logs and stream chunks, filtered
  pages, usage per API key, and the purges of stored bodies. Sums and averages over REAL columns
  are computed by the database engine in an order of its own, so they are arguments
  (\<open>sumf\<close>, \<open>avgf\<close>); integer sums are exact (the engine reports an error beyond 64 bits).
  At the end the operations of the whole store are put together into its reachable states.
\<close>

section \<open>Request logs\<close>

record LogFilter =
  lf_Model :: string
  lf_ProviderID :: string
  lf_Since :: "time option"
  lf_Until :: "time option"
  lf_StatusMin :: int
  lf_StatusMax :: int
  lf_Limit :: int
  lf_Offset :: int

definition applyRequestLogFields :: "request_logs_row \<Rightarrow> RequestLog \<Rightarrow> RequestLog" where
  "applyRequestLogFields r l = l\<lparr>l_Timestamp := lr_timestamp r, l_CreatedAt := lr_created_at r,
     l_RequestedModel := str_of (lr_requested_model r), l_ResolvedModel := str_of (lr_resolved_model r),
     l_ProviderID := str_of (lr_provider_id r), l_ProviderName := str_of (lr_provider_name r), l_ErrorMessage := str_of (lr_error_message r),
     l_APIKeyID := str_of (lr_api_key_id r), l_APIKeyName := str_of (lr_api_key_name r),
     l_TTFTMs := lr_ttft_ms r, l_PromptTokens := lr_prompt_tokens r, l_CompletionTokens := lr_completion_tokens r,
     l_TotalTokens := lr_total_tokens r, l_CachedTokens := lr_cached_tokens r\<rparr>"

definition scanRequestLog :: "request_logs_row \<Rightarrow> RequestLog" where
  "scanRequestLog r =
     (applyRequestLogFields r (zero_RequestLog\<lparr>l_ID := lr_id r, l_ClientIP := lr_client_ip r, l_Method := lr_method r, l_Path := lr_path r,
        l_StatusCode := lr_status_code r, l_IsStreamed := lr_is_streamed r, l_TotalTimeMs := lr_total_time_ms r\<rparr>))
     \<lparr>l_EstimatedCostUSD := lr_estimated_cost_usd r\<rparr>"

definition scanRequestLogFull :: "request_logs_row \<Rightarrow> RequestLog" where
  "scanRequestLogFull r =
     (applyRequestLogFields r (zero_RequestLog\<lparr>l_ID := lr_id r, l_ClientIP := lr_client_ip r, l_Method := lr_method r, l_Path := lr_path r,
        l_StatusCode := lr_status_code r, l_IsStreamed := lr_is_streamed r, l_TotalTimeMs := lr_total_time_ms r\<rparr>))
     \<lparr>l_EstimatedCostUSD := lr_estimated_cost_usd r, l_RequestBody := str_of (lr_request_body r), l_ResponseBody := str_of (lr_response_body r)\<rparr>"

definition log_columns :: "RequestLog \<Rightarrow> request_logs_row" where
  "log_columns l = \<lparr>lr_id = l_ID l, lr_timestamp = l_Timestamp l, lr_client_ip = l_ClientIP l, lr_method = l_Method l, lr_path = l_Path l,
     lr_requested_model = Some (l_RequestedModel l), lr_resolved_model = Some (l_ResolvedModel l),
     lr_provider_id = Some (l_ProviderID l), lr_provider_name = Some (l_ProviderName l), lr_status_code = l_StatusCode l,
     lr_is_streamed = l_IsStreamed l, lr_ttft_ms = l_TTFTMs l, lr_total_time_ms = l_TotalTimeMs l, lr_prompt_tokens = l_PromptTokens l,
     lr_completion_tokens = l_CompletionTokens l, lr_total_tokens = l_TotalTokens l, lr_cached_tokens = l_CachedTokens l,
     lr_error_message = Some (l_ErrorMessage l), lr_created_at = l_CreatedAt l, lr_estimated_cost_usd = l_EstimatedCostUSD l,
     lr_request_body = Some (l_RequestBody l), lr_response_body = Some (l_ResponseBody l),
     lr_api_key_id = Some (l_APIKeyID l), lr_api_key_name = Some (l_APIKeyName l)\<rparr>"

definition insert_log :: "request_logs_row \<Rightarrow> stmt" where
  "insert_log r d =
     (if lr_id r \<in> set (map lr_id (db_request_logs d)) then Inl (UniqueFailed ''request_logs.id'')
      else Inr (1, d\<lparr>db_request_logs := db_request_logs d @ [r]\<rparr>))"

definition InsertRequestLog :: "fault \<Rightarrow> RequestLog \<Rightarrow> db \<Rightarrow> (store_error + unit) \<times> db" where
  "InsertRequestLog flt l = exec flt ''insert request log'' (insert_log (log_columns l))"

definition GetRequestLog :: "fault \<Rightarrow> string \<Rightarrow> db \<Rightarrow> store_error + RequestLog" where
  "GetRequestLog flt i d = query_row flt 0 ''get request log'' (map scanRequestLogFull (filter (\<lambda>r. lr_id r = i) (db_request_logs d)))"

definition in_range :: "LogFilter \<Rightarrow> request_logs_row \<Rightarrow> bool" where
  "in_range f r \<longleftrightarrow>
     (case lf_Since f of None \<Rightarrow> True | Some t \<Rightarrow> t \<le> lr_timestamp r) \<and>
     (case lf_Until f of None \<Rightarrow> True | Some t \<Rightarrow> lr_timestamp r \<le> t) \<and>
     (if lf_StatusMin f > 0 then lf_StatusMin f \<le> lr_status_code r else True) \<and>
     (if lf_StatusMax f > 0 then lr_status_code r \<le> lf_StatusMax f else True)"

definition log_matches :: "LogFilter \<Rightarrow> request_logs_row \<Rightarrow> bool" where
  "log_matches f r \<longleftrightarrow>
     (if lf_Model f \<noteq> '''' then lr_requested_model r = Some (lf_Model f) else True) \<and>
     (if lf_ProviderID f \<noteq> '''' then lr_provider_id r = Some (lf_ProviderID f) else True) \<and> in_range f r"

text \<open>A page of the logs that satisfy a condition, newest first. The count and the page are two queries.\<close>

definition page_limit :: "LogFilter \<Rightarrow> nat" where
  "page_limit f = nat (if lf_Limit f \<le> 0 then 100 else lf_Limit f)"

definition log_page :: "string \<Rightarrow> fault \<Rightarrow> nat list \<Rightarrow> (request_logs_row \<Rightarrow> bool) \<Rightarrow> LogFilter \<Rightarrow> db \<Rightarrow> db \<Rightarrow> store_error + RequestLog list \<times> int" where
  "log_page ctx flt ks P f d0 d1 =
     (case query_row flt 0 (ctx @ '' count'') [int (length (filter P (db_request_logs d0)))] of
        Inl e \<Rightarrow> Inl e
      | Inr n \<Rightarrow>
          (case query flt 1 ctx (take (page_limit f) (drop (nat (lf_Offset f)) (order_by ks (\<lambda>r. - lr_timestamp r) (filter P (db_request_logs d1))))) of
             Inl e \<Rightarrow> Inl e
           | Inr rows \<Rightarrow> Inr (map scanRequestLog rows, n)))"

definition QueryRequestLogs :: "fault \<Rightarrow> nat list \<Rightarrow> LogFilter \<Rightarrow> db \<Rightarrow> db \<Rightarrow> store_error + RequestLog list \<times> int" where
  "QueryRequestLogs flt ks f = log_page ''query request logs'' flt ks (log_matches f) f"

definition QueryLogsByAPIKey :: "fault \<Rightarrow> nat list \<Rightarrow> string \<Rightarrow> LogFilter \<Rightarrow> db \<Rightarrow> db \<Rightarrow> store_error + RequestLog list \<times> int" where
  "QueryLogsByAPIKey flt ks kid f = log_page ''query logs by api key'' flt ks (\<lambda>r. lr_api_key_id r = Some kid \<and> in_range f r) f"

definition purge_request_bodies :: "time \<Rightarrow> stmt" where
  "purge_request_bodies t d =
     (let P = (\<lambda>r. lr_created_at r < t \<and> str_of (lr_request_body r) \<noteq> '''')
      in Inr (length (filter P (db_request_logs d)),
           d\<lparr>db_request_logs := map (\<lambda>r. if P r then r\<lparr>lr_request_body := Some ''''\<rparr> else r) (db_request_logs d)\<rparr>))"

definition PurgeRequestLogRequestBodiesOlderThan :: "fault \<Rightarrow> time \<Rightarrow> db \<Rightarrow> (store_error + nat) \<times> db" where
  "PurgeRequestLogRequestBodiesOlderThan flt t = exec_count flt ''purge request log request bodies'' (purge_request_bodies t)"

definition purge_response_bodies :: "time \<Rightarrow> stmt" where
  "purge_response_bodies t d =
     (let P = (\<lambda>r. lr_created_at r < t \<and> str_of (lr_response_body r) \<noteq> '''')
      in Inr (length (filter P (db_request_logs d)),
           d\<lparr>db_request_logs := map (\<lambda>r. if P r then r\<lparr>lr_response_body := Some ''''\<rparr> else r) (db_request_logs d)\<rparr>))"

definition PurgeRequestLogResponseBodiesOlderThan :: "fault \<Rightarrow> time \<Rightarrow> db \<Rightarrow> (store_error + nat) \<times> db" where
  "PurgeRequestLogResponseBodiesOlderThan flt t = exec_count flt ''purge request log response bodies'' (purge_response_bodies t)"

section \<open>Stream chunks\<close>

definition insert_chunk :: "StreamingLog \<Rightarrow> stmt" where
  "insert_chunk c d =
     (if s_ID c \<in> set (map s_ID (db_streaming_logs d)) then Inl (UniqueFailed ''streaming_logs.id'')
      else if s_RequestLogID c \<notin> set (map lr_id (db_request_logs d)) then Inl ForeignKeyFailed
      else Inr (1, d\<lparr>db_streaming_logs := db_streaming_logs d @ [c\<lparr>s_BodyPurged := False, s_CumulativeBody := ''''\<rparr>]\<rparr>))"

definition InsertStreamingLog :: "fault \<Rightarrow> string \<Rightarrow> time \<Rightarrow> StreamingLog \<Rightarrow> db \<Rightarrow> (store_error + unit) \<times> db" where
  "InsertStreamingLog flt uuid now c =
     (let c1 = (if s_ID c = '''' then c\<lparr>s_ID := uuid\<rparr> else c);
          c2 = (if s_CreatedAt c1 = 0 then c1\<lparr>s_CreatedAt := now\<rparr> else c1);
          c3 = (if s_Timestamp c2 = 0 then c2\<lparr>s_Timestamp := s_CreatedAt c2\<rparr> else c2)
      in exec flt ''insert streaming log'' (insert_chunk c3))"

definition GetStreamingLogs :: "fault \<Rightarrow> nat list \<Rightarrow> string \<Rightarrow> db \<Rightarrow> store_error + StreamingLog list" where
  "GetStreamingLogs flt ks lid d =
     (case (flt 0, flt 1, flt 2) of
        (Some e, _, _) \<Rightarrow> Inl (StoreError ''get streaming logs'' (Driver e))
      | (None, Some e, _) \<Rightarrow> Inl (StoreError ''scan streaming log'' (Driver e))
      | (None, None, Some e) \<Rightarrow> Inl (StoreError '''' (Driver e))
      | (None, None, None) \<Rightarrow> Inr (order_by ks s_ChunkIndex (filter (\<lambda>c. s_RequestLogID c = lid) (db_streaming_logs d))))"

definition purge_chunks :: "time \<Rightarrow> stmt" where
  "purge_chunks t d =
     (let P = (\<lambda>c. s_CreatedAt c < t \<and> (\<not> s_BodyPurged c \<or> s_Data c \<noteq> '''' \<or> s_ContentDelta c \<noteq> ''''))
      in Inr (length (filter P (db_streaming_logs d)),
           d\<lparr>db_streaming_logs := map (\<lambda>c. if P c then c\<lparr>s_Data := '''', s_ContentDelta := '''', s_BodyPurged := True\<rparr> else c) (db_streaming_logs d)\<rparr>))"

definition PurgeStreamingLogBodiesOlderThan :: "fault \<Rightarrow> time \<Rightarrow> db \<Rightarrow> (store_error + nat) \<times> db" where
  "PurgeStreamingLogBodiesOlderThan flt t = exec_count flt ''purge streaming log bodies'' (purge_chunks t)"

section \<open>Usage per API key\<close>

record APIKeyUsage =
  ku_APIKeyID :: string
  ku_APIKeyName :: string
  ku_RequestCount :: int
  ku_TotalTokens :: int
  ku_TotalCostUSD :: float64
  ku_LastUsedAt :: "time option"

text \<open>\<open>GROUP BY\<close>: the rows of each value of an expression, in the order in which the values first occur.\<close>

definition group_by :: "('r \<Rightarrow> 'k) \<Rightarrow> 'r list \<Rightarrow> ('k \<times> 'r list) list" where
  "group_by key rows = map (\<lambda>k. (k, filter (\<lambda>r. key r = k) rows)) (remdups (map key rows))"

definition max_string :: "string list \<Rightarrow> string option" where
  "max_string xs = (case xs of [] \<Rightarrow> None | x # ys \<Rightarrow> Some (fold max ys x))"

definition UsageByAPIKey ::
  "(float64 list \<Rightarrow> float64) \<Rightarrow> fault \<Rightarrow> nat list \<Rightarrow> time \<Rightarrow> time \<Rightarrow> db \<Rightarrow> store_error + APIKeyUsage list" where
  "UsageByAPIKey sumf flt ks since until d =
     (let rows = filter (\<lambda>r. str_of (lr_api_key_id r) \<noteq> '''' \<and> since \<le> lr_timestamp r \<and> lr_timestamp r \<le> until) (db_request_logs d);
          usage = map (\<lambda>(kid, rs). \<lparr>ku_APIKeyID = kid,
            ku_APIKeyName = (case find (\<lambda>k. k_ID k = kid) (db_api_keys d) of
                Some k \<Rightarrow> k_Name k
              | None \<Rightarrow> str_of (max_string (List.map_filter lr_api_key_name rs))),
            ku_RequestCount = int (length rs), ku_TotalTokens = sum_list (map (num \<circ> lr_total_tokens) rs),
            ku_TotalCostUSD = sumf (map (\<lambda>r. case lr_estimated_cost_usd r of None \<Rightarrow> 0 | Some c \<Rightarrow> c) rs),
            ku_LastUsedAt = Some (Max (set (map lr_timestamp rs)))\<rparr>) (group_by (\<lambda>r. str_of (lr_api_key_id r)) rows)
      in query flt 0 ''usage by api key'' (order_by ks (\<lambda>u. - ku_TotalCostUSD u) usage))"

definition row_model :: "request_logs_row \<Rightarrow> string" where
  "row_model r = (if str_of (lr_resolved_model r) \<noteq> '''' then str_of (lr_resolved_model r) else str_of (lr_requested_model r))"

definition row_error :: "request_logs_row \<Rightarrow> bool" where
  "row_error r \<longleftrightarrow> lr_status_code r \<ge> 400"

text \<open>The row of statistics of one group.\<close>

definition model_row :: "(float64 list \<Rightarrow> float64) \<Rightarrow> string \<times> request_logs_row list \<Rightarrow> ModelStats" where
  "model_row avgf g = (case g of (m, rs) \<Rightarrow>
     \<lparr>ms_Model = m, ms_RequestCount = int (length rs), ms_AvgLatencyMs = avgf (map (f64 \<circ> lr_total_time_ms) rs),
      ms_ErrorCount = int (length (filter row_error rs)), ms_TotalTokens = sum_list (map (num \<circ> lr_total_tokens) rs)\<rparr>)"

definition UsageByAPIKeyModel ::
  "(float64 list \<Rightarrow> float64) \<Rightarrow> fault \<Rightarrow> nat list \<Rightarrow> string \<Rightarrow> time \<Rightarrow> time \<Rightarrow> db \<Rightarrow> store_error + ModelStats list" where
  "UsageByAPIKeyModel avgf flt ks kid since until d =
     (let rows = filter (\<lambda>r. lr_api_key_id r = Some kid \<and> since \<le> lr_timestamp r \<and> lr_timestamp r \<le> until) (db_request_logs d)
      in query flt 0 ''usage by api key model'' (order_by ks (\<lambda>m. - ms_RequestCount m) (map (model_row avgf) (group_by row_model rows))))"


section \<open>The constraints are kept\<close>

lemma keeps_insert_log: "keeps db_ok (insert_log r)"
  by (rule keepsI) (auto simp: insert_log_def log_ids_def split: if_splits intro!: db_ok_frame dest: db_ok_tables(7))

lemma db_ok_log_update:
  assumes "db_ok d" and "\<And>r. lr_id (f r) = lr_id r"
  shows "db_ok (d\<lparr>db_request_logs := map (\<lambda>r. if P r then f r else r) (db_request_logs d)\<rparr>)"
proof (rule db_ok_frame(7) [OF assms(1)])
  show "unique_on lr_id (map (\<lambda>r. if P r then f r else r) (db_request_logs d))"
    using db_ok_tables(7) [OF assms(1)] by (simp add: unique_key_update [of lr_id f, OF assms(2)])
  show "log_ids d \<subseteq> lr_id ` set (map (\<lambda>r. if P r then f r else r) (db_request_logs d))"
    unfolding log_ids_def image_key_update [of lr_id f, OF assms(2)] by simp
qed

lemma keeps_purges: "keeps db_ok (purge_request_bodies t)" "keeps db_ok (purge_response_bodies t)"
  by (rule keepsI, auto simp: purge_request_bodies_def purge_response_bodies_def Let_def intro!: db_ok_log_update)+

lemma keeps_insert_chunk: "keeps db_ok (insert_chunk c)"
  by (rule keepsI) (auto simp: insert_chunk_def log_ids_def chunks_ok_def split: if_splits intro!: db_ok_frame dest: db_ok_tables(8))

lemma keeps_purge_chunks: "keeps db_ok (purge_chunks t)"
proof
  fix d n d'
  assume ok: "db_ok d" and st: "purge_chunks t d = Inr (n, d')"
  let ?f = "\<lambda>c. c\<lparr>s_Data := '''', s_ContentDelta := '''', s_BodyPurged := True\<rparr>"
  have "chunks_ok (log_ids d) (map (\<lambda>c. if P c then ?f c else c) (db_streaming_logs d))" for P
    using db_ok_tables(8) [OF ok] by (simp add: chunks_ok_def unique_key_update refs_ok_update)
  then show "db_ok d'" using st by (auto simp: purge_chunks_def Let_def intro!: db_ok_frame ok)
qed

lemma db_ok_log_ops [inv_intros]:
  assumes "db_ok d"
  shows "db_ok (snd (InsertRequestLog flt l d))" "db_ok (snd (PurgeRequestLogRequestBodiesOlderThan flt t d))"
    "db_ok (snd (PurgeRequestLogResponseBodiesOlderThan flt t d))" "db_ok (snd (InsertStreamingLog flt uuid now c d))"
    "db_ok (snd (PurgeStreamingLogBodiesOlderThan flt t d))"
  unfolding InsertRequestLog_def PurgeRequestLogRequestBodiesOlderThan_def PurgeRequestLogResponseBodiesOlderThan_def
    InsertStreamingLog_def Let_def PurgeStreamingLogBodiesOlderThan_def
  by (intro db_ok_run keeps_insert_log keeps_purges keeps_insert_chunk keeps_purge_chunks assms)+

text \<open>
  The states of the store: the tables as the migrations leave an empty database, and whatever
  the operations, failing or not, make of them.
\<close>

definition migrated_db :: "time \<Rightarrow> db" where
  "migrated_db now = empty_db\<lparr>db_config := map (\<lambda>(k, v). (k, v, now))
     [(''request_body_max_bytes'', ''51200''), (''response_body_max_bytes'', ''51200''), (''track_streaming'', ''false''),
      (''streaming_buffer_size'', ''10240''), (''request_log_body_retention_days'', ''30''),
      (''response_log_body_retention_days'', ''30''), (''http_idle_conn_timeout_seconds'', ''90'')]\<rparr>"

inductive db_reach :: "db \<Rightarrow> bool" where
  r_init: "db_reach (migrated_db now)"
| r_create_provider: "db_reach d \<Longrightarrow> db_reach (snd (CreateProvider flt p d))"
| r_update_provider: "db_reach d \<Longrightarrow> db_reach (snd (UpdateProvider flt p d))"
| r_delete_provider: "db_reach d \<Longrightarrow> db_reach (snd (DeleteProvider flt i d))"
| r_health: "db_reach d \<Longrightarrow> db_reach (snd (UpdateProviderHealth flt i h now d))"
| r_endpoints: "db_reach d \<Longrightarrow> db_reach (snd (UpsertProviderEndpoints flt i eps d))"
| r_endpoint: "db_reach d \<Longrightarrow> db_reach (snd (UpdateProviderEndpoint flt ep d))"
| r_sync: "db_reach d \<Longrightarrow> db_reach (snd (SyncProviderModels flt uuids now i mids d))"
| r_create_model: "db_reach d \<Longrightarrow> db_reach (snd (CreateProviderModel flt m d))"
| r_delete_model: "db_reach d \<Longrightarrow> db_reach (snd (DeleteProviderModel flt i j d))"
| r_available: "db_reach d \<Longrightarrow> db_reach (snd (SetProviderModelsAvailability flt i mids d))"
| r_availability: "db_reach d \<Longrightarrow> db_reach (snd (UpdateProviderModelAvailability flt i j b d))"
| r_costs: "db_reach d \<Longrightarrow> db_reach (snd (UpdateProviderModelCosts flt i m d))"
| r_create_alias: "db_reach d \<Longrightarrow> db_reach (snd (CreateAlias flt a d))"
| r_update_alias: "db_reach d \<Longrightarrow> db_reach (snd (UpdateAlias flt a d))"
| r_delete_alias: "db_reach d \<Longrightarrow> db_reach (snd (DeleteAlias flt i d))"
| r_create_key: "db_reach d \<Longrightarrow> db_reach (snd (CreateAPIKey flt k d))"
| r_update_key: "db_reach d \<Longrightarrow> db_reach (snd (UpdateAPIKey flt k d))"
| r_delete_key: "db_reach d \<Longrightarrow> db_reach (snd (DeleteAPIKey flt i d))"
| r_touch_key: "db_reach d \<Longrightarrow> db_reach (snd (TouchAPIKeyLastUsed flt i now d))"
| r_config: "db_reach d \<Longrightarrow> db_reach (snd (SetConfig flt i v now d))"
| r_log: "db_reach d \<Longrightarrow> db_reach (snd (InsertRequestLog flt l d))"
| r_chunk: "db_reach d \<Longrightarrow> db_reach (snd (InsertStreamingLog flt uuid now c d))"
| r_purge_requests: "db_reach d \<Longrightarrow> db_reach (snd (PurgeRequestLogRequestBodiesOlderThan flt t d))"
| r_purge_responses: "db_reach d \<Longrightarrow> db_reach (snd (PurgeRequestLogResponseBodiesOlderThan flt t d))"
| r_purge_chunks: "db_reach d \<Longrightarrow> db_reach (snd (PurgeStreamingLogBodiesOlderThan flt t d))"

lemma db_ok_migrated: "db_ok (migrated_db now)"
  unfolding migrated_db_def by (rule db_ok_frame(6) [OF db_ok_empty]) (simp add: unique_on_def)

lemma db_reach_ok: "db_reach d \<Longrightarrow> db_ok d"
  by (induction rule: db_reach.induct) (auto intro: inv_intros db_ok_migrated)

text \<open>
  C8. The store never breaks its constraints. In every state that operations of the store, failing
  or not, can reach, identifiers and the declared unique columns are unique, every endpoint,
  model and alias belongs to a provider and every chunk to a log, and every provider has
  breaker settings that the breaker accepts.
\<close>
theorem store_constraints:
  assumes "db_reach d"
  shows "distinct (map pr_id (db_providers d)) \<and> distinct (map pr_base_url (db_providers d)) \<and>
    distinct (map endpoint_key (db_endpoints d)) \<and> distinct (map model_key (db_models d)) \<and> distinct (map alias_key (db_aliases d)) \<and>
    distinct (map lr_id (db_request_logs d)) \<and> distinct (map k_KeyHash (db_api_keys d)) \<and> distinct (map fst (db_config d)) \<and>
    e_ProviderID ` set (db_endpoints d) \<union> m_ProviderID ` set (db_models d) \<union> a_ProviderID ` set (db_aliases d) \<subseteq> provider_ids d \<and>
    s_RequestLogID ` set (db_streaming_logs d) \<subseteq> log_ids d \<and> list_all (cb_settings_ok \<circ> scanProvider) (db_providers d)"
  using db_reach_ok [OF assms]
  by (auto simp: db_ok_def providers_ok_def endpoints_ok_def models_ok_def aliases_ok_def chunks_ok_def keys_ok_def unique_on_def refs_ok_def
      list_all_iff cb_row_ok_def cb_settings_ok_def scanProvider_def)

theorem store_constraints_witness:
  "let d = snd (CreateProvider no_fault sample_provider (migrated_db 0))
   in db_providers d \<noteq> [] \<and> distinct (map pr_id (db_providers d))"
proof -
  have "length (db_providers (snd (CreateProvider no_fault sample_provider (migrated_db 0)))) = 1" by code_simp
  then show ?thesis
    using store_constraints [OF r_create_provider [OF r_init], of no_fault sample_provider 0] by (auto simp: Let_def)
qed

section \<open>Round trips and purges\<close>

lemma scan_log_columns [simp]:
  "scanRequestLogFull (log_columns l) = l\<lparr>l_CostBreakdown := None\<rparr>"
  "scanRequestLog (log_columns l) = l\<lparr>l_CostBreakdown := None, l_RequestBody := '''', l_ResponseBody := ''''\<rparr>"
  by (simp_all add: scanRequestLogFull_def scanRequestLog_def applyRequestLogFields_def log_columns_def zero_RequestLog_def)

text \<open>
  A stored log comes back. If a request log is inserted, its detail view has every field as it was
  given, the cost breakdown apart, which is not stored, and all other logs are as before;
  a log whose identifier is taken is refused and changes nothing.
\<close>
theorem log_roundtrip:
  "let (res, d') = InsertRequestLog flt l d
   in (res = Inr () \<longleftrightarrow> flt 0 = None \<and> l_ID l \<notin> log_ids d) \<and>
      (if res = Inr ()
       then GetRequestLog no_fault (l_ID l) d' = Inr (l\<lparr>l_CostBreakdown := None\<rparr>) \<and>
            (\<forall>i. i = l_ID l \<or> GetRequestLog no_fault i d' = GetRequestLog no_fault i d)
       else d' = d)"
proof -
  have i: "lr_id (log_columns l) = l_ID l" by (simp add: log_columns_def)
  have none: "filter (\<lambda>r. lr_id r = l_ID l) (db_request_logs d) = []" if "l_ID l \<notin> log_ids d"
    using that by (auto simp: log_ids_def filter_empty_conv) (metis imageI)
  show ?thesis
  proof (cases "flt 0 = None \<and> l_ID l \<notin> log_ids d")
    case True
    then have "InsertRequestLog flt l d = (Inr (), d\<lparr>db_request_logs := db_request_logs d @ [log_columns l]\<rparr>)"
      by (simp add: InsertRequestLog_def exec_def run_stmt_def insert_log_def i log_ids_def)
    then show ?thesis using True none by (simp add: GetRequestLog_def query_row_def no_fault_def i)
  next
    case False
    then have "\<exists>e. InsertRequestLog flt l d = (Inl e, d)"
      by (auto simp: InsertRequestLog_def exec_def run_stmt_def insert_log_def i log_ids_def split: option.splits)
    with False show ?thesis by auto
  qed
qed


section \<open>Pages\<close>

text \<open>The logs that a filter selects, newest first, as the list view shows them.\<close>

definition matching_logs :: "nat list \<Rightarrow> LogFilter \<Rightarrow> db \<Rightarrow> RequestLog list" where
  "matching_logs ks f d = map scanRequestLog (order_by ks (\<lambda>r. - lr_timestamp r) (filter (log_matches f) (db_request_logs d)))"

lemma log_matches_page [simp]: "log_matches (f\<lparr>lf_Limit := n, lf_Offset := k\<rparr>) = log_matches f"
  by (rule ext) (simp add: log_matches_def in_range_def)

lemma QueryRequestLogs_page:
  "QueryRequestLogs no_fault ks f d d =
   Inr (take (page_limit f) (drop (nat (lf_Offset f)) (matching_logs ks f d)), int (length (matching_logs ks f d)))"
  by (simp add: QueryRequestLogs_def log_page_def query_row_def query_def no_fault_def matching_logs_def drop_map take_map)

lemma concat_pages: "length xs \<le> k * n \<Longrightarrow> concat (map (\<lambda>i. take n (drop (i * n) xs)) [0..<k]) = xs"
proof (induction k arbitrary: xs)
  case (Suc k)
  have "map (\<lambda>i. take n (drop (i * n) xs)) [0..<Suc k] = take n xs # map (\<lambda>i. take n (drop (i * n) (drop n xs))) [0..<k]"
    by (simp add: upt_conv_Cons map_Suc_upt [symmetric] comp_def add.commute del: upt_Suc)
  then show ?case using Suc.IH [of "drop n xs"] Suc.prems by simp
qed simp

text \<open>
  Paging through the logs. While the tables do not change, the pages of the size asked for (100 when none is) at successive
  offsets put together are exactly the logs that the filter selects, newest first and each once, and
  every page reports their number.
\<close>
theorem log_pages:
  assumes "n = page_limit f" and "length (matching_logs ks f d) \<le> k * n"
    and "page = (\<lambda>i. QueryRequestLogs no_fault ks (f\<lparr>lf_Offset := int (i * n)\<rparr>) d d)"
  shows "concat (map (fst \<circ> projr \<circ> page) [0..<k]) = matching_logs ks f d \<and> list_all (\<lambda>i. snd (projr (page i)) = int (length (matching_logs ks f d))) [0..<k] \<and>
    sorted (map (\<lambda>l. - l_Timestamp l) (matching_logs ks f d)) \<and>
    mset (matching_logs ks f d) = image_mset scanRequestLog (filter_mset (log_matches f) (mset (db_request_logs d)))"
proof -
  have m: "log_matches (f\<lparr>lf_Offset := j\<rparr>) = log_matches f" for j by (rule ext) (simp add: log_matches_def in_range_def)
  have page: "page i = Inr (take n (drop (i * n) (matching_logs ks f d)), int (length (matching_logs ks f d)))" for i
    by (simp add: assms(3) QueryRequestLogs_page matching_logs_def m assms(1) page_limit_def nat_mult_distrib flip: of_nat_mult)
  have "map (\<lambda>l. - l_Timestamp l) (matching_logs ks f d) = map (\<lambda>r. - lr_timestamp r) (order_by ks (\<lambda>r. - lr_timestamp r) (filter (log_matches f) (db_request_logs d)))"
    by (simp add: matching_logs_def scanRequestLog_def applyRequestLogFields_def)
  then have "sorted (map (\<lambda>l. - l_Timestamp l) (matching_logs ks f d))" by (simp only: sorted_order_by)
  then show ?thesis
    using concat_pages [OF assms(2)] by (simp add: comp_def page list_all_iff) (simp add: matching_logs_def)
qed

definition all_logs :: LogFilter where
  "all_logs = \<lparr>lf_Model = '''', lf_ProviderID = '''', lf_Since = None, lf_Until = None, lf_StatusMin = 0, lf_StatusMax = 0, lf_Limit = 0, lf_Offset = 0\<rparr>"

theorem log_pages_witness:
  "let d = snd (InsertRequestLog no_fault zero_RequestLog (migrated_db 0))
   in concat (map (fst \<circ> projr \<circ> (\<lambda>i. QueryRequestLogs no_fault [] (all_logs\<lparr>lf_Offset := int (i * 100)\<rparr>) d d)) [0..<1]) = [zero_RequestLog]"
proof -
  let ?d = "snd (InsertRequestLog no_fault zero_RequestLog (migrated_db 0))"
  have "matching_logs [] all_logs ?d = [zero_RequestLog]"
    by (simp add: matching_logs_def InsertRequestLog_def exec_def run_stmt_def no_fault_def insert_log_def migrated_db_def empty_db_def
        log_matches_def in_range_def all_logs_def order_by_def) (simp add: zero_RequestLog_def)
  moreover have "100 = page_limit all_logs" by (simp add: page_limit_def all_logs_def)
  ultimately show ?thesis using log_pages [of 100 all_logs "[]" ?d 1 "\<lambda>i. QueryRequestLogs no_fault [] (all_logs\<lparr>lf_Offset := int (i * 100)\<rparr>) ?d ?d"]
    by (simp add: Let_def)
qed

end
