(* ===== verification/Store_Catalog.thy ===== *)
theory Store_Catalog
  imports Store_Logs Routing_Catalog
begin

text \<open>
  The catalog and the store. The router asks the catalog's snapshot what the store's queries
  would answer: here the snapshot built from the loaded tables is compared with these queries. The
  contract that both meet is the locale \<open>routing_source\<close>; it is interpreted for the queries on the
  tables and for the snapshot, and its lemma says that a contract's answers are determined by
  the providers and models it knows.
\<close>

definition routing_data :: "(nat \<Rightarrow> nat list) \<Rightarrow> db \<Rightarrow> RoutingData" where
  "routing_data ks d = \<lparr>rd_Providers = map scanProvider (order_by (ks 0) (\<lambda>r. - pr_created_at r) (db_providers d)),
     rd_Models = order_by [] model_key (db_models d), rd_Aliases = order_by (ks 2) (\<lambda>a. (a_Alias a, - a_Priority a)) (db_aliases d),
     rd_Endpoints = order_by (ks 3) (\<lambda>e. (e_ProviderID e, e_Path e)) (db_endpoints d)\<rparr>"

lemma LoadRoutingData_no_fault: "LoadRoutingData (\<lambda>_. no_fault) ks (\<lambda>_. d) = Inr (routing_data ks d)"
  by (simp add: LoadRoutingData_def ListProviders_def ListAllModels_def ListAliases_def listAllEndpoints_def query_def no_fault_def wrap_def
      routing_data_def)

section \<open>Look-ups by key\<close>

lemma find_unique:
  assumes "unique_on key rows"
  shows "find (\<lambda>r. key r = k) rows = Some r \<longleftrightarrow> r \<in> set rows \<and> key r = k"
  using assms
proof (induction rows)
  case (Cons x rows)
  then show ?case by (auto simp: unique_on_def image_iff)
qed simp

lemma unique_on_mset: "mset xs = mset ys \<Longrightarrow> unique_on key xs = unique_on key ys"
  unfolding unique_on_def by (metis mset_eq_imp_distinct_iff mset_map)

lemma filter_unique:
  assumes "unique_on key rows"
  shows "(case filter (\<lambda>r. key r = k) rows of [] \<Rightarrow> None | r # _ \<Rightarrow> Some r) = Some r \<longleftrightarrow> r \<in> set rows \<and> key r = k"
  using assms
proof (induction rows)
  case (Cons x rows)
  then show ?case by (auto simp: unique_on_def image_iff)
qed simp

lemma option_eqI: "(\<And>x. a = Some x \<longleftrightarrow> b = Some x) \<Longrightarrow> a = b"
  by (metis option.exhaust)

lemma unique_scan: "unique_on p_ID (map scanProvider rows) \<longleftrightarrow> unique_on pr_id rows"
  by (simp add: unique_on_def comp_def scanProvider_def)

lemma find_provider_rows:
  assumes "db_ok d"
  shows "find_provider (routing_data ks d) pid = Some p \<longleftrightarrow> (\<exists>r \<in> set (db_providers d). pr_id r = pid \<and> p = scanProvider r)"
proof -
  let ?xs = "rev (map scanProvider (order_by (ks 0) (\<lambda>r. - pr_created_at r) (db_providers d)))"
  have "unique_on p_ID ?xs"
    using db_ok_tables(1) [OF assms] unique_on_mset [of ?xs "map scanProvider (db_providers d)" p_ID]
    by (simp add: unique_scan providers_ok_def)
  from find_unique [OF this] show ?thesis
    by (auto simp: find_provider_def routing_data_def scanProvider_def)
qed

lemma find_model_rows:
  assumes "db_ok d"
  shows "find_model (routing_data ks d) pid mid = Some m \<longleftrightarrow> m \<in> set (db_models d) \<and> m_ProviderID m = pid \<and> m_ModelID m = mid"
proof -
  let ?xs = "rev (order_by [] model_key (db_models d))"
  have "unique_on model_key ?xs"
    using db_ok_tables(3) [OF assms] unique_on_mset [of ?xs "db_models d" model_key] by (simp add: models_ok_def)
  from find_unique [OF this, of "(pid, mid)"] show ?thesis
    by (auto simp: find_model_def routing_data_def model_key_def)
qed

definition provider_of_row :: "db \<Rightarrow> string \<Rightarrow> Provider option" where
  "provider_of_row d pid = (case GetProvider no_fault pid d of Inl e \<Rightarrow> None | Inr p \<Rightarrow> Some p)"

lemma provider_of_row_iff:
  assumes "db_ok d"
  shows "provider_of_row d pid = Some p \<longleftrightarrow> (\<exists>r \<in> set (db_providers d). pr_id r = pid \<and> p = scanProvider r)"
proof -
  have "provider_of_row d pid = map_option scanProvider (case filter (\<lambda>r. pr_id r = pid) (db_providers d) of [] \<Rightarrow> None | r # _ \<Rightarrow> Some r)"
    by (simp add: provider_of_row_def GetProvider_def query_row_def no_fault_def split: list.split)
  then show ?thesis
    using filter_unique [of pr_id "db_providers d" pid] db_ok_tables(1) [OF assms] by (auto simp: providers_ok_def)
qed

definition model_of_row :: "db \<Rightarrow> string \<Rightarrow> string \<Rightarrow> ProviderModel option" where
  "model_of_row d pid mid = (case GetProviderModelCosts no_fault pid mid d of Inl e \<Rightarrow> None | Inr m \<Rightarrow> m)"

lemma model_of_row_iff:
  assumes "db_ok d"
  shows "model_of_row d pid mid = Some m \<longleftrightarrow> m \<in> set (db_models d) \<and> m_ProviderID m = pid \<and> m_ModelID m = mid"
proof -
  have "model_of_row d pid mid = (case filter (\<lambda>m. model_key m = (pid, mid)) (db_models d) of [] \<Rightarrow> None | r # _ \<Rightarrow> Some r)"
    by (simp add: model_of_row_def GetProviderModelCosts_def query_row_def no_fault_def model_key_def split: list.split)
  then show ?thesis
    using filter_unique [of model_key "db_models d" "(pid, mid)"] db_ok_tables(3) [OF assms] by (auto simp: models_ok_def model_key_def)
qed

lemma find_provider_query: "db_ok d \<Longrightarrow> find_provider (routing_data ks d) pid = provider_of_row d pid"
  by (rule option_eqI) (simp add: find_provider_rows provider_of_row_iff)

lemma find_model_query: "db_ok d \<Longrightarrow> find_model (routing_data ks d) pid mid = model_of_row d pid mid"
  by (rule option_eqI) (simp add: find_model_rows model_of_row_iff)

section \<open>The contract\<close>

text \<open>
  What the router relies on: \<open>offers\<close> are the providers that may serve a model by its own name,
  \<open>mapped\<close> the candidates behind an alias.
\<close>

locale routing_source =
  fixes provider :: "string \<Rightarrow> Provider option" and model :: "string \<Rightarrow> string \<Rightarrow> ProviderModel option"
    and aliases :: "string \<Rightarrow> ModelAlias set"
    and offers :: "string \<Rightarrow> Provider set" and mapped :: "string \<Rightarrow> RouteCandidate set"
  assumes provider_id: "provider pid = Some p \<Longrightarrow> p_ID p = pid"
    and offers_law: "p \<in> offers mid \<longleftrightarrow> p_IsHealthy p \<and> provider (p_ID p) = Some p \<and> (\<exists>m. model (p_ID p) mid = Some m \<and> m_IsAvailable m)"
    and mapped_law: "mapped al = {c. \<exists>a \<in> aliases al. alias_cand provider model a = Some c}"
begin

lemma offers_healthy: "p \<in> offers mid \<Longrightarrow> p_IsHealthy p"
  by (simp add: offers_law)

lemma mapped_healthy: "c \<in> mapped al \<Longrightarrow> p_IsHealthy (rc_Provider c) \<and> provider (p_ID (rc_Provider c)) = Some (rc_Provider c)"
  using provider_id by (auto simp: mapped_law alias_cand_def healthy_provider_def split: if_splits option.splits)

end

lemma routing_source_unique:
  assumes "routing_source prov model als offers mapped" and "routing_source prov model als offers' mapped'"
  shows "offers = offers' \<and> mapped = mapped'"
  using assms unfolding routing_source_def by (auto simp: fun_eq_iff)

definition query_offers :: "nat list \<Rightarrow> db \<Rightarrow> string \<Rightarrow> Provider set" where
  "query_offers ks d mid = set (projr (GetHealthyProvidersForModel no_fault ks mid d))"

definition query_aliases :: "nat list \<Rightarrow> db \<Rightarrow> string \<Rightarrow> ModelAlias set" where
  "query_aliases ks d al = set (projr (ResolveAlias no_fault ks al d))"

definition query_mapped :: "nat list \<Rightarrow> db \<Rightarrow> string \<Rightarrow> RouteCandidate set" where
  "query_mapped ks d al = set (List.map_filter (alias_cand (provider_of_row d) (model_of_row d)) (projr (ResolveAlias no_fault ks al d)))"

lemma query_offers_iff:
  "p \<in> query_offers ks d mid \<longleftrightarrow> (\<exists>r \<in> set (db_providers d). p = scanProvider r \<and> pr_is_healthy r \<and>
     (\<exists>m \<in> set (db_models d). m_ProviderID m = pr_id r \<and> m_ModelID m = mid \<and> m_IsAvailable m))"
  by (auto simp: query_offers_def GetHealthyProvidersForModel_def query_def no_fault_def list_ex_iff)

lemma scanProvider_fields [simp]: "p_ID (scanProvider r) = pr_id r" "p_IsHealthy (scanProvider r) = pr_is_healthy r"
  by (simp_all add: scanProvider_def)

lemma queries_routing_source:
  assumes "db_ok d"
  shows "routing_source (provider_of_row d) (model_of_row d) (query_aliases ks' d) (query_offers ks d) (query_mapped ks' d)"
proof
  show "p_ID p = pid" if "provider_of_row d pid = Some p" for pid p
    using that by (auto simp: provider_of_row_iff [OF assms])
  have eq: "r = r'" if "r \<in> set (db_providers d)" "r' \<in> set (db_providers d)" "pr_id r = pr_id r'" for r r'
    using that db_ok_tables(1) [OF assms] by (auto simp: providers_ok_def unique_on_def distinct_map dest: inj_onD)
  show "(p \<in> query_offers ks d mid) = (p_IsHealthy p \<and> provider_of_row d (p_ID p) = Some p \<and>
      (\<exists>m. model_of_row d (p_ID p) mid = Some m \<and> m_IsAvailable m))" for p mid
    unfolding query_offers_iff provider_of_row_iff [OF assms] model_of_row_iff [OF assms] by (auto; blast)
  show "query_mapped ks' d al = {c. \<exists>a \<in> query_aliases ks' d al. alias_cand (provider_of_row d) (model_of_row d) a = Some c}" for al
    by (auto simp: query_mapped_def query_aliases_def set_map_filter')
qed

definition snapshot_offers :: "routingSnapshot \<Rightarrow> string \<Rightarrow> Provider set" where
  "snapshot_offers s mid = rc_Provider ` set (DirectCandidates s mid)"

definition snapshot_mapped :: "routingSnapshot \<Rightarrow> string \<Rightarrow> RouteCandidate set" where
  "snapshot_mapped s al = (case AliasCandidates s al of None \<Rightarrow> {} | Some cs \<Rightarrow> set cs)"

lemma healthy_provider_iff: "healthy_provider prov pid = Some p \<longleftrightarrow> prov pid = Some p \<and> p_IsHealthy p"
  by (auto simp: healthy_provider_def split: option.splits)

lemma snapshot_offers_iff:
  "p \<in> snapshot_offers (buildRoutingSnapshot rd) mid \<longleftrightarrow>
   (\<exists>m \<in> set (rd_Models rd). m_ModelID m = mid \<and> m_IsAvailable m \<and> find_provider rd (m_ProviderID m) = Some p \<and> p_IsHealthy p)"
proof -
  have "direct_cand (find_provider rd) m = Some c \<longleftrightarrow> m_IsAvailable m \<and> find_provider rd (m_ProviderID m) = Some (rc_Provider c) \<and>
      p_IsHealthy (rc_Provider c) \<and> c = \<lparr>rc_Provider = rc_Provider c, rc_ModelID = m_ModelID m, rc_Weight = 1, rc_Priority = 0\<rparr>" for m c
    by (auto simp: direct_cand_def healthy_provider_iff)
  then have *: "(\<exists>c. direct_cand (find_provider rd) m = Some c \<and> rc_Provider c = p) \<longleftrightarrow>
      m_IsAvailable m \<and> find_provider rd (m_ProviderID m) = Some p \<and> p_IsHealthy p" for m
    by (metis RouteCandidate.select_convs(1))
  have "p \<in> snapshot_offers (buildRoutingSnapshot rd) mid \<longleftrightarrow>
      (\<exists>m \<in> set (rd_Models rd). m_ModelID m = mid \<and> (\<exists>c. direct_cand (find_provider rd) m = Some c \<and> rc_Provider c = p))"
    by (auto simp: snapshot_offers_def DirectCandidates_build spec_direct_def set_map_filter' image_iff)
  then show ?thesis unfolding * .
qed

lemma snapshot_routing_source:
  assumes "db_ok d" and "s = buildRoutingSnapshot (routing_data ks d)"
  shows "routing_source (ProviderByID s) (lookup_ProviderModel s) (query_aliases ks' d) (snapshot_offers s) (snapshot_mapped s)"
proof
  have prov: "ProviderByID s = provider_of_row d" and model: "lookup_ProviderModel s = model_of_row d"
    by (intro ext, simp add: assms(2) ProviderByID_build lookup_ProviderModel_build find_provider_query find_model_query assms(1))+
  have fp: "find_provider (routing_data ks d) = provider_of_row d" and fm: "find_model (routing_data ks d) = model_of_row d"
    by (intro ext, simp add: find_provider_query find_model_query assms(1))+
  show id: "p_ID p = pid" if "ProviderByID s pid = Some p" for pid p
    using that unfolding prov by (auto simp: provider_of_row_iff [OF assms(1)])
  show "(p \<in> snapshot_offers s mid) = (p_IsHealthy p \<and> ProviderByID s (p_ID p) = Some p \<and>
      (\<exists>m. lookup_ProviderModel s (p_ID p) mid = Some m \<and> m_IsAvailable m))" for p mid
  proof -
    have "p \<in> snapshot_offers s mid \<longleftrightarrow> (\<exists>m \<in> set (db_models d). m_ModelID m = mid \<and> m_IsAvailable m \<and> provider_of_row d (m_ProviderID m) = Some p \<and> p_IsHealthy p)"
      unfolding assms(2) snapshot_offers_iff fp by (simp add: routing_data_def)
    moreover have "p_ID p = m_ProviderID m" if "provider_of_row d (m_ProviderID m) = Some p" for m using id that unfolding prov by simp
    ultimately show ?thesis unfolding prov model model_of_row_iff [OF assms(1)] by auto
  qed
  have al: "snapshot_mapped s al = set (spec_alias (routing_data ks d) al)" for al
    by (auto simp: snapshot_mapped_def assms(2) AliasCandidates_build)
  show "snapshot_mapped s al = {c. \<exists>a \<in> query_aliases ks' d al. alias_cand (ProviderByID s) (lookup_ProviderModel s) a = Some c}" for al
    unfolding al prov model spec_alias_def fp fm
    by (auto simp: set_map_filter' query_aliases_def ResolveAlias_def query_def no_fault_def routing_data_def alias_cand_def split: if_splits)
qed

text \<open>The databases that satisfy their constraints, as a type, and the two implementations of the contract on them.\<close>

typedef store = "{d. db_ok d}" morphisms tables Store_of
  using db_ok_empty by blast

lemma tables_ok: "db_ok (tables st)"
  using tables [of st] by simp

interpretation sql: routing_source "provider_of_row (tables st)" "model_of_row (tables st)" "query_aliases ks' (tables st)"
    "query_offers ks (tables st)" "query_mapped ks' (tables st)" for st ks ks'
  by (rule queries_routing_source [OF tables_ok])

interpretation cat: routing_source "ProviderByID (buildRoutingSnapshot (routing_data ks (tables st)))"
    "lookup_ProviderModel (buildRoutingSnapshot (routing_data ks (tables st)))" "query_aliases ks' (tables st)"
    "snapshot_offers (buildRoutingSnapshot (routing_data ks (tables st)))" "snapshot_mapped (buildRoutingSnapshot (routing_data ks (tables st)))" for st ks ks'
  by (rule snapshot_routing_source [OF tables_ok refl])

lemma order_by_Nil: "order_by ks key rows = [] \<longleftrightarrow> rows = []"
  by (metis length_0_conv length_order_by)

lemma enabled_endpoint_rows:
  "GetEnabledEndpoint no_fault pid path d \<noteq> Inr None \<longleftrightarrow>
   (\<exists>e \<in> set (db_endpoints d). e_ProviderID e = pid \<and> e_Path e = path \<and> e_IsSupported e \<and> e_IsEnabled e)"
proof -
  let ?rows = "filter (\<lambda>e. e_ProviderID e = pid \<and> e_Path e = path \<and> e_IsSupported e \<and> e_IsEnabled e) (db_endpoints d)"
  have "GetEnabledEndpoint no_fault pid path d \<noteq> Inr None \<longleftrightarrow> order_by [] e_Method ?rows \<noteq> []"
    by (auto simp: GetEnabledEndpoint_def query_row_def no_fault_def split: list.splits)
  then show ?thesis unfolding order_by_Nil filter_empty_conv by blast
qed

lemma catalog_lookups:
  assumes "db_ok d"
  shows "ProviderByID (buildRoutingSnapshot (routing_data ks d)) = provider_of_row d"
    and "lookup_ProviderModel (buildRoutingSnapshot (routing_data ks d)) = model_of_row d"
  by (intro ext, simp add: ProviderByID_build lookup_ProviderModel_build find_provider_query find_model_query assms)+

lemma catalog_sets:
  assumes "db_ok d"
  shows "snapshot_offers (buildRoutingSnapshot (routing_data ks d)) = query_offers kp d \<and>
    snapshot_mapped (buildRoutingSnapshot (routing_data ks d)) = query_mapped ka d"
proof -
  obtain st where d: "d = tables st" using assms Store_of_inverse [of d] by (metis mem_Collect_eq)
  show ?thesis
    using routing_source_unique [OF cat.routing_source_axioms [of ks st ka, unfolded catalog_lookups [OF tables_ok]]
        sql.routing_source_axioms [of st ka kp]]
    by (simp add: d)
qed

text \<open>
  C14. The catalog answers as the store would. In every state of the store, the snapshot loaded
  from it answers each question of the router as the corresponding query does: whether a
  provider serves a path, which record a provider and a model have, which healthy providers offer a
  model, and which candidates stand behind an alias, in whatever order the database returns rows.
\<close>
theorem catalog_answers_as_store:
  assumes "db_reach d" and "LoadRoutingData (\<lambda>_. no_fault) ks (\<lambda>_. d) = Inr rd" and "s = buildRoutingSnapshot rd"
  shows "(HasEnabledEndpoint s pid path \<longleftrightarrow> GetEnabledEndpoint no_fault pid (normalizeEndpointPath path) d \<noteq> Inr None) \<and>
    ProviderByID s pid = (case GetProvider no_fault pid d of Inl e \<Rightarrow> None | Inr p \<Rightarrow> Some p) \<and>
    GetProviderModelCosts no_fault pid mid d = Inr (lookup_ProviderModel s pid mid) \<and>
    rc_Provider ` set (DirectCandidates s mid) = set (projr (GetHealthyProvidersForModel no_fault kp mid d)) \<and>
    (case AliasCandidates s al of None \<Rightarrow> {} | Some cs \<Rightarrow> set cs) =
      set (List.map_filter (alias_cand (ProviderByID s) (lookup_ProviderModel s)) (projr (ResolveAlias no_fault ka al d)))"
proof -
  have ok: "db_ok d" using db_reach_ok [OF assms(1)] .
  have s: "s = buildRoutingSnapshot (routing_data ks d)" using assms(2,3) by (simp add: LoadRoutingData_no_fault)
  have "HasEnabledEndpoint s pid path \<longleftrightarrow> GetEnabledEndpoint no_fault pid (normalizeEndpointPath path) d \<noteq> Inr None"
    unfolding s HasEnabledEndpoint_build enabled_endpoint_rows by (auto simp: routing_data_def)
  moreover have "GetProviderModelCosts no_fault pid mid d = Inr (model_of_row d pid mid)"
    by (simp add: model_of_row_def GetProviderModelCosts_def query_row_def no_fault_def split: list.split)
  moreover have "rc_Provider ` set (DirectCandidates s mid) = query_offers kp d mid"
      "(case AliasCandidates s al of None \<Rightarrow> {} | Some cs \<Rightarrow> set cs) = query_mapped ka d al"
    using catalog_sets [OF ok, of ks kp ka] by (auto simp: s snapshot_offers_def [symmetric] snapshot_mapped_def [symmetric])
  ultimately show ?thesis
    unfolding s catalog_lookups [OF ok] by (simp add: provider_of_row_def query_offers_def query_mapped_def)
qed

definition sample_routing_db :: db where
  "sample_routing_db = snd (UpdateProviderModelAvailability no_fault ''p'' ''0'' True
     (snd (SyncProviderModels no_fault show_nat 0 ''p'' [''gpt''] (snd (CreateProvider no_fault sample_provider (migrated_db 0))))))"

theorem catalog_answers_as_store_witness:
  "\<exists>rd. LoadRoutingData (\<lambda>_. no_fault) (\<lambda>_. []) (\<lambda>_. sample_routing_db) = Inr rd \<and>
     map p_ID (map rc_Provider (DirectCandidates (buildRoutingSnapshot rd) ''gpt'')) \<noteq> []"
proof -
  let ?rd = "routing_data (\<lambda>_. []) sample_routing_db"
  have "db_reach sample_routing_db" unfolding sample_routing_db_def by (intro db_reach.intros)
  moreover have l: "LoadRoutingData (\<lambda>_. no_fault) (\<lambda>_. []) (\<lambda>_. sample_routing_db) = Inr ?rd" by (rule LoadRoutingData_no_fault)
  moreover have "map p_ID (projr (GetHealthyProvidersForModel no_fault [] ''gpt'' sample_routing_db)) = [''p'']" by code_simp
  ultimately show ?thesis using catalog_answers_as_store [where d = sample_routing_db and kp = "[]" and mid = "''gpt''", OF _ l refl] by fastforce
qed

end
