(* ===== verification/Gateway_Routing.thy ===== *)
theory Gateway_Routing
  imports Proxy_Streaming Store_Catalog
begin

text \<open>
  The request path put together: the handlers of \<open>Proxy_Handler\<close> and \<open>Proxy_Streaming\<close> run with the
  \<open>SmartRouter\<close> of \<open>Smart_Router\<close> as their \<open>Router\<close>, on a catalog loaded from the tables of
  \<open>Store\<close>. The locale \<open>routed_body\<close> is what the three attempt bodies share towards the router:
  one call of \<open>Route\<close>, at most one request to the provider it returned, at most one report about
  that provider, and another round only if nothing was sent or a failure was reported.
\<close>

section \<open>The router of the process\<close>

text \<open>What one call observes: \<open>Route\<close> its environment, a report the two snapshots it reads and the instant.\<close>

record gateway_call =
  gc_route :: route_env
  gc_enabled :: routingSnapshot
  gc_config :: routingSnapshot
  gc_now :: time

definition smart_router :: "(SmartRouter, gateway_call) Router" where
  "smart_router =
     \<lparr>ri_Route = (\<lambda>r e. Route r (gc_route e)),
      ri_ReportSuccess = (\<lambda>r e pid. ReportSuccess r (gc_enabled e) (gc_config e) pid (gc_now e)),
      ri_ReportFailure = (\<lambda>r e pid. ReportFailure r (gc_enabled e) (gc_config e) pid (gc_now e))\<rparr>"

section \<open>What an attempt does to the router\<close>

definition silent :: "('r, 'e) Router \<Rightarrow> 'e proxy_env \<Rightarrow> string \<Rightarrow> string \<Rightarrow> nat \<Rightarrow> 'r hstate \<Rightarrow> 'r hstate \<Rightarrow> bool" where
  "silent rt env model path a s s' \<longleftrightarrow>
     hs_router s' = snd (ri_Route rt (hs_router s) (pe_route env a) model path) \<and> sends (hs_trace s') = sends (hs_trace s)"

definition sent_via ::
  "('r, 'e) Router \<Rightarrow> 'e proxy_env \<Rightarrow> string \<Rightarrow> string \<Rightarrow> nat \<Rightarrow> 'r hstate \<Rightarrow> 'r hstate \<Rightarrow> RouteResult \<Rightarrow> 'r \<Rightarrow> bool" where
  "sent_via rt env model path a s s' route r1 \<longleftrightarrow>
     ri_Route rt (hs_router s) (pe_route env a) model path = (Inr route, r1) \<and>
     (\<exists>rq. bq_URL rq = rr_TargetURL route \<and> sends (hs_trace s') = sends (hs_trace s) @ [(a, route, rq)])"

primrec route_law :: "('r, 'e) Router \<Rightarrow> 'e proxy_env \<Rightarrow> string \<Rightarrow> string \<Rightarrow> nat \<Rightarrow> 'r hstate \<Rightarrow> ('r hstate, 'b) flow \<Rightarrow> bool" where
  "route_law rt env model path a s (Continue s') \<longleftrightarrow>
     silent rt env model path a s s' \<or>
     (\<exists>route r1. sent_via rt env model path a s s' route r1 \<and>
        hs_router s' = ri_ReportFailure rt r1 (pe_report env a) (p_ID (rr_Provider route)))"
| "route_law rt env model path a s (Return s') \<longleftrightarrow>
     silent rt env model path a s s' \<or> (\<exists>route r1. sent_via rt env model path a s s' route r1)"
| "route_law rt env model path a s (Break s' b) \<longleftrightarrow> (\<exists>route r1. sent_via rt env model path a s s' route r1)"

fun flow_state :: "('s, 'b) flow \<Rightarrow> 's" where
  "flow_state (Continue s) = s"
| "flow_state (Return s) = s"
| "flow_state (Break s b) = s"

lemma request_URL [simp]:
  "bq_URL (upstream_request r body model route) = rr_TargetURL route" "bq_URL (streaming_request r body model route) = rr_TargetURL route"
  "bq_URL (transcription_request r mbody bd route) = rr_TargetURL route"
  by (simp_all add: upstream_request_def streaming_request_def transcription_request_def Let_def)

lemma non_streaming_route_law:
  "route_law rt env model path a s (non_streaming_attempt rt env r body model path isBinary st lg a s)"
  by (auto simp: non_streaming_attempt_def non_streaming_answer_def Let_def silent_def sent_via_def
      split: prod.splits sum.splits route_error.splits option.splits if_splits)

lemma streaming_route_law:
  "route_law rt env model path a s (streaming_attempt rt env r mbody model path st lg a s)"
  by (auto simp: streaming_attempt_def Let_def silent_def sent_via_def
      split: prod.splits sum.splits route_error.splits option.splits if_splits)

lemma transcription_route_law:
  "route_law rt env model ''/v1/audio/transcriptions'' a s (transcription_attempt rt env r mbody bd model st lg a s)"
  by (auto simp: transcription_attempt_def Let_def silent_def sent_via_def
      split: prod.splits sum.splits route_error.splits option.splits if_splits)

lemma provider_of_sent [simp]: "provider_of (a, route, rq) = p_ID (rr_Provider route)"
  by (simp add: provider_of_def)

locale routed_body =
  fixes body :: "nat \<Rightarrow> 'r hstate \<Rightarrow> ('r hstate, 'b) flow"
    and rt :: "('r, 'e) Router" and env :: "'e proxy_env" and model :: string and path :: string
  assumes route_law: "route_law rt env model path a s (body a s)"
begin

text \<open>Every request sent goes where the router said.\<close>

lemma step_sends:
  "sends (hs_trace (flow_state (body a s))) = sends (hs_trace s) \<or>
   (\<exists>route r1. sent_via rt env model path a s (flow_state (body a s)) route r1)"
  using route_law [of a s] by (cases "body a s") (auto simp: silent_def)

lemma sends_routed:
  assumes "x \<in> set (sends (hs_trace (flow_state (for_loop body as s))))"
  shows "x \<in> set (sends (hs_trace s)) \<or>
    (\<exists>a \<in> set as. \<exists>route rq r r1. x = (a, route, rq) \<and> bq_URL rq = rr_TargetURL route \<and> ri_Route rt r (pe_route env a) model path = (Inr route, r1))"
  using assms
proof (induction as arbitrary: s)
  case (Cons a as)
  have step: "x \<in> set (sends (hs_trace s)) \<or>
      (\<exists>route rq r r1. x = (a, route, rq) \<and> bq_URL rq = rr_TargetURL route \<and> ri_Route rt r (pe_route env a) model path = (Inr route, r1))"
    if "x \<in> set (sends (hs_trace (flow_state (body a s))))"
    using step_sends [of a s] that by (auto simp: sent_via_def)
  show ?case
  proof (cases "body a s")
    case (Continue s1)
    with Cons step show ?thesis by auto
  qed (use Cons.prems step in auto)
qed simp

text \<open>
  A router state that rules out the providers \<open>X\<close>, and after a reported failure of another one that
  one as well, makes the requests of a loop go to different providers.
\<close>

lemma sends_distinct:
  assumes inv: "I (set (map provider_of (sends (hs_trace s)))) (hs_router s)" and "distinct (map provider_of (sends (hs_trace s)))"
    and silent: "\<And>X r a. I X r \<Longrightarrow> I X (snd (ri_Route rt r (pe_route env a) model path))"
    and new: "\<And>X r a route r1. I X r \<Longrightarrow> ri_Route rt r (pe_route env a) model path = (Inr route, r1) \<Longrightarrow> p_ID (rr_Provider route) \<notin> X"
    and failed: "\<And>X r a route r1. I X r \<Longrightarrow> ri_Route rt r (pe_route env a) model path = (Inr route, r1) \<Longrightarrow>
      I (insert (p_ID (rr_Provider route)) X) (ri_ReportFailure rt r1 (pe_report env a) (p_ID (rr_Provider route)))"
  shows "distinct (map provider_of (sends (hs_trace (flow_state (for_loop body as s)))))"
  using assms(1,2)
proof (induction as arbitrary: s)
  case (Cons a as)
  have d: "distinct (map provider_of (sends (hs_trace (flow_state (body a s)))))"
    using step_sends [of a s] Cons.prems(2) new [OF Cons.prems(1)] by (auto simp: sent_via_def)
  show ?case
  proof (cases "body a s")
    case (Continue s1)
    have "I (set (map provider_of (sends (hs_trace s1)))) (hs_router s1)"
      using route_law [of a s] silent [OF Cons.prems(1), of a] failed [OF Cons.prems(1), of a]
      by (auto simp: Continue silent_def sent_via_def)
    with Cons.IH [of s1] d Continue show ?thesis by simp
  qed (use d in auto)
qed simp

end

interpretation nsr: routed_body "non_streaming_attempt rt env r body model path isBinary st lg" rt env model path
  for rt env r body model path isBinary st lg
  by unfold_locales (rule non_streaming_route_law)

interpretation strr: routed_body "streaming_attempt rt env r mbody model path start lg" rt env model path
  for rt env r mbody model path start lg
  by unfold_locales (rule streaming_route_law)

interpretation trr: routed_body "transcription_attempt rt env r mbody bd model st lg" rt env model "''/v1/audio/transcriptions''"
  for rt env r mbody bd model st lg
  by unfold_locales (rule transcription_route_law)

section \<open>The requests of a whole handler\<close>

lemma tracked_sends:
  "sends (hs_trace (tracked env r model path body s)) = sends (hs_trace (body (snd (beginTracking env r model path s))))"
  by (simp add: tracked_def case_prod_beta Let_def)

lemma beginTracking_frame [simp]:
  "sends (hs_trace (snd (beginTracking env r model path s))) = sends (hs_trace s)"
  "hs_router (snd (beginTracking env r model path s)) = hs_router s" "hs_panic (snd (beginTracking env r model path s)) = hs_panic s"
  by (simp_all add: beginTracking_def)

text \<open>The loop that runs inside each handler, with its start state.\<close>

lemma proxyNonStreaming_sends:
  "\<exists>s lg. hs_router s = router \<and> sends (hs_trace s) = [] \<and>
     sends (hs_trace (proxyNonStreaming rt env r body model path isBinary st (fresh router))) =
     sends (hs_trace (flow_state (for_loop (non_streaming_attempt rt env r body model path isBinary st lg) attempts s)))"
proof -
  let ?s = "snd (beginTracking env r model path (fresh router))"
  let ?lg = "stamp_key (pe_keyAuth env) (new_log env r model st)"
  have "for_loop (non_streaming_attempt rt env r body model path isBinary st ?lg) attempts ?s =
      Return (non_streaming_run rt env r body model path isBinary st ?s)"
    by (rule non_streaming_run_returns) simp
  then show ?thesis by (intro exI [of _ ?s] exI [of _ ?lg]) (simp add: proxyNonStreaming_def tracked_sends)
qed

lemma stream_answer_sends: "sends (hs_trace (stream_answer rt env model start lg found s)) = sends (hs_trace s)"
proof -
  obtain a route resp where f: "found = (a, route, resp)" by (cases found) auto
  show ?thesis using stream_answer_trace [OF f refl, of rt env model start lg s] by auto
qed

lemma handleStreamingRequest_sends:
  "sends (hs_trace (handleStreamingRequest rt env r body model path st (fresh router))) = [] \<or>
   (\<exists>s mbody lg. hs_router s = router \<and> sends (hs_trace s) = [] \<and>
     sends (hs_trace (handleStreamingRequest rt env r body model path st (fresh router))) =
     sends (hs_trace (flow_state (for_loop (streaming_attempt rt env r mbody model path st lg) attempts s))))"
proof -
  let ?s = "snd (beginTracking env r model path (fresh router))"
  show ?thesis
  proof (cases "injectStreamOptions body")
    case (Ok mbody)
    define lg where "lg = stamp_key (pe_keyAuth env) ((new_log env r model st)\<lparr>l_IsStreamed := True,
      l_RequestBody := truncateBodyWithConfig body (getConfigInt (pe_config env) ''request_body_max_bytes'' DefaultRequestBodyMaxBytes)\<rparr>)"
    have "sends (hs_trace (handleStreamingRequest rt env r body model path st (fresh router))) =
        sends (hs_trace (flow_state (for_loop (streaming_attempt rt env r mbody model path st lg) attempts ?s)))"
      by (simp add: handleStreamingRequest_def tracked_sends streaming_run_def Ok Let_def stream_answer_sends flip: lg_def split: flow.split)
    then show ?thesis by (intro disjI2 exI [of _ ?s] exI [of _ mbody] exI [of _ lg]) simp
  qed (simp_all add: handleStreamingRequest_def tracked_sends streaming_run_def bad_request_def)
qed

section \<open>Failover with the smart router\<close>

text \<open>A router whose closed breakers have no success on record, as after a start.\<close>

definition cold :: "SmartRouter \<Rightarrow> bool" where
  "cold r \<longleftrightarrow> (\<forall>cb \<in> ran (sr_breakers r). br_state cb = StateClosed \<longrightarrow> br_successes cb = [])"

definition admitting :: "string \<Rightarrow> SmartRouter \<Rightarrow> bool" where
  "admitting pid r \<longleftrightarrow> (\<exists>cb. sr_breakers r pid = Some cb \<and> br_state cb \<noteq> StateOpen)"

lemma Allow_Configure:
  assumes "Allow (Configure cb th w c) now = (ok, cb')"
  shows "br_successes cb' = br_successes cb" "br_state cb' = StateClosed \<Longrightarrow> br_state cb = StateClosed"
    "ok \<or> br_state cb \<noteq> StateOpen \<Longrightarrow> br_state cb' \<noteq> StateOpen"
  using assms by (auto simp: Allow_def Configure_def Let_def split: CircuitBreakerState.splits if_splits)

lemma gate_enabled:
  assumes "p_CBEnabled p"
  obtains cb cb' where "cb = (case sr_breakers r (p_ID p) of Some cb \<Rightarrow> cb | None \<Rightarrow> NewCircuitBreaker now)"
    and "snd (gate r p now) = put_breaker r (p_ID p) cb'" and "br_successes cb' = br_successes cb"
    and "br_state cb' = StateClosed \<Longrightarrow> br_state cb = StateClosed"
    and "fst (gate r p now) \<or> br_state cb \<noteq> StateOpen \<Longrightarrow> br_state cb' \<noteq> StateOpen"
proof -
  let ?cb = "case sr_breakers r (p_ID p) of Some cb \<Rightarrow> cb | None \<Rightarrow> NewCircuitBreaker now"
  obtain ok cb' where A: "Allow (Configure ?cb (p_CBErrorThreshold p) (seconds (p_CBWindowSeconds p)) (seconds (p_CBCooldownSeconds p))) now = (ok, cb')"
    by fastforce
  then have "gate r p now = (ok, put_breaker r (p_ID p) cb')" using assms by (simp add: gate_def Let_def)
  with Allow_Configure [OF A] show thesis by (intro that [of ?cb cb']) auto
qed

lemma cold_gate:
  assumes "cold r" and "p_CBEnabled p"
  shows "cold (snd (gate r p now))"
proof -
  obtain cb cb' where g: "cb = (case sr_breakers r (p_ID p) of Some cb \<Rightarrow> cb | None \<Rightarrow> NewCircuitBreaker now)"
    "snd (gate r p now) = put_breaker r (p_ID p) cb'" "br_successes cb' = br_successes cb"
    "br_state cb' = StateClosed \<Longrightarrow> br_state cb = StateClosed" by (rule gate_enabled [OF assms(2), where r = r and now = now]) blast
  then have "br_state cb' = StateClosed \<Longrightarrow> br_successes cb' = []"
    using assms(1) by (auto simp: cold_def NewCircuitBreaker_def ran_def split: option.splits)
  with assms(1) show ?thesis unfolding g(2) by (auto simp: cold_def ran_def split: if_splits)
qed

lemma admitting_gate:
  assumes "admitting pid r \<or> fst (gate r p now) \<and> p_ID p = pid" and "p_CBEnabled p"
  shows "admitting pid (snd (gate r p now))"
proof -
  obtain cb cb' where g: "cb = (case sr_breakers r (p_ID p) of Some cb \<Rightarrow> cb | None \<Rightarrow> NewCircuitBreaker now)"
    "snd (gate r p now) = put_breaker r (p_ID p) cb'"
    "fst (gate r p now) \<or> br_state cb \<noteq> StateOpen \<Longrightarrow> br_state cb' \<noteq> StateOpen" by (rule gate_enabled [OF assms(2), where r = r and now = now]) blast
  then show ?thesis using assms(1) unfolding g(2) by (auto simp: admitting_def)
qed

lemma filter_keeps:
  assumes "I r" and "\<And>r c i. I r \<Longrightarrow> c \<in> set cs \<Longrightarrow> I (snd (gate r (cd_provider c) (clock i)))"
  shows "I (snd (filterByCircuitBreaker r snap clock cs))"
  by (rule filterByCircuitBreaker_inv [where P = "\<lambda>_. I", OF assms(1)]) (simp add: assms(2))

lemma filter_admits:
  assumes "\<forall>c \<in> set cs. p_CBEnabled (cd_provider c)" and "c \<in> set (fst (filterByCircuitBreaker r snap clock cs))"
  shows "admitting (p_ID (cd_provider c)) (snd (filterByCircuitBreaker r snap clock cs))"
  using assms
proof (induction cs arbitrary: r clock)
  case (Cons x cs)
  let ?r1 = "snd (gate r (cd_provider x) (clock 0))" and ?clock = "\<lambda>i. clock (Suc i)"
  have snd_eq: "snd (filterByCircuitBreaker r snap clock (x # cs)) = snd (filterByCircuitBreaker ?r1 snap ?clock cs)"
    by (simp only: filterByCircuitBreaker_Cons Let_def case_prod_beta snd_conv)
  consider "c = x" "fst (gate r (cd_provider x) (clock 0))" | "c \<in> set (fst (filterByCircuitBreaker ?r1 snap ?clock cs))"
    using Cons.prems(2) by (auto simp: filterByCircuitBreaker_Cons Let_def case_prod_beta simp del: filterByCircuitBreaker.simps split: if_splits)
  then show ?case
  proof cases
    case 1
    then have "admitting (p_ID (cd_provider c)) ?r1" using Cons.prems(1) 1 by (intro admitting_gate disjI2) auto
    then show ?thesis unfolding snd_eq by (rule filter_keeps) (use Cons.prems(1) in \<open>simp add: admitting_gate\<close>)
  next
    case 2
    then show ?thesis unfolding snd_eq using Cons.prems(1) by (intro Cons.IH) auto
  qed
qed simp

text \<open>A failure reported right after an admission opens the breaker of a cold router.\<close>

lemma cold_failure_trips:
  assumes "cold r" and "admitting pid r" and "ProviderByID s2 pid = Some p" and "ProviderByID s1 pid = Some p" and "p_CBEnabled p"
    and "0 < p_CBErrorThreshold p" and "p_CBErrorThreshold p < 1" and "0 < seconds (p_CBCooldownSeconds p)"
  shows "held_open pid (seconds (p_CBCooldownSeconds p)) now (ReportFailure r s1 s2 pid now)"
proof -
  from assms(2) obtain cb where cb: "sr_breakers r pid = Some cb" "br_state cb \<noteq> StateOpen" by (auto simp: admitting_def)
  then have "br_state cb = StateHalfOpen \<or> br_state cb = StateClosed \<and> br_successes cb = []"
    using assms(1) by (cases "br_state cb") (auto simp: cold_def ran_def)
  then show ?thesis
  proof
    assume "br_state cb = StateHalfOpen"
    then show ?thesis using assms cb by (intro ReportFailure_trips) (auto simp: circuitBreakerEnabled_def)
  next
    assume c: "br_state cb = StateClosed \<and> br_successes cb = []"
    then show ?thesis using assms cb
      by (simp add: held_open_def ReportFailure_def syncBreakerConfig_def getBreaker_def breaker_defs circuitBreakerEnabled_def error_rate_only_failures)
  qed
qed

text \<open>
  The hypotheses of the failover theorem: every snapshot is that of the routing data \<open>rd\<close>, every
  provider has its breaker enabled with settings in range and a threshold below 1, and all
  instants of the request lie within one cooldown of each provider.
\<close>

definition steady_call :: "RoutingData \<Rightarrow> gateway_call \<Rightarrow> bool" where
  "steady_call rd e \<longleftrightarrow> re_alias_snap (gc_route e) = buildRoutingSnapshot rd \<and> re_direct_snap (gc_route e) = buildRoutingSnapshot rd \<and>
     gc_enabled e = buildRoutingSnapshot rd \<and> gc_config e = buildRoutingSnapshot rd"

definition guarded :: "Provider \<Rightarrow> bool" where
  "guarded p \<longleftrightarrow> p_CBEnabled p \<and> 0 < p_CBErrorThreshold p \<and> p_CBErrorThreshold p < 1 \<and> 0 < seconds (p_CBCooldownSeconds p)"

definition within_cooldown :: "time \<Rightarrow> Provider \<Rightarrow> gateway_call \<Rightarrow> bool" where
  "within_cooldown t p e \<longleftrightarrow> t \<le> gc_now e \<and> (\<forall>i. re_clock (gc_route e) i < t + seconds (p_CBCooldownSeconds p))"

definition ruled_out :: "RoutingData \<Rightarrow> time \<Rightarrow> string set \<Rightarrow> SmartRouter \<Rightarrow> bool" where
  "ruled_out rd t X r \<longleftrightarrow> cold r \<and>
     (\<forall>pid \<in> X. \<exists>p t'. find_provider rd pid = Some p \<and> t \<le> t' \<and> held_open pid (seconds (p_CBCooldownSeconds p)) t' r)"

lemma find_provider_in: "find_provider rd pid = Some p \<Longrightarrow> p \<in> set (rd_Providers rd) \<and> p_ID p = pid"
  by (auto simp: find_provider_def find_Some_iff) (metis length_rev nth_mem set_rev)

lemma steady_candidate:
  assumes "steady_call rd e" and "c \<in> set (fst (resolveCandidates (re_alias_snap (gc_route e)) (re_direct_snap (gc_route e)) model))"
  shows "find_provider rd (p_ID (cd_provider c)) = Some (cd_provider c)" and "cd_provider c \<in> set (rd_Providers rd)"
  using assms candidate_provider_record [of c rd model] find_provider_in by (auto simp: steady_call_def)

lemma ruled_outD:
  "ruled_out rd t X r \<Longrightarrow> pid \<in> X \<Longrightarrow>
   \<exists>p t'. find_provider rd pid = Some p \<and> t \<le> t' \<and> held_open pid (seconds (p_CBCooldownSeconds p)) t' r"
  unfolding ruled_out_def by simp

lemma ruled_out_gate:
  assumes "ruled_out rd t X r" and "find_provider rd (p_ID p) = Some p" and "guarded p" and "now < t + seconds (p_CBCooldownSeconds p)"
  shows "ruled_out rd t X (snd (gate r p now))" and "p_ID p \<in> X \<Longrightarrow> \<not> fst (gate r p now)"
proof -
  have same: "\<not> fst (gate r p now) \<and> held_open (p_ID p) (seconds (p_CBCooldownSeconds p)) t' (snd (gate r p now))"
    if "held_open (p_ID p) (seconds (p_CBCooldownSeconds p)) t' r" "t \<le> t'" for t'
    using that assms(3,4) by (intro held_open_gate_same [OF that(1) refl]) (auto simp: guarded_def seconds_range)
  show "p_ID p \<in> X \<Longrightarrow> \<not> fst (gate r p now)" using assms(1,2) same unfolding ruled_out_def by fastforce
  have "\<exists>q t'. find_provider rd pid = Some q \<and> t \<le> t' \<and> held_open pid (seconds (p_CBCooldownSeconds q)) t' (snd (gate r p now))" if px: "pid \<in> X" for pid
  proof -
    obtain q t' where q: "find_provider rd pid = Some q" "t \<le> t'" "held_open pid (seconds (p_CBCooldownSeconds q)) t' r"
      using ruled_outD [OF assms(1) px] by metis
    show ?thesis
    proof (cases "p_ID p = pid")
      case True
      then have "held_open pid (seconds (p_CBCooldownSeconds q)) t' (snd (gate r p now))" using same q assms(2) by auto
      with q show ?thesis by blast
    next
      case False
      with q held_open_gate_other [OF q(3) False] show ?thesis by blast
    qed
  qed
  moreover have "cold (snd (gate r p now))" using assms(1,3) by (simp add: ruled_out_def guarded_def cold_gate)
  ultimately show "ruled_out rd t X (snd (gate r p now))" by (simp add: ruled_out_def)
qed

lemma Route_ruled_out:
  assumes "ruled_out rd t X r" and "steady_call rd e" and "\<forall>p \<in> set (rd_Providers rd). guarded p \<and> within_cooldown t p e"
  shows "ruled_out rd t X (snd (Route r (gc_route e) model path))"
proof -
  let ?cs = "fst (resolveCandidates (re_alias_snap (gc_route e)) (re_direct_snap (gc_route e)) model)"
  have "ruled_out rd t X (snd (filterByCircuitBreaker r (re_direct_snap (gc_route e)) (re_clock (gc_route e)) ?cs))"
    using assms(1)
  proof (rule filter_keeps)
    fix r c i assume "ruled_out rd t X r" and "c \<in> set ?cs"
    with steady_candidate [OF assms(2)] assms(3) show "ruled_out rd t X (snd (gate r (cd_provider c) (re_clock (gc_route e) i)))"
      by (intro ruled_out_gate) (auto simp: within_cooldown_def)
  qed
  then show ?thesis by (simp only: Route_router)
qed

lemma Route_new_provider:
  assumes "ruled_out rd t X r" and "steady_call rd e" and "\<forall>p \<in> set (rd_Providers rd). guarded p \<and> within_cooldown t p e"
    and "Route r (gc_route e) model path = (Inr route, r1)"
  shows "p_ID (rr_Provider route) \<notin> X"
  using assms(4,1)
proof (rule Route_avoids [where bad = "\<lambda>p. p_ID p \<in> X" and I = "ruled_out rd t X"])
  fix r c i assume "ruled_out rd t X r" and "c \<in> set (fst (resolveCandidates (re_alias_snap (gc_route e)) (re_direct_snap (gc_route e)) model))"
  note g = ruled_out_gate [OF this(1), of "cd_provider c" "re_clock (gc_route e) i"] steady_candidate [OF assms(2) this(2)]
  show "ruled_out rd t X (snd (gate r (cd_provider c) (re_clock (gc_route e) i)))" using g assms(3) by (auto simp: within_cooldown_def)
  show "\<not> fst (gate r (cd_provider c) (re_clock (gc_route e) i))" if "p_ID (cd_provider c) \<in> X"
    using g assms(3) that by (auto simp: within_cooldown_def)
qed

lemma ReportFailure_other: "held_open pid d t r \<Longrightarrow> pid' \<noteq> pid \<Longrightarrow> held_open pid d t (ReportFailure r s1 s2 pid' now)"
  by (auto simp: held_open_def ReportFailure_def syncBreakerConfig_def getBreaker_def Let_def case_prod_beta split: option.splits)

definition unproven :: "CircuitBreaker \<Rightarrow> bool" where
  "unproven cb \<longleftrightarrow> br_state cb = StateClosed \<longrightarrow> br_successes cb = []"

lemma cold_iff: "cold r \<longleftrightarrow> (\<forall>pid cb. sr_breakers r pid = Some cb \<longrightarrow> unproven cb)"
  by (auto simp: cold_def unproven_def ran_def)

lemma cold_put: "cold r \<Longrightarrow> unproven cb \<Longrightarrow> cold (put_breaker r pid cb)"
  by (simp add: cold_iff)

lemma unproven_ops: "unproven cb \<Longrightarrow> unproven (Configure cb th w c)" "unproven cb \<Longrightarrow> unproven (RecordFailure cb now)" "unproven (NewCircuitBreaker now)"
  by (auto simp: unproven_def breaker_defs NewCircuitBreaker_def split: CircuitBreakerState.splits)

lemma cold_sync:
  assumes "cold r"
  shows "cold (snd (syncBreakerConfig r snap pid p now)) \<and> unproven (fst (syncBreakerConfig r snap pid p now))"
proof -
  obtain cb r1 where g: "getBreaker r pid now = (cb, r1)" by fastforce
  have "unproven cb \<and> cold r1"
  proof (cases "sr_breakers r pid")
    case None
    with g have "cb = NewCircuitBreaker now" "r1 = put_breaker r pid (NewCircuitBreaker now)" by (auto simp: getBreaker_def Let_def)
    then show ?thesis using cold_put [OF assms unproven_ops(3)] unproven_ops(3) by simp
  next
    case (Some cb')
    with g have "cb = cb'" "r1 = r" by (simp_all add: getBreaker_def)
    then show ?thesis using Some assms cold_iff by blast
  qed
  then show ?thesis by (simp add: syncBreakerConfig_def g Let_def cold_put unproven_ops split: option.split)
qed

lemma cold_ReportFailure: "cold r \<Longrightarrow> cold (ReportFailure r s1 s2 pid now)"
  using cold_sync [of r s2 pid None now] by (simp add: ReportFailure_def case_prod_beta cold_put unproven_ops)

lemma ReportFailure_rules_out:
  assumes "ruled_out rd t X r" and "steady_call rd e" and "steady_call rd e'" and "\<forall>p \<in> set (rd_Providers rd). guarded p \<and> within_cooldown t p e"
    and "\<forall>p \<in> set (rd_Providers rd). within_cooldown t p e'"
    and route: "Route r (gc_route e) model path = (Inr route, r1)" and pid: "pid = p_ID (rr_Provider route)"
  shows "ruled_out rd t (insert pid X) (ReportFailure r1 (gc_enabled e') (gc_config e') pid (gc_now e'))"
proof -
  have r1: "ruled_out rd t X r1" using Route_ruled_out [OF assms(1,2,4), of model path] by (simp add: route)
  from route obtain c cs via where cs: "resolveCandidates (re_alias_snap (gc_route e)) (re_direct_snap (gc_route e)) model = (cs, via)"
    and c: "eligible (filterByEndpoint (re_endpoint_snap (gc_route e)) path
           (fst (filterByCircuitBreaker r (re_direct_snap (gc_route e)) (re_clock (gc_route e)) cs))) c"
    and res: "rr_Provider route = cd_provider c"
    and r1_def: "r1 = snd (filterByCircuitBreaker r (re_direct_snap (gc_route e)) (re_clock (gc_route e)) cs)"
    by (rule Route_Inr) auto
  let ?p = "cd_provider c"
  from c have cf: "c \<in> set (fst (filterByCircuitBreaker r (re_direct_snap (gc_route e)) (re_clock (gc_route e)) cs))"
    by (auto simp: eligible_def dest: filterByEndpoint_in)
  have cand: "find_provider rd (p_ID (cd_provider x)) = Some (cd_provider x) \<and> guarded (cd_provider x) \<and> cd_provider x \<in> set (rd_Providers rd)"
    if "x \<in> set cs" for x using steady_candidate [OF assms(2), of x model] that cs assms(4) by auto
  have pc: "c \<in> set cs" using cf filterByCircuitBreaker_subset by blast
  have "admitting (p_ID ?p) r1" unfolding r1_def by (rule filter_admits [OF _ cf]) (use cand in \<open>auto simp: guarded_def\<close>)
  moreover have "ProviderByID (gc_enabled e') pid = Some ?p" "ProviderByID (gc_config e') pid = Some ?p"
    using assms(3) cand [OF pc] by (simp_all add: steady_call_def ProviderByID_build pid res)
  ultimately have "held_open pid (seconds (p_CBCooldownSeconds ?p)) (gc_now e') (ReportFailure r1 (gc_enabled e') (gc_config e') pid (gc_now e'))"
    using r1 cand [OF pc] by (intro cold_failure_trips) (auto simp: ruled_out_def guarded_def pid res)
  moreover have "t \<le> gc_now e'" using assms(5) cand [OF pc] by (auto simp: within_cooldown_def)
  moreover have "pid \<notin> X" unfolding pid by (rule Route_new_provider [OF assms(1,2,4) route])
  ultimately show ?thesis
    using r1 cand [OF pc] by (auto simp: ruled_out_def pid res cold_ReportFailure) (metis ReportFailure_other)
qed

lemma smart_router_sends_distinct:
  assumes "\<forall>a. steady_call rd (pe_route env a) \<and> steady_call rd (pe_report env a)"
    and "\<forall>p \<in> set (rd_Providers rd). guarded p \<and> (\<forall>a. within_cooldown t p (pe_route env a) \<and> within_cooldown t p (pe_report env a))"
    and "cold (hs_router s)" and "sends (hs_trace s) = []"
    and "\<And>a s. route_law smart_router env model path a s (body a s)"
  shows "distinct (map provider_of (sends (hs_trace (flow_state (for_loop body as s)))))"
proof (rule routed_body.sends_distinct [where I = "ruled_out rd t" and body = body and rt = smart_router and env = env and model = model and path = path])
  show "routed_body body smart_router env model path" by (unfold_locales) (rule assms(5))
  show "ruled_out rd t (set (map provider_of (sends (hs_trace s)))) (hs_router s)" using assms(3,4) by (simp add: ruled_out_def)
  fix X r a assume x: "ruled_out rd t X r"
  show "ruled_out rd t X (snd (ri_Route smart_router r (pe_route env a) model path))"
    unfolding smart_router_def Router.simps by (rule Route_ruled_out [OF x]) (use assms(1,2) in auto)
  fix route r1 assume "ri_Route smart_router r (pe_route env a) model path = (Inr route, r1)"
  then have route: "Route r (gc_route (pe_route env a)) model path = (Inr route, r1)" by (simp add: smart_router_def)
  show "p_ID (rr_Provider route) \<notin> X" by (rule Route_new_provider [OF x _ _ route]) (use assms(1,2) in auto)
  show "ruled_out rd t (insert (p_ID (rr_Provider route)) X) (ri_ReportFailure smart_router r1 (pe_report env a) (p_ID (rr_Provider route)))"
    unfolding smart_router_def Router.simps
    by (rule ReportFailure_rules_out [OF x _ _ _ _ route refl]) (use assms(1,2) in auto)
qed (simp add: assms(4))

section \<open>Where requests go\<close>

text \<open>A route of the smart router over the snapshot of a store's tables names a provider that the store would name.\<close>

definition live_target :: "db \<Rightarrow> string \<Rightarrow> nat \<times> RouteResult \<times> backend_request \<Rightarrow> bool" where
  "live_target d path x \<longleftrightarrow>
     (let p = rr_Provider (fst (snd x))
      in GetProvider no_fault (p_ID p) d = Inr p \<and> p_IsHealthy p \<and>
         GetEnabledEndpoint no_fault (p_ID p) (normalizeEndpointPath path) d \<noteq> Inr None \<and>
         bq_URL (snd (snd x)) = TrimRight (p_BaseURL p) CHR ''/'' @ ''/'' @ TrimLeft path CHR ''/'')"

lemma Route_live:
  assumes "db_ok d" and "rd = routing_data ks d" and "steady_call rd e"
    and "\<forall>i. re_endpoint_snap (gc_route e) i = buildRoutingSnapshot rd"
    and "Route r (gc_route e) model path = (Inr route, r1)" and "bq_URL rq = rr_TargetURL route"
  shows "live_target d path (a, route, rq)"
proof -
  from assms(5) obtain c cs via where cs: "resolveCandidates (re_alias_snap (gc_route e)) (re_direct_snap (gc_route e)) model = (cs, via)"
    and c: "eligible (filterByEndpoint (re_endpoint_snap (gc_route e)) path
           (fst (filterByCircuitBreaker r (re_direct_snap (gc_route e)) (re_clock (gc_route e)) cs))) c"
    and res: "rr_Provider route = cd_provider c" "rr_TargetURL route = target_url (p_BaseURL (cd_provider c)) path"
    by (rule Route_Inr) auto
  have cand: "c \<in> set cs" "HasEnabledEndpoint (buildRoutingSnapshot rd) (p_ID (cd_provider c)) path"
    using c assms(4) by (auto simp: eligible_def dest!: filterByEndpoint_in dest: subsetD [OF filterByCircuitBreaker_subset])
  then have "find_provider rd (p_ID (cd_provider c)) = Some (cd_provider c) \<and> p_IsHealthy (cd_provider c)"
    using candidate_provider_record [of c rd model] cs assms(3) by (simp add: steady_call_def)
  moreover have "GetEnabledEndpoint no_fault (p_ID (cd_provider c)) (normalizeEndpointPath path) d \<noteq> Inr None"
    using cand(2) unfolding assms(2) HasEnabledEndpoint_build enabled_endpoint_rows by (auto simp: routing_data_def)
  ultimately show ?thesis
    using assms(1,2,6) by (auto simp: live_target_def res target_url_def find_provider_query provider_of_row_def split: sum.splits)
qed

lemma smart_router_sends_live:
  assumes "db_ok d" and "rd = routing_data ks d"
    and "\<forall>a. steady_call rd (pe_route env a) \<and> (\<forall>i. re_endpoint_snap (gc_route (pe_route env a)) i = buildRoutingSnapshot rd)"
    and "sends (hs_trace s) = []" and "\<And>a s. route_law smart_router env model path a s (body a s)"
  shows "list_all (live_target d path) (sends (hs_trace (flow_state (for_loop body as s))))"
proof -
  have rb: "routed_body body smart_router env model path" by (unfold_locales) (rule assms(5))
  have "live_target d path x" if x: "x \<in> set (sends (hs_trace (flow_state (for_loop body as s))))" for x
  proof -
    obtain a route rq r r1 where "x = (a, route, rq)" "bq_URL rq = rr_TargetURL route" "ri_Route smart_router r (pe_route env a) model path = (Inr route, r1)"
      using routed_body.sends_routed [OF rb x] assms(4) by auto
    then show ?thesis using Route_live [OF assms(1,2), of "pe_route env a" r model path route r1 rq a] assms(3) by (simp add: smart_router_def)
  qed
  then show ?thesis by (simp add: list_all_iff)
qed



section \<open>A sample with two providers\<close>

definition sample_endpoint :: "string \<Rightarrow> string \<Rightarrow> ProviderEndpoint" where
  "sample_endpoint i pid = \<lparr>e_ID = i, e_ProviderID = pid, e_Path = ''/v1/chat/completions'', e_Method = ''POST'', e_IsSupported = True,
     e_IsEnabled = True, e_CreatedAt = 0\<rparr>"

definition pair_db :: db where
  "pair_db = fold (\<lambda>f d. snd (f d))
     [CreateProvider no_fault sample_provider, CreateProvider no_fault (sample_provider\<lparr>p_ID := ''q'', p_BaseURL := ''http://b/''\<rparr>),
      UpsertProviderEndpoints no_fault ''p'' [sample_endpoint ''e1'' ''p''], UpsertProviderEndpoints no_fault ''q'' [sample_endpoint ''e2'' ''q''],
      CreateProviderModel no_fault ((new_model ''m1'' ''p'' ''gpt'' 0)\<lparr>m_IsAvailable := True\<rparr>),
      CreateProviderModel no_fault ((new_model ''m2'' ''q'' ''gpt'' 0)\<lparr>m_IsAvailable := True\<rparr>)] (migrated_db 0)"

definition pair_call :: gateway_call where
  "pair_call =
     (let s = buildRoutingSnapshot (routing_data (\<lambda>_. []) pair_db)
      in \<lparr>gc_route = \<lparr>re_alias_snap = s, re_direct_snap = s, re_endpoint_snap = (\<lambda>_. s), re_clock = (\<lambda>_. 0), re_order = [], re_rand = 0\<rparr>,
          gc_enabled = s, gc_config = s, gc_now = 0\<rparr>)"

text \<open>Every backend answers 503.\<close>

definition pair_env :: "gateway_call proxy_env" where
  "pair_env = \<lparr>pe_logID = ''id'', pe_trackID = '''', pe_active = False, pe_begin = 0, pe_now = (\<lambda>_. 0), pe_newRequest = (\<lambda>_. None),
     pe_jsonErr = (\<lambda>_. ''''), pe_do = (\<lambda>_ _. Inr \<lparr>bk_StatusCode = 503, bk_Header = [], bk_Body = '''', bk_ReadErr = None\<rparr>),
     pe_route = (\<lambda>_. pair_call), pe_report = (\<lambda>_. pair_call), pe_config = Map.empty, pe_header = [], pe_keyAuth = None, pe_flusher = True,
     pe_writeErr = (\<lambda>_. None), pe_lineClock = (\<lambda>_. 0)\<rparr>"

lemma pair_db_reach: "db_reach pair_db"
  unfolding pair_db_def fold_simps by (intro db_reach.intros)

lemma pair_steady: "\<forall>a. steady_call (routing_data (\<lambda>_. []) pair_db) (pe_route pair_env a) \<and> steady_call (routing_data (\<lambda>_. []) pair_db) (pe_report pair_env a) \<and>
    (\<forall>i. re_endpoint_snap (gc_route (pe_route pair_env a)) i = buildRoutingSnapshot (routing_data (\<lambda>_. []) pair_db))"
  by (simp add: steady_call_def pair_env_def pair_call_def Let_def)

lemma pair_sends:
  "map provider_of (sends (hs_trace (proxyNonStreaming smart_router pair_env sample_request ''{}'' ''gpt'' ''/v1/chat/completions'' False 0
     (fresh NewSmartRouter)))) = [''p'', ''q'']"
  by code_simp



end
