(* ===== verification/Log_Retention.thy ===== *)
theory Log_Retention
  imports Store_Logs
begin

text \<open>
  The retention of stored bodies (\<open>internal/logretention\<close>): the retention periods read from the
  settings, the three purges, and one round of the worker, which runs them one after the
  other. The clock, read anew by each purge, and the faults of the database are arguments.
\<close>

definition retentionDaysFromKey :: "config \<Rightarrow> string \<Rightarrow> int \<Rightarrow> int option" where
  "retentionDaysFromKey cfg key defaultDays =
     (case cfg key of
        None \<Rightarrow> Some defaultDays
      | Some val \<Rightarrow>
          (case Atoi val of
             None \<Rightarrow> None
           | Some n \<Rightarrow> if n < MinStreamingLogBodyRetentionDays \<or> n > MaxStreamingLogBodyRetentionDays then None else Some n))"

definition StreamingRetentionDaysFromConfig :: "config \<Rightarrow> int option" where
  "StreamingRetentionDaysFromConfig cfg = retentionDaysFromKey cfg ''streaming_log_body_retention_days'' DefaultStreamingLogBodyRetentionDays"

definition RequestLogBodyRetentionDaysFromConfig :: "config \<Rightarrow> int option" where
  "RequestLogBodyRetentionDaysFromConfig cfg = retentionDaysFromKey cfg ''request_log_body_retention_days'' DefaultRequestLogBodyRetentionDays"

definition ResponseLogBodyRetentionDaysFromConfig :: "config \<Rightarrow> int option" where
  "ResponseLogBodyRetentionDaysFromConfig cfg = retentionDaysFromKey cfg ''response_log_body_retention_days'' DefaultResponseLogBodyRetentionDays"

definition validateRetentionDays :: "int \<Rightarrow> store_error option" where
  "validateRetentionDays days =
     (if days < MinStreamingLogBodyRetentionDays \<or> days > MaxStreamingLogBodyRetentionDays
      then Some (StoreError '''' (Message ''retention days out of range'')) else None)"

text \<open>\<open>AddDate(0, 0, -days)\<close> of a UTC time.\<close>

definition cutoff :: "time \<Rightarrow> int \<Rightarrow> time" where
  "cutoff now days = now - days * day"

definition PurgeStreamingChunkBodies :: "fault \<Rightarrow> time \<Rightarrow> int \<Rightarrow> db \<Rightarrow> (store_error + nat) \<times> db" where
  "PurgeStreamingChunkBodies flt now days d =
     (case validateRetentionDays days of Some e \<Rightarrow> (Inl e, d) | None \<Rightarrow> PurgeStreamingLogBodiesOlderThan flt (cutoff now days) d)"

definition PurgeRequestLogRequestBodies :: "fault \<Rightarrow> time \<Rightarrow> int \<Rightarrow> db \<Rightarrow> (store_error + nat) \<times> db" where
  "PurgeRequestLogRequestBodies flt now days d =
     (case validateRetentionDays days of Some e \<Rightarrow> (Inl e, d) | None \<Rightarrow> PurgeRequestLogRequestBodiesOlderThan flt (cutoff now days) d)"

definition PurgeRequestLogResponseBodies :: "fault \<Rightarrow> time \<Rightarrow> int \<Rightarrow> db \<Rightarrow> (store_error + nat) \<times> db" where
  "PurgeRequestLogResponseBodies flt now days d =
     (case validateRetentionDays days of Some e \<Rightarrow> (Inl e, d) | None \<Rightarrow> PurgeRequestLogResponseBodiesOlderThan flt (cutoff now days) d)"

datatype body_kind = StreamingChunk | RequestBody | ResponseBody

datatype retention_event = LoadFailed store_error | Skipped body_kind | PurgeFailed body_kind store_error | Purged body_kind nat int

definition purge_kind ::
  "body_kind \<Rightarrow> (fault \<Rightarrow> time \<Rightarrow> int \<Rightarrow> db \<Rightarrow> (store_error + nat) \<times> db) \<Rightarrow> int option \<Rightarrow> fault \<Rightarrow> time \<Rightarrow> db \<Rightarrow> retention_event list \<times> db" where
  "purge_kind k purge days flt now d =
     (case days of
        None \<Rightarrow> ([Skipped k], d)
      | Some n \<Rightarrow>
          (case purge flt now n d of
             (Inl e, d') \<Rightarrow> ([PurgeFailed k e], d')
           | (Inr rows, d') \<Rightarrow> (if rows > 0 then [Purged k rows n] else [], d')))"

text \<open>One round; \<open>flt 0\<close> are the faults of loading the settings, \<open>flt 1\<close> to \<open>flt 3\<close> those of the purges.\<close>

definition runOnce :: "(nat \<Rightarrow> fault) \<Rightarrow> (nat \<Rightarrow> time) \<Rightarrow> db \<Rightarrow> retention_event list \<times> db" where
  "runOnce flt clock d =
     (case GetAllConfig (flt 0) d of
        Inl e \<Rightarrow> ([LoadFailed e], d)
      | Inr cfg \<Rightarrow>
          (let (ev1, d1) = purge_kind StreamingChunk PurgeStreamingChunkBodies (StreamingRetentionDaysFromConfig cfg) (flt 1) (clock 1) d;
               (ev2, d2) = purge_kind RequestBody PurgeRequestLogRequestBodies (RequestLogBodyRetentionDaysFromConfig cfg) (flt 2) (clock 2) d1;
               (ev3, d3) = purge_kind ResponseBody PurgeRequestLogResponseBodies (ResponseLogBodyRetentionDaysFromConfig cfg) (flt 3) (clock 3) d2
           in (ev1 @ ev2 @ ev3, d3)))"

text \<open>The worker: a first round at once, then one per tick of the ticker until the context is done.\<close>

definition Worker_Start :: "(nat \<Rightarrow> nat \<Rightarrow> fault) \<Rightarrow> (nat \<Rightarrow> nat \<Rightarrow> time) \<Rightarrow> bool \<Rightarrow> nat \<Rightarrow> db \<Rightarrow> retention_event list \<times> db" where
  "Worker_Start flt clock cancelled ticks d =
     (if cancelled then ([], d)
      else fold (\<lambda>i (ev, d). case runOnce (flt i) (clock i) d of (ev', d') \<Rightarrow> (ev @ ev', d')) [0..<Suc ticks] ([], d))"

section \<open>What a round leaves\<close>

lemma retentionDays_range:
  "retentionDaysFromKey cfg key def = Some n \<Longrightarrow> MinStreamingLogBodyRetentionDays \<le> def \<Longrightarrow> def \<le> MaxStreamingLogBodyRetentionDays \<Longrightarrow>
   validateRetentionDays n = None"
  by (auto simp: retentionDaysFromKey_def validateRetentionDays_def split: option.splits if_splits)

lemma config_days_valid:
  "StreamingRetentionDaysFromConfig cfg = Some n \<Longrightarrow> validateRetentionDays n = None"
  "RequestLogBodyRetentionDaysFromConfig cfg = Some n \<Longrightarrow> validateRetentionDays n = None"
  "ResponseLogBodyRetentionDaysFromConfig cfg = Some n \<Longrightarrow> validateRetentionDays n = None"
  unfolding StreamingRetentionDaysFromConfig_def RequestLogBodyRetentionDaysFromConfig_def ResponseLogBodyRetentionDaysFromConfig_def
  by (erule retentionDays_range, simp_all add: config_consts)+

text \<open>Whether a purge at an instant clears what was created at \<open>t\<close>.\<close>

definition expired :: "int option \<Rightarrow> fault \<Rightarrow> time \<Rightarrow> time \<Rightarrow> bool" where
  "expired days flt now t = (case days of None \<Rightarrow> False | Some n \<Rightarrow> flt 0 = None \<and> t < cutoff now n)"

definition clear_request :: "(time \<Rightarrow> bool) \<Rightarrow> request_logs_row \<Rightarrow> request_logs_row" where
  "clear_request old r = (if old (lr_created_at r) \<and> str_of (lr_request_body r) \<noteq> '''' then r\<lparr>lr_request_body := Some ''''\<rparr> else r)"

definition clear_response :: "(time \<Rightarrow> bool) \<Rightarrow> request_logs_row \<Rightarrow> request_logs_row" where
  "clear_response old r = (if old (lr_created_at r) \<and> str_of (lr_response_body r) \<noteq> '''' then r\<lparr>lr_response_body := Some ''''\<rparr> else r)"

definition clear_chunk :: "(time \<Rightarrow> bool) \<Rightarrow> StreamingLog \<Rightarrow> StreamingLog" where
  "clear_chunk old c = (if old (s_CreatedAt c) then c\<lparr>s_Data := '''', s_ContentDelta := '''', s_BodyPurged := True\<rparr> else c)"

lemma exec_count_state: "snd (exec_count flt ctx st d) = (if flt 0 = None then effect st d else d)"
  by (auto simp: exec_count_def run_stmt_def effect_def split: option.splits sum.splits prod.splits)

lemma snd_purge_kind:
  assumes "\<And>n. days = Some n \<Longrightarrow> validateRetentionDays n = None"
  shows "snd (purge_kind StreamingChunk PurgeStreamingChunkBodies days flt now d) =
      d\<lparr>db_streaming_logs := map (clear_chunk (expired days flt now)) (db_streaming_logs d)\<rparr>"
    and "snd (purge_kind RequestBody PurgeRequestLogRequestBodies days flt now d) =
      d\<lparr>db_request_logs := map (clear_request (expired days flt now)) (db_request_logs d)\<rparr>"
    and "snd (purge_kind ResponseBody PurgeRequestLogResponseBodies days flt now d) =
      d\<lparr>db_request_logs := map (clear_response (expired days flt now)) (db_request_logs d)\<rparr>"
proof -
  have snd: "snd (purge_kind k p days flt now d) = (case days of None \<Rightarrow> d | Some n \<Rightarrow> snd (p flt now n d))" for k p
    by (simp add: purge_kind_def split: option.split prod.split sum.split)
  show "snd (purge_kind StreamingChunk PurgeStreamingChunkBodies days flt now d) =
      d\<lparr>db_streaming_logs := map (clear_chunk (expired days flt now)) (db_streaming_logs d)\<rparr>"
    using assms by (auto simp: snd PurgeStreamingChunkBodies_def PurgeStreamingLogBodiesOlderThan_def exec_count_state effect_def purge_chunks_def
        expired_def clear_chunk_def Let_def map_idI split: option.split intro!: db.equality)
  show "snd (purge_kind RequestBody PurgeRequestLogRequestBodies days flt now d) =
      d\<lparr>db_request_logs := map (clear_request (expired days flt now)) (db_request_logs d)\<rparr>"
    using assms by (auto simp: snd PurgeRequestLogRequestBodies_def PurgeRequestLogRequestBodiesOlderThan_def exec_count_state effect_def
        purge_request_bodies_def expired_def clear_request_def Let_def map_idI split: option.split)
  show "snd (purge_kind ResponseBody PurgeRequestLogResponseBodies days flt now d) =
      d\<lparr>db_request_logs := map (clear_response (expired days flt now)) (db_request_logs d)\<rparr>"
    using assms by (auto simp: snd PurgeRequestLogResponseBodies_def PurgeRequestLogResponseBodiesOlderThan_def exec_count_state effect_def
        purge_response_bodies_def expired_def clear_response_def Let_def map_idI split: option.split)
qed


lemma runOnce_state:
  assumes "GetAllConfig (flt 0) d = Inr cfg"
  shows "snd (runOnce flt clock d) = d\<lparr>
    db_streaming_logs := map (clear_chunk (expired (StreamingRetentionDaysFromConfig cfg) (flt 1) (clock 1))) (db_streaming_logs d),
    db_request_logs := map (clear_response (expired (ResponseLogBodyRetentionDaysFromConfig cfg) (flt 3) (clock 3)))
      (map (clear_request (expired (RequestLogBodyRetentionDaysFromConfig cfg) (flt 2) (clock 2))) (db_request_logs d))\<rparr>"
  by (simp add: runOnce_def assms Let_def case_prod_beta snd_purge_kind config_days_valid)

lemma clear_fields:
  "s_ID (clear_chunk old c) = s_ID c"
  "s_Data (clear_chunk old c) = (if old (s_CreatedAt c) then '''' else s_Data c)"
  "s_ContentDelta (clear_chunk old c) = (if old (s_CreatedAt c) then '''' else s_ContentDelta c)"
  "lr_id (clear_request old r) = lr_id r" "lr_id (clear_response old r) = lr_id r"
  "lr_created_at (clear_request old r) = lr_created_at r"
  "str_of (lr_request_body (clear_request old r)) = (if old (lr_created_at r) then '''' else str_of (lr_request_body r))"
  "lr_request_body (clear_response old r) = lr_request_body r"
  "lr_response_body (clear_request old r) = lr_response_body r"
  "str_of (lr_response_body (clear_response old r)) = (if old (lr_created_at r) then '''' else str_of (lr_response_body r))"
  "scanRequestLog (clear_request old r) = scanRequestLog r" "scanRequestLog (clear_response old r) = scanRequestLog r"
  by (simp_all add: clear_chunk_def clear_request_def clear_response_def scanRequestLog_def applyRequestLogFields_def)


definition sample_log_db :: db where
  "sample_log_db = snd (InsertRequestLog no_fault (zero_RequestLog\<lparr>l_RequestBody := ''hello'', l_ResponseBody := ''world''\<rparr>) (migrated_db 0))"


lemma db_ok_purge_kind:
  assumes "db_ok d" and "\<And>n e. db_ok e \<Longrightarrow> db_ok (snd (p f now n e))"
  shows "db_ok (snd (purge_kind k p days f now d))"
  using assms(1) assms(2) [OF assms(1)]
  by (auto simp: purge_kind_def split: option.splits prod.splits sum.splits) (metis snd_conv)+

lemma db_ok_purges:
  assumes "db_ok d"
  shows "db_ok (snd (PurgeStreamingChunkBodies f now n d))" "db_ok (snd (PurgeRequestLogRequestBodies f now n d))"
    "db_ok (snd (PurgeRequestLogResponseBodies f now n d))"
  using assms db_ok_log_ops [of d]
  by (auto simp: PurgeStreamingChunkBodies_def PurgeRequestLogRequestBodies_def PurgeRequestLogResponseBodies_def split: option.split)

lemma db_ok_runOnce [inv_intros]: "db_ok d \<Longrightarrow> db_ok (snd (runOnce flt clock d))"
  unfolding runOnce_def Let_def case_prod_beta
  by (auto split: sum.split intro!: db_ok_purge_kind db_ok_purges)

end
