(* ===== verification/Metrics_Collector.thy ===== *)
theory Metrics_Collector
  imports Attempt_Loop Store_Logs Routing_Catalog
begin

text \<open>
  The collector (\<open>internal/metrics/collector.go\<close>): request handlers hand it logs without waiting,
  through a channel of fixed capacity; a worker takes them out, prices them from the routing
  catalog, stores them with their stream chunks and adds them to the statistics. Handing over is a
  function on the channel; the worker, the handlers, the shutdown of the process and the closing of the
  channel interleave, which a step relation describes.
\<close>

section \<open>Jobs\<close>

record persistJob =
  pj_log :: RequestLog
  pj_chunks :: "StreamingLogChunk list"
  pj_prefixDropped :: bool

text \<open>
  What one job meets: the catalog, if there is one, as the snapshot of each of its two look-ups;
  the faults of the database, first for the log, then for each chunk; the identifiers and instants drawn.
\<close>

record persist_env =
  pv_catalog :: "(routingSnapshot \<times> routingSnapshot) option"
  pv_fault :: "nat \<Rightarrow> fault"
  pv_uuid :: "nat \<Rightarrow> string"
  pv_stamp :: "nat \<Rightarrow> time"
  pv_created :: "nat \<Rightarrow> time"
  pv_statsNow :: time

definition price_log :: "(routingSnapshot \<times> routingSnapshot) option \<Rightarrow> RequestLog \<Rightarrow> RequestLog" where
  "price_log catalog l =
     (case catalog of
        None \<Rightarrow> l
      | Some (snap, _) \<Rightarrow>
          (if l_ProviderID l \<noteq> '''' \<and> l_ResolvedModel l \<noteq> '''' \<and> l_EstimatedCostUSD l = None
           then (case lookup_ProviderModel snap (l_ProviderID l) (l_ResolvedModel l) of
                   None \<Rightarrow> l
                 | Some pm \<Rightarrow>
                     (let b = ForRequestLog (Some l) (Some pm)
                      in if bd_TotalUSD b > 0 then l\<lparr>l_EstimatedCostUSD := Some (bd_TotalUSD b)\<rparr> else l))
           else l))"

definition chunk_log :: "string \<Rightarrow> bool \<Rightarrow> time \<Rightarrow> nat \<Rightarrow> StreamingLogChunk \<Rightarrow> StreamingLog" where
  "chunk_log lid dropped stamp i ch = \<lparr>s_ID = '''', s_RequestLogID = lid, s_ChunkIndex = int i, s_Data = sc_Raw ch, s_ContentDelta = sc_Delta ch,
     s_BodyPurged = False, s_IsTruncated = (dropped \<and> i = 0), s_Timestamp = stamp, s_CreatedAt = 0, s_CumulativeBody = ''''\<rparr>"

fun persist_chunks :: "persist_env \<Rightarrow> string \<Rightarrow> bool \<Rightarrow> nat \<Rightarrow> StreamingLogChunk list \<Rightarrow> db \<Rightarrow> store_error option \<times> db" where
  "persist_chunks env lid dropped i [] d = (None, d)"
| "persist_chunks env lid dropped i (ch # chs) d =
     (case InsertStreamingLog (pv_fault env (Suc i)) (pv_uuid env i) (pv_created env i) (chunk_log lid dropped (pv_stamp env i) i ch) d of
        (Inl e, d') \<Rightarrow> (Some e, d')
      | (Inr _, d') \<Rightarrow> persist_chunks env lid dropped (Suc i) chs d')"

definition persist :: "persist_env \<Rightarrow> persistJob \<Rightarrow> db \<times> Accumulator option \<Rightarrow> store_error option \<times> db \<times> Accumulator option" where
  "persist env job s =
     (case s of (d, acc) \<Rightarrow>
       (let l = price_log (pv_catalog env) (pj_log job)
        in case InsertRequestLog (pv_fault env 0) l d of
             (Inl e, d') \<Rightarrow> (Some e, d', acc)
           | (Inr _, d') \<Rightarrow>
               (let pm = (case pv_catalog env of None \<Rightarrow> None | Some (_, snap) \<Rightarrow> lookup_ProviderModel snap (l_ProviderID l) (l_ResolvedModel l));
                    acc' = map_option (\<lambda>a. Record a (Some l) pm (pv_statsNow env)) acc;
                    (err, d'') = persist_chunks env (l_ID l) (pj_prefixDropped job) 0 (pj_chunks job) d'
                in (err, d'', acc'))))"

text \<open>An error is logged and the worker goes on.\<close>

definition process :: "persist_env \<Rightarrow> persistJob \<Rightarrow> db \<times> Accumulator option \<Rightarrow> db \<times> Accumulator option" where
  "process env job s = snd (persist env job s)"

section \<open>The channel\<close>

record Collector =
  mc_ch :: "persistJob list"
  mc_cap :: nat
  mc_closed :: bool

definition NewCollector :: "nat \<Rightarrow> Collector" where
  "NewCollector bufferSize = \<lparr>mc_ch = [], mc_cap = bufferSize, mc_closed = False\<rparr>"

datatype enqueued = Accepted Collector | Dropped | Panicked

text \<open>A send that would block is dropped; a send on the closed channel panics.\<close>

definition enqueue :: "Collector \<Rightarrow> persistJob \<Rightarrow> enqueued" where
  "enqueue m job =
     (if mc_closed m then Panicked
      else if length (mc_ch m) < mc_cap m then Accepted (m\<lparr>mc_ch := mc_ch m @ [job]\<rparr>)
      else Dropped)"

definition Collector_Record :: "Collector \<Rightarrow> RequestLog \<Rightarrow> enqueued" where
  "Collector_Record m l = enqueue m \<lparr>pj_log = l, pj_chunks = [], pj_prefixDropped = False\<rparr>"

definition RecordStreaming :: "Collector \<Rightarrow> RequestLog \<Rightarrow> StreamingLogChunk list \<Rightarrow> bool \<Rightarrow> enqueued" where
  "RecordStreaming m l chunks dropped = enqueue m \<lparr>pj_log = l, pj_chunks = chunks, pj_prefixDropped = dropped\<rparr>"

section \<open>The worker\<close>

datatype worker = Running | Draining | Stopped

text \<open>
  The system: the channel, the worker, whether the process was told to stop, what is stored, and, as a
  record of the run, the jobs accepted, dropped and processed so far.
\<close>

record collector_sys =
  cs_col :: Collector
  cs_worker :: worker
  cs_cancelled :: bool
  cs_store :: "db \<times> Accumulator option"
  cs_accepted :: "persistJob list"
  cs_dropped :: "persistJob list"
  cs_processed :: "(persist_env \<times> persistJob) list"

definition collector_start :: "nat \<Rightarrow> db \<times> Accumulator option \<Rightarrow> collector_sys" where
  "collector_start bufferSize st = \<lparr>cs_col = NewCollector bufferSize, cs_worker = Running, cs_cancelled = False, cs_store = st,
     cs_accepted = [], cs_dropped = [], cs_processed = []\<rparr>"

definition take_job :: "persist_env \<Rightarrow> persistJob \<Rightarrow> persistJob list \<Rightarrow> collector_sys \<Rightarrow> collector_sys" where
  "take_job env job rest s = s\<lparr>cs_col := (cs_col s)\<lparr>mc_ch := rest\<rparr>, cs_store := process env job (cs_store s),
     cs_processed := cs_processed s @ [(env, job)]\<rparr>"

inductive collector_step :: "collector_sys \<Rightarrow> collector_sys \<Rightarrow> bool" where
  accept: "enqueue (cs_col s) job = Accepted m \<Longrightarrow> collector_step s (s\<lparr>cs_col := m, cs_accepted := cs_accepted s @ [job]\<rparr>)"
| drop: "enqueue (cs_col s) job = Dropped \<Longrightarrow> collector_step s (s\<lparr>cs_dropped := cs_dropped s @ [job]\<rparr>)"
| work: "cs_worker s \<noteq> Stopped \<Longrightarrow> mc_ch (cs_col s) = job # rest \<Longrightarrow> collector_step s (take_job env job rest s)"
| cancel: "collector_step s (s\<lparr>cs_cancelled := True\<rparr>)"
| notice: "cs_worker s = Running \<Longrightarrow> cs_cancelled s \<Longrightarrow> collector_step s (s\<lparr>cs_worker := Draining\<rparr>)"
| drained: "cs_worker s = Draining \<Longrightarrow> mc_ch (cs_col s) = [] \<Longrightarrow> collector_step s (s\<lparr>cs_worker := Stopped\<rparr>)"
| ended: "cs_worker s = Running \<Longrightarrow> mc_ch (cs_col s) = [] \<Longrightarrow> mc_closed (cs_col s) \<Longrightarrow> collector_step s (s\<lparr>cs_worker := Stopped\<rparr>)"
| close: "\<not> mc_closed (cs_col s) \<Longrightarrow> collector_step s (s\<lparr>cs_col := (cs_col s)\<lparr>mc_closed := True\<rparr>\<rparr>)"

inductive collector_reach :: "nat \<Rightarrow> db \<times> Accumulator option \<Rightarrow> collector_sys \<Rightarrow> bool" for bufferSize st where
  start: "collector_reach bufferSize st (collector_start bufferSize st)"
| step: "collector_reach bufferSize st s \<Longrightarrow> collector_step s t \<Longrightarrow> collector_reach bufferSize st t"

inductive_cases collector_stepE: "collector_step s t"

text \<open>\<open>Close\<close> closes the channel and waits until the worker has stopped.\<close>

definition Close_returns :: "collector_sys \<Rightarrow> bool" where
  "Close_returns s \<longleftrightarrow> mc_closed (cs_col s) \<and> cs_worker s = Stopped"


section \<open>Accepted once, processed once, in order\<close>

definition collector_inv :: "nat \<Rightarrow> db \<times> Accumulator option \<Rightarrow> collector_sys \<Rightarrow> bool" where
  "collector_inv bufferSize st s \<longleftrightarrow>
     cs_accepted s = map snd (cs_processed s) @ mc_ch (cs_col s) \<and>
     length (mc_ch (cs_col s)) \<le> bufferSize \<and> mc_cap (cs_col s) = bufferSize \<and>
     cs_store s = fold (\<lambda>(env, job). process env job) (cs_processed s) st \<and>
     (cs_worker s \<noteq> Running \<longrightarrow> cs_cancelled s \<or> cs_worker s = Stopped \<and> mc_closed (cs_col s) \<and> mc_ch (cs_col s) = [])"

lemma collector_inv_step [inv_intros]: "collector_step s t \<Longrightarrow> collector_inv n st s \<Longrightarrow> collector_inv n st t"
proof (induction rule: collector_step.induct)
  case (work s job rest env)
  then show ?case by (auto simp: collector_inv_def take_job_def)
qed (auto simp: collector_inv_def enqueue_def split: if_splits)

lemma collector_reach_inv: "collector_reach n st s \<Longrightarrow> collector_inv n st s"
proof (induction rule: collector_reach.induct)
  case start
  show ?case by (simp add: collector_inv_def collector_start_def NewCollector_def)
qed (rule collector_inv_step)

text \<open>
  C13. Logs on their way to the store. Whatever the handlers, the worker and a shutdown do in
  whatever order, the jobs processed are the jobs accepted, each once and in the order in which they
  were handed over, but for those still in the channel, which never holds more than its
  capacity; what is stored is the result of processing them one after the other; and if the channel is closed
  without a cancelled context, every accepted job has been processed when \<open>Close\<close> returns.
\<close>
theorem collector_exactly_once:
  assumes "collector_reach bufferSize st s"
  shows "cs_accepted s = map snd (cs_processed s) @ mc_ch (cs_col s) \<and> length (mc_ch (cs_col s)) \<le> bufferSize \<and>
    cs_store s = fold (\<lambda>(env, job). process env job) (cs_processed s) st \<and>
    (Close_returns s \<and> \<not> cs_cancelled s \<longrightarrow> map snd (cs_processed s) = cs_accepted s)"
  using collector_reach_inv [OF assms] by (auto simp: collector_inv_def Close_returns_def)

definition sample_job :: persistJob where
  "sample_job = \<lparr>pj_log = zero_RequestLog\<lparr>l_ID := ''r1''\<rparr>, pj_chunks = [\<lparr>sc_Raw = ''x'', sc_Delta = ''y''\<rparr>], pj_prefixDropped = True\<rparr>"

definition calm_env :: persist_env where
  "calm_env = \<lparr>pv_catalog = None, pv_fault = (\<lambda>_. no_fault), pv_uuid = show_nat, pv_stamp = (\<lambda>i. 1), pv_created = (\<lambda>i. 1), pv_statsNow = 1\<rparr>"

definition full_state :: "db \<times> Accumulator option \<Rightarrow> collector_sys" where
  "full_state st = (collector_start 1 st)\<lparr>cs_col := (NewCollector 1)\<lparr>mc_ch := [sample_job]\<rparr>, cs_accepted := [sample_job]\<rparr>"

lemma full_state_reach: "collector_reach 1 st (full_state st)"
  using collector_reach.step [OF collector_reach.start [of 1 st], of "full_state st"]
    collector_step.accept [of "collector_start 1 st" sample_job "(NewCollector 1)\<lparr>mc_ch := [sample_job]\<rparr>"]
  by (simp add: full_state_def collector_start_def enqueue_def NewCollector_def)

lemma reach_steps:
  "collector_reach n st a \<Longrightarrow> collector_step a b \<Longrightarrow> collector_step b c \<Longrightarrow> collector_step c d \<Longrightarrow> collector_reach n st d"
  by (blast intro: collector_reach.step)

theorem collector_exactly_once_witness:
  "\<exists>s. collector_reach 1 (migrated_db 0, None) s \<and> Close_returns s \<and> \<not> cs_cancelled s \<and> map snd (cs_processed s) = [sample_job] \<and>
     map snd (cs_processed s) = cs_accepted s"
proof -
  let ?s1 = "full_state (migrated_db 0, None)"
  let ?s2 = "take_job calm_env sample_job [] ?s1"
  let ?s3 = "?s2\<lparr>cs_col := (cs_col ?s2)\<lparr>mc_closed := True\<rparr>\<rparr>"
  let ?s4 = "?s3\<lparr>cs_worker := Stopped\<rparr>"
  have f: "cs_worker ?s1 = Running" "mc_ch (cs_col ?s1) = [sample_job]" "\<not> mc_closed (cs_col ?s1)" "\<not> cs_cancelled ?s1" "cs_processed ?s1 = []"
    by (simp_all add: full_state_def collector_start_def NewCollector_def)
  have 1: "collector_step ?s1 ?s2" by (rule collector_step.work) (simp_all add: f)
  have 2: "collector_step ?s2 ?s3" by (rule collector_step.close) (simp add: take_job_def f)
  have 3: "collector_step ?s3 ?s4" by (rule collector_step.ended) (simp_all add: take_job_def f)
  have r: "collector_reach 1 (migrated_db 0, None) ?s4" by (rule reach_steps [OF full_state_reach 1 2 3])
  have c: "Close_returns ?s4" "\<not> cs_cancelled ?s4" "map snd (cs_processed ?s4) = [sample_job]"
    by (simp_all add: Close_returns_def take_job_def f)
  have "map snd (cs_processed ?s4) = cs_accepted ?s4" 
    by (rule mp [OF collector_exactly_once [OF r, THEN conjunct2, THEN conjunct2, THEN conjunct2] conjI [OF c(1,2)]])
  then show ?thesis by (intro exI [of _ ?s4] conjI r c)
qed

text \<open>
  What a shutdown loses. The process stops the worker by cancelling its context before the
  server has finished the requests in flight: a log that is handed over after the worker has
  drained the channel is accepted, never processed, and \<open>Close\<close> returns all the same.
\<close>
theorem shutdown_loses_logs:
  "\<exists>s. collector_reach 1 st s \<and> Close_returns s \<and> cs_accepted s = [sample_job] \<and> cs_dropped s = [] \<and> cs_processed s = []"
proof -
  let ?s0 = "collector_start 1 st"
  let ?s1 = "?s0\<lparr>cs_cancelled := True\<rparr>"
  let ?s2 = "?s1\<lparr>cs_worker := Draining\<rparr>"
  let ?s3 = "?s2\<lparr>cs_worker := Stopped\<rparr>"
  let ?m = "(NewCollector 1)\<lparr>mc_ch := [sample_job]\<rparr>"
  let ?s4 = "?s3\<lparr>cs_col := ?m, cs_accepted := cs_accepted ?s3 @ [sample_job]\<rparr>"
  let ?s5 = "?s4\<lparr>cs_col := (cs_col ?s4)\<lparr>mc_closed := True\<rparr>\<rparr>"
  have 1: "collector_step ?s0 ?s1" by (rule collector_step.cancel)
  have 2: "collector_step ?s1 ?s2" by (rule collector_step.notice) (simp_all add: collector_start_def)
  have 3: "collector_step ?s2 ?s3" by (rule collector_step.drained) (simp_all add: collector_start_def NewCollector_def)
  have 4: "collector_step ?s3 ?s4" by (rule collector_step.accept) (simp add: collector_start_def enqueue_def NewCollector_def)
  have 5: "collector_step ?s4 ?s5" by (rule collector_step.close) (simp add: NewCollector_def)
  have "collector_reach 1 st ?s5"
    by (rule collector_reach.step [OF collector_reach.step [OF reach_steps [OF collector_reach.start 1 2 3] 4] 5])
  moreover have "Close_returns ?s5" "cs_accepted ?s5 = [sample_job]" "cs_dropped ?s5 = []" "cs_processed ?s5 = []"
    by (simp_all add: Close_returns_def collector_start_def)
  ultimately show ?thesis by blast
qed

section \<open>What a job leaves in the store\<close>

lemma order_by_strict:
  assumes "sorted_wrt (<) (map key rows)"
  shows "order_by ks key rows = rows"
proof -
  have d: "distinct (map key rows)" "sorted (map key rows)"
    using assms by (simp_all add: strict_sorted_iff)
  have one: "filter (\<lambda>x. key k = key x) xs = [k]" if "k \<in> set xs" "mset xs = mset rows" for k xs
    using unique_find [of key xs k] that d(1) mset_eq_imp_distinct_iff [of "map key xs" "map key rows"]
    by (simp add: unique_on_def eq_commute [of "key k"])
  have "sort_key key (shuffle ks rows) = rows"
    by (rule properties_for_sort_key) (use d one in \<open>auto\<close>)
  then show ?thesis by (simp add: order_by_def)
qed

definition stored_chunk :: "persist_env \<Rightarrow> string \<Rightarrow> bool \<Rightarrow> nat \<times> StreamingLogChunk \<Rightarrow> StreamingLog" where
  "stored_chunk env lid dropped x = (case x of (i, ch) \<Rightarrow>
     (chunk_log lid dropped (if pv_stamp env i = 0 then pv_created env i else pv_stamp env i) i ch)\<lparr>s_ID := pv_uuid env i, s_CreatedAt := pv_created env i\<rparr>)"

lemma insert_chunk_ok:
  assumes "flt 0 = None" and "uuid \<notin> s_ID ` set (db_streaming_logs d)" and "lid \<in> log_ids d"
  shows "InsertStreamingLog flt uuid now (chunk_log lid dropped stamp i ch) d =
    (Inr (), d\<lparr>db_streaming_logs := db_streaming_logs d @
      [(chunk_log lid dropped (if stamp = 0 then now else stamp) i ch)\<lparr>s_ID := uuid, s_CreatedAt := now\<rparr>]\<rparr>)"
  using assms by (simp add: InsertStreamingLog_def exec_def run_stmt_def insert_chunk_def chunk_log_def log_ids_def)

lemma persist_chunks_ok:
  assumes "\<forall>j. pv_fault env j 0 = None" and "inj (pv_uuid env)" and "lid \<in> log_ids d"
    and "\<forall>j \<ge> i. pv_uuid env j \<notin> s_ID ` set (db_streaming_logs d)"
  shows "persist_chunks env lid dropped i chs d =
    (None, d\<lparr>db_streaming_logs := db_streaming_logs d @ map (stored_chunk env lid dropped) (enumerate i chs)\<rparr>)"
  using assms(3,4)
proof (induction chs arbitrary: i d)
  case (Cons ch chs)
  let ?d1 = "d\<lparr>db_streaming_logs := db_streaming_logs d @ [stored_chunk env lid dropped (i, ch)]\<rparr>"
  have "InsertStreamingLog (pv_fault env (Suc i)) (pv_uuid env i) (pv_created env i) (chunk_log lid dropped (pv_stamp env i) i ch) d = (Inr (), ?d1)"
    using insert_chunk_ok [of "pv_fault env (Suc i)" "pv_uuid env i" d lid] assms(1) Cons.prems by (simp add: stored_chunk_def)
  moreover have "\<forall>j \<ge> Suc i. pv_uuid env j \<notin> s_ID ` set (db_streaming_logs ?d1)"
    using Cons.prems(2) assms(2) by (auto simp: stored_chunk_def inj_def) (metis Suc_n_not_le_n)
  moreover have "lid \<in> log_ids ?d1" using Cons.prems(1) by (simp add: log_ids_def)
  ultimately show ?case using Cons.IH [of ?d1 "Suc i"] by simp
qed simp

lemma sorted_stored_chunks: "sorted_wrt (<) (map s_ChunkIndex (map (stored_chunk env lid dropped) (enumerate i chs)))"
proof -
  have "map s_ChunkIndex (map (stored_chunk env lid dropped) (enumerate i chs)) = map int [i..<i + length chs]"
    unfolding map_fst_enumerate [symmetric] by (simp add: stored_chunk_def chunk_log_def case_prod_beta comp_def del: map_fst_enumerate)
  then show ?thesis by (simp add: sorted_wrt_map)
qed

text \<open>
  A processed log is stored whole. If the database does not fail, the log's identifier is new and
  the chunk identifiers drawn are new, then the log, with its estimated price, is found under its
  identifier, its chunks are read back complete and in the order of the stream, only the first
  marked as truncated and only if a prefix was dropped, and the log is counted in the statistics.
\<close>
theorem persist_complete:
  assumes "db_ok d" and "\<forall>j. pv_fault env j 0 = None" and "inj (pv_uuid env)"
    and "\<forall>j. pv_uuid env j \<notin> s_ID ` set (db_streaming_logs d)"
    and "l = price_log (pv_catalog env) (pj_log job)" and "l_ID l \<notin> log_ids d"
    and "persist env job (d, Some a) = (err, d', acc')"
  shows "err = None \<and> GetRequestLog no_fault (l_ID l) d' = Inr (l\<lparr>l_CostBreakdown := None\<rparr>) \<and>
    (\<exists>rows. GetStreamingLogs no_fault ks (l_ID l) d' = Inr rows \<and>
       map (\<lambda>c. (s_Data c, s_ContentDelta c, s_IsTruncated c)) rows =
       map (\<lambda>(i, ch). (sc_Raw ch, sc_Delta ch, pj_prefixDropped job \<and> i = 0)) (enumerate 0 (pj_chunks job))) \<and>
    (\<exists>pm. acc' = Some (Record a (Some l) pm (pv_statsNow env)))"
proof -
  let ?r = "log_columns l"
  let ?d1 = "d\<lparr>db_request_logs := db_request_logs d @ [?r]\<rparr>"
  let ?rows = "map (stored_chunk env (l_ID l) (pj_prefixDropped job)) (enumerate 0 (pj_chunks job))"
  have rid: "lr_id ?r = l_ID l" by (simp add: log_columns_def)
  have "InsertRequestLog (pv_fault env 0) l d = (Inr (), ?d1)"
    using assms(2,6) by (simp add: InsertRequestLog_def exec_def run_stmt_def insert_log_def rid log_ids_def)
  moreover have "persist_chunks env (l_ID l) (pj_prefixDropped job) 0 (pj_chunks job) ?d1 = (None, ?d1\<lparr>db_streaming_logs := db_streaming_logs ?d1 @ ?rows\<rparr>)"
    by (rule persist_chunks_ok) (use assms(2-4) rid in \<open>auto simp: log_ids_def\<close>)
  ultimately have d': "err = None" "d' = ?d1\<lparr>db_streaming_logs := db_streaming_logs d @ ?rows\<rparr>"
    and acc: "\<exists>pm. acc' = Some (Record a (Some l) pm (pv_statsNow env))"
    using assms(7) by (auto simp: persist_def Let_def assms(5) [symmetric])
  have "filter (\<lambda>r. lr_id r = l_ID l) (db_request_logs d) = []"
    using assms(6) by (auto simp: log_ids_def filter_empty_conv) (metis imageI)
  then have log: "GetRequestLog no_fault (l_ID l) d' = Inr (l\<lparr>l_CostBreakdown := None\<rparr>)"
    by (simp add: GetRequestLog_def d' query_row_def no_fault_def rid)
  have "filter (\<lambda>c. s_RequestLogID c = l_ID l) (db_streaming_logs d) = []"
    using db_ok_tables(8) [OF assms(1)] assms(6) by (auto simp: chunks_ok_def refs_ok_def list_all_iff filter_empty_conv)
  moreover have "filter (\<lambda>c. s_RequestLogID c = l_ID l) ?rows = ?rows"
    by (auto simp: stored_chunk_def chunk_log_def filter_id_conv)
  ultimately have rows: "GetStreamingLogs no_fault ks (l_ID l) d' = Inr ?rows"
    by (simp add: GetStreamingLogs_def no_fault_def d' order_by_strict [OF sorted_stored_chunks] del: map_map)
  have "map (\<lambda>c. (s_Data c, s_ContentDelta c, s_IsTruncated c)) ?rows =
      map (\<lambda>(i, ch). (sc_Raw ch, sc_Delta ch, pj_prefixDropped job \<and> i = 0)) (enumerate 0 (pj_chunks job))"
    by (simp add: stored_chunk_def chunk_log_def case_prod_beta comp_def)
  with rows log d'(1) acc show ?thesis by blast
qed

theorem persist_complete_witness:
  "GetRequestLog no_fault ''r1'' (fst (snd (persist calm_env sample_job (migrated_db 0, Some NewAccumulator)))) = Inr (zero_RequestLog\<lparr>l_ID := ''r1''\<rparr>)"
proof -
  have inj: "inj (pv_uuid calm_env)" unfolding calm_env_def by (simp, rule inj_on_inverseI [of _ read_digits]) (rule read_show_nat)
  obtain err d' acc' where p: "persist calm_env sample_job (migrated_db 0, Some NewAccumulator) = (err, d', acc')" using prod_cases3 by blast
  have "price_log (pv_catalog calm_env) (pj_log sample_job) = zero_RequestLog\<lparr>l_ID := ''r1''\<rparr>"
    by (simp add: price_log_def calm_env_def sample_job_def)
  then have "GetRequestLog no_fault ''r1'' d' = Inr ((zero_RequestLog\<lparr>l_ID := ''r1''\<rparr>)\<lparr>l_CostBreakdown := None\<rparr>)"
    using persist_complete [OF db_ok_migrated, of calm_env 0 "zero_RequestLog\<lparr>l_ID := ''r1''\<rparr>" sample_job NewAccumulator err d' acc' "[]"] inj p
    by (simp add: calm_env_def no_fault_def migrated_db_def empty_db_def log_ids_def)
  then show ?thesis by (simp add: p zero_RequestLog_def)
qed

end
