(* ===== verification/Health_Checker.thy ===== *)
theory Health_Checker
  imports Attempt_Loop Store_Catalog
begin

text \<open>
  The health checker (\<open>internal/health/checker.go\<close>). A round lists the providers and probes each in a goroutine
  of its own; a probe writes the provider's health to the store, reports it to the circuit breaker and
  announces the change. The goroutines interleave: a round is any trace in which every
  provider's own actions come in their order. The probed backends, the clock and the faults of
  the database are arguments; the breaker is the router's interface.
\<close>

datatype health_action = StoreHealth string bool | ReportHealth string bool | NotifyRouting string

fun action_of :: "health_action \<Rightarrow> string" where
  "action_of (StoreHealth pid h) = pid"
| "action_of (ReportHealth pid h) = pid"
| "action_of (NotifyRouting pid) = pid"

record Checker =
  hc_interval :: duration
  hc_notifies :: bool
  hc_newRequest :: "string \<Rightarrow> string option"
  hc_do :: "backend_request \<Rightarrow> string + int"

definition updateHealth :: "Checker \<Rightarrow> string \<Rightarrow> bool \<Rightarrow> health_action list" where
  "updateHealth c providerID healthy =
     [StoreHealth providerID healthy, ReportHealth providerID healthy] @ (if hc_notifies c then [NotifyRouting providerID] else [])"

definition probe_request :: "Provider \<Rightarrow> backend_request" where
  "probe_request p = \<lparr>bq_Method = ''GET'', bq_URL = TrimSuffix (p_BaseURL p) ''/'' @ ''/v1/models'',
     bq_Header = (if p_APIKey p \<noteq> '''' then [(''Authorization'', [''Bearer '' @ p_APIKey p])] else []), bq_Body = ''''\<rparr>"

definition checkProvider :: "Checker \<Rightarrow> Provider \<Rightarrow> health_action list" where
  "checkProvider c p =
     (let req = probe_request p
      in case hc_newRequest c (bq_URL req) of
           Some err \<Rightarrow> updateHealth c (p_ID p) False
         | None \<Rightarrow>
             (case hc_do c req of
                Inl err \<Rightarrow> updateHealth c (p_ID p) False
              | Inr status \<Rightarrow>
                  (let isHealthy = (status \<ge> 200 \<and> status < 300)
                   in if isHealthy then updateHealth c (p_ID p) True else updateHealth c (p_ID p) False)))"

definition checkAll :: "Checker \<Rightarrow> store_error + Provider list \<Rightarrow> health_action list list" where
  "checkAll c listed = (case listed of Inl err \<Rightarrow> [] | Inr providers \<Rightarrow> map (checkProvider c) providers)"

text \<open>The actions of a round in some order that respects every goroutine.\<close>

definition interleaves :: "Checker \<Rightarrow> Provider list \<Rightarrow> health_action list \<Rightarrow> bool" where
  "interleaves c ps tr \<longleftrightarrow> (\<forall>x \<in> set tr. action_of x \<in> p_ID ` set ps) \<and>
     (\<forall>p \<in> set ps. filter (\<lambda>x. action_of x = p_ID p) tr = checkProvider c p)"

text \<open>What an action does. The \<open>i\<close>-th action meets its own fault, instant and call environment of the breaker.\<close>

record 'r health_state =
  ht_db :: db
  ht_router :: 'r
  ht_notified :: nat

definition perform ::
  "('r, 'e) Router \<Rightarrow> fault \<Rightarrow> time \<Rightarrow> 'e \<Rightarrow> health_action \<Rightarrow> 'r health_state \<Rightarrow> 'r health_state" where
  "perform rt flt now e x s =
     (case x of
        StoreHealth pid h \<Rightarrow> s\<lparr>ht_db := snd (UpdateProviderHealth flt pid h now (ht_db s))\<rparr>
      | ReportHealth pid h \<Rightarrow>
          s\<lparr>ht_router := (if h then ri_ReportSuccess rt (ht_router s) e pid else ri_ReportFailure rt (ht_router s) e pid)\<rparr>
      | NotifyRouting pid \<Rightarrow> s\<lparr>ht_notified := Suc (ht_notified s)\<rparr>)"

definition run_round ::
  "('r, 'e) Router \<Rightarrow> (nat \<Rightarrow> fault) \<Rightarrow> (nat \<Rightarrow> time) \<Rightarrow> (nat \<Rightarrow> 'e) \<Rightarrow> health_action list \<Rightarrow> 'r health_state \<Rightarrow> 'r health_state" where
  "run_round rt flt clock e tr s = fold (\<lambda>(i, x). perform rt (flt i) (clock i) (e i) x) (enumerate 0 tr) s"

text \<open>Whether the checker starts at all, and when it rounds: at once, then at every tick.\<close>

definition Start_rounds :: "Checker \<Rightarrow> bool \<Rightarrow> nat \<Rightarrow> nat" where
  "Start_rounds c cancelled ticks = (if cancelled then 0 else if hc_interval c \<le> 0 then 0 else Suc ticks)"


section \<open>What a round leaves\<close>

text \<open>A provider passes its probe if the request can be made, is answered, and is answered with 2xx.\<close>

definition probe_ok :: "Checker \<Rightarrow> Provider \<Rightarrow> bool" where
  "probe_ok c p \<longleftrightarrow> hc_newRequest c (bq_URL (probe_request p)) = None \<and>
     (case hc_do c (probe_request p) of Inl err \<Rightarrow> False | Inr status \<Rightarrow> status \<ge> 200 \<and> status < 300)"

lemma checkProvider_actions: "checkProvider c p = updateHealth c (p_ID p) (probe_ok c p)"
  by (auto simp: checkProvider_def probe_ok_def Let_def split: option.split sum.split)

definition stored :: "string \<Rightarrow> health_action list \<Rightarrow> bool list" where
  "stored pid tr = List.map_filter (\<lambda>x. case x of StoreHealth q h \<Rightarrow> if q = pid then Some h else None | _ \<Rightarrow> None) tr"

definition reported :: "health_action list \<Rightarrow> (string \<times> bool) list" where
  "reported tr = List.map_filter (\<lambda>x. case x of ReportHealth q h \<Rightarrow> Some (q, h) | _ \<Rightarrow> None) tr"

lemma stored_filter: "stored pid (filter (\<lambda>x. action_of x = pid) tr) = stored pid tr"
  by (induction tr) (auto simp: stored_def List.map_filter_simps split: health_action.split)

lemma reported_filter: "filter (\<lambda>(q, h). q = pid) (reported tr) = reported (filter (\<lambda>x. action_of x = pid) tr)"
  by (induction tr) (auto simp: reported_def List.map_filter_simps split: health_action.split)

lemma stored_snoc: "stored pid (tr @ [x]) = stored pid tr @ (case x of StoreHealth q h \<Rightarrow> if q = pid then [h] else [] | _ \<Rightarrow> [])"
  by (auto simp: stored_def List.map_filter_def split: health_action.split)

definition row_step :: "(nat \<Rightarrow> time) \<Rightarrow> nat \<times> health_action \<Rightarrow> providers_row \<Rightarrow> providers_row" where
  "row_step clock ix r = (case ix of (i, x) \<Rightarrow> (case x of
     StoreHealth pid h \<Rightarrow> if pr_id r = pid then r\<lparr>pr_is_healthy := h, pr_health_checked_at := Some (clock i)\<rparr> else r
   | _ \<Rightarrow> r))"

definition row_after :: "(nat \<Rightarrow> time) \<Rightarrow> health_action list \<Rightarrow> providers_row \<Rightarrow> providers_row" where
  "row_after clock tr r = fold (row_step clock) (enumerate 0 tr) r"

lemma row_after_snoc: "row_after clock (tr @ [x]) r = row_step clock (length tr, x) (row_after clock tr r)"
  by (simp add: row_after_def enumerate_append_eq)

lemma run_round_snoc:
  "run_round rt flt clock e (tr @ [x]) s = perform rt (flt (length tr)) (clock (length tr)) (e (length tr)) x (run_round rt flt clock e tr s)"
  by (simp add: run_round_def enumerate_append_eq)

lemma exec_rows_state: "snd (exec_rows flt ctx none st d) = (if flt 0 = None then effect st d else d)"
  by (auto simp: exec_rows_def run_stmt_def effect_def split: option.splits sum.splits prod.splits)

lemma run_round_db:
  assumes "\<forall>i. flt i 0 = None"
  shows "ht_db (run_round rt flt clock e tr s) = (ht_db s)\<lparr>db_providers := map (row_after clock tr) (db_providers (ht_db s))\<rparr>"
proof (induction tr rule: rev_induct)
  case Nil
  show ?case by (simp add: run_round_def row_after_def)
next
  case (snoc x tr)
  have upd: "row_after clock (tr @ [x]) = (\<lambda>r. row_step clock (length tr, x) (row_after clock tr r))" by (rule ext) (rule row_after_snoc)
  show ?case
    using assms by (auto simp: run_round_snoc perform_def snoc UpdateProviderHealth_def exec_rows_state effect_def update_health_def upd row_step_def comp_def
        split: health_action.split)
qed

lemma row_after_fields:
  "pr_id (row_after clock tr r) = pr_id r"
  "(row_after clock tr r)\<lparr>pr_is_healthy := b, pr_health_checked_at := t\<rparr> = r\<lparr>pr_is_healthy := b, pr_health_checked_at := t\<rparr>"
  "pr_is_healthy (row_after clock tr r) = (if stored (pr_id r) tr = [] then pr_is_healthy r else last (stored (pr_id r) tr))"
proof (induction tr rule: rev_induct)
  case Nil
  { case 1 show ?case by (simp add: row_after_def) next
    case 2 show ?case by (simp add: row_after_def) next
    case 3 show ?case by (simp add: row_after_def stored_def List.map_filter_simps) }
next
  case (snoc x tr)
  { case 1 show ?case using snoc(1) by (auto simp: row_after_snoc row_step_def split: health_action.split) next
    case 2 show ?case using snoc(2) by (auto simp: row_after_snoc row_step_def split: health_action.split) next
    case 3 show ?case using snoc(1,3) by (auto simp: row_after_snoc row_step_def stored_snoc split: health_action.split) }
qed

lemma interleaves_stored:
  assumes "interleaves c ps tr" and "p \<in> set ps"
  shows "stored (p_ID p) tr = [probe_ok c p]" and "filter (\<lambda>(q, h). q = p_ID p) (reported tr) = [(p_ID p, probe_ok c p)]"
proof -
  have f: "filter (\<lambda>x. action_of x = p_ID p) tr = updateHealth c (p_ID p) (probe_ok c p)"
    using assms by (simp add: interleaves_def checkProvider_actions)
  show "stored (p_ID p) tr = [probe_ok c p]"
    unfolding stored_filter [symmetric, of "p_ID p" tr] f by (simp add: stored_def updateHealth_def List.map_filter_simps)
  show "filter (\<lambda>(q, h). q = p_ID p) (reported tr) = [(p_ID p, probe_ok c p)]"
    unfolding reported_filter f by (simp add: reported_def updateHealth_def List.map_filter_simps)
qed

text \<open>After the last change of the store comes an announcement.\<close>

lemma interleaves_notified:
  assumes "interleaves c ps (us @ StoreHealth pid h # vs)" and "hc_notifies c"
  shows "NotifyRouting pid \<in> set vs"
proof -
  obtain p where p: "p \<in> set ps" "p_ID p = pid" using assms(1) by (auto simp: interleaves_def)
  then have "filter (\<lambda>x. action_of x = pid) us @ StoreHealth pid h # filter (\<lambda>x. action_of x = pid) vs =
      [StoreHealth pid (probe_ok c p), ReportHealth pid (probe_ok c p), NotifyRouting pid]"
    using assms by (auto simp: interleaves_def checkProvider_actions updateHealth_def)
  then have "filter (\<lambda>x. action_of x = pid) vs = [ReportHealth pid (probe_ok c p), NotifyRouting pid]"
    by (auto simp: append_eq_Cons_conv Cons_eq_append_conv)
  then show ?thesis by (metis (no_types, lifting) filter_is_subset in_mono list.set_intros(1) list.set_intros(2))
qed



text \<open>A breaker that only keeps the reports, and a backend that answers every probe with 503.\<close>

definition tally_router :: "((string \<times> bool) list, unit) Router" where
  "tally_router = \<lparr>ri_Route = (\<lambda>r e model path. (Inl ErrNoAvailableProvider, r)),
     ri_ReportSuccess = (\<lambda>r e pid. r @ [(pid, True)]), ri_ReportFailure = (\<lambda>r e pid. r @ [(pid, False)])\<rparr>"

definition failing_checker :: Checker where
  "failing_checker = \<lparr>hc_interval = 1, hc_notifies = True, hc_newRequest = (\<lambda>u. None), hc_do = (\<lambda>r. Inr 503)\<rparr>"


end
