(* ===== verification/Config_Handler.thy ===== *)
theory Config_Handler
  imports Log_Retention Attempt_Loop
begin

text \<open>
  The settings: the snapshot that the proxy reads (\<open>internal/proxy/config_cache.go\<close>) and the admin
  handlers that show and change them (\<open>internal/admin/config_handler.go\<close>). An update decodes a map
  of raw values, checks each one, saves them one by one, tells the process, purges bodies
  that a shorter retention period has made too old, and answers with the settings now in force.
  The order in which a Go map is iterated is an argument, as are the faults of the database
  and the clock.
\<close>

section \<open>The snapshot\<close>

record ConfigSnapshot =
  sn_val :: "config option"

definition NewConfigSnapshot :: ConfigSnapshot where
  "NewConfigSnapshot = \<lparr>sn_val = Some Map.empty\<rparr>"

definition ConfigSnapshot_Reload :: "fault \<Rightarrow> db \<Rightarrow> ConfigSnapshot \<Rightarrow> store_error option \<times> ConfigSnapshot" where
  "ConfigSnapshot_Reload flt d c =
     (case GetAllConfig flt d of Inl e \<Rightarrow> (Some e, c) | Inr cfg \<Rightarrow> (None, c\<lparr>sn_val := Some cfg\<rparr>))"

definition ConfigSnapshot_Get :: "ConfigSnapshot \<Rightarrow> config" where
  "ConfigSnapshot_Get c = (case sn_val c of None \<Rightarrow> Map.empty | Some m \<Rightarrow> m)"

section \<open>Reading a body\<close>

text \<open>
  \<open>json.NewDecoder(r.Body).Decode\<close> reads up to the end of the first value and ignores what
  follows it. A body that cannot be read is \<open>None\<close>.
\<close>

fun first_value :: "jconf \<Rightarrow> string \<Rightarrow> json option" where
  "first_value (MDone v, stk) s = Some v"
| "first_value (MNum st acc, []) (c # s) =
     (if num_step st c \<noteq> NBad then first_value (MNum (num_step st c) (acc @ [c]), []) s
      else if num_accepts st then Some (JNum acc) else None)"
| "first_value cf [] = json_eof cf"
| "first_value cf (c # s) = first_value (json_step cf c) s"

definition decode_body :: "http_request \<Rightarrow> json option" where
  "decode_body r = (case rq_Body r of None \<Rightarrow> None | Some b \<Rightarrow> first_value (MVal, []) b)"

section \<open>Showing the settings\<close>

definition int_setting_of :: "config \<Rightarrow> string \<Rightarrow> int \<Rightarrow> int" where
  "int_setting_of cfg key dflt = (case cfg key of None \<Rightarrow> dflt | Some val \<Rightarrow> (case Atoi val of None \<Rightarrow> dflt | Some v \<Rightarrow> v))"

definition bool_setting_of :: "config \<Rightarrow> string \<Rightarrow> bool \<Rightarrow> bool" where
  "bool_setting_of cfg key dflt = (case cfg key of None \<Rightarrow> dflt | Some val \<Rightarrow> val = ''true'')"

definition effective_config :: "config \<Rightarrow> Configuration" where
  "effective_config cfg =
     (let r = DefaultConfiguration
      in r\<lparr>c_RequestBodyMaxBytes := int_setting_of cfg ''request_body_max_bytes'' (c_RequestBodyMaxBytes r),
          c_ResponseBodyMaxBytes := int_setting_of cfg ''response_body_max_bytes'' (c_ResponseBodyMaxBytes r),
          c_TrackStreaming := bool_setting_of cfg ''track_streaming'' (c_TrackStreaming r),
          c_StreamingBufferSize := int_setting_of cfg ''streaming_buffer_size'' (c_StreamingBufferSize r),
          c_StreamingLogBodyRetentionDays := int_setting_of cfg ''streaming_log_body_retention_days'' (c_StreamingLogBodyRetentionDays r),
          c_RequestLogBodyRetentionDays := int_setting_of cfg ''request_log_body_retention_days'' (c_RequestLogBodyRetentionDays r),
          c_ResponseLogBodyRetentionDays := int_setting_of cfg ''response_log_body_retention_days'' (c_ResponseLogBodyRetentionDays r),
          c_HTTPIdleConnTimeoutSeconds :=
            (case cfg ''http_idle_conn_timeout_seconds'' of
               None \<Rightarrow> c_HTTPIdleConnTimeoutSeconds r
             | Some val \<Rightarrow> (case Atoi val of None \<Rightarrow> c_HTTPIdleConnTimeoutSeconds r | Some v \<Rightarrow> ClampHTTPIdleConnTimeoutSeconds v)),
          c_RequireAPIKeys := bool_setting_of cfg ''require_api_keys'' (c_RequireAPIKeys r)\<rparr>)"

definition config_json :: "Configuration \<Rightarrow> json" where
  "config_json c = JObj
     [(''request_body_max_bytes'', JNum (Itoa (c_RequestBodyMaxBytes c))),
      (''response_body_max_bytes'', JNum (Itoa (c_ResponseBodyMaxBytes c))),
      (''track_streaming'', JBool (c_TrackStreaming c)),
      (''streaming_buffer_size'', JNum (Itoa (c_StreamingBufferSize c))),
      (''http_idle_conn_timeout_seconds'', JNum (Itoa (c_HTTPIdleConnTimeoutSeconds c))),
      (''streaming_log_body_retention_days'', JNum (Itoa (c_StreamingLogBodyRetentionDays c))),
      (''request_log_body_retention_days'', JNum (Itoa (c_RequestLogBodyRetentionDays c))),
      (''response_log_body_retention_days'', JNum (Itoa (c_ResponseLogBodyRetentionDays c))),
      (''require_api_keys'', JBool (c_RequireAPIKeys c))]"

definition HandleGetConfig :: "fault \<Rightarrow> header \<Rightarrow> db \<Rightarrow> http_response" where
  "HandleGetConfig flt w d =
     (case GetAllConfig flt d of
        Inl e \<Rightarrow> respondError w 500 ''failed to load configuration''
      | Inr cfg \<Rightarrow> respondJSON w 200 (config_json (effective_config cfg)))"

section \<open>Changing the settings\<close>

text \<open>The error message of a refused value, or the text to store.\<close>

definition int_value :: "string \<Rightarrow> int \<Rightarrow> int \<Rightarrow> json \<Rightarrow> string + string" where
  "int_value key lo hi raw =
     (let (v, err) = dec_int 0 raw
      in if err then Inl (key @ '' must be an integer'')
         else if v < lo \<or> v > hi then Inl (key @ '' must be between '' @ Itoa lo @ '' and '' @ Itoa hi)
         else Inr (Itoa v))"

definition FormatBool :: "bool \<Rightarrow> string" where
  "FormatBool b = (if b then ''true'' else ''false'')"

definition bool_value :: "string \<Rightarrow> json \<Rightarrow> string + string" where
  "bool_value key raw =
     (let (v, err) = dec_bool False raw in if err then Inl (key @ '' must be a boolean'') else Inr (FormatBool v))"

definition checked_value :: "string \<Rightarrow> json \<Rightarrow> string + string" where
  "checked_value key raw =
     (if key = ''request_body_max_bytes'' then int_value key 0 MaxBodyMaxBytes raw
      else if key = ''response_body_max_bytes'' then int_value key 0 MaxBodyMaxBytes raw
      else if key = ''track_streaming'' then bool_value key raw
      else if key = ''streaming_buffer_size'' then int_value key MinStreamingBufferSize MaxStreamingBufferSize raw
      else if key = ''streaming_log_body_retention_days'' then
        int_value key MinStreamingLogBodyRetentionDays MaxStreamingLogBodyRetentionDays raw
      else if key = ''request_log_body_retention_days'' then
        int_value key MinStreamingLogBodyRetentionDays MaxStreamingLogBodyRetentionDays raw
      else if key = ''response_log_body_retention_days'' then
        int_value key MinStreamingLogBodyRetentionDays MaxStreamingLogBodyRetentionDays raw
      else if key = ''http_idle_conn_timeout_seconds'' then
        int_value key MinHTTPIdleConnTimeoutSeconds MaxHTTPIdleConnTimeoutSeconds raw
      else if key = ''require_api_keys'' then bool_value key raw
      else Inl (''unknown config key: '' @ key))"

fun checked_values :: "(string \<times> json) list \<Rightarrow> string + (string \<times> string) list" where
  "checked_values [] = Inr []"
| "checked_values ((key, raw) # updates) =
     (case checked_value key raw of
        Inl msg \<Rightarrow> Inl msg
      | Inr val \<Rightarrow> (case checked_values updates of Inl msg \<Rightarrow> Inl msg | Inr config \<Rightarrow> Inr ((key, val) # config)))"

fun save_values :: "(nat \<Rightarrow> fault) \<Rightarrow> (nat \<Rightarrow> time) \<Rightarrow> nat \<Rightarrow> (string \<times> string) list \<Rightarrow> db \<Rightarrow> bool \<times> db" where
  "save_values flt clock i [] d = (True, d)"
| "save_values flt clock i ((k, v) # config) d =
     (case SetConfig (flt i) k v (clock i) d of
        (Inl e, d') \<Rightarrow> (False, d')
      | (Inr _, d') \<Rightarrow> save_values flt clock (Suc i) config d')"

datatype admin_event = ConfigChanged | HTTPIdleSaved int | RoutingChanged

record ConfigHandler =
  ch_onHTTPIdleSaved :: bool
  ch_onConfigChanged :: bool

record config_env =
  ce_updateOrder :: "nat list"
  ce_saveOrder :: "nat list"
  ce_saveFault :: "nat \<Rightarrow> fault"
  ce_saveClock :: "nat \<Rightarrow> time"
  ce_purgeFault :: "nat \<Rightarrow> fault"
  ce_purgeClock :: "nat \<Rightarrow> time"
  ce_getFault :: fault

text \<open>A purge after a saved retention period; its own error is only logged.\<close>

definition purge_after ::
  "(fault \<Rightarrow> time \<Rightarrow> int \<Rightarrow> db \<Rightarrow> (store_error + nat) \<times> db) \<Rightarrow> string \<Rightarrow> (string \<times> string) list \<Rightarrow> fault \<Rightarrow> time \<Rightarrow> db \<Rightarrow> string + db" where
  "purge_after purge key config flt now d =
     (case map_of config key of
        None \<Rightarrow> Inr d
      | Some val \<Rightarrow>
          (case Atoi val of
             None \<Rightarrow> Inl (''invalid '' @ key @ '' after save'')
           | Some days \<Rightarrow> Inr (snd (purge flt now days d))))"

definition idle_events :: "ConfigHandler \<Rightarrow> (string \<times> string) list \<Rightarrow> string + admin_event list" where
  "idle_events h config =
     (case map_of config ''http_idle_conn_timeout_seconds'' of
        None \<Rightarrow> Inr []
      | Some raw \<Rightarrow>
          (if \<not> ch_onHTTPIdleSaved h then Inr []
           else case Atoi raw of
                  None \<Rightarrow> Inl ''invalid http_idle_conn_timeout_seconds after save''
                | Some sec \<Rightarrow> Inr [HTTPIdleSaved sec]))"

definition HandleUpdateConfig ::
  "ConfigHandler \<Rightarrow> config_env \<Rightarrow> header \<Rightarrow> http_request \<Rightarrow> db \<Rightarrow> http_response \<times> admin_event list \<times> db" where
  "HandleUpdateConfig h env w r d =
     (case (case decode_body r of None \<Rightarrow> None | Some v \<Rightarrow> unmarshal_value v) of
        None \<Rightarrow> (respondError w 400 ''invalid JSON body'', [], d)
      | Some updates \<Rightarrow>
          (case checked_values (shuffle (ce_updateOrder env) (case updates of None \<Rightarrow> [] | Some es \<Rightarrow> es)) of
             Inl msg \<Rightarrow> (respondError w 400 msg, [], d)
           | Inr config \<Rightarrow>
               (let (saved, d1) = save_values (ce_saveFault env) (ce_saveClock env) 0 (shuffle (ce_saveOrder env) config) d
                in if \<not> saved then (respondError w 500 ''failed to save configuration'', [], d1)
                   else
                     (let ev = (if ch_onConfigChanged h then [ConfigChanged] else [])
                      in case idle_events h config of
                           Inl msg \<Rightarrow> (respondError w 500 msg, ev, d1)
                         | Inr idle \<Rightarrow>
                             (case purge_after PurgeStreamingChunkBodies ''streaming_log_body_retention_days'' config
                                     (ce_purgeFault env 0) (ce_purgeClock env 0) d1 of
                                Inl msg \<Rightarrow> (respondError w 500 msg, ev @ idle, d1)
                              | Inr d2 \<Rightarrow>
                                  (case purge_after PurgeRequestLogRequestBodies ''request_log_body_retention_days'' config
                                          (ce_purgeFault env 1) (ce_purgeClock env 1) d2 of
                                     Inl msg \<Rightarrow> (respondError w 500 msg, ev @ idle, d2)
                                   | Inr d3 \<Rightarrow>
                                       (case purge_after PurgeRequestLogResponseBodies ''response_log_body_retention_days'' config
                                               (ce_purgeFault env 2) (ce_purgeClock env 2) d3 of
                                          Inl msg \<Rightarrow> (respondError w 500 msg, ev @ idle, d3)
                                        | Inr d4 \<Rightarrow> (HandleGetConfig (ce_getFault env) w d4, ev @ idle, d4))))))))"

section \<open>The description of the settings\<close>

record setting_definition =
  sd_type :: string
  sd_default :: json
  sd_min :: "int option"
  sd_max :: "int option"
  sd_description :: string

text \<open>The entries in the order in which \<open>encoding/json\<close> prints the keys of a map.\<close>

definition config_definition :: "(string \<times> setting_definition) list" where
  "config_definition =
     [(''http_idle_conn_timeout_seconds'', \<lparr>sd_type = ''integer'', sd_default = JNum (Itoa DefaultHTTPIdleConnTimeoutSeconds), sd_min = Some MinHTTPIdleConnTimeoutSeconds, sd_max = Some MaxHTTPIdleConnTimeoutSeconds,
        sd_description = ''Outbound HTTP client: how long a keep-alive connection may sit idle in the pool before it is closed. Applies to gateway'' @ [CHR 0xE2, CHR 0x86, CHR 0x92] @ ''provider traffic. Loaded at process start and when you save this value (new connections use the updated transport; active requests are not interrupted).''\<rparr>),
      (''request_body_max_bytes'', \<lparr>sd_type = ''integer'', sd_default = JNum (Itoa DefaultRequestBodyMaxBytes), sd_min = Some 0, sd_max = Some MaxBodyMaxBytes,
        sd_description = ''Cap on how much of each request body is stored on the request log (what you see under Logs). Longer bodies are truncated at this size. 0 = store the full body (subject to memory while handling the request).''\<rparr>),
      (''request_log_body_retention_days'', \<lparr>sd_type = ''integer'', sd_default = JNum (Itoa DefaultRequestLogBodyRetentionDays), sd_min = Some MinStreamingLogBodyRetentionDays, sd_max = Some MaxStreamingLogBodyRetentionDays,
        sd_description = ''After this many days, clear the stored request_body field on each request log row (Logs UI). Log metadata and other columns are kept. Independent of streaming chunks and response body retention. Runs daily and immediately when you save.''\<rparr>),
      (''require_api_keys'', \<lparr>sd_type = ''boolean'', sd_default = JBool DefaultRequireAPIKeys, sd_min = None, sd_max = None,
        sd_description = ''When on, every gateway request must include a valid API key. When off, requests without a key are accepted. This setting is the only control '' @ [CHR 0xE2, CHR 0x80, CHR 0x94] @ '' creating or deleting API keys does not change it. A key that is sent is still validated.''\<rparr>),
      (''response_body_max_bytes'', \<lparr>sd_type = ''integer'', sd_default = JNum (Itoa DefaultResponseBodyMaxBytes), sd_min = Some 0, sd_max = Some MaxBodyMaxBytes,
        sd_description = ''Cap on stored response text: non-streaming JSON body, or reconstructed assistant text from a stream. Truncates when over the limit. 0 = no cap on stored length.''\<rparr>),
      (''response_log_body_retention_days'', \<lparr>sd_type = ''integer'', sd_default = JNum (Itoa DefaultResponseLogBodyRetentionDays), sd_min = Some MinStreamingLogBodyRetentionDays, sd_max = Some MaxStreamingLogBodyRetentionDays,
        sd_description = ''After this many days, clear the stored response_body field on each request log row (JSON or reconstructed stream text). Independent of streaming chunks and request body retention. Runs daily and immediately when you save.''\<rparr>),
      (''streaming_buffer_size'', \<lparr>sd_type = ''integer'', sd_default = JNum (Itoa DefaultStreamingBufferSize), sd_min = Some MinStreamingBufferSize, sd_max = Some MaxStreamingBufferSize,
        sd_description = ''Rolling cap on total bytes of raw SSE line text kept per streamed request (not a fixed number of chunks). When a new line would exceed this size, the oldest lines are dropped first. Larger values retain more of long streams but use more database space.''\<rparr>),
      (''streaming_log_body_retention_days'', \<lparr>sd_type = ''integer'', sd_default = JNum (Itoa DefaultStreamingLogBodyRetentionDays), sd_min = Some MinStreamingLogBodyRetentionDays, sd_max = Some MaxStreamingLogBodyRetentionDays,
        sd_description = ''After this many days, clear stored streaming chunk payloads (raw SSE line and text delta) in streaming_logs. Chunk metadata rows remain. Independent of request/response body retention. Runs daily and immediately when you save.''\<rparr>),
      (''track_streaming'', \<lparr>sd_type = ''boolean'', sd_default = JBool DefaultTrackStreaming, sd_min = None, sd_max = None,
        sd_description = ''When on, each streamed response buffers raw SSE data: lines (after saving, under Streaming chunks in Logs). The client still gets the full stream; this only affects what is persisted.''\<rparr>)]"

definition definition_json :: "setting_definition \<Rightarrow> json" where
  "definition_json s = JObj
     ([(''type'', JStr (quote (sd_type s))), (''default'', sd_default s)] @
      (case sd_min s of None \<Rightarrow> [] | Some n \<Rightarrow> [(''min'', JNum (Itoa n))]) @ (case sd_max s of None \<Rightarrow> [] | Some n \<Rightarrow> [(''max'', JNum (Itoa n))]) @
      [(''description'', JStr (quote (sd_description s)))])"

definition HandleConfigDefinition :: "header \<Rightarrow> http_response" where
  "HandleConfigDefinition w = respondJSON w 200 (JObj (map (\<lambda>(k, s). (quote k, definition_json s)) config_definition))"

section \<open>The stored settings\<close>

definition cfg_of :: "db \<Rightarrow> config" where
  "cfg_of d = fold (\<lambda>(k, v, t) m. m(k \<mapsto> v)) (db_config d) Map.empty"

definition assign_all :: "(string \<times> string) list \<Rightarrow> config \<Rightarrow> config" where
  "assign_all config m = fold (\<lambda>(k, v) m. m(k \<mapsto> v)) config m"

lemma assign_all_simps: "assign_all [] m = m" "assign_all ((k, v) # config) m = assign_all config (m(k \<mapsto> v))"
  by (simp_all add: assign_all_def)

lemma GetAllConfig_ok: "flt 0 = None \<Longrightarrow> flt 1 = None \<Longrightarrow> flt 2 = None \<Longrightarrow> GetAllConfig flt d = Inr (cfg_of d)"
  by (simp add: GetAllConfig_def cfg_of_def)

definition replace_row :: "string \<Rightarrow> string \<Rightarrow> time \<Rightarrow> string \<times> string \<times> time \<Rightarrow> string \<times> string \<times> time" where
  "replace_row k v now r = (if fst r = k then (k, v, now) else r)"

definition cfg_rows :: "(string \<times> string \<times> time) list \<Rightarrow> config" where
  "cfg_rows rows = fold (\<lambda>(k, v, t) m. m(k \<mapsto> v)) rows Map.empty"

lemma cfg_rows_snoc: "cfg_rows (rows @ [r]) = (cfg_rows rows)(fst r \<mapsto> fst (snd r))"
  by (simp add: cfg_rows_def case_prod_beta)

lemma cfg_rows_replace:
  "cfg_rows (map (replace_row k v now) rows) = (if k \<in> set (map fst rows) then (cfg_rows rows)(k \<mapsto> v) else cfg_rows rows)"
proof (induction rows rule: rev_induct)
  case (snoc r rows)
  then show ?case
    by (cases "fst r = k"; cases "k \<in> set (map fst rows)") (auto simp: cfg_rows_snoc replace_row_def fun_eq_iff simp del: set_map)
qed simp

lemma cfg_upsert: "cfg_of (effect (upsert_config k v now) d) = (cfg_of d)(k \<mapsto> v)"
proof -
  have "(\<lambda>(k', v', t). if k' = k then (k, v, now) else (k', v', t)) = replace_row k v now"
    by (auto simp: replace_row_def fun_eq_iff)
  then show ?thesis by (simp add: cfg_of_def effect_def upsert_config_def cfg_rows_replace cfg_rows_snoc flip: cfg_rows_def)
qed

lemma SetConfig_state:
  "snd (SetConfig flt k v now d) = (if flt 0 = None then effect (upsert_config k v now) d else d)"
  "isl (fst (SetConfig flt k v now d)) = (flt 0 \<noteq> None)"
  by (simp_all add: SetConfig_def exec_def run_stmt_def effect_def upsert_config_def split: option.split)

text \<open>A run of the save loop stores a prefix of the values, all of them if it succeeds.\<close>

lemma save_values_prefix:
  "\<exists>pre post. config = pre @ post \<and> cfg_of (snd (save_values flt clock i config d)) = assign_all pre (cfg_of d) \<and>
     (fst (save_values flt clock i config d) \<longleftrightarrow> post = [])"
proof (induction config arbitrary: i d)
  case (Cons kv config)
  obtain k v where kv: "kv = (k, v)" by fastforce
  obtain res d1 where s: "SetConfig (flt i) k v (clock i) d = (res, d1)" by fastforce
  show ?case
  proof (cases res)
    case (Inl e)
    then have "d1 = d" using SetConfig_state [of "flt i" k v "clock i" d] s by (simp split: if_splits)
    then show ?thesis using s Inl kv by (intro exI [of _ "[]"] exI [of _ "kv # config"]) (simp add: assign_all_def)
  next
    case (Inr u)
    then have d1: "cfg_of d1 = (cfg_of d)(k \<mapsto> v)"
      using SetConfig_state [of "flt i" k v "clock i" d] s by (simp add: cfg_upsert split: if_splits)
    obtain pre post where "config = pre @ post" "cfg_of (snd (save_values flt clock (Suc i) config d1)) = assign_all pre (cfg_of d1)"
      "fst (save_values flt clock (Suc i) config d1) \<longleftrightarrow> post = []" using Cons.IH by blast
    then show ?thesis using s Inr kv d1 by (intro exI [of _ "kv # pre"] exI [of _ post]) (simp add: assign_all_def)
  qed
qed (simp add: assign_all_def)

lemma save_values_ok: "\<forall>i. flt i 0 = None \<Longrightarrow> fst (save_values flt clock i config d)"
proof (induction config arbitrary: i d)
  case (Cons kv config)
  then show ?case using SetConfig_state(2) [of "flt i"] by (cases kv) (auto split: prod.split sum.split simp: isl_def; metis prod.sel(1) sum.disc)
qed simp

lemma assign_all_distinct: "distinct (map fst config) \<Longrightarrow> assign_all config m = m ++ map_of config"
proof (induction config arbitrary: m)
  case (Cons kv config)
  obtain k v where "kv = (k, v)" by fastforce
  with Cons show ?case by (auto simp: assign_all_def fun_eq_iff map_add_def map_of_eq_None_iff [THEN iffD2] split: option.splits)
qed (simp add: assign_all_def)

lemma purge_config [simp]:
  "db_config (snd (PurgeStreamingChunkBodies flt now days d)) = db_config d"
  "db_config (snd (PurgeRequestLogRequestBodies flt now days d)) = db_config d"
  "db_config (snd (PurgeRequestLogResponseBodies flt now days d)) = db_config d"
  by (simp_all add: PurgeStreamingChunkBodies_def PurgeRequestLogRequestBodies_def PurgeRequestLogResponseBodies_def
      PurgeStreamingLogBodiesOlderThan_def PurgeRequestLogRequestBodiesOlderThan_def PurgeRequestLogResponseBodiesOlderThan_def
      exec_count_state effect_def purge_chunks_def purge_request_bodies_def purge_response_bodies_def Let_def split: option.split)

lemma purge_after_config:
  "purge_after PurgeStreamingChunkBodies key config flt now d = Inr d' \<Longrightarrow> cfg_of d' = cfg_of d"
  "purge_after PurgeRequestLogRequestBodies key config flt now d = Inr d' \<Longrightarrow> cfg_of d' = cfg_of d"
  "purge_after PurgeRequestLogResponseBodies key config flt now d = Inr d' \<Longrightarrow> cfg_of d' = cfg_of d"
  by (auto simp: purge_after_def cfg_of_def split: option.splits)

section \<open>What an update means\<close>

text \<open>The effect of a value on the settings as a record.\<close>

definition set_field :: "string \<Rightarrow> json \<Rightarrow> Configuration \<Rightarrow> Configuration" where
  "set_field key raw c =
     (let n = fst (dec_int 0 raw); b = fst (dec_bool False raw)
      in if key = ''request_body_max_bytes'' then c\<lparr>c_RequestBodyMaxBytes := n\<rparr>
         else if key = ''response_body_max_bytes'' then c\<lparr>c_ResponseBodyMaxBytes := n\<rparr>
         else if key = ''track_streaming'' then c\<lparr>c_TrackStreaming := b\<rparr>
         else if key = ''streaming_buffer_size'' then c\<lparr>c_StreamingBufferSize := n\<rparr>
         else if key = ''streaming_log_body_retention_days'' then c\<lparr>c_StreamingLogBodyRetentionDays := n\<rparr>
         else if key = ''request_log_body_retention_days'' then c\<lparr>c_RequestLogBodyRetentionDays := n\<rparr>
         else if key = ''response_log_body_retention_days'' then c\<lparr>c_ResponseLogBodyRetentionDays := n\<rparr>
         else if key = ''http_idle_conn_timeout_seconds'' then c\<lparr>c_HTTPIdleConnTimeoutSeconds := n\<rparr>
         else if key = ''require_api_keys'' then c\<lparr>c_RequireAPIKeys := b\<rparr>
         else c)"

lemma int_value_Inr:
  "int_value key lo hi raw = Inr val \<longleftrightarrow> \<not> snd (dec_int 0 raw) \<and> lo \<le> fst (dec_int 0 raw) \<and> fst (dec_int 0 raw) \<le> hi \<and> val = Itoa (fst (dec_int 0 raw))"
  by (auto simp: int_value_def Let_def case_prod_beta)

lemma bool_value_Inr: "bool_value key raw = Inr val \<longleftrightarrow> \<not> snd (dec_bool False raw) \<and> val = FormatBool (fst (dec_bool False raw))"
  by (auto simp: bool_value_def Let_def case_prod_beta)

lemma FormatBool_true [simp]: "FormatBool b = ''true'' \<longleftrightarrow> b"
  by (simp add: FormatBool_def)

lemmas setting_defs = effective_config_def int_setting_of_def bool_setting_of_def Let_def DefaultConfiguration_def

lemma effective_config_sel [simp]:
  "c_RequestBodyMaxBytes (effective_config cfg) = int_setting_of cfg ''request_body_max_bytes'' DefaultRequestBodyMaxBytes"
  "c_ResponseBodyMaxBytes (effective_config cfg) = int_setting_of cfg ''response_body_max_bytes'' DefaultResponseBodyMaxBytes"
  "c_TrackStreaming (effective_config cfg) = bool_setting_of cfg ''track_streaming'' DefaultTrackStreaming"
  "c_StreamingBufferSize (effective_config cfg) = int_setting_of cfg ''streaming_buffer_size'' DefaultStreamingBufferSize"
  "c_HTTPIdleConnTimeoutSeconds (effective_config cfg) = HTTPIdleConnTimeoutSecondsFromConfig (Some cfg)"
  "c_StreamingLogBodyRetentionDays (effective_config cfg) =
     int_setting_of cfg ''streaming_log_body_retention_days'' DefaultStreamingLogBodyRetentionDays"
  "c_RequestLogBodyRetentionDays (effective_config cfg) = int_setting_of cfg ''request_log_body_retention_days'' DefaultRequestLogBodyRetentionDays"
  "c_ResponseLogBodyRetentionDays (effective_config cfg) = int_setting_of cfg ''response_log_body_retention_days'' DefaultResponseLogBodyRetentionDays"
  "c_RequireAPIKeys (effective_config cfg) = bool_setting_of cfg ''require_api_keys'' DefaultRequireAPIKeys"
  by (simp_all add: effective_config_def Let_def DefaultConfiguration_def HTTPIdleConnTimeoutSecondsFromConfig_def split: option.split)

lemma int_setting_upd: "int_setting_of (cfg(k \<mapsto> v)) k' dflt = (if k = k' then (case Atoi v of None \<Rightarrow> dflt | Some n \<Rightarrow> n) else int_setting_of cfg k' dflt)"
  by (simp add: int_setting_of_def)

lemma bool_setting_upd: "bool_setting_of (cfg(k \<mapsto> v)) k' dflt = (if k = k' then v = ''true'' else bool_setting_of cfg k' dflt)"
  by (simp add: bool_setting_of_def)

lemma idle_upd:
  "HTTPIdleConnTimeoutSecondsFromConfig (Some (cfg(k \<mapsto> v))) =
     (if k = ''http_idle_conn_timeout_seconds''
      then (case Atoi v of None \<Rightarrow> DefaultHTTPIdleConnTimeoutSeconds | Some n \<Rightarrow> ClampHTTPIdleConnTimeoutSeconds n)
      else HTTPIdleConnTimeoutSecondsFromConfig (Some cfg))"
  by (simp add: HTTPIdleConnTimeoutSecondsFromConfig_def)

text \<open>The checks as a table of ranges.\<close>

definition int_ranges :: "(string \<times> int \<times> int) list" where
  "int_ranges = [(''request_body_max_bytes'', 0, MaxBodyMaxBytes), (''response_body_max_bytes'', 0, MaxBodyMaxBytes),
     (''streaming_buffer_size'', MinStreamingBufferSize, MaxStreamingBufferSize),
     (''streaming_log_body_retention_days'', MinStreamingLogBodyRetentionDays, MaxStreamingLogBodyRetentionDays),
     (''request_log_body_retention_days'', MinStreamingLogBodyRetentionDays, MaxStreamingLogBodyRetentionDays),
     (''response_log_body_retention_days'', MinStreamingLogBodyRetentionDays, MaxStreamingLogBodyRetentionDays),
     (''http_idle_conn_timeout_seconds'', MinHTTPIdleConnTimeoutSeconds, MaxHTTPIdleConnTimeoutSeconds)]"

definition bool_keys :: "string list" where
  "bool_keys = [''track_streaming'', ''require_api_keys'']"

lemma checked_value_table:
  "checked_value key raw = (case map_of int_ranges key of
     Some (lo, hi) \<Rightarrow> int_value key lo hi raw
   | None \<Rightarrow> if key \<in> set bool_keys then bool_value key raw else Inl (''unknown config key: '' @ key))"
  by (simp add: checked_value_def int_ranges_def bool_keys_def)

lemma int_ranges_i64: "map_of int_ranges key = Some (lo, hi) \<Longrightarrow> lo \<le> n \<Longrightarrow> n \<le> hi \<Longrightarrow> in_i64 n"
  by (auto simp: int_ranges_def in_i64_def config_consts split: if_splits)

lemma checked_value_Inr:
  "checked_value key raw = Inr val \<Longrightarrow>
   (\<exists>n lo hi. map_of int_ranges key = Some (lo, hi) \<and> n = fst (dec_int 0 raw) \<and> lo \<le> n \<and> n \<le> hi \<and> Atoi val = Some n) \<or>
   map_of int_ranges key = None \<and> key \<in> set bool_keys \<and> (val = ''true'' \<longleftrightarrow> fst (dec_bool False raw))"
  by (auto simp: checked_value_table int_value_Inr bool_value_Inr intro!: Atoi_Itoa int_ranges_i64 split: option.splits if_splits)

lemma effective_int:
  assumes "Atoi val = Some n"
  shows "effective_config (cfg(''request_body_max_bytes'' \<mapsto> val)) = (effective_config cfg)\<lparr>c_RequestBodyMaxBytes := n\<rparr>"
    and "effective_config (cfg(''response_body_max_bytes'' \<mapsto> val)) = (effective_config cfg)\<lparr>c_ResponseBodyMaxBytes := n\<rparr>"
    and "effective_config (cfg(''streaming_buffer_size'' \<mapsto> val)) = (effective_config cfg)\<lparr>c_StreamingBufferSize := n\<rparr>"
    and "effective_config (cfg(''streaming_log_body_retention_days'' \<mapsto> val)) = (effective_config cfg)\<lparr>c_StreamingLogBodyRetentionDays := n\<rparr>"
    and "effective_config (cfg(''request_log_body_retention_days'' \<mapsto> val)) = (effective_config cfg)\<lparr>c_RequestLogBodyRetentionDays := n\<rparr>"
    and "effective_config (cfg(''response_log_body_retention_days'' \<mapsto> val)) = (effective_config cfg)\<lparr>c_ResponseLogBodyRetentionDays := n\<rparr>"
    and "MinHTTPIdleConnTimeoutSeconds \<le> n \<Longrightarrow> n \<le> MaxHTTPIdleConnTimeoutSeconds \<Longrightarrow>
      effective_config (cfg(''http_idle_conn_timeout_seconds'' \<mapsto> val)) = (effective_config cfg)\<lparr>c_HTTPIdleConnTimeoutSeconds := n\<rparr>"
  using assms by (simp_all add: effective_config_def int_setting_of_def bool_setting_of_def Let_def ClampHTTPIdleConnTimeoutSeconds_def)

lemma effective_bool:
  "effective_config (cfg(''track_streaming'' \<mapsto> val)) = (effective_config cfg)\<lparr>c_TrackStreaming := (val = ''true'')\<rparr>"
  "effective_config (cfg(''require_api_keys'' \<mapsto> val)) = (effective_config cfg)\<lparr>c_RequireAPIKeys := (val = ''true'')\<rparr>"
  by (simp_all add: effective_config_def int_setting_of_def bool_setting_of_def Let_def)

lemma set_field_simps:
  "set_field ''request_body_max_bytes'' raw c = c\<lparr>c_RequestBodyMaxBytes := fst (dec_int 0 raw)\<rparr>"
  "set_field ''response_body_max_bytes'' raw c = c\<lparr>c_ResponseBodyMaxBytes := fst (dec_int 0 raw)\<rparr>"
  "set_field ''streaming_buffer_size'' raw c = c\<lparr>c_StreamingBufferSize := fst (dec_int 0 raw)\<rparr>"
  "set_field ''streaming_log_body_retention_days'' raw c = c\<lparr>c_StreamingLogBodyRetentionDays := fst (dec_int 0 raw)\<rparr>"
  "set_field ''request_log_body_retention_days'' raw c = c\<lparr>c_RequestLogBodyRetentionDays := fst (dec_int 0 raw)\<rparr>"
  "set_field ''response_log_body_retention_days'' raw c = c\<lparr>c_ResponseLogBodyRetentionDays := fst (dec_int 0 raw)\<rparr>"
  "set_field ''http_idle_conn_timeout_seconds'' raw c = c\<lparr>c_HTTPIdleConnTimeoutSeconds := fst (dec_int 0 raw)\<rparr>"
  "set_field ''track_streaming'' raw c = c\<lparr>c_TrackStreaming := fst (dec_bool False raw)\<rparr>"
  "set_field ''require_api_keys'' raw c = c\<lparr>c_RequireAPIKeys := fst (dec_bool False raw)\<rparr>"
  by (simp_all add: set_field_def Let_def)

lemma effective_update:
  assumes "checked_value key raw = Inr val"
  shows "effective_config (cfg(key \<mapsto> val)) = set_field key raw (effective_config cfg)"
  using checked_value_Inr [OF assms]
proof (elim disjE exE conjE)
  fix n lo hi assume r: "map_of int_ranges key = Some (lo, hi)" and n: "n = fst (dec_int 0 raw)" "lo \<le> n" "n \<le> hi" "Atoi val = Some n"
  from map_of_SomeD [OF r] have "(key, lo, hi) \<in> set int_ranges" .
  then show ?thesis unfolding int_ranges_def list.set insert_iff empty_iff prod.inject
    using n by (elim disjE conjE FalseE) (simp_all only: effective_int set_field_simps)
next
  assume "key \<in> set bool_keys" "val = ''true'' \<longleftrightarrow> fst (dec_bool False raw)"
  then show ?thesis unfolding bool_keys_def list.set insert_iff empty_iff
    by (elim disjE FalseE) (simp_all only: effective_bool set_field_simps)
qed

section \<open>An update as a whole\<close>

lemma checked_values_Inr:
  "checked_values ups = Inr config \<Longrightarrow>
   config = map (\<lambda>(k, raw). (k, projr (checked_value k raw))) ups \<and> (\<forall>(k, raw) \<in> set ups. \<not> isl (checked_value k raw))"
  by (induction ups arbitrary: config) (auto split: sum.splits)

lemma checked_values_Inl: "checked_values ups = Inl msg \<Longrightarrow> \<exists>(k, raw) \<in> set ups. isl (checked_value k raw)"
  by (induction ups arbitrary: msg) (auto split: sum.splits)

lemma effective_assign_all:
  "(\<forall>(k, raw) \<in> set ups. \<not> isl (checked_value k raw)) \<Longrightarrow>
   effective_config (assign_all (map (\<lambda>(k, raw). (k, projr (checked_value k raw))) ups) cfg) =
   fold (\<lambda>(k, raw). set_field k raw) ups (effective_config cfg)"
proof (induction ups arbitrary: cfg)
  case (Cons u ups)
  obtain k raw where u: "u = (k, raw)" by fastforce
  with Cons.prems have "checked_value k raw = Inr (projr (checked_value k raw))" by simp
  then show ?case using Cons effective_update by (simp add: u assign_all_def)
qed (simp add: assign_all_def)

text \<open>The values to save, in whatever order the two maps are iterated.\<close>

lemma assign_all_perm:
  assumes "mset config = mset config'" and "distinct (map fst config)"
  shows "assign_all config m = assign_all config' m"
proof -
  have "distinct (map fst config')" using assms by (metis mset_eq_imp_distinct_iff mset_map)
  moreover have "map_of config = map_of config'"
    using assms calculation by (intro map_of_inject_set [THEN iffD2]) (auto dest: mset_eq_setD)
  ultimately show ?thesis using assms(2) by (simp add: assign_all_distinct)
qed

definition respected :: "(string \<times> json) list \<Rightarrow> bool" where
  "respected es \<longleftrightarrow> list_all (\<lambda>(k, raw). \<not> isl (checked_value k raw)) es"

lemma update_saved:
  assumes "gomap_ok es" and "checked_values (shuffle o1 es) = Inr config"
  shows "effective_config (assign_all (shuffle o2 config) cfg) = fold (\<lambda>(k, raw). set_field k raw) es (effective_config cfg)"
proof -
  let ?f = "\<lambda>(k, raw). (k, projr (checked_value k raw))"
  have config: "config = map ?f (shuffle o1 es)" and ok: "\<forall>(k, raw) \<in> set es. \<not> isl (checked_value k raw)"
    using checked_values_Inr [OF assms(2)] by auto
  have fst_f: "map fst (map ?f xs) = map fst xs" for xs by (induction xs) auto
  have "distinct (map fst es)" using assms(1) by (simp add: gomap_ok_def strict_sorted_iff)
  then have "distinct (map fst (map ?f es))" by (simp only: fst_f)
  moreover have "mset (map ?f es) = mset (shuffle o2 config)" by (simp add: config)
  ultimately have "assign_all (map ?f es) cfg = assign_all (shuffle o2 config) cfg" by (intro assign_all_perm)
  with effective_assign_all [OF ok, of cfg] show ?thesis by (simp only:)
qed

text \<open>After a successful save every stored number reads back, so the steps that follow cannot fail.\<close>

lemma checked_number:
  assumes "checked_values ups = Inr config" and "map_of config key = Some val" and "key \<in> set (map fst int_ranges)"
  shows "Atoi val \<noteq> None"
proof -
  from map_of_SomeD [OF assms(2)] obtain raw where "(key, raw) \<in> set ups" "val = projr (checked_value key raw)" "\<not> isl (checked_value key raw)"
    using checked_values_Inr [OF assms(1)] by fastforce
  then have "checked_value key raw = Inr val" by simp
  moreover have "map_of int_ranges key \<noteq> None" using assms(3) by (simp add: map_of_eq_None_iff)
  ultimately show ?thesis using checked_value_Inr [of key raw val] by auto
qed

lemma late_purge:
  assumes "checked_values ups = Inr config" and "key \<in> set (map fst int_ranges)"
  shows "\<exists>d'. purge_after purge key config flt now d = Inr d'"
  using checked_number [OF assms(1) _ assms(2)] by (cases "map_of config key") (auto simp: purge_after_def)

lemma late_idle:
  assumes "checked_values ups = Inr config"
  shows "\<exists>ev. idle_events h config = Inr ev"
proof (cases "map_of config ''http_idle_conn_timeout_seconds''")
  case (Some val)
  have "''http_idle_conn_timeout_seconds'' \<in> set (map fst int_ranges)" by (simp add: int_ranges_def)
  from checked_number [OF assms Some this] Some show ?thesis by (auto simp: idle_events_def)
qed (simp add: idle_events_def)

lemma retention_keys: "''streaming_log_body_retention_days'' \<in> set (map fst int_ranges)"
  "''request_log_body_retention_days'' \<in> set (map fst int_ranges)" "''response_log_body_retention_days'' \<in> set (map fst int_ranges)"
  by (simp_all add: int_ranges_def)

lemma HandleUpdateConfig_shape:
  assumes "decode_body r = Some v" and "unmarshal_value v = Some (Some es)" and "HandleUpdateConfig h env w r d = (resp, ev, d')"
  shows "(\<exists>msg. checked_values (shuffle (ce_updateOrder env) es) = Inl msg \<and> resp = respondError w 400 msg \<and> ev = [] \<and> d' = d) \<or>
    (\<exists>config saved d1. checked_values (shuffle (ce_updateOrder env) es) = Inr config \<and>
       save_values (ce_saveFault env) (ce_saveClock env) 0 (shuffle (ce_saveOrder env) config) d = (saved, d1) \<and> cfg_of d' = cfg_of d1 \<and>
       (if saved then resp = HandleGetConfig (ce_getFault env) w d' \<and> (ch_onConfigChanged h \<longrightarrow> ConfigChanged \<in> set ev)
        else resp = respondError w 500 ''failed to save configuration'' \<and> ev = []))"
proof (cases "checked_values (shuffle (ce_updateOrder env) es)")
  case (Inl msg)
  with assms show ?thesis by (auto simp: HandleUpdateConfig_def)
next
  case (Inr config)
  obtain saved d1 where s: "save_values (ce_saveFault env) (ce_saveClock env) 0 (shuffle (ce_saveOrder env) config) d = (saved, d1)" by fastforce
  obtain idle where idle: "idle_events h config = Inr idle" using late_idle [OF Inr] by blast
  note late = late_purge [OF Inr]
  obtain d2 where d2: "purge_after PurgeStreamingChunkBodies ''streaming_log_body_retention_days'' config (ce_purgeFault env 0) (ce_purgeClock env 0) d1 = Inr d2"
    using late [OF retention_keys(1)] by blast
  obtain d3 where d3: "purge_after PurgeRequestLogRequestBodies ''request_log_body_retention_days'' config (ce_purgeFault env 1) (ce_purgeClock env 1) d2 = Inr d3"
    using late [OF retention_keys(2)] by blast
  obtain d4 where d4: "purge_after PurgeRequestLogResponseBodies ''response_log_body_retention_days'' config (ce_purgeFault env 2) (ce_purgeClock env 2) d3 = Inr d4"
    using late [OF retention_keys(3)] by blast
  have "HandleUpdateConfig h env w r d = (if saved then (HandleGetConfig (ce_getFault env) w d4, (if ch_onConfigChanged h then [ConfigChanged] else []) @ idle, d4)
      else (respondError w 500 ''failed to save configuration'', [], d1))"
    using assms(1,2) by (simp add: HandleUpdateConfig_def Inr s idle d2 d3 [unfolded One_nat_def] d4 Let_def)
  then show ?thesis
    using assms(3) Inr s purge_after_config(1) [OF d2] purge_after_config(2) [OF d3] purge_after_config(3) [OF d4] by (auto split: if_splits)
qed

text \<open>
  C20. Updating settings. A request whose values all pass their checks, on a database that does not
  fail, changes the settings field by field as the request says and leaves the other fields as they
  were; the answer, a later request for the settings and a reloaded snapshot all show the
  result, whatever order the maps are iterated in. If any value is refused, the answer is 400 and nothing has changed.
\<close>
theorem settings_update:
  assumes "decode_body r = Some (JObj ms)" and "es = obj_entries ms" and "\<forall>i. ce_saveFault env i 0 = None" and "ce_getFault env = no_fault"
    and "HandleUpdateConfig h env w r d = (resp, ev, d')"
  shows "if respected es
    then let c = fold (\<lambda>(k, raw). set_field k raw) es (effective_config (cfg_of d))
         in resp = respondJSON w 200 (config_json c) \<and> HandleGetConfig no_fault w d' = resp \<and>
            effective_config (ConfigSnapshot_Get (snd (ConfigSnapshot_Reload no_fault d' snap))) = c \<and>
            (ch_onConfigChanged h \<longrightarrow> ConfigChanged \<in> set ev)
    else rs_Status resp = 400 \<and> ev = [] \<and> d' = d"
proof -
  have es: "unmarshal_value (JObj ms) = Some (Some es)" "gomap_ok es"
    using assms(2) fold_put_ok [of "[]" unquote ms] by (simp_all add: unmarshal_value_def obj_entries_def gomap_ok_def)
  note shape = HandleUpdateConfig_shape [OF assms(1) es(1) assms(5)]
  show ?thesis
  proof (cases "checked_values (shuffle (ce_updateOrder env) es)")
    case (Inl msg)
    with checked_values_Inl [OF Inl] shape show ?thesis by (auto simp: respected_def list_all_iff)
  next
    case (Inr config)
    obtain saved d1 where s: "save_values (ce_saveFault env) (ce_saveClock env) 0 (shuffle (ce_saveOrder env) config) d = (saved, d1)"
      and d': "cfg_of d' = cfg_of d1" "if saved then resp = HandleGetConfig (ce_getFault env) w d' \<and> (ch_onConfigChanged h \<longrightarrow> ConfigChanged \<in> set ev)
        else resp = respondError w 500 ''failed to save configuration'' \<and> ev = []" using shape Inr by auto
    have saved using save_values_ok [of "ce_saveFault env", OF assms(3)] s by (metis prod.sel(1))
    obtain pre post where "shuffle (ce_saveOrder env) config = pre @ post" "cfg_of d1 = assign_all pre (cfg_of d)" "saved \<longleftrightarrow> post = []"
      using save_values_prefix [of "shuffle (ce_saveOrder env) config" "ce_saveFault env" "ce_saveClock env" 0 d] s by auto
    with \<open>saved\<close> have "cfg_of d1 = assign_all (shuffle (ce_saveOrder env) config) (cfg_of d)" by simp
    with d'(1) have c: "effective_config (cfg_of d') = fold (\<lambda>(k, raw). set_field k raw) es (effective_config (cfg_of d))"
      using update_saved [OF es(2) Inr] by simp
    have get: "GetAllConfig no_fault d' = Inr (cfg_of d')" by (rule GetAllConfig_ok) (simp_all add: no_fault_def)
    have "respected es" using checked_values_Inr [OF Inr] by (simp add: respected_def list_all_iff)
    with d'(2) \<open>saved\<close> show ?thesis
      by (simp add: HandleGetConfig_def assms(4) get c ConfigSnapshot_Reload_def ConfigSnapshot_Get_def Let_def)
  qed
qed

text \<open>A save that fails half way leaves the values saved so far, and nobody is told of them.\<close>

theorem failed_save_is_partial:
  assumes "decode_body r = Some (JObj ms)" and "es = obj_entries ms" and "HandleUpdateConfig h env w r d = (resp, ev, d')" and "rs_Status resp = 500"
    and "ce_getFault env = no_fault"
  shows "ev = [] \<and> (\<exists>pre. cfg_of d' = assign_all pre (cfg_of d) \<and> list_all (\<lambda>(k, v). \<exists>raw. checked_value k raw = Inr v) pre)"
proof -
  have es: "unmarshal_value (JObj ms) = Some (Some es)" using assms(2) by (simp add: unmarshal_value_def obj_entries_def)
  have get: "GetAllConfig no_fault d' = Inr (cfg_of d')" by (rule GetAllConfig_ok) (simp_all add: no_fault_def)
  obtain config saved d1 where config: "checked_values (shuffle (ce_updateOrder env) es) = Inr config"
    and s: "save_values (ce_saveFault env) (ce_saveClock env) 0 (shuffle (ce_saveOrder env) config) d = (saved, d1)"
    and d': "cfg_of d' = cfg_of d1" "if saved then resp = HandleGetConfig (ce_getFault env) w d' \<and> (ch_onConfigChanged h \<longrightarrow> ConfigChanged \<in> set ev)
        else resp = respondError w 500 ''failed to save configuration'' \<and> ev = []"
    using HandleUpdateConfig_shape [OF assms(1) es assms(3)] assms(4) by auto
  have "\<not> saved" using d'(2) assms(4,5) get by (auto simp: HandleGetConfig_def)
  obtain pre post where pre: "shuffle (ce_saveOrder env) config = pre @ post" "cfg_of d1 = assign_all pre (cfg_of d)"
    using save_values_prefix [of "shuffle (ce_saveOrder env) config" "ce_saveFault env" "ce_saveClock env" 0 d] s by auto
  have "set pre \<subseteq> set config" using pre(1) by (metis set_append set_shuffle sup_ge1)
  then have "list_all (\<lambda>(k, v). \<exists>raw. checked_value k raw = Inr v) pre"
    using checked_values_Inr [OF config] by (fastforce simp: list_all_iff)
  with \<open>\<not> saved\<close> d' pre show ?thesis by auto
qed

section \<open>Every reachable setting is valid\<close>

definition settings_ok :: "config \<Rightarrow> bool" where
  "settings_ok cfg \<longleftrightarrow> (\<forall>k v. cfg k = Some v \<longrightarrow> (\<exists>raw. checked_value k raw = Inr v))"

inductive config_reach :: "db \<Rightarrow> bool" where
  c_init: "config_reach (migrated_db now)"
| c_update: "config_reach d \<Longrightarrow> config_reach (snd (snd (HandleUpdateConfig h env w r d)))"

lemma settings_ok_assign:
  "settings_ok cfg \<Longrightarrow> list_all (\<lambda>(k, v). \<exists>raw. checked_value k raw = Inr v) pre \<Longrightarrow> settings_ok (assign_all pre cfg)"
proof (induction pre arbitrary: cfg)
  case (Cons kv pre)
  obtain k v where kv: "kv = (k, v)" by fastforce
  have "settings_ok (cfg(k \<mapsto> v))" using Cons.prems by (auto simp: settings_ok_def kv)
  moreover have "list_all (\<lambda>(k, v). \<exists>raw. checked_value k raw = Inr v) pre" using Cons.prems(2) by simp
  ultimately show ?case unfolding kv assign_all_simps by (rule Cons.IH)
qed (simp add: assign_all_def)

lemma settings_ok_update:
  assumes "settings_ok (cfg_of d)"
  shows "settings_ok (cfg_of (snd (snd (HandleUpdateConfig h env w r d))))"
proof -
  obtain resp ev d' where u: "HandleUpdateConfig h env w r d = (resp, ev, d')" by (cases "HandleUpdateConfig h env w r d") auto
  show ?thesis
  proof (cases "\<exists>v es. decode_body r = Some v \<and> unmarshal_value v = Some (Some es)")
    case True
    then obtain v es where v: "decode_body r = Some v" "unmarshal_value v = Some (Some es)" by blast
    consider "d' = d" | config saved d1 where "checked_values (shuffle (ce_updateOrder env) es) = Inr config"
      "save_values (ce_saveFault env) (ce_saveClock env) 0 (shuffle (ce_saveOrder env) config) d = (saved, d1)" "cfg_of d' = cfg_of d1"
      using HandleUpdateConfig_shape [OF v u] by auto
    then show ?thesis
    proof cases
      case 2
      obtain pre post where pre: "shuffle (ce_saveOrder env) config = pre @ post" "cfg_of d1 = assign_all pre (cfg_of d)"
        using save_values_prefix [of "shuffle (ce_saveOrder env) config" "ce_saveFault env" "ce_saveClock env" 0 d] 2(2) by auto
      have "set pre \<subseteq> set config" using pre(1) by (metis set_append set_shuffle sup_ge1)
      then have "list_all (\<lambda>(k, v). \<exists>raw. checked_value k raw = Inr v) pre"
        using checked_values_Inr [OF 2(1)] by (fastforce simp: list_all_iff)
      with settings_ok_assign [OF assms] 2(3) pre(2) u show ?thesis by simp
    qed (use assms u in simp)
  next
    case False
    then have "d' = d" using u by (auto simp: HandleUpdateConfig_def idle_events_def purge_after_def split: option.splits)
    then show ?thesis using assms u by simp
  qed
qed

lemma cfg_rows_fresh: "cfg_rows (map (\<lambda>(k, v). (k, v, now)) kvs) = assign_all kvs Map.empty"
  unfolding cfg_rows_def assign_all_def fold_map by (rule fold_cong) (auto simp: fun_eq_iff)

lemma settings_ok_migrated: "settings_ok (cfg_of (migrated_db now))"
proof -
  let ?defaults = "[(''request_body_max_bytes'', ''51200''), (''response_body_max_bytes'', ''51200''), (''track_streaming'', ''false''),
      (''streaming_buffer_size'', ''10240''), (''request_log_body_retention_days'', ''30''),
      (''response_log_body_retention_days'', ''30''), (''http_idle_conn_timeout_seconds'', ''90'')]"
  have rows: "cfg_of (migrated_db now) = cfg_rows (map (\<lambda>(k, v). (k, v, now)) ?defaults)"
    unfolding cfg_of_def cfg_rows_def migrated_db_def by (rule arg_cong [where f = "\<lambda>rows. fold (\<lambda>(k, v, t) m. m(k \<mapsto> v)) rows Map.empty"]) simp
  have "Itoa 51200 = ''51200''" "Itoa 10240 = ''10240''" "Itoa 30 = ''30''" "Itoa 90 = ''90''"
    by (simp_all add: Itoa_def show_nat.simps digit_def char_of_def bit_Suc_0_iff)
  note texts = this
  have number: "\<exists>raw. checked_value k raw = Inr (Itoa n)" if "case map_of int_ranges k of None \<Rightarrow> False | Some (lo, hi) \<Rightarrow> lo \<le> n \<and> n \<le> hi" for k n
    by (rule exI [of _ "JNum (Itoa n)"])
      (use that in \<open>auto simp: checked_value_table int_value_Inr dec_int_def Atoi_Itoa int_ranges_i64 split: option.splits\<close>)
  have "list_all (\<lambda>(k, n). \<exists>raw. checked_value k raw = Inr (Itoa n)) [(''request_body_max_bytes'', 51200), (''response_body_max_bytes'', 51200),
      (''streaming_buffer_size'', 10240), (''request_log_body_retention_days'', 30), (''response_log_body_retention_days'', 30),
      (''http_idle_conn_timeout_seconds'', 90)]"
    unfolding list.pred_inject prod.case by (intro conjI TrueI number) (simp_all add: int_ranges_def config_consts)
  moreover have "checked_value ''track_streaming'' (JBool False) = Inr ''false''"
    by (simp add: checked_value_table int_ranges_def bool_keys_def bool_value_def dec_bool_def FormatBool_def)
  ultimately have "list_all (\<lambda>(k, v). \<exists>raw. checked_value k raw = Inr v) ?defaults"
    unfolding list.pred_inject prod.case texts by (intro conjI; (elim conjE, blast | simp))
  moreover have "settings_ok Map.empty" by (simp add: settings_ok_def)
  ultimately show ?thesis using rows unfolding cfg_rows_fresh by (simp only: settings_ok_assign)
qed

lemma config_reach_ok: "config_reach d \<Longrightarrow> settings_ok (cfg_of d)"
  by (induction rule: config_reach.induct) (simp_all add: settings_ok_migrated settings_ok_update)

lemma settings_ok_int:
  assumes "settings_ok cfg" and "map_of int_ranges key = Some (lo, hi)" and "lo \<le> dflt" and "dflt \<le> hi"
  shows "lo \<le> int_setting_of cfg key dflt \<and> int_setting_of cfg key dflt \<le> hi"
proof (cases "cfg key")
  case (Some v)
  then obtain raw where "checked_value key raw = Inr v" using assms(1) by (auto simp: settings_ok_def)
  from checked_value_Inr [OF this] assms(2) show ?thesis by (auto simp: int_setting_of_def Some)
qed (use assms in \<open>simp add: int_setting_of_def\<close>)

lemma retention_setting:
  assumes "settings_ok cfg" and "map_of int_ranges key = Some (MinStreamingLogBodyRetentionDays, MaxStreamingLogBodyRetentionDays)"
  shows "retentionDaysFromKey cfg key dflt = Some (int_setting_of cfg key dflt)"
proof (cases "cfg key")
  case (Some v)
  then obtain raw where "checked_value key raw = Inr v" using assms(1) by (auto simp: settings_ok_def)
  from checked_value_Inr [OF this] assms(2) show ?thesis by (auto simp: retentionDaysFromKey_def int_setting_of_def Some)
qed (simp add: retentionDaysFromKey_def int_setting_of_def)

text \<open>
  C31. Settings stay in range. Whatever update requests come in, failing or not, from a migrated database
  on: the settings in force are within their bounds, and the retention worker finds a usable period for
  each of the three kinds of bodies, the one that the settings page shows.
\<close>
theorem settings_stay_valid:
  assumes "config_reach d"
  shows "let c = effective_config (cfg_of d)
    in c_RequestBodyMaxBytes c \<in> {0..MaxBodyMaxBytes} \<and> c_ResponseBodyMaxBytes c \<in> {0..MaxBodyMaxBytes} \<and>
       c_StreamingBufferSize c \<in> {MinStreamingBufferSize..MaxStreamingBufferSize} \<and>
       c_HTTPIdleConnTimeoutSeconds c \<in> {MinHTTPIdleConnTimeoutSeconds..MaxHTTPIdleConnTimeoutSeconds} \<and>
       StreamingRetentionDaysFromConfig (cfg_of d) = Some (c_StreamingLogBodyRetentionDays c) \<and>
       RequestLogBodyRetentionDaysFromConfig (cfg_of d) = Some (c_RequestLogBodyRetentionDays c) \<and>
       ResponseLogBodyRetentionDaysFromConfig (cfg_of d) = Some (c_ResponseLogBodyRetentionDays c)"
proof -
  note ok = config_reach_ok [OF assms]
  have "int_setting_of (cfg_of d) ''request_body_max_bytes'' DefaultRequestBodyMaxBytes \<in> {0..MaxBodyMaxBytes}"
    "int_setting_of (cfg_of d) ''response_body_max_bytes'' DefaultResponseBodyMaxBytes \<in> {0..MaxBodyMaxBytes}"
    "int_setting_of (cfg_of d) ''streaming_buffer_size'' DefaultStreamingBufferSize \<in> {MinStreamingBufferSize..MaxStreamingBufferSize}"
    unfolding atLeastAtMost_iff by (rule settings_ok_int [OF ok]; simp add: int_ranges_def config_consts)+
  moreover have "retentionDaysFromKey (cfg_of d) k dflt = Some (int_setting_of (cfg_of d) k dflt)"
    if "k \<in> {''streaming_log_body_retention_days'', ''request_log_body_retention_days'', ''response_log_body_retention_days''}" for k dflt
    using that by (intro retention_setting [OF ok]) (auto simp: int_ranges_def)
  ultimately show ?thesis using HTTPIdleConnTimeout_range [of "Some (cfg_of d)"]
    by (simp add: Let_def StreamingRetentionDaysFromConfig_def RequestLogBodyRetentionDaysFromConfig_def ResponseLogBodyRetentionDaysFromConfig_def)
qed

text \<open>
  The description that the settings page shows agrees with the checks: a key is described exactly if
  an update accepts some value for it, an integer is accepted exactly if it lies between the
  bounds shown, and the default shown is the one in force.
\<close>
theorem definition_agrees:
  "map_of config_definition key = None \<longleftrightarrow> (\<forall>raw. isl (checked_value key raw))"
  "map_of config_definition key = Some s \<Longrightarrow> sd_type s = ''integer'' \<Longrightarrow> in_i64 n \<Longrightarrow>
    (\<not> isl (checked_value key (JNum (Itoa n))) \<longleftrightarrow> the (sd_min s) \<le> n \<and> n \<le> the (sd_max s))"
proof -
  have ty: "map_of config_definition key = Some s \<Longrightarrow> sd_type s = ''integer'' \<Longrightarrow>
      map_of int_ranges key = Some (the (sd_min s), the (sd_max s))" for s
    by (auto simp: config_definition_def int_ranges_def split: if_splits)
  have dom: "map_of config_definition key = None \<longleftrightarrow> map_of int_ranges key = None \<and> key \<notin> set bool_keys"
    by (auto simp: config_definition_def int_ranges_def bool_keys_def)
  have acc: "\<exists>raw. \<not> isl (checked_value key raw)" if "map_of int_ranges key = Some (lo, hi)" for lo hi
  proof -
    have "lo \<le> hi" using that by (auto simp: int_ranges_def config_consts split: if_splits)
    then show ?thesis using int_ranges_i64 [OF that, of lo]
      by (intro exI [of _ "JNum (Itoa lo)"]) (simp add: checked_value_table that int_value_def dec_int_def Atoi_Itoa)
  qed
  show "map_of config_definition key = None \<longleftrightarrow> (\<forall>raw. isl (checked_value key raw))"
  proof (cases "map_of int_ranges key")
    case None
    then show ?thesis unfolding dom
      by (auto simp: checked_value_table bool_value_def dec_bool_def intro: exI [of _ "JBool True"] split: if_splits dest!: spec [of _ "JBool True"])
  next
    case (Some b)
    then show ?thesis unfolding dom using acc by (cases b) auto
  qed
  assume s: "map_of config_definition key = Some s" "sd_type s = ''integer''" and n: "in_i64 n"
  show "\<not> isl (checked_value key (JNum (Itoa n))) \<longleftrightarrow> the (sd_min s) \<le> n \<and> n \<le> the (sd_max s)"
    using Atoi_Itoa [OF n] by (auto simp: checked_value_table ty [OF s] int_value_def dec_int_def)
qed

section \<open>Samples\<close>

definition sample_update :: http_request where
  "sample_update = \<lparr>rq_Method = ''PUT'', rq_Path = ''/admin/config'', rq_Header = [], rq_RemoteAddr = '''', rq_ContentLength = 27,
     rq_Body = Some ''{\"track_streaming\":true}x''\<rparr>"

definition calm_config_env :: config_env where
  "calm_config_env = \<lparr>ce_updateOrder = [], ce_saveOrder = [], ce_saveFault = (\<lambda>_. no_fault), ce_saveClock = (\<lambda>_. 0),
     ce_purgeFault = (\<lambda>_. no_fault), ce_purgeClock = (\<lambda>_. 0), ce_getFault = no_fault\<rparr>"

lemma sample_update_body: "decode_body sample_update = Some (JObj [(''track_streaming'', JBool True)])"
  by code_simp

theorem settings_update_witness:
  "\<exists>resp ev d'. HandleUpdateConfig \<lparr>ch_onHTTPIdleSaved = True, ch_onConfigChanged = True\<rparr> calm_config_env [] sample_update (migrated_db 0) = (resp, ev, d') \<and>
     c_TrackStreaming (effective_config (ConfigSnapshot_Get (snd (ConfigSnapshot_Reload no_fault d' NewConfigSnapshot)))) \<and> ConfigChanged \<in> set ev"
proof -
  let ?h = "\<lparr>ch_onHTTPIdleSaved = True, ch_onConfigChanged = True\<rparr>"
  obtain resp ev d' where u: "HandleUpdateConfig ?h calm_config_env [] sample_update (migrated_db 0) = (resp, ev, d')"
    by (cases "HandleUpdateConfig ?h calm_config_env [] sample_update (migrated_db 0)") auto
  have es: "obj_entries [(''track_streaming'', JBool True)] = [(''track_streaming'', JBool True)]" by code_simp
  have "respected [(''track_streaming'', JBool True)]"
    by (simp add: respected_def checked_value_table int_ranges_def bool_keys_def bool_value_def dec_bool_def)
  then have "c_TrackStreaming (effective_config (ConfigSnapshot_Get (snd (ConfigSnapshot_Reload no_fault d' NewConfigSnapshot)))) \<and> ConfigChanged \<in> set ev"
    using settings_update [OF sample_update_body refl _ _ u, of NewConfigSnapshot]
    by (simp add: es calm_config_env_def no_fault_def set_field_simps Let_def dec_bool_def del: effective_config_sel)
  with u show ?thesis by blast
qed

theorem settings_stay_valid_witness:
  "c_RequestBodyMaxBytes (effective_config (cfg_of (migrated_db 0))) \<in> {0..MaxBodyMaxBytes} \<and>
   StreamingRetentionDaysFromConfig (cfg_of (migrated_db 0)) = Some (c_StreamingLogBodyRetentionDays (effective_config (cfg_of (migrated_db 0))))"
  using settings_stay_valid [OF c_init, of 0] by (simp add: Let_def del: effective_config_sel)

text \<open>A JSON \<open>null\<close> decodes to the zero value without an error, and zero means no limit.\<close>

lemma null_lifts_limit: "checked_value ''request_body_max_bytes'' JNull = Inr ''0'' \<and> checked_value ''response_body_max_bytes'' JNull = Inr ''0''"
  by (simp add: checked_value_def int_value_def dec_int_def config_consts Itoa_def show_nat.simps digit_def char_of_def bit_Suc_0_iff)

end
