(* ===== verification/Store_Stats.thy ===== *)
theory Store_Stats
  imports Store_Logs
begin

text \<open>
  The statistics that the store computes in SQL (\<open>internal/db/sqlite_stats.go\<close>): the dashboard, the
  time series and the lifetime cost, over all logs or those of one API key. The queries of
  one call run one after the other, and each may see other tables (\<open>d i\<close>). How SQLite adds up and averages
  REAL values is an argument, and so is the row that it takes a bare column of a group from. A series
  is compared with the logs it is made of, its prices with those of \<open>internal/pricing\<close>, and its hours
  with those of the accumulator.
\<close>

section \<open>Prices of a row\<close>

definition joined_model :: "db \<Rightarrow> request_logs_row \<Rightarrow> ProviderModel option" where
  "joined_model d r = find (\<lambda>m. lr_provider_id r = Some (m_ProviderID m) \<and> lr_resolved_model r = Some (m_ModelID m)) (db_models d)"

definition sql_input_cost :: "request_logs_row \<Rightarrow> ProviderModel option \<Rightarrow> float64" where
  "sql_input_cost r pm =
     (case (Option.bind pm m_CostPerMillionInput, lr_prompt_tokens r) of
        (Some rate, Some prompt) \<Rightarrow> token_cost (max 0 (prompt - num (lr_cached_tokens r))) rate
      | _ \<Rightarrow> 0)"

definition sql_output_cost :: "request_logs_row \<Rightarrow> ProviderModel option \<Rightarrow> float64" where
  "sql_output_cost r pm =
     (case (Option.bind pm m_CostPerMillionOutput, lr_completion_tokens r) of
        (Some rate, Some completion) \<Rightarrow> token_cost completion rate
      | _ \<Rightarrow> 0)"

definition sql_cached_cost :: "request_logs_row \<Rightarrow> ProviderModel option \<Rightarrow> float64" where
  "sql_cached_cost r pm =
     (case (Option.bind pm m_CostPerMillionCacheRead, lr_cached_tokens r) of
        (Some rate, Some cached) \<Rightarrow> if cached > 0 then token_cost cached rate else 0
      | _ \<Rightarrow> 0)"

section \<open>The dashboard\<close>

record sql_floats =
  sq_sum :: "float64 list \<Rightarrow> float64"
  sq_avg :: "float64 list \<Rightarrow> float64"

definition sql_avg :: "sql_floats \<Rightarrow> request_logs_row list \<Rightarrow> float64" where
  "sql_avg fs rs = (if rs = [] then 0 else sq_avg fs (map (f64 \<circ> lr_total_time_ms) rs))"

text \<open>The rows of a window, of all keys (\<open>''''\<close>) or of one.\<close>

definition window_rows :: "time \<Rightarrow> time \<Rightarrow> string \<Rightarrow> db \<Rightarrow> request_logs_row list" where
  "window_rows since until kid d =
     filter (\<lambda>r. since \<le> lr_timestamp r \<and> lr_timestamp r \<le> until \<and> (kid = '''' \<or> lr_api_key_id r = Some kid)) (db_request_logs d)"

definition bare :: "nat list \<Rightarrow> request_logs_row list \<Rightarrow> request_logs_row" where
  "bare ks rs = hd (shuffle ks rs)"

definition provider_row :: "sql_floats \<Rightarrow> nat list \<Rightarrow> db \<Rightarrow> string option \<times> request_logs_row list \<Rightarrow> ProviderStats" where
  "provider_row fs ks d g = (case g of (pid, rs) \<Rightarrow>
     \<lparr>ps_ProviderID = str_of pid,
      ps_ProviderName = (case find (\<lambda>p. Some (pr_id p) = pid) (db_providers d) of
          Some p \<Rightarrow> pr_name p | None \<Rightarrow> str_of (lr_provider_name (bare ks rs))),
      ps_RequestCount = int (length rs), ps_AvgLatencyMs = sql_avg fs rs, ps_ErrorCount = int (length (filter row_error rs))\<rparr>)"

definition key_row :: "sql_floats \<Rightarrow> nat list \<Rightarrow> db \<Rightarrow> string \<times> request_logs_row list \<Rightarrow> APIKeyStats" where
  "key_row fs ks d g = (case g of (kid, rs) \<Rightarrow>
     \<lparr>ks_APIKeyID = kid,
      ks_APIKeyName = (if kid = '''' then ''No API key''
        else case find (\<lambda>k. k_ID k = kid \<and> k_Name k \<noteq> '''') (db_api_keys d) of
          Some k \<Rightarrow> k_Name k
        | None \<Rightarrow> if str_of (lr_api_key_name (bare ks rs)) \<noteq> '''' then str_of (lr_api_key_name (bare ks rs)) else kid),
      ks_RequestCount = int (length rs), ks_AvgLatencyMs = sql_avg fs rs, ks_ErrorCount = int (length (filter row_error rs)),
      ks_TotalTokens = sum_list (map (num \<circ> lr_total_tokens) rs)\<rparr>)"

definition dashboardStats ::
  "sql_floats \<Rightarrow> fault \<Rightarrow> (nat \<Rightarrow> nat list) \<Rightarrow> (nat \<Rightarrow> db) \<Rightarrow> time \<Rightarrow> time \<Rightarrow> string \<Rightarrow> store_error + DashboardStats" where
  "dashboardStats fs flt ks d since until kid =
     (let rows = (\<lambda>i. window_rows since until kid (d i)); total = int (length (rows 0)) in
      case query_row flt 0 ''dashboard stats total requests'' [total] of Inl e \<Rightarrow> Inl e | Inr total \<Rightarrow>
      case (if total > 0 then query_row flt 1 ''dashboard stats avg latency'' [sql_avg fs (rows 1)] else Inr 0) of Inl e \<Rightarrow> Inl e | Inr avg \<Rightarrow>
      case (if total > 0 then query_row flt 2 ''dashboard stats error count''
              [if rows 2 = [] then 0 else fdiv (f64 (int (length (filter row_error (rows 2))))) (f64 total)] else Inr 0) of
        Inl e \<Rightarrow> Inl e | Inr rate \<Rightarrow>
      case query flt 3 ''dashboard stats by model''
             (order_by (ks 3) (\<lambda>m. - ms_RequestCount m) (map (model_row (sq_avg fs)) (group_by row_model (rows 3)))) of
        Inl e \<Rightarrow> Inl e | Inr byModel \<Rightarrow>
      let stats = \<lparr>ds_TotalRequests = total, ds_AvgLatencyMs = avg, ds_ErrorRate = rate, ds_ByModel = byModel, ds_ByProvider = [], ds_ByAPIKey = []\<rparr> in
      if kid \<noteq> '''' then Inr stats else
      case query flt 6 ''dashboard stats by provider''
             (order_by (ks 4) (\<lambda>p. - ps_RequestCount p) (map (provider_row fs (ks 6) (d 4)) (group_by lr_provider_id (rows 4)))) of
        Inl e \<Rightarrow> Inl e | Inr byProvider \<Rightarrow>
      case query flt 9 ''dashboard stats by api key''
             (order_by (ks 5) (\<lambda>k. - ks_RequestCount k) (map (key_row fs (ks 7) (d 5)) (group_by (\<lambda>r. str_of (lr_api_key_id r)) (rows 5)))) of
        Inl e \<Rightarrow> Inl e | Inr byAPIKey \<Rightarrow>
      Inr (stats\<lparr>ds_ByProvider := byProvider, ds_ByAPIKey := byAPIKey\<rparr>))"

definition GetDashboardStats where
  "GetDashboardStats fs flt ks d since until = dashboardStats fs flt ks d since until ''''"

definition GetDashboardStatsForAPIKey where
  "GetDashboardStatsForAPIKey fs flt ks d kid since until = dashboardStats fs flt ks d since until kid"

section \<open>Time series\<close>

text \<open>The point of one group of rows.\<close>

definition series_row :: "sql_floats \<Rightarrow> db \<Rightarrow> string \<times> request_logs_row list \<Rightarrow> TimeSeriesPoint" where
  "series_row fs d g = (case g of (bucket, rs) \<Rightarrow>
     (let tokens = (\<lambda>col. sum_list (map (num \<circ> col) rs)); cost = (\<lambda>f. sq_sum fs (map (\<lambda>r. f r (joined_model d r)) rs))
      in \<lparr>tp_Bucket = bucket, tp_Requests = int (length rs),
          tp_SuccessCount = int (length (filter (\<lambda>r. lr_status_code r \<ge> 200 \<and> lr_status_code r < 300) rs)),
          tp_ErrorCount = int (length (filter row_error rs)), tp_InputTokens = tokens lr_prompt_tokens - tokens lr_cached_tokens,
          tp_PromptTokens = tokens lr_prompt_tokens, tp_CompletionTokens = tokens lr_completion_tokens, tp_TotalTokens = tokens lr_total_tokens,
          tp_CachedTokens = tokens lr_cached_tokens,
          tp_TotalCostUSD = fadd (fadd (cost sql_input_cost) (cost sql_output_cost)) (cost sql_cached_cost),
          tp_InputCostUSD = cost sql_input_cost, tp_OutputCostUSD = cost sql_output_cost, tp_CachedCostUSD = cost sql_cached_cost\<rparr>))"

text \<open>The buckets of SQLite's \<open>strftime\<close> are those of Go's \<open>Format\<close>.\<close>

definition timeSeries ::
  "sql_floats \<Rightarrow> fault \<Rightarrow> db \<Rightarrow> time \<Rightarrow> time \<Rightarrow> string \<Rightarrow> string \<Rightarrow> store_error + TimeSeriesPoint list" where
  "timeSeries fs flt d since until granularity kid =
     (if granularity \<noteq> ''hour'' \<and> granularity \<noteq> ''day'' then Inl (StoreError ''invalid granularity'' (Message granularity))
      else
        let (bucket, width) = (if granularity = ''hour'' then (format_hour, hour) else (format_day, day))
        in case query flt 0 ''get time series''
                  (order_by [] tp_Bucket (map (series_row fs d) (group_by (bucket \<circ> lr_timestamp) (window_rows since until kid d)))) of
             Inl e \<Rightarrow> Inl e
           | Inr rows \<Rightarrow>
               (let dataByBucket = fold (\<lambda>p m. m(tp_Bucket p \<mapsto> p)) rows Map.empty
                in Inr (map (\<lambda>t. case dataByBucket (bucket t) of Some p \<Rightarrow> p | None \<Rightarrow> empty_point (bucket t)) (series since until width))))"

definition GetTimeSeries where
  "GetTimeSeries fs flt d since until granularity = timeSeries fs flt d since until granularity ''''"

definition TimeSeriesByAPIKey where
  "TimeSeriesByAPIKey fs flt d kid since until granularity = timeSeries fs flt d since until granularity kid"

section \<open>Lifetime cost\<close>

record LifetimeCost =
  lc_TotalCostUSD :: float64
  lc_InputCostUSD :: float64
  lc_OutputCostUSD :: float64
  lc_CachedCostUSD :: float64
  lc_TotalRequests :: int
  lc_TotalTokens :: int
  lc_FirstRequest :: "string option"
  lc_LastRequest :: "string option"

text \<open>\<open>Format(time.RFC3339)\<close> of a UTC time.\<close>

definition format_RFC3339 :: "time \<Rightarrow> string" where
  "format_RFC3339 t = format_day t @ ''T'' @ pad2 (t mod day div hour) @ '':'' @ pad2 (t mod hour div (60 * second)) @ '':'' @
     pad2 (t mod (60 * second) div second) @ ''Z''"

definition lifetimeCost :: "sql_floats \<Rightarrow> fault \<Rightarrow> db \<Rightarrow> string \<Rightarrow> store_error + LifetimeCost" where
  "lifetimeCost fs flt d kid =
     (let rs = filter (\<lambda>r. kid = '''' \<or> lr_api_key_id r = Some kid) (db_request_logs d);
          cost = (\<lambda>f. if rs = [] then 0 else sq_sum fs (map (\<lambda>r. f r (joined_model d r)) rs));
          i = cost sql_input_cost; out = cost sql_output_cost; c = cost sql_cached_cost; ts = set (map lr_timestamp rs)
      in query_row flt 0 ''get lifetime cost''
           [\<lparr>lc_TotalCostUSD = fadd (fadd i out) c, lc_InputCostUSD = i, lc_OutputCostUSD = out, lc_CachedCostUSD = c,
             lc_TotalRequests = int (length rs), lc_TotalTokens = sum_list (map (num \<circ> lr_total_tokens) rs),
             lc_FirstRequest = (if rs = [] then None else Some (format_RFC3339 (Min ts))),
             lc_LastRequest = (if rs = [] then None else Some (format_RFC3339 (Max ts)))\<rparr>])"

definition GetLifetimeCost where
  "GetLifetimeCost fs flt d = lifetimeCost fs flt d ''''"

definition GetLifetimeCostForAPIKey where
  "GetLifetimeCostForAPIKey fs flt d kid = lifetimeCost fs flt d kid"

section \<open>Groups\<close>

lemma sum_list_indicator: "distinct xs \<Longrightarrow> sum_list (map (\<lambda>x. if x = a then c else (0::nat)) xs) = (if a \<in> set xs then c else 0)"
  by (induction xs) auto

lemma length_by_key:
  assumes "distinct ks" and "key ` set rows \<subseteq> set ks"
  shows "sum_list (map (\<lambda>k. length (filter (\<lambda>r. key r = k) rows)) ks) = length rows"
  using assms(2)
proof (induction rows)
  case (Cons r rows)
  have "sum_list (map (\<lambda>k. length (filter (\<lambda>x. key x = k) (r # rows))) ks) =
      sum_list (map (\<lambda>k. (if k = key r then 1 else 0) + length (filter (\<lambda>x. key x = k) rows)) ks)"
    by (rule arg_cong [where f = sum_list]) auto
  also have "\<dots> = length (r # rows)"
    using Cons sum_list_indicator [OF assms(1), of "key r" 1] by (auto simp: sum_list_addf)
  finally show ?case .
qed simp

lemma group_by_counts: "sum_list (map (\<lambda>g. int (length (snd g))) (group_by key rows)) = int (length rows)"
proof -
  have "sum_list (map (\<lambda>g. int (length (snd g))) (group_by key rows)) = int (sum_list (map (\<lambda>k. length (filter (\<lambda>r. key r = k) rows)) (remdups (map key rows))))"
    by (simp add: group_by_def comp_def sum_list_of_nat [symmetric])
  then show ?thesis using length_by_key [of "remdups (map key rows)" key rows] by simp
qed

lemma sum_list_order_by: "sum_list (map f (order_by ks key xs)) = sum_list (map (f :: 'a \<Rightarrow> int) xs)"
  by (metis mset_map mset_order_by sum_mset_sum_list)

lemma map_of_group_by: "map_of (group_by key rows) k = (if k \<in> key ` set rows then Some (filter (\<lambda>r. key r = k) rows) else None)"
  by (auto simp: group_by_def map_of_map_restrict restrict_map_def comp_def)

section \<open>Buckets of time\<close>

lemma year_of_mono: "0 \<le> a \<Longrightarrow> a \<le> b \<Longrightarrow> year_of a \<le> year_of b"
proof (rule ccontr)
  assume "0 \<le> a" and "a \<le> b" and "\<not> year_of a \<le> year_of b"
  then have "days_before_year (year_of b + 1) \<le> days_before_year (year_of a)" by (intro days_before_year_mono) simp
  then show False using year_of_spec [of a] year_of_spec [of b] \<open>0 \<le> a\<close> \<open>a \<le> b\<close> by linarith
qed

lemma printable_le: "printable u \<Longrightarrow> 0 \<le> t \<Longrightarrow> t \<le> u \<Longrightarrow> printable t"
  using year_of_mono [of "t div day" "u div day"] zdiv_mono1 [of t u day] by (auto simp: printable_def pos_imp_zdiv_nonneg_iff)

lemma Truncate_le: "0 < d \<Longrightarrow> Truncate t d \<le> t"
  by (simp add: Truncate_def)

lemma Truncate_mult: "Truncate t d = d * (t div d)"
  by (simp add: Truncate_def minus_mod_eq_mult_div)

text \<open>
  What a granularity has to provide: a name for every stretch of time of a given width, the same for all its
  instants and different from the names of the other stretches.
\<close>

locale time_buckets =
  fixes bucket :: "time \<Rightarrow> string" and width :: duration
  assumes width_pos: "0 < width"
    and bucket_iff: "printable t \<Longrightarrow> printable u \<Longrightarrow> bucket t = bucket u \<longleftrightarrow> Truncate t width = Truncate u width"
begin

lemma series_mem: "t \<in> set (series since until width) \<longleftrightarrow> Truncate since width \<le> t \<and> t \<le> until \<and> width dvd t"
proof -
  let ?a = "Truncate since width"
  have "t \<in> set (series since until width) \<longleftrightarrow> (\<exists>i < nat ((until - ?a) div width + 1). t = ?a + int i * width)"
    by (auto simp: series_def)
  also have "\<dots> \<longleftrightarrow> ?a \<le> t \<and> t \<le> until \<and> width dvd t"
  proof safe
    fix i assume i: "i < nat ((until - ?a) div width + 1)"
    then have "int i \<le> (until - ?a) div width" by linarith
    then have "int i * width \<le> (until - ?a) div width * width" using width_pos by (simp add: mult_right_mono)
    also have "\<dots> \<le> until - ?a" using width_pos by (simp add: minus_mod_eq_div_mult [symmetric])
    finally show "?a + int i * width \<le> until" by simp
    show "width dvd ?a + int i * width" by (simp add: Truncate_mult)
    show "?a \<le> ?a + int i * width" using width_pos by simp
  next
    assume t: "?a \<le> t" "t \<le> until" "width dvd t"
    then obtain k where k: "t = ?a + k * width" by (metis Truncate_mult add.commute diff_add_cancel dvd_def dvd_diff dvd_triv_left mult.commute)
    with t(1) have "0 \<le> k" using width_pos by (simp add: zero_le_mult_iff)
    have "k * width div width \<le> (until - ?a) div width" using k t(2) width_pos by (intro zdiv_mono1) auto
    then have "k \<le> (until - ?a) div width" using width_pos by simp
    then show "\<exists>i < nat ((until - ?a) div width + 1). t = ?a + int i * width"
      using k \<open>0 \<le> k\<close> by (intro exI [of _ "nat k"]) auto
  qed
  finally show ?thesis .
qed

lemma distinct_series: "distinct (series since until width)"
  using width_pos by (auto simp: series_def distinct_map inj_on_def)

lemma series_Truncate: "t \<in> set (series since until width) \<Longrightarrow> Truncate t width = t"
  by (auto simp: series_mem Truncate_def)

lemma series_printable:
  assumes "0 \<le> since" and "printable until" and "t \<in> set (series since until width)"
  shows "printable t"
  using assms series_mem [of t since until] Truncate_nonneg [OF assms(1) width_pos] by (auto intro: printable_le)

lemma distinct_buckets:
  assumes "0 \<le> since" and "printable until"
  shows "distinct (map bucket (series since until width))"
proof -
  have "inj_on bucket (set (series since until width))"
    by (rule inj_onI) (metis assms bucket_iff series_Truncate series_printable)
  then show ?thesis using distinct_series by (simp add: distinct_map)
qed

lemma bucket_covered:
  assumes "0 \<le> since" and "printable until" and "since \<le> t" and "t \<le> until"
  shows "bucket t \<in> bucket ` set (series since until width)"
proof -
  have pt: "printable t" using assms by (auto intro: printable_le)
  have "Truncate t width \<in> set (series since until width)"
    using assms width_pos Truncate_le [OF width_pos, of t] by (auto simp: series_mem Truncate_mult intro: mult_left_mono zdiv_mono1)
  moreover from series_printable [OF assms(1,2) this] have "bucket t = bucket (Truncate t width)"
    using pt width_pos by (subst bucket_iff) (simp_all add: Truncate_mult)
  ultimately show ?thesis by blast
qed

text \<open>Counting the rows bucket by bucket along the axis counts every row of the window once.\<close>

lemma axis_counts:
  assumes "0 \<le> since" and "printable until" and "\<forall>r \<in> set rows. since \<le> ts r \<and> ts r \<le> until"
  shows "sum_list (map (\<lambda>t. length (filter (\<lambda>r. bucket (ts r) = bucket t) rows)) (series since until width)) = length rows"
  using length_by_key [OF distinct_buckets [OF assms(1,2)], of "\<lambda>r. bucket (ts r)" rows] bucket_covered [OF assms(1,2)] assms(3)
  by (force simp: comp_def)

end

lemma format_hour_Truncate: "format_hour (Truncate t hour) = format_hour t"
proof -
  have "Truncate t hour mod day div hour = t mod day div hour"
  proof -
    have "Truncate t hour = day * (t div day) + (t mod day div hour) * hour" using day_hours(3) [of t] by (simp add: mult.commute)
    moreover have "0 \<le> (t mod day div hour) * hour" "(t mod day div hour) * hour < day"
      using day_hours(1,2) [of t] by (auto simp: day_def hour_def second_def)
    ultimately have "Truncate t hour mod day = (t mod day div hour) * hour" by (simp add: mod_pos_pos_trivial)
    then show ?thesis by simp
  qed
  then show ?thesis by (simp add: format_hour_def format_day_def Truncate_hour_day)
qed

interpretation hours: time_buckets format_hour hour
proof
  show "format_hour t = format_hour u \<longleftrightarrow> Truncate t hour = Truncate u hour" if "printable t" "printable u" for t u
    using key_eq [OF that] by (simp add: hourBucketKey_def format_hour_Truncate)
qed simp

interpretation days: time_buckets format_day day
proof
  fix t u assume pt: "printable t" "printable u"
  have td: "Truncate x day div day = x div day" "Truncate x day mod day = 0" for x by (simp_all add: Truncate_mult)
  then have fd: "format_day (Truncate x day) = format_day x" for x by (simp add: format_day_def)
  have fh: "format_hour (Truncate x day) = format_day x @ ''T'' @ pad2 0 @ '':00:00''" for x
    by (simp add: format_hour_def fd td)
  have pr: "printable (Truncate x day)" if "printable x" for x
    using that by (auto simp: printable_def td Truncate_nonneg)
  have "Truncate (Truncate x day) hour = Truncate x day" for x
    by (simp add: Truncate_def [of _ hour] Truncate_mult [of _ day]) (simp add: day_def hour_def second_def)
  then show "format_day t = format_day u \<longleftrightarrow> Truncate t day = Truncate u day"
    using hours.bucket_iff [OF pr [OF pt(1)] pr [OF pt(2)]] by (auto simp: fh)
qed simp

section \<open>What the statistics show\<close>

text \<open>
  The prices in SQL. The three cost expressions of the statistics queries give, for every stored log
  and the model record it joins, exactly what \<open>pricing.ForRequestLog\<close> computes in Go, as long as prompt minus cached tokens fits
  an \<open>int\<close>.
\<close>
theorem sql_prices_agree:
  assumes "in_i64 (num (lr_prompt_tokens r) - num (lr_cached_tokens r))"
  shows "let b = ForRequestLog (Some (scanRequestLog r)) pm
    in sql_input_cost r pm = bd_InputUSD b \<and> sql_output_cost r pm = bd_OutputUSD b \<and> sql_cached_cost r pm = bd_CachedReadUSD b"
  using assms
  by (cases pm; cases "lr_prompt_tokens r"; cases "lr_cached_tokens r"; cases "lr_completion_tokens r")
    (auto simp: sql_input_cost_def sql_output_cost_def sql_cached_cost_def ForRequestLog_def zero_Breakdown_def input_cost_def output_cost_def
      cached_cost_def num_def Let_def i64_id scanRequestLog_def applyRequestLogFields_def max_def split: option.splits)

lemma query_no_fault [simp]: "query no_fault i ctx x = Inr x" "query_row no_fault i ctx (x # xs) = Inr x"
  by (simp_all add: query_def query_row_def no_fault_def)

lemma query_Inr: "query flt i ctx x = Inr y \<Longrightarrow> y = x"
  by (auto simp: query_def split: option.splits)

lemma query_row_Inr: "query_row flt i ctx [x] = Inr y \<Longrightarrow> y = x"
  by (auto simp: query_row_def split: option.splits)

text \<open>
  The dashboard adds up. On tables that do not change meanwhile, the dashboard's total is the number of logs of the window, and the
  requests of its models, of its providers and of its API keys each add up to it.
\<close>
theorem dashboard_adds_up:
  assumes "GetDashboardStats fs flt ks (\<lambda>_. d) since until = Inr st"
  shows "ds_TotalRequests st = int (length (window_rows since until '''' d)) \<and>
    sum_list (map ms_RequestCount (ds_ByModel st)) = ds_TotalRequests st \<and>
    sum_list (map ps_RequestCount (ds_ByProvider st)) = ds_TotalRequests st \<and>
    sum_list (map ks_RequestCount (ds_ByAPIKey st)) = ds_TotalRequests st"
proof -
  have counts: "ms_RequestCount (model_row f g) = int (length (snd g))" "ps_RequestCount (provider_row fs k d h) = int (length (snd h))"
    "ks_RequestCount (key_row fs k d g) = int (length (snd g))" for f g k h
    by (simp_all add: model_row_def provider_row_def key_row_def split: prod.splits)
  show ?thesis
    using assms
    by (auto simp: GetDashboardStats_def dashboardStats_def Let_def sum_list_order_by comp_def counts group_by_counts
        split: sum.splits if_splits dest!: query_Inr query_row_Inr)
qed

lemma find_distinct_key: "distinct (map key xs) \<Longrightarrow> find (\<lambda>x. key x = k) xs = Some x \<longleftrightarrow> x \<in> set xs \<and> key x = k"
  by (induction xs) auto

lemma series_data:
  assumes "map_of (map (\<lambda>g. (fst g, f g)) gs) k = z" and "distinct (map fst gs)" and "\<And>g. tp_Bucket (f g) = fst g"
  shows "fold (\<lambda>p m. m(tp_Bucket p \<mapsto> p)) (order_by ks tp_Bucket (map f gs)) Map.empty k = z"
proof -
  have fold: "fold (\<lambda>p m. m(tp_Bucket p \<mapsto> p)) ps (m :: string \<Rightarrow> _) k = (case find (\<lambda>p. tp_Bucket p = k) (rev ps) of None \<Rightarrow> m k | Some p \<Rightarrow> Some p)" for ps m
    by (induction ps arbitrary: m rule: rev_induct) (auto split: option.split)
  let ?ps = "order_by ks tp_Bucket (map f gs)"
  have d: "distinct (map tp_Bucket ?ps)"
    using assms(2,3) by (metis (no_types, lifting) comp_apply map_eq_conv map_map mset_eq_imp_distinct_iff mset_map mset_order_by)
  have "find (\<lambda>p. tp_Bucket p = k) (rev ?ps) = Some p \<longleftrightarrow> map_of (map (\<lambda>g. (fst g, f g)) gs) k = Some p" for p
  proof -
    have "find (\<lambda>p. tp_Bucket p = k) (rev ?ps) = Some p \<longleftrightarrow> p \<in> f ` set gs \<and> tp_Bucket p = k"
      using find_distinct_key [of tp_Bucket "rev ?ps" k p] d by (simp add: rev_map [symmetric])
    also have "\<dots> \<longleftrightarrow> map_of (map (\<lambda>g. (fst g, f g)) gs) k = Some p"
      using assms(2,3) by (subst map_of_eq_Some_iff) (auto simp: comp_def image_iff)
    finally show ?thesis .
  qed
  note eq = this
  have "find (\<lambda>p. tp_Bucket p = k) (rev ?ps) = map_of (map (\<lambda>g. (fst g, f g)) gs) k"
    by (cases "map_of (map (\<lambda>g. (fst g, f g)) gs) k"; cases "find (\<lambda>p. tp_Bucket p = k) (rev ?ps)") (use eq in auto)
  then show ?thesis using assms(1) unfolding fold by (cases z) simp_all
qed

text \<open>The point of an instant is the row of the logs in its bucket.\<close>

definition rows_like :: "(time \<Rightarrow> string) \<Rightarrow> time \<Rightarrow> request_logs_row list \<Rightarrow> request_logs_row list" where
  "rows_like bucket t rows = filter (\<lambda>r. bucket (lr_timestamp r) = bucket t) rows"

definition point_at :: "sql_floats \<Rightarrow> db \<Rightarrow> (time \<Rightarrow> string) \<Rightarrow> request_logs_row list \<Rightarrow> time \<Rightarrow> TimeSeriesPoint" where
  "point_at fs d bucket rows t = (if rows_like bucket t rows = [] then empty_point (bucket t) else series_row fs d (bucket t, rows_like bucket t rows))"

lemma timeSeries_points:
  assumes "timeSeries fs flt d since until granularity kid = Inr ps"
  shows "ps = (if granularity = ''hour'' then map (point_at fs d format_hour (window_rows since until kid d)) (series since until hour)
               else map (point_at fs d format_day (window_rows since until kid d)) (series since until day))"
proof -
  have bucket: "tp_Bucket (series_row fs d g) = fst g" for g by (simp add: series_row_def Let_def split: prod.splits)
  have data: "fold (\<lambda>p m. m(tp_Bucket p \<mapsto> p)) (order_by ks tp_Bucket (map (series_row fs d) (group_by (b \<circ> lr_timestamp) rows))) Map.empty (b t) =
      (if rows_like b t rows = [] then None else Some (series_row fs d (b t, rows_like b t rows)))" for ks b rows t
  proof (rule series_data [OF _ _ bucket])
    show "map_of (map (\<lambda>g. (fst g, series_row fs d g)) (group_by (b \<circ> lr_timestamp) rows)) (b t) =
        (if rows_like b t rows = [] then None else Some (series_row fs d (b t, rows_like b t rows)))"
      by (auto simp: group_by_def map_of_map_restrict restrict_map_def comp_def rows_like_def filter_empty_conv image_iff)
  qed (simp add: group_by_def comp_def)
  show ?thesis
    using assms
    by (auto simp: timeSeries_def Let_def data point_at_def split: sum.splits if_splits prod.splits dest!: query_Inr)
qed

text \<open>
  The time series loses nothing. A series over a window, of all logs or of one API key, has one point for every hour (day)
  that the window touches, in order, empty or not, and the requests of its points add up to the number of
  logs in the window.
\<close>
theorem series_loses_nothing:
  assumes "timeSeries fs flt d since until granularity kid = Inr ps" and "0 \<le> since" and "printable until"
  shows "(granularity = ''hour'' \<and> map tp_Bucket ps = map format_hour (series since until hour) \<or>
          granularity = ''day'' \<and> map tp_Bucket ps = map format_day (series since until day)) \<and>
    distinct (map tp_Bucket ps) \<and> sum_list (map tp_Requests ps) = int (length (window_rows since until kid d))"
proof -
  let ?rows = "window_rows since until kid d"
  have g: "granularity = ''hour'' \<or> granularity = ''day''" using assms(1) by (auto simp: timeSeries_def split: if_splits)
  have p: "tp_Bucket (point_at fs d b ?rows t) = b t" "tp_Requests (point_at fs d b ?rows t) = int (length (rows_like b t ?rows))" for b t
    by (simp_all add: point_at_def empty_point_def series_row_def Let_def)
  have w: "\<forall>r \<in> set ?rows. since \<le> lr_timestamp r \<and> lr_timestamp r \<le> until" by (simp add: window_rows_def)
  have sums: "sum_list (map (\<lambda>t. int (f t)) ts) = int (sum_list (map f ts))" for f :: "time \<Rightarrow> nat" and ts by (induction ts) auto
  show ?thesis
    using g timeSeries_points [OF assms(1)] hours.distinct_buckets [OF assms(2,3)] days.distinct_buckets [OF assms(2,3)]
      hours.axis_counts [OF assms(2,3) w] days.axis_counts [OF assms(2,3) w]
    by (auto simp: comp_def p sums rows_like_def)
qed

text \<open>The stored logs of an hour, as the window of SQL and as the accumulator sees them.\<close>

definition hour_rows :: "time \<Rightarrow> db \<Rightarrow> request_logs_row list" where
  "hour_rows t d = filter (\<lambda>r. Truncate (lr_timestamp r) hour = Truncate t hour) (db_request_logs d)"

lemma scan_timestamp: "l_Timestamp (scanRequestLog r) = lr_timestamp r"
  by (simp add: scanRequestLog_def applyRequestLogFields_def)

lemma recorded_hour:
  assumes "map (\<lambda>(now, l, pm). l) evs = map scanRequestLog (db_request_logs d)"
  shows "map fst (of_hour t evs) = map scanRequestLog (hour_rows t d)"
proof -
  have "map fst (of_hour t es) = filter (\<lambda>l. Truncate (l_Timestamp l) hour = Truncate t hour) (map (\<lambda>(now, l, pm). l) es)" for es
    by (induction es) (auto simp: of_hour_def)
  then have "map fst (of_hour t evs) = filter (\<lambda>l. Truncate (l_Timestamp l) hour = Truncate t hour) (map scanRequestLog (db_request_logs d))"
    unfolding assms [symmetric] .
  then show ?thesis by (simp add: hour_rows_def filter_map comp_def scan_timestamp)
qed

lemma window_hour:
  assumes "printable t" and "\<forall>r \<in> set (db_request_logs d). printable (lr_timestamp r)"
    and "since \<le> Truncate t hour" and "Truncate t hour + hour \<le> until"
  shows "rows_like format_hour t (window_rows since until '''' d) = hour_rows t d"
proof -
  have "(since \<le> lr_timestamp r \<and> lr_timestamp r \<le> until) \<and> format_hour (lr_timestamp r) = format_hour t \<longleftrightarrow> Truncate (lr_timestamp r) hour = Truncate t hour"
    if r: "r \<in> set (db_request_logs d)" for r
  proof -
    have "since \<le> lr_timestamp r \<and> lr_timestamp r \<le> until" if "Truncate (lr_timestamp r) hour = Truncate t hour"
      using that assms(3,4) pos_mod_bound [OF hour_pos, of "lr_timestamp r"] Truncate_le [OF hour_pos, of "lr_timestamp r"]
      unfolding Truncate_def by linarith
    then show ?thesis using hours.bucket_iff [OF _ assms(1)] assms(2) r by blast
  qed
  then show ?thesis unfolding rows_like_def window_rows_def hour_rows_def by (auto intro!: filter_cong)
qed

lemma scan_counters:
  "l_StatusCode (scanRequestLog r) = lr_status_code r" "l_PromptTokens (scanRequestLog r) = lr_prompt_tokens r"
  "l_CompletionTokens (scanRequestLog r) = lr_completion_tokens r" "l_TotalTokens (scanRequestLog r) = lr_total_tokens r"
  "l_CachedTokens (scanRequestLog r) = lr_cached_tokens r"
  by (simp_all add: scanRequestLog_def applyRequestLogFields_def zero_RequestLog_def)

lemma recorded_printable:
  assumes "map (\<lambda>(now, l, pm). l) evs = map scanRequestLog (db_request_logs d)" and "\<forall>(now, l, pm) \<in> set evs. printable (l_Timestamp l)"
  shows "\<forall>r \<in> set (db_request_logs d). printable (lr_timestamp r)"
proof
  fix r
  assume "r \<in> set (db_request_logs d)"
  then have "scanRequestLog r \<in> set (map (\<lambda>(now, l, pm). l) evs)" using assms(1) by simp
  then show "printable (lr_timestamp r)" using assms(2) scan_timestamp by fastforce
qed

text \<open>Counting and summing over recorded logs is counting and summing over their rows.\<close>

lemma events_filtered: "map fst es = map g rs \<Longrightarrow> length (filter (P \<circ> fst) es) = length (filter (\<lambda>r. P (g r)) rs)"
  by (metis (no_types, lifting) comp_def filter_cong filter_map length_map)

lemma events_summed: "map fst es = map g rs \<Longrightarrow> sum_list (map (\<lambda>e. f (fst e)) es) = sum_list (map (\<lambda>r. f (g r)) rs)"
  by (metis (mono_tags, lifting) comp_def list.map_comp list.map_cong0)


section \<open>Samples\<close>

definition sample_row :: request_logs_row where
  "sample_row = (log_columns (zero_RequestLog\<lparr>l_ID := ''a'', l_Timestamp := 5, l_StatusCode := 200, l_PromptTokens := Some 7, l_CachedTokens := Some 9\<rparr>))"

definition stats_db :: db where
  "stats_db = empty_db\<lparr>db_request_logs := [sample_row]\<rparr>"

definition exact_floats :: sql_floats where
  "exact_floats = \<lparr>sq_sum = (\<lambda>xs. fl (sum_list xs)), sq_avg = (\<lambda>xs. fl (sum_list xs / of_nat (length xs)))\<rparr>"

theorem sql_prices_agree_witness:
  "sql_input_cost sample_row (Some sample_model) = bd_InputUSD (ForRequestLog (Some (scanRequestLog sample_row)) (Some sample_model))"
  using sql_prices_agree [of sample_row "Some sample_model"]
  by (simp add: sample_row_def log_columns_def num_def in_i64_def Let_def)

theorem dashboard_adds_up_witness:
  "\<exists>st. GetDashboardStats exact_floats no_fault (\<lambda>_. []) (\<lambda>_. stats_db) 0 hour = Inr st \<and> sum_list (map ks_RequestCount (ds_ByAPIKey st)) = 1"
proof -
  have w: "length (window_rows 0 hour '''' stats_db) = 1" by (simp add: window_rows_def stats_db_def sample_row_def log_columns_def hour_def second_def)
  obtain st where st: "GetDashboardStats exact_floats no_fault (\<lambda>_. []) (\<lambda>_. stats_db) 0 hour = Inr st"
    using w by (cases "window_rows 0 hour '''' stats_db") (simp_all add: GetDashboardStats_def dashboardStats_def Let_def)
  then show ?thesis using dashboard_adds_up [OF st] w by (intro exI [of _ st]) simp
qed

theorem series_loses_nothing_witness:
  "\<exists>ps. timeSeries exact_floats no_fault stats_db 0 hour ''hour'' '''' = Inr ps \<and> sum_list (map tp_Requests ps) = 1"
proof -
  have w: "length (window_rows 0 hour '''' stats_db) = 1" by (simp add: window_rows_def stats_db_def sample_row_def log_columns_def hour_def second_def)
  have pr: "printable hour" by code_simp
  obtain ps where ps: "timeSeries exact_floats no_fault stats_db 0 hour ''hour'' '''' = Inr ps"
    by (simp add: timeSeries_def Let_def)
  then show ?thesis using series_loses_nothing [OF ps _ pr] w by (intro exI [of _ ps]) simp
qed


end
