(* ===== verification/Go_Time_Text.thy ===== *)
theory Go_Time_Text
  imports Go_Time
begin

text \<open>
  Dates with a time of day as \<open>time.Parse\<close> and \<open>Format\<close> treat them, for the layouts that differ only in the character between day and
  hour and in the zone. Shown is that the parser reads back what is printed.
\<close>

section \<open>Reading\<close>

definition getyear :: "string \<Rightarrow> (int \<times> string) option" where
  "getyear s = do { (c, s) \<leftarrow> getnum2 s; (y, s) \<leftarrow> getnum2 s; Some (100 * c + y, s) }"

text \<open>An optional fraction of a second in nanoseconds, of which nine digits count; it is accepted whether or not the layout has one.\<close>

definition getfraction :: "string \<Rightarrow> int \<times> string" where
  "getfraction s =
     (if length s \<ge> 2 \<and> (hd s = CHR ''.'' \<or> hd s = CHR '','') \<and> is_digit (s ! 1)
      then let ds = takeWhile is_digit (tl s); ds9 = take 9 ds
           in (int (read_digits ds9) * 10 ^ (9 - length ds9), dropWhile is_digit (tl s))
      else (0, s))"

text \<open>The offset of a zone in nanoseconds: \<open>-07:00\<close> with its colon, \<open>-0700\<close> without; \<open>Z07:00\<close> also allows a \<open>Z\<close>.\<close>

definition getoffset :: "string \<Rightarrow> string \<Rightarrow> (int \<times> string) option" where
  "getoffset colon s = (case s of
     [] \<Rightarrow> None
   | sign # s1 \<Rightarrow> do {
       (h, s2) \<leftarrow> getnum2 s1;
       s3 \<leftarrow> literal colon s2;
       (m, s4) \<leftarrow> getnum2 s3;
       if h > 24 \<or> m > 60 then None
       else if sign = CHR ''+'' then Some (h * hour + m * 60 * second, s4)
       else if sign = CHR ''-'' then Some (- (h * hour + m * 60 * second), s4)
       else None })"

definition getzone :: "string \<Rightarrow> (int \<times> string) option" where
  "getzone s = (if HasPrefix s ''Z'' then Some (0, tl s) else getoffset '':'' s)"

text \<open>A space of the layout stands for any number of spaces, none only at the end of the text.\<close>

definition skip_space :: "string \<Rightarrow> string option" where
  "skip_space s = (if s \<noteq> [] \<and> hd s \<noteq> CHR '' '' then None else Some (dropWhile (\<lambda>c. c = CHR '' '') s))"

definition parse_datetime :: "(string \<Rightarrow> string option) \<Rightarrow> (string \<Rightarrow> (int \<times> string) option) \<Rightarrow> string \<Rightarrow> time option" where
  "parse_datetime sep zone s = do {
     (y, s) \<leftarrow> getyear s;
     s \<leftarrow> literal ''-'' s;
     (m, s) \<leftarrow> getnum2 s;
     s \<leftarrow> literal ''-'' s;
     (d, s) \<leftarrow> getnum2 s;
     s \<leftarrow> sep s;
     (h, s) \<leftarrow> getnum1 s;
     s \<leftarrow> literal '':'' s;
     (mi, s) \<leftarrow> getnum2 s;
     s \<leftarrow> literal '':'' s;
     (sec, s) \<leftarrow> getnum2 s;
     let (ns, s) = getfraction s;
     (off, s) \<leftarrow> zone s;
     if s = '''' \<and> valid_date y m d \<and> h < 24 \<and> mi < 60 \<and> sec < 60
     then Some (days_of_civil y m d * day + h * hour + mi * 60 * second + sec * second + ns - off) else None
   }"

text \<open>The layouts \<open>RFC3339\<close> and \<open>RFC3339Nano\<close> accept the same texts.\<close>

definition parse_RFC3339 :: "string \<Rightarrow> time option" where
  "parse_RFC3339 = parse_datetime (literal ''T'') getzone"

section \<open>Printing\<close>

text \<open>Hours, minutes and seconds, and the fraction \<open>.999999999\<close> without its trailing zeros.\<close>

definition format_clock :: "time \<Rightarrow> string" where
  "format_clock t = pad2 (t mod day div hour) @ '':'' @ pad2 (t mod hour div (60 * second)) @ '':'' @ pad2 (t mod (60 * second) div second)"

fun show_digits :: "nat \<Rightarrow> nat \<Rightarrow> string" where
  "show_digits 0 n = ''''"
| "show_digits (Suc k) n = show_digits k (n div 10) @ [digit (n mod 10)]"

definition format_fraction :: "time \<Rightarrow> string" where
  "format_fraction t =
     (let ns = nat (t mod second); ds = rev (dropWhile (\<lambda>c. c = CHR ''0'') (rev (show_digits 9 ns)))
      in if ns = 0 then '''' else ''.'' @ ds)"

section \<open>Round trips\<close>

lemma hour_ns: "hour = 3600000000000" "second = 1000000000" "day = 86400000000000"
  by (simp_all add: hour_def second_def day_def)

lemma getyear_pad4: "0 \<le> y \<Longrightarrow> y < 10000 \<Longrightarrow> getyear (pad4 y @ r) = Some (y, r)"
  by (simp add: getyear_def pad4_def)

lemma clock_digit: "(0::int) < u \<Longrightarrow> 0 < k \<Longrightarrow> t mod (u * k) = t mod (u * k) div u * u + t mod u \<and> 0 \<le> t mod (u * k) div u \<and> t mod (u * k) div u < k"
  by (simp add: zmod_zmult2_eq)

text \<open>Whatever follows the seconds decides between the zones and fractions.\<close>

lemma parse_datetime_text:
  assumes "0 \<le> t" and "year_of (t div day) < 10000" and "getfraction r = (ns, z)"
    and "skip (sep @ format_clock t @ r) = Some (format_clock t @ r)"
  shows "parse_datetime skip zone (format_day t @ sep @ format_clock t @ r) =
    (case zone z of None \<Rightarrow> None | Some (off, s) \<Rightarrow> if s = '''' then Some (Truncate t second + ns - off) else None)"
proof -
  obtain y m d where c: "civil (t div day) = (y, m, d)" using prod_cases3 by blast
  have n: "0 \<le> t div day" using assms by (simp add: pos_imp_zdiv_nonneg_iff)
  from civil_spec [OF n c] have v: "valid_date y m d" "days_of_civil y m d = t div day" "y < 10000" "1 \<le> y"
    using assms(2) year_of_pos [OF n] by auto
  note b = valid_date_bounds [OF v(1)]
  have clock: "t mod day = t mod day div hour * hour + t mod hour \<and> 0 \<le> t mod day div hour \<and> t mod day div hour < 24"
    "t mod hour = t mod hour div (60 * second) * (60 * second) + t mod (60 * second) \<and> 0 \<le> t mod hour div (60 * second) \<and> t mod hour div (60 * second) < 60"
    "t mod (60 * second) = t mod (60 * second) div second * second + t mod second \<and> 0 \<le> t mod (60 * second) div second \<and> t mod (60 * second) div second < 60"
    using clock_digit [of hour 24 t] clock_digit [of "60 * second" 60 t] clock_digit [of second 60 t] by (simp_all add: hour_ns)
  have sum: "t div day * day + t mod day div hour * hour + t mod hour div (60 * second) * (60 * second) + t mod (60 * second) div second * second = Truncate t second"
    using clock div_mult_mod_eq [of t day] unfolding Truncate_def by linarith
  have shape: "format_day t @ sep @ format_clock t @ r = pad4 y @ ''-'' @ pad2 m @ ''-'' @ pad2 d @ sep @ format_clock t @ r"
    by (simp add: format_day_def c)
  show ?thesis
    unfolding shape using b v clock sum getyear_pad4 [of y] assms(3,4)
    by (simp add: parse_datetime_def) (simp add: format_clock_def split: option.split)
qed

lemma read_digits_snoc: "read_digits (s @ [c]) = 10 * read_digits s + digit_val c"
  by (simp add: read_digits_def)

lemma read_show_digits: "n < 10 ^ k \<Longrightarrow> read_digits (show_digits k n) = n"
proof (induction k arbitrary: n)
  case (Suc k)
  then have "n div 10 < 10 ^ k" by (simp add: less_mult_imp_div_less mult.commute)
  with Suc(1) show ?case by (simp add: read_digits_snoc)
qed (simp add: read_digits_def)

lemma length_show_digits [simp]: "length (show_digits k n) = k"
  by (induction k arbitrary: n) simp_all

lemma show_digits_digits: "list_all is_digit (show_digits k n)"
  by (induction k arbitrary: n) simp_all

lemma read_trailing_zeros: "read_digits (s @ replicate k (CHR ''0'')) = read_digits s * 10 ^ k"
proof (induction k)
  case (Suc k)
  have "s @ replicate (Suc k) (CHR ''0'') = (s @ replicate k (CHR ''0'')) @ [CHR ''0'']" by (simp add: replicate_append_same)
  then show ?case using Suc by (simp only: read_digits_snoc) (simp add: digit_val_def)
qed simp

lemma trim_zeros: "\<exists>k. s = rev (dropWhile (\<lambda>c. c = CHR ''0'') (rev s)) @ replicate k (CHR ''0'')"
proof -
  have "takeWhile (\<lambda>c. c = CHR ''0'') (rev s) = replicate (length (takeWhile (\<lambda>c. c = CHR ''0'') (rev s))) (CHR ''0'')"
    by (rule replicate_eqI) (auto dest: set_takeWhileD)
  then show ?thesis by (metis rev_append rev_replicate rev_rev_ident takeWhile_dropWhile_id)
qed

lemma getfraction_format:
  assumes "r = [] \<or> \<not> is_digit (hd r) \<and> hd r \<noteq> CHR ''.'' \<and> hd r \<noteq> CHR '',''"
  shows "getfraction (format_fraction t @ r) = (t mod second, r)"
proof (cases "t mod second = 0")
  case True
  then show ?thesis using assms by (cases r) (auto simp: format_fraction_def getfraction_def)
next
  case False
  define n where "n = nat (t mod second)"
  define ds where "ds = rev (dropWhile (\<lambda>c. c = CHR ''0'') (rev (show_digits 9 n)))"
  have n: "0 < n" "int n = t mod second" "n < 10 ^ 9" using False pos_mod_bound [of second t] by (auto simp: n_def hour_ns order_less_le)
  obtain k where k: "show_digits 9 n = ds @ replicate k (CHR ''0'')" unfolding ds_def using trim_zeros by blast
  have len: "length ds + k = 9" using arg_cong [OF k, of length] by simp
  have val: "read_digits ds * 10 ^ k = n" using read_show_digits [OF n(3)] k read_trailing_zeros by metis
  then have "ds \<noteq> []" using n(1) by (auto simp: read_digits_def)
  have dig: "list_all is_digit ds" using show_digits_digits [of 9 n] k by simp
  have tw: "takeWhile is_digit (ds @ r) = ds" "dropWhile is_digit (ds @ r) = r"
    using dig assms by (cases r; auto simp: list_all_iff takeWhile_append dropWhile_append takeWhile_eq_all_conv)+
  have "format_fraction t = CHR ''.'' # ds" using n(1) by (simp add: format_fraction_def Let_def n_def ds_def)
  moreover have "is_digit ((ds @ r) ! 0)" using \<open>ds \<noteq> []\<close> dig by (cases ds) auto
  moreover have "int (read_digits ds) * 10 ^ (9 - length ds) = t mod second" using val n(2) len by (metis add_diff_cancel_left' of_nat_mult of_nat_numeral of_nat_power)
  moreover have "Suc 0 \<le> length ds + length r" using \<open>ds \<noteq> []\<close> by (cases ds) simp_all
  ultimately show ?thesis using tw len by (simp add: getfraction_def Let_def)
qed

end
