(* ===== verification/Admin_Http.thy ===== *)
theory Admin_Http
  imports Config_Handler Active_Registry Store_Stats Go_Time_Text "HOL-Library.State_Monad"
begin

text \<open>
  The frame of the admin handlers (\<open>internal/admin\<close>). A handler is a program of the state monad
  over the server: the database, the calls made to it so far and the announcements made to the rest
  of the process. Before each of its calls (\<open>ae_others\<close>), and between the queries of one call (\<open>ae_drift\<close>), other clients may
  change the database; the outcome of each call, the clock, fresh identifiers and random bytes come from an environment. A handler yields
  a reply: the status with the Go value that \<open>respondJSON\<close> encodes, or the message of
  \<open>respondError\<close>. The weakest precondition \<open>wp\<close> with its rules carries the proofs.
\<close>

section \<open>Programs\<close>

record server =
  sv_db :: db
  sv_calls :: nat
  sv_events :: "admin_event list"

type_synonym 'a act = "(server, 'a) state"

record admin_env =
  ae_fault :: "nat \<Rightarrow> fault"
  ae_others :: "nat \<Rightarrow> db \<Rightarrow> db"
  ae_drift :: "nat \<Rightarrow> db \<Rightarrow> db"
  ae_order :: "nat \<Rightarrow> nat list"
  ae_floats :: sql_floats
  ae_now :: time
  ae_uuid :: "nat \<Rightarrow> string"
  ae_random :: "string option"

datatype 'b reply = ReplyError int string | ReplyNoContent | ReplyJSON int 'b

definition reply_status :: "'b reply \<Rightarrow> int" where
  "reply_status r = (case r of ReplyError status msg \<Rightarrow> status | ReplyNoContent \<Rightarrow> 204 | ReplyJSON status body \<Rightarrow> status)"

lemma reply_status_simps [simp]:
  "reply_status (ReplyError status msg) = status" "reply_status ReplyNoContent = 204" "reply_status (ReplyJSON status body) = status"
  by (simp_all add: reply_status_def)

text \<open>A call of the store that only reads, and one that may change the tables.\<close>

definition store_read :: "admin_env \<Rightarrow> (fault \<Rightarrow> nat list \<Rightarrow> db \<Rightarrow> 'a) \<Rightarrow> 'a act" where
  "store_read env q = State (\<lambda>s.
     let i = sv_calls s; d = ae_others env i (sv_db s)
     in (q (ae_fault env i) (ae_order env i) d, s\<lparr>sv_db := d, sv_calls := Suc i\<rparr>))"

definition store_write :: "admin_env \<Rightarrow> (fault \<Rightarrow> db \<Rightarrow> 'a \<times> db) \<Rightarrow> 'a act" where
  "store_write env f = State (\<lambda>s.
     let i = sv_calls s; (x, d) = f (ae_fault env i) (ae_others env i (sv_db s))
     in (x, s\<lparr>sv_db := d, sv_calls := Suc i\<rparr>))"

definition announce :: "admin_event \<Rightarrow> unit act" where
  "announce e = State (\<lambda>s. ((), s\<lparr>sv_events := sv_events s @ [e]\<rparr>))"

definition done_with :: "'b reply \<Rightarrow> 'b reply act" where
  "done_with r = State_Monad.return r"

section \<open>The handler\<close>

record Handler =
  h_configHandler :: ConfigHandler
  h_onRoutingChanged :: bool
  h_active :: "ActiveRegistry option"
  h_accessKey :: string

record HandlerConfig =
  hc_OnHTTPIdleConnTimeoutSaved :: bool
  hc_OnRoutingChanged :: bool
  hc_OnConfigChanged :: bool
  hc_AccessKey :: string

definition NewHandler :: "HandlerConfig \<Rightarrow> Handler" where
  "NewHandler cfg = \<lparr>h_configHandler = \<lparr>ch_onHTTPIdleSaved = hc_OnHTTPIdleConnTimeoutSaved cfg, ch_onConfigChanged = hc_OnConfigChanged cfg\<rparr>,
     h_onRoutingChanged = hc_OnRoutingChanged cfg, h_active = None, h_accessKey = hc_AccessKey cfg\<rparr>"

definition Handler_SetActiveRegistry :: "Handler \<Rightarrow> ActiveRegistry option \<Rightarrow> Handler" where
  "Handler_SetActiveRegistry h r = h\<lparr>h_active := SetActiveRegistry (h_active h) r\<rparr>"

definition notifyRoutingChanged :: "Handler \<Rightarrow> unit act" where
  "notifyRoutingChanged h = (if h_onRoutingChanged h then announce RoutingChanged else State_Monad.return ())"

section \<open>Decoding\<close>

text \<open>
  A JSON number as a \<open>float64\<close>: the decimal fraction rounded to 53 bits; beyond the largest
  finite value \<open>strconv.ParseFloat\<close> fails.
\<close>

definition read_decimal :: "string \<Rightarrow> rat" where
  "read_decimal raw =
     (let s = TrimPrefix raw ''-'';
          ip = takeWhile is_digit s; s1 = dropWhile is_digit s;
          s2 = TrimPrefix s1 ''.'';
          fp = (if HasPrefix s1 ''.'' then takeWhile is_digit s2 else '''');
          s3 = (if HasPrefix s1 ''.'' then dropWhile is_digit s2 else s1);
          s4 = drop 1 s3;
          ex = (if s3 = '''' then 0 else if HasPrefix s4 ''-'' then - int (read_digits (drop 1 s4))
                else int (read_digits (TrimPrefix s4 ''+'')));
          v = of_nat (read_digits (ip @ fp)) * 10 powi (ex - int (length fp))
      in if HasPrefix raw ''-'' then - v else v)"

definition dec_float :: "float64 \<Rightarrow> json \<Rightarrow> float64 \<times> bool" where
  "dec_float x v =
     (case v of JNum raw \<Rightarrow> (let y = fl (read_decimal raw) in if 2 ^ 1024 \<le> \<bar>y\<bar> then (x, True) else (y, False))
      | JNull \<Rightarrow> (x, False) | _ \<Rightarrow> (x, True))"

text \<open>One field of a struct; the second component says whether any value of it failed.\<close>

definition field :: "('a \<Rightarrow> json \<Rightarrow> 'a \<times> bool) \<Rightarrow> 'a \<Rightarrow> string \<Rightarrow> (string \<times> json) list \<Rightarrow> 'a \<times> bool" where
  "field dec zero name ms = decode_all dec zero (field_values name ms)"

text \<open>The members of the body's object; a body \<open>null\<close> leaves the struct as it is.\<close>

definition body_members :: "http_request \<Rightarrow> (string \<times> json) list option" where
  "body_members r = (case decode_body r of Some (JObj ms) \<Rightarrow> Some ms | Some JNull \<Rightarrow> Some [] | _ \<Rightarrow> None)"

section \<open>Times and durations\<close>

text \<open>\<open>q.Get\<close> of the query is a function; an absent parameter is empty. Instants are given by the clock.\<close>

definition parseTimeRange :: "time \<Rightarrow> (string \<Rightarrow> string) \<Rightarrow> string + time \<times> time" where
  "parseTimeRange now q =
     (case (if q ''since'' = '''' then Some (now - 24 * hour) else parse_RFC3339 (q ''since'')) of
        None \<Rightarrow> Inl ''invalid since: must be RFC3339''
      | Some since \<Rightarrow>
          (case (if q ''until'' = '''' then Some now else parse_RFC3339 (q ''until'')) of
             None \<Rightarrow> Inl ''invalid until: must be RFC3339''
           | Some until \<Rightarrow> Inr (since, until)))"

definition defaultGranularity :: "duration \<Rightarrow> string" where
  "defaultGranularity d = (if d \<le> 48 * hour then ''hour'' else ''day'')"

section \<open>Weakest preconditions\<close>

definition wp :: "'a act \<Rightarrow> ('a \<Rightarrow> server \<Rightarrow> bool) \<Rightarrow> server \<Rightarrow> bool" where
  "wp m Q s = (case run_state m s of (x, s') \<Rightarrow> Q x s')"

named_theorems wp_intros \<open>rules for the programs of the admin handlers\<close>

lemma wp_run: "wp m Q s \<Longrightarrow> run_state m s = (x, s') \<Longrightarrow> Q x s'"
  by (simp add: wp_def)

lemma wp_mono: "wp m Q s \<Longrightarrow> (\<And>x s'. Q x s' \<Longrightarrow> R x s') \<Longrightarrow> wp m R s"
  by (auto simp: wp_def split: prod.splits)

lemma wp_bind [wp_intros]: "wp m (\<lambda>x. wp (k x) Q) s \<Longrightarrow> wp (m \<bind> k) Q s"
  by (auto simp: wp_def split: prod.splits)

lemma wp_return [wp_intros]: "Q x s \<Longrightarrow> wp (State_Monad.return x) Q s"
  by (simp add: wp_def)

lemma wp_done_with [wp_intros]: "Q x s \<Longrightarrow> wp (done_with x) Q s"
  by (simp add: wp_def done_with_def)

lemma wp_if [wp_intros]: "(b \<Longrightarrow> wp m Q s) \<Longrightarrow> (\<not> b \<Longrightarrow> wp n Q s) \<Longrightarrow> wp (if b then m else n) Q s"
  by simp

lemma wp_sum [wp_intros]:
  "(\<And>e. r = Inl e \<Longrightarrow> wp (f e) Q s) \<Longrightarrow> (\<And>x. r = Inr x \<Longrightarrow> wp (g x) Q s) \<Longrightarrow> wp (case r of Inl e \<Rightarrow> f e | Inr x \<Rightarrow> g x) Q s"
  by (cases r) simp_all

lemma wp_option [wp_intros]:
  "(r = None \<Longrightarrow> wp m Q s) \<Longrightarrow> (\<And>x. r = Some x \<Longrightarrow> wp (g x) Q s) \<Longrightarrow> wp (case r of None \<Rightarrow> m | Some x \<Rightarrow> g x) Q s"
  by (cases r) simp_all

lemma wp_prod [wp_intros]: "(\<And>x y. r = (x, y) \<Longrightarrow> wp (f x y) Q s) \<Longrightarrow> wp (case r of (x, y) \<Rightarrow> f x y) Q s"
  by (cases r) simp

lemma wp_Let [wp_intros]: "(\<And>x. x = v \<Longrightarrow> wp (f x) Q s) \<Longrightarrow> wp (let x = v in f x) Q s"
  by simp

lemma wp_announce [wp_intros]: "Q () (s\<lparr>sv_events := sv_events s @ [e]\<rparr>) \<Longrightarrow> wp (announce e) Q s"
  by (simp add: wp_def announce_def)

lemma wp_notify [wp_intros]:
  "Q () (s\<lparr>sv_events := sv_events s @ (if h_onRoutingChanged h then [RoutingChanged] else [])\<rparr>) \<Longrightarrow> wp (notifyRoutingChanged h) Q s"
  by (auto simp: wp_def notifyRoutingChanged_def announce_def split: if_splits)

lemma wp_read:
  "(\<And>d. d = ae_others env (sv_calls s) (sv_db s) \<Longrightarrow>
     Q (q (ae_fault env (sv_calls s)) (ae_order env (sv_calls s)) d) (s\<lparr>sv_db := d, sv_calls := Suc (sv_calls s)\<rparr>)) \<Longrightarrow>
   wp (store_read env q) Q s"
  by (simp add: wp_def store_read_def Let_def)

lemma wp_write:
  "(\<And>x d. f (ae_fault env (sv_calls s)) (ae_others env (sv_calls s) (sv_db s)) = (x, d) \<Longrightarrow>
     Q x (s\<lparr>sv_db := d, sv_calls := Suc (sv_calls s)\<rparr>)) \<Longrightarrow> wp (store_write env f) Q s"
  by (auto simp: wp_def store_write_def Let_def split: prod.splits)

text \<open>
  A property of the database that a program keeps, provided that the other clients keep it.
\<close>

definition maintains :: "(db \<Rightarrow> bool) \<Rightarrow> 'a act \<Rightarrow> bool" where
  "maintains P m \<longleftrightarrow> (\<forall>s. P (sv_db s) \<longrightarrow> wp m (\<lambda>x s'. P (sv_db s')) s)"

named_theorems keep_intros \<open>programs that keep a property of the database\<close>

lemma maintains_bind [keep_intros]: "maintains P m \<Longrightarrow> (\<And>x. maintains P (k x)) \<Longrightarrow> maintains P (m \<bind> k)"
  by (auto simp: maintains_def intro!: wp_bind intro: wp_mono)

lemma maintains_return [keep_intros]: "maintains P (State_Monad.return x)"
  by (auto simp: maintains_def intro!: wp_intros)

lemma maintains_done_with [keep_intros]: "maintains P (done_with x)"
  unfolding done_with_def by (rule maintains_return)

lemma maintains_notify [keep_intros]: "maintains P (announce e)" "maintains P (notifyRoutingChanged h)"
  by (auto simp: maintains_def intro!: wp_intros)

lemma maintains_cases [keep_intros]:
  "(b \<Longrightarrow> maintains P m) \<Longrightarrow> (\<not> b \<Longrightarrow> maintains P n) \<Longrightarrow> maintains P (if b then m else n)"
  "(\<And>e. r = Inl e \<Longrightarrow> maintains P (f e)) \<Longrightarrow> (\<And>x. r = Inr x \<Longrightarrow> maintains P (g x)) \<Longrightarrow> maintains P (case r of Inl e \<Rightarrow> f e | Inr x \<Rightarrow> g x)"
  "(z = None \<Longrightarrow> maintains P m) \<Longrightarrow> (\<And>x. z = Some x \<Longrightarrow> maintains P (o1 x)) \<Longrightarrow> maintains P (case z of None \<Rightarrow> m | Some x \<Rightarrow> o1 x)"
  "(\<And>x y. w = (x, y) \<Longrightarrow> maintains P (p1 x y)) \<Longrightarrow> maintains P (case w of (x, y) \<Rightarrow> p1 x y)"
  "(\<And>x. x = v \<Longrightarrow> maintains P (l1 x)) \<Longrightarrow> maintains P (let x = v in l1 x)"
  by (cases b; cases r; cases z; cases w; simp)+

definition others_keep :: "(db \<Rightarrow> bool) \<Rightarrow> admin_env \<Rightarrow> bool" where
  "others_keep P env \<longleftrightarrow> (\<forall>i d. P d \<longrightarrow> P (ae_others env i d))"

lemma maintains_read [keep_intros]: "others_keep P env \<Longrightarrow> maintains P (store_read env q)"
  by (auto simp: maintains_def others_keep_def intro!: wp_read)

lemma maintains_write [keep_intros]:
  "others_keep P env \<Longrightarrow> (\<And>flt d. P d \<Longrightarrow> P (snd (f flt d))) \<Longrightarrow> maintains P (store_write env f)"
  unfolding maintains_def others_keep_def by (auto intro!: wp_write) (metis snd_conv)

text \<open>The environments in which nobody else uses the database, and those in which it never fails.\<close>

definition undisturbed :: "admin_env \<Rightarrow> bool" where
  "undisturbed env \<longleftrightarrow> ae_others env = (\<lambda>i d. d)"

definition faultless :: "admin_env \<Rightarrow> bool" where
  "faultless env \<longleftrightarrow> ae_fault env = (\<lambda>_. no_fault)"

lemma wp_read_alone:
  "undisturbed env \<Longrightarrow>
   Q (q (ae_fault env (sv_calls s)) (ae_order env (sv_calls s)) (sv_db s)) (s\<lparr>sv_calls := Suc (sv_calls s)\<rparr>) \<Longrightarrow> wp (store_read env q) Q s"
  by (rule wp_read) (simp add: undisturbed_def)

lemma wp_write_alone:
  "undisturbed env \<Longrightarrow> (\<And>x d. f (ae_fault env (sv_calls s)) (sv_db s) = (x, d) \<Longrightarrow>
     Q x (s\<lparr>sv_db := d, sv_calls := Suc (sv_calls s)\<rparr>)) \<Longrightarrow> wp (store_write env f) Q s"
  by (rule wp_write) (simp add: undisturbed_def)

definition serve_on :: "'b reply act \<Rightarrow> db \<Rightarrow> 'b reply \<times> admin_event list \<times> db" where
  "serve_on m d = (case run_state m \<lparr>sv_db = d, sv_calls = 0, sv_events = []\<rparr> of (r, s) \<Rightarrow> (r, sv_events s, sv_db s))"

lemma serve_on_wp:
  "wp m (\<lambda>r s. Q r (sv_events s) (sv_db s)) \<lparr>sv_db = d, sv_calls = 0, sv_events = []\<rparr> \<Longrightarrow> serve_on m d = (r, ev, d') \<Longrightarrow> Q r ev d'"
  by (auto simp: wp_def serve_on_def split: prod.splits)

section \<open>Samples\<close>

definition calm_env :: admin_env where
  "calm_env = \<lparr>ae_fault = (\<lambda>_. no_fault), ae_others = (\<lambda>i d. d), ae_drift = (\<lambda>i d. d), ae_order = (\<lambda>_. []), ae_floats = exact_floats, ae_now = 7,
     ae_uuid = (\<lambda>i. ''u'' @ show_nat i), ae_random = Some ''ab''\<rparr>"

lemma calm_env_calm: "undisturbed calm_env" "faultless calm_env"
  by (simp_all add: undisturbed_def faultless_def calm_env_def)

definition admin_request :: "string \<Rightarrow> http_request" where
  "admin_request body = \<lparr>rq_Method = ''POST'', rq_Path = ''/'', rq_Header = [], rq_RemoteAddr = '''', rq_ContentLength = int (length body), rq_Body = Some body\<rparr>"

definition bearer :: "string \<Rightarrow> http_request" where
  "bearer token = \<lparr>rq_Method = ''GET'', rq_Path = ''/'', rq_Header = [(''Authorization'', [''Bearer '' @ token])], rq_RemoteAddr = '''', rq_ContentLength = 0, rq_Body = Some ''''\<rparr>"

end
