(* ===== verification/Admin_Keys.thy ===== *)
theory Admin_Keys
  imports Admin_Http
begin

text \<open>
  The handlers of \<open>internal/admin/handler.go\<close> for API keys: who is asking (\<open>HandleAuth\<close>, \<open>HandleMe\<close>), managing keys,
  and what a key has used. \<open>strings.ToLower\<close>, which needs the case tables of Unicode, is an argument of the
  comparison of names. Shown are what a created key is good for, that names stay unique, and who is let in.
\<close>

section \<open>Who is asking\<close>

definition authenticateAPIKey :: "admin_env \<Rightarrow> http_request \<Rightarrow> APIKey option act" where
  "authenticateAPIKey env r =
     (let token = BearerToken r
      in if token = '''' then State_Monad.return None
         else do {
           res \<leftarrow> store_read env (\<lambda>flt ks. GetAPIKeyByHash flt (HashKey token));
           State_Monad.return (case res of Inr (Some key) \<Rightarrow> if k_IsActive key then Some key else None | _ \<Rightarrow> None)
         })"

datatype me_body = RoleAdmin | RoleKey string string

definition HandleAuth :: "Handler \<Rightarrow> admin_env \<Rightarrow> http_request \<Rightarrow> bool reply act" where
  "HandleAuth h env r =
     (if ValidateAccessKey (h_accessKey h) r then done_with (ReplyJSON 200 True)
      else let token = BearerToken r
           in if token \<noteq> '''' then do {
                res \<leftarrow> store_read env (\<lambda>flt ks. GetAPIKeyByHash flt (HashKey token));
                done_with (case res of Inr (Some key) \<Rightarrow> if k_IsActive key then ReplyJSON 200 True else ReplyError 401 ''unauthorized''
                           | _ \<Rightarrow> ReplyError 401 ''unauthorized'')
              }
              else done_with (ReplyError 401 ''unauthorized''))"

definition HandleMe :: "Handler \<Rightarrow> admin_env \<Rightarrow> http_request \<Rightarrow> me_body reply act" where
  "HandleMe h env r =
     (if ValidateAccessKey (h_accessKey h) r then done_with (ReplyJSON 200 RoleAdmin)
      else let token = BearerToken r
           in if token \<noteq> '''' then do {
                res \<leftarrow> store_read env (\<lambda>flt ks. GetAPIKeyByHash flt (HashKey token));
                done_with (case res of
                    Inr (Some key) \<Rightarrow> if k_IsActive key then ReplyJSON 200 (RoleKey (k_ID key) (k_Name key)) else ReplyError 401 ''unauthorized''
                  | _ \<Rightarrow> ReplyError 401 ''unauthorized'')
              }
              else done_with (ReplyError 401 ''unauthorized''))"

section \<open>Managing keys\<close>

datatype key_body = KeyList "APIKey list" | KeyCreated APIKey string | KeyUpdated APIKey

definition HandleListAPIKeys :: "admin_env \<Rightarrow> key_body reply act" where
  "HandleListAPIKeys env = do {
     res \<leftarrow> store_read env ListAPIKeys;
     done_with (case res of Inl e \<Rightarrow> ReplyError 500 ''failed to list api keys'' | Inr keys \<Rightarrow> ReplyJSON 200 (KeyList keys))
   }"

record APIKeyCreateRequest =
  kc_Name :: string
  kc_RateLimitRPM :: "int option"
  kc_RateLimitTPM :: "int option"

definition decode_create :: "http_request \<Rightarrow> APIKeyCreateRequest option" where
  "decode_create r = (case body_members r of None \<Rightarrow> None | Some ms \<Rightarrow>
     (let (name, e1) = field dec_string '''' ''name'' ms;
          (rpm, e2) = field (dec_ptr dec_int 0) None ''rate_limit_rpm'' ms;
          (tpm, e3) = field (dec_ptr dec_int 0) None ''rate_limit_tpm'' ms
      in if e1 \<or> e2 \<or> e3 then None else Some \<lparr>kc_Name = name, kc_RateLimitRPM = rpm, kc_RateLimitTPM = tpm\<rparr>))"

record APIKeyUpdateRequest =
  kr_Name :: string
  kr_IsActive :: "bool option"
  kr_RateLimitRPM :: "int option"
  kr_RateLimitTPM :: "int option"

definition decode_update :: "http_request \<Rightarrow> APIKeyUpdateRequest option" where
  "decode_update r = (case body_members r of None \<Rightarrow> None | Some ms \<Rightarrow>
     (let (name, e1) = field dec_string '''' ''name'' ms;
          (active, e2) = field (dec_ptr dec_bool False) None ''is_active'' ms;
          (rpm, e3) = field (dec_ptr dec_int 0) None ''rate_limit_rpm'' ms;
          (tpm, e4) = field (dec_ptr dec_int 0) None ''rate_limit_tpm'' ms
      in if e1 \<or> e2 \<or> e3 \<or> e4 then None
         else Some \<lparr>kr_Name = name, kr_IsActive = active, kr_RateLimitRPM = rpm, kr_RateLimitTPM = tpm\<rparr>))"

definition not_positive :: "int option \<Rightarrow> bool" where
  "not_positive lm = (case lm of None \<Rightarrow> False | Some n \<Rightarrow> n \<le> 0)"

definition apiKeyNameTaken :: "(string \<Rightarrow> string) \<Rightarrow> admin_env \<Rightarrow> string \<Rightarrow> string \<Rightarrow> (store_error + bool) act" where
  "apiKeyNameTaken lower env name excludeID = do {
     res \<leftarrow> store_read env ListAPIKeys;
     State_Monad.return (case res of Inl e \<Rightarrow> Inl e
       | Inr keys \<Rightarrow> Inr (list_ex (\<lambda>k. k_ID k \<noteq> excludeID \<and> lower (TrimSpace (k_Name k)) = lower name) keys))
   }"

text \<open>\<open>hex.EncodeToString\<close>, and the message with the name quoted by \<open>%q\<close>, whose escapes for unusual characters are an argument.\<close>

definition EncodeToString :: "string \<Rightarrow> string" where
  "EncodeToString raw = concat (map (\<lambda>c. hex_byte (of_char c)) raw)"

definition name_conflict :: "(string \<Rightarrow> string) \<Rightarrow> string \<Rightarrow> string" where
  "name_conflict quoted name = ''an API key named '' @ quoted name @ '' already exists''"

record text_env =
  tx_lower :: "string \<Rightarrow> string"
  tx_quoted :: "string \<Rightarrow> string"

definition HandleCreateAPIKey :: "text_env \<Rightarrow> admin_env \<Rightarrow> http_request \<Rightarrow> key_body reply act" where
  "HandleCreateAPIKey tx env r =
     (case decode_create r of
        None \<Rightarrow> done_with (ReplyError 400 ''invalid JSON body'')
      | Some body \<Rightarrow>
          (let name = TrimSpace (kc_Name body)
           in if name = '''' then done_with (ReplyError 400 ''name is required'')
              else if not_positive (kc_RateLimitRPM body) then done_with (ReplyError 400 ''rate_limit_rpm must be > 0'')
              else if not_positive (kc_RateLimitTPM body) then done_with (ReplyError 400 ''rate_limit_tpm must be > 0'')
              else do {
                taken \<leftarrow> apiKeyNameTaken (tx_lower tx) env name '''';
                case taken of
                  Inl e \<Rightarrow> done_with (ReplyError 500 ''failed to create api key'')
                | Inr b \<Rightarrow>
                    if b then done_with (ReplyError 409 (name_conflict (tx_quoted tx) name))
                    else case ae_random env of
                      None \<Rightarrow> done_with (ReplyError 500 ''failed to generate api key'')
                    | Some raw \<Rightarrow>
                        (let rawKey = EncodeToString raw;
                             k = \<lparr>k_ID = ae_uuid env 0, k_KeyHash = HashKey rawKey, k_Name = name, k_IsActive = True,
                                  k_RateLimitRPM = kc_RateLimitRPM body, k_RateLimitTPM = kc_RateLimitTPM body, k_CreatedAt = ae_now env, k_LastUsedAt = None\<rparr>
                         in do {
                           res \<leftarrow> store_write env (\<lambda>flt. CreateAPIKey flt k);
                           done_with (case res of Inl e \<Rightarrow> ReplyError 500 ''failed to create api key'' | Inr u \<Rightarrow> ReplyJSON 201 (KeyCreated k rawKey))
                         })
              }))"

definition HandleUpdateAPIKey :: "text_env \<Rightarrow> admin_env \<Rightarrow> string \<Rightarrow> http_request \<Rightarrow> key_body reply act" where
  "HandleUpdateAPIKey tx env i r =
     (if i = '''' then done_with (ReplyError 400 ''id is required'')
      else case decode_update r of
        None \<Rightarrow> done_with (ReplyError 400 ''invalid JSON body'')
      | Some body \<Rightarrow>
          (let name = TrimSpace (kr_Name body)
           in if name = '''' then done_with (ReplyError 400 ''name is required'')
              else if not_positive (kr_RateLimitRPM body) then done_with (ReplyError 400 ''rate_limit_rpm must be > 0'')
              else if not_positive (kr_RateLimitTPM body) then done_with (ReplyError 400 ''rate_limit_tpm must be > 0'')
              else do {
                taken \<leftarrow> apiKeyNameTaken (tx_lower tx) env name i;
                case taken of
                  Inl e \<Rightarrow> done_with (ReplyError 500 ''failed to update api key'')
                | Inr b \<Rightarrow>
                    if b then done_with (ReplyError 409 (name_conflict (tx_quoted tx) name))
                    else do {
                      existing \<leftarrow> store_read env (\<lambda>flt ks. GetAPIKey flt i);
                      case existing of
                        Inl e \<Rightarrow> done_with (if is_no_rows e then ReplyError 404 ''api key not found'' else ReplyError 500 ''failed to get api key'')
                      | Inr k \<Rightarrow>
                          (let merged = k\<lparr>k_Name := name, k_IsActive := (case kr_IsActive body of None \<Rightarrow> k_IsActive k | Some b \<Rightarrow> b),
                                          k_RateLimitRPM := kr_RateLimitRPM body, k_RateLimitTPM := kr_RateLimitTPM body\<rparr>
                           in do {
                             res \<leftarrow> store_write env (\<lambda>flt. UpdateAPIKey flt merged);
                             done_with (case res of Inl e \<Rightarrow> ReplyError 500 ''failed to update api key'' | Inr u \<Rightarrow> ReplyJSON 200 (KeyUpdated merged))
                           })
                    }
              }))"

definition HandleDeleteAPIKey :: "admin_env \<Rightarrow> string \<Rightarrow> key_body reply act" where
  "HandleDeleteAPIKey env i =
     (if i = '''' then done_with (ReplyError 400 ''id is required'')
      else do {
        res \<leftarrow> store_write env (\<lambda>flt. DeleteAPIKey flt i);
        done_with (case res of
            Inl e \<Rightarrow> if is_no_rows e then ReplyError 404 ''api key not found'' else ReplyError 500 ''failed to delete api key''
          | Inr u \<Rightarrow> ReplyNoContent)
      })"

section \<open>Usage\<close>

datatype usage_body = Usage "APIKeyUsage list" | MyUsage APIKeyUsage string "ModelStats list" | Points "TimeSeriesPoint list"

definition HandleUsageByKey :: "admin_env \<Rightarrow> (string \<Rightarrow> string) \<Rightarrow> usage_body reply act" where
  "HandleUsageByKey env q =
     (case parseTimeRange (ae_now env) q of
        Inl msg \<Rightarrow> done_with (ReplyError 400 msg)
      | Inr (since, until) \<Rightarrow> do {
          res \<leftarrow> store_read env (\<lambda>flt ks. UsageByAPIKey (sq_sum (ae_floats env)) flt ks since until);
          done_with (case res of Inl e \<Rightarrow> ReplyError 500 ''failed to get usage'' | Inr usage \<Rightarrow> ReplyJSON 200 (Usage usage))
        })"

definition zero_APIKeyUsage :: APIKeyUsage where
  "zero_APIKeyUsage = \<lparr>ku_APIKeyID = '''', ku_APIKeyName = '''', ku_RequestCount = 0, ku_TotalTokens = 0, ku_TotalCostUSD = 0, ku_LastUsedAt = None\<rparr>"

definition HandleMyUsage :: "admin_env \<Rightarrow> http_request \<Rightarrow> (string \<Rightarrow> string) \<Rightarrow> usage_body reply act" where
  "HandleMyUsage env r q = do {
     key \<leftarrow> authenticateAPIKey env r;
     case key of
       None \<Rightarrow> done_with (ReplyError 401 ''unauthorized'')
     | Some k \<Rightarrow>
         (case parseTimeRange (ae_now env) q of
            Inl msg \<Rightarrow> done_with (ReplyError 400 msg)
          | Inr (since, until) \<Rightarrow> do {
              res \<leftarrow> store_read env (\<lambda>flt ks. UsageByAPIKey (sq_sum (ae_floats env)) flt ks since until);
              case res of
                Inl e \<Rightarrow> done_with (ReplyError 500 ''failed to get usage'')
              | Inr usage \<Rightarrow> do {
                  byModel \<leftarrow> store_read env (\<lambda>flt ks. UsageByAPIKeyModel (sq_avg (ae_floats env)) flt ks (k_ID k) since until);
                  done_with (case byModel of
                      Inl e \<Rightarrow> ReplyError 500 ''failed to get usage by model''
                    | Inr ms \<Rightarrow> ReplyJSON 200 (MyUsage (case find (\<lambda>u. ku_APIKeyID u = k_ID k) usage of Some u \<Rightarrow> u | None \<Rightarrow> zero_APIKeyUsage) (k_Name k) ms))
                }
            })
   }"

definition HandleMyTimeSeries :: "admin_env \<Rightarrow> http_request \<Rightarrow> (string \<Rightarrow> string) \<Rightarrow> usage_body reply act" where
  "HandleMyTimeSeries env r q = do {
     key \<leftarrow> authenticateAPIKey env r;
     case key of
       None \<Rightarrow> done_with (ReplyError 401 ''unauthorized'')
     | Some k \<Rightarrow>
         (case parseTimeRange (ae_now env) q of
            Inl msg \<Rightarrow> done_with (ReplyError 400 msg)
          | Inr (since, until) \<Rightarrow>
              (let granularity = (if q ''granularity'' = '''' then defaultGranularity (time_sub until since) else q ''granularity'')
               in if granularity \<noteq> ''hour'' \<and> granularity \<noteq> ''day'' then done_with (ReplyError 400 ''granularity must be hour or day'')
                  else do {
                    res \<leftarrow> store_read env (\<lambda>flt ks d. TimeSeriesByAPIKey (ae_floats env) flt d (k_ID k) since until granularity);
                    done_with (case res of Inl e \<Rightarrow> ReplyError 500 ''failed to load time series'' | Inr points \<Rightarrow> ReplyJSON 200 (Points points))
                  }))
   }"

section \<open>What a created key is good for\<close>

text \<open>The key look-up of the proxy over the store.\<close>

definition store_keys :: "db \<Rightarrow> string \<Rightarrow> string + APIKey option" where
  "store_keys d hash = (case GetAPIKeyByHash no_fault hash d of Inl e \<Rightarrow> Inl (se_context e) | Inr k \<Rightarrow> Inr k)"

lemma GetAPIKeyByHash_alone:
  "GetAPIKeyByHash no_fault hash d = Inr (case filter (\<lambda>k. k_KeyHash k = hash) (db_api_keys d) of [] \<Rightarrow> None | k # ks \<Rightarrow> Some k)"
  by (simp add: GetAPIKeyByHash_def query_row_def no_fault_def split: list.split)

lemma store_keys_eq:
  "store_keys d hash = Inr (case filter (\<lambda>k. k_KeyHash k = hash) (db_api_keys d) of [] \<Rightarrow> None | k # ks \<Rightarrow> Some k)"
  by (simp add: store_keys_def GetAPIKeyByHash_alone)

lemma CreateAPIKey_cases:
  assumes "CreateAPIKey flt k d = (res, d')"
  shows "(\<exists>e. res = Inl e) \<and> d' = d \<or>
    res = Inr () \<and> d' = d\<lparr>db_api_keys := db_api_keys d @ [k]\<rparr> \<and> k_ID k \<notin> k_ID ` set (db_api_keys d) \<and> k_KeyHash k \<notin> k_KeyHash ` set (db_api_keys d)"
  using assms by (auto simp: CreateAPIKey_def exec_def run_stmt_def insert_key_def split: option.splits if_splits)

lemma created_outcome:
  assumes "undisturbed env"
  shows "wp (HandleCreateAPIKey tx env r) (\<lambda>rep s'.
    if reply_status rep = 201
    then \<exists>body k bytes. decode_create r = Some body \<and> ae_random env = Some bytes \<and> rep = ReplyJSON 201 (KeyCreated k (EncodeToString bytes)) \<and>
      k = \<lparr>k_ID = ae_uuid env 0, k_KeyHash = HashKey (EncodeToString bytes), k_Name = TrimSpace (kc_Name body), k_IsActive = True,
           k_RateLimitRPM = kc_RateLimitRPM body, k_RateLimitTPM = kc_RateLimitTPM body, k_CreatedAt = ae_now env, k_LastUsedAt = None\<rparr> \<and>
      k_Name k \<noteq> '''' \<and> \<not> not_positive (k_RateLimitRPM k) \<and> \<not> not_positive (k_RateLimitTPM k) \<and>
      (\<forall>x \<in> set (db_api_keys (sv_db s)). tx_lower tx (TrimSpace (k_Name x)) \<noteq> tx_lower tx (k_Name k) \<or> k_ID x = '''') \<and>
      sv_db s' = (sv_db s)\<lparr>db_api_keys := db_api_keys (sv_db s) @ [k]\<rparr> \<and>
      k_ID k \<notin> k_ID ` set (db_api_keys (sv_db s)) \<and> k_KeyHash k \<notin> k_KeyHash ` set (db_api_keys (sv_db s))
    else sv_db s' = sv_db s) s"
  unfolding HandleCreateAPIKey_def apiKeyNameTaken_def
  apply (intro wp_intros wp_read_alone [OF assms] wp_write_alone [OF assms]; simp)
  subgoal for body name b raw rawKey k x d
    by (auto dest!: CreateAPIKey_cases simp: ListAPIKeys_def list_ex_iff split: sum.splits dest!: query_Inr)
  done

text \<open>
  C19. A created key works at once. If nobody else uses the database and a key is created, then the raw key of the answer authenticates:
  the proxy lets its requests through under the new key's name as far as its rate limits allow, and the
  login page accepts it. The new key has the trimmed name and the limits of the request, and all other keys
  are found as before.
\<close>
theorem created_key_works:
  assumes "undisturbed env" and "serve_on (HandleCreateAPIKey tx env r) d = (ReplyJSON 201 (KeyCreated k raw), ev, d')"
    and "BearerToken r' = raw" and "raw \<noteq> ''''"
  shows "(\<exists>body. decode_create r = Some body \<and> k_Name k = TrimSpace (kc_Name body) \<and>
        k_RateLimitRPM k = kc_RateLimitRPM body \<and> k_RateLimitTPM k = kc_RateLimitTPM body) \<and>
    (fst (fst (allow l (k_ID k) (k_RateLimitRPM k) (k_RateLimitTPM k) (estimatePromptTokens r') now)) \<longrightarrow>
      fst (RequireAPIKey cfg (store_keys d') l r' now) = AuthPass (Some \<lparr>ka_ID = k_ID k, ka_Name = k_Name k\<rparr>)) \<and>
    (undisturbed env' \<and> faultless env' \<longrightarrow> fst (serve_on (HandleAuth h env' r') d') = ReplyJSON 200 True) \<and>
    (hash = HashKey raw \<or> GetAPIKeyByHash flt hash d' = GetAPIKeyByHash flt hash d)"
proof -
  note c = serve_on_wp [OF created_outcome [OF assms(1)] assms(2)]
  obtain body where b: "decode_create r = Some body" "k_Name k = TrimSpace (kc_Name body)" "k_RateLimitRPM k = kc_RateLimitRPM body"
    "k_RateLimitTPM k = kc_RateLimitTPM body" and k: "k_KeyHash k = HashKey raw" "k_IsActive k"
    and d': "d' = d\<lparr>db_api_keys := db_api_keys d @ [k]\<rparr>" and new: "HashKey raw \<notin> k_KeyHash ` set (db_api_keys d)"
    using c by auto
  have f: "filter (\<lambda>x. k_KeyHash x = HashKey raw) (db_api_keys d') = [k]"
    using new k by (auto simp: d' filter_empty_conv image_iff)
  have "fst (RequireAPIKey cfg (store_keys d') l r' now) = AuthPass (Some \<lparr>ka_ID = k_ID k, ka_Name = k_Name k\<rparr>)"
    if "fst (fst (allow l (k_ID k) (k_RateLimitRPM k) (k_RateLimitTPM k) (estimatePromptTokens r') now))"
    using that assms(3,4) k(2) by (simp add: RequireAPIKey_def store_keys_eq f Let_def case_prod_beta)
  moreover have "fst (serve_on (HandleAuth h env' r') d') = ReplyJSON 200 True" if "undisturbed env'" "faultless env'"
    using that assms(3,4) k(2)
    by (auto simp: serve_on_def HandleAuth_def done_with_def store_read_def undisturbed_def faultless_def GetAPIKeyByHash_alone f Let_def)
  moreover have "GetAPIKeyByHash flt hash d' = GetAPIKeyByHash flt hash d" if "hash \<noteq> HashKey raw"
    using that k(1) by (simp add: GetAPIKeyByHash_def d')
  ultimately show ?thesis using b by blast
qed

section \<open>Names stay unique\<close>

definition same_name :: "text_env \<Rightarrow> APIKey \<Rightarrow> string" where
  "same_name tx k = tx_lower tx (TrimSpace (k_Name k))"

definition key_ok :: "APIKey \<Rightarrow> bool" where
  "key_ok k \<longleftrightarrow> k_ID k \<noteq> '''' \<and> k_Name k \<noteq> '''' \<and> TrimSpace (k_Name k) = k_Name k \<and> \<not> not_positive (k_RateLimitRPM k) \<and> \<not> not_positive (k_RateLimitTPM k)"

definition key_table_ok :: "text_env \<Rightarrow> APIKey list \<Rightarrow> bool" where
  "key_table_ok tx rows \<longleftrightarrow> unique_on k_ID rows \<and> unique_on (same_name tx) rows \<and> list_all key_ok rows"

text \<open>
  The states of the key table: it starts empty; admins create, change and delete keys one request after the other, requests touch keys,
  and whatever else happens to the database leaves it alone.
\<close>

inductive key_reach :: "text_env \<Rightarrow> db \<Rightarrow> bool" for tx where
  k_start: "db_api_keys d = [] \<Longrightarrow> key_reach tx d"
| k_create: "key_reach tx d \<Longrightarrow> undisturbed env \<Longrightarrow> ae_uuid env 0 \<noteq> '''' \<Longrightarrow> serve_on (HandleCreateAPIKey tx env r) d = (rep, ev, d') \<Longrightarrow> key_reach tx d'"
| k_update: "key_reach tx d \<Longrightarrow> undisturbed env \<Longrightarrow> serve_on (HandleUpdateAPIKey tx env i r) d = (rep, ev, d') \<Longrightarrow> key_reach tx d'"
| k_delete: "key_reach tx d \<Longrightarrow> undisturbed env \<Longrightarrow> serve_on (HandleDeleteAPIKey env i) d = (rep, ev, d') \<Longrightarrow> key_reach tx d'"
| k_touch: "key_reach tx d \<Longrightarrow> key_reach tx (snd (TouchAPIKeyLastUsed flt i now d))"
| k_frame: "key_reach tx d \<Longrightarrow> db_api_keys d' = db_api_keys d \<Longrightarrow> key_reach tx d'"

lemma UpdateAPIKey_cases:
  assumes "UpdateAPIKey flt k d = (res, d')"
  shows "(\<exists>e. res = Inl e) \<and> d' = d \<or> res = Inr () \<and> d' = d\<lparr>db_api_keys := map (\<lambda>x. if k_ID x = k_ID k
     then x\<lparr>k_Name := k_Name k, k_IsActive := k_IsActive k, k_RateLimitRPM := k_RateLimitRPM k, k_RateLimitTPM := k_RateLimitTPM k\<rparr> else x) (db_api_keys d)\<rparr>"
  using assms by (auto simp: UpdateAPIKey_def exec_def run_stmt_def update_keys_def split: option.splits)

lemma DeleteAPIKey_cases:
  assumes "DeleteAPIKey flt i d = (res, d')"
  shows "(\<exists>e. res = Inl e \<and> \<not> is_no_rows e) \<and> d' = d \<or> res = Inr () \<and> d' = d\<lparr>db_api_keys := filter (\<lambda>k. k_ID k \<noteq> i) (db_api_keys d)\<rparr>"
  using assms by (auto simp: DeleteAPIKey_def exec_def run_stmt_def delete_key_def is_no_rows_def split: option.splits)

lemma GetAPIKey_Inr: "GetAPIKey flt i d = Inr k \<Longrightarrow> k \<in> set (db_api_keys d) \<and> k_ID k = i"
  by (auto simp: GetAPIKey_def query_row_def filter_eq_Cons_iff split: option.splits list.splits sum.splits if_splits)

lemma updated_outcome:
  assumes "undisturbed env"
  shows "wp (HandleUpdateAPIKey tx env i r) (\<lambda>rep s'.
    if reply_status rep = 200 then (\<exists>body k. decode_update r = Some body \<and> rep = ReplyJSON 200 (KeyUpdated k) \<and> k_ID k = i \<and>
      k_Name k = TrimSpace (kr_Name body) \<and> k_Name k \<noteq> '''' \<and> k_RateLimitRPM k = kr_RateLimitRPM body \<and> k_RateLimitTPM k = kr_RateLimitTPM body \<and>
      (\<forall>b. kr_IsActive body = Some b \<longrightarrow> k_IsActive k = b) \<and>
      \<not> not_positive (k_RateLimitRPM k) \<and> \<not> not_positive (k_RateLimitTPM k) \<and>
      (\<forall>x \<in> set (db_api_keys (sv_db s)). k_ID x \<noteq> i \<longrightarrow> tx_lower tx (TrimSpace (k_Name x)) \<noteq> tx_lower tx (k_Name k)) \<and>
      sv_db s' = (sv_db s)\<lparr>db_api_keys := map (\<lambda>x. if k_ID x = i
        then x\<lparr>k_Name := k_Name k, k_IsActive := k_IsActive k, k_RateLimitRPM := k_RateLimitRPM k, k_RateLimitTPM := k_RateLimitTPM k\<rparr> else x) (db_api_keys (sv_db s))\<rparr>)
    else sv_db s' = sv_db s) s"
  unfolding HandleUpdateAPIKey_def apiKeyNameTaken_def
  apply (intro wp_intros wp_read_alone [OF assms] wp_write_alone [OF assms]; simp)
  subgoal for body name b k merged x d
    by (auto dest!: UpdateAPIKey_cases GetAPIKey_Inr simp: ListAPIKeys_def list_ex_iff split: sum.splits dest!: query_Inr)
  done

lemma key_table_snoc:
  assumes "key_table_ok tx rows" and "key_ok k" and "k_ID k \<notin> k_ID ` set rows" and "\<forall>x \<in> set rows. same_name tx x \<noteq> same_name tx k"
  shows "key_table_ok tx (rows @ [k])"
  using assms by (auto simp: key_table_ok_def)

lemma key_table_update:
  assumes "key_table_ok tx rows" and "\<forall>x \<in> set rows. k_ID x \<noteq> i \<longrightarrow> same_name tx x \<noteq> tx_lower tx n" and "n \<noteq> ''''" and "TrimSpace n = n"
    and "\<not> not_positive rpm" and "\<not> not_positive tpm"
  shows "key_table_ok tx (map (\<lambda>x. if k_ID x = i then x\<lparr>k_Name := n, k_IsActive := act, k_RateLimitRPM := rpm, k_RateLimitTPM := tpm\<rparr> else x) rows)"
proof -
  have "unique_on (same_name tx) (map (\<lambda>x. if k_ID x = i then x\<lparr>k_Name := n, k_IsActive := act, k_RateLimitRPM := rpm, k_RateLimitTPM := tpm\<rparr> else x) rows)"
    by (rule unique_on_update [of _ _ k_ID _ "tx_lower tx n"]) (use assms in \<open>auto simp: key_table_ok_def same_name_def\<close>)
  moreover have "list_all key_ok (map (\<lambda>x. if k_ID x = i then x\<lparr>k_Name := n, k_IsActive := act, k_RateLimitRPM := rpm, k_RateLimitTPM := tpm\<rparr> else x) rows)"
    using assms by (auto simp: key_table_ok_def list_all_iff key_ok_def)
  ultimately show ?thesis using assms(1) by (simp add: key_table_ok_def unique_key_update)
qed

text \<open>
  The names of keys. As long as admin requests on keys follow one another, no two keys ever have names that differ only in
  case or in surrounding space, every key has a name and an identifier, and no limit is zero or negative.
\<close>
theorem key_names_unique:
  assumes "key_reach tx d"
  shows "unique_on (\<lambda>k. tx_lower tx (TrimSpace (k_Name k))) (db_api_keys d) \<and> unique_on k_ID (db_api_keys d) \<and> list_all key_ok (db_api_keys d)"
proof -
  have "key_table_ok tx (db_api_keys d)"
    using assms
  proof (induction rule: key_reach.induct)
    case (k_start d)
    then show ?case by (simp add: key_table_ok_def)
  next
    case (k_create d env r rep ev d')
    from serve_on_wp [OF created_outcome [OF k_create.hyps(2)] k_create.hyps(4)] k_create.IH k_create.hyps(3)
    show ?case by (auto split: if_splits simp: key_ok_def same_name_def key_table_ok_def list_all_iff intro!: key_table_snoc) blast
  next
    case (k_update d env i r rep ev d')
    from serve_on_wp [OF updated_outcome [OF k_update.hyps(2)] k_update.hyps(3)] k_update.IH
    show ?case by (auto split: if_splits simp: same_name_def intro!: key_table_update)
  next
    case (k_delete d env i rep ev d')
    have "wp (HandleDeleteAPIKey env i) (\<lambda>rep s'. \<exists>P. db_api_keys (sv_db s') = filter P (db_api_keys (sv_db s))) s" for s
      unfolding HandleDeleteAPIKey_def
      by (intro wp_intros wp_write_alone [OF k_delete.hyps(2)]) (auto dest!: DeleteAPIKey_cases intro: exI [of _ "\<lambda>_. True"])
    from serve_on_wp [OF this k_delete.hyps(3)] k_delete.IH show ?case
      by (auto simp: key_table_ok_def list_all_iff)
  next
    case (k_touch d flt i now)
    then show ?case
      by (auto simp: TouchAPIKeyLastUsed_def exec_def run_stmt_def update_keys_def key_table_ok_def unique_key_update same_name_def key_ok_def list_all_iff
          split: option.splits)
  qed simp
  then show ?thesis by (simp add: key_table_ok_def same_name_def [abs_def])
qed

section \<open>Who is let in\<close>

lemma authenticated:
  assumes "undisturbed env" and "faultless env"
  shows "wp (authenticateAPIKey env r) (\<lambda>k s'. sv_db s' = sv_db s \<and>
    (k = (if BearerToken r = '''' then None
          else case store_keys (sv_db s) (HashKey (BearerToken r)) of Inr (Some key) \<Rightarrow> if k_IsActive key then Some key else None | _ \<Rightarrow> None))) s"
  unfolding authenticateAPIKey_def
  by (intro wp_intros wp_read_alone [OF assms(1)]) (use assms(2) in \<open>auto simp: faultless_def store_keys_eq GetAPIKeyByHash_alone split: list.split\<close>)

text \<open>
  Who is let in. Whatever the database does, \<open>HandleMe\<close> gives the admin role to exactly those that present the access key and a key's role only
  to those whose token hashes to a stored active key, under its identifier and name; \<open>HandleAuth\<close> accepts exactly whom \<open>HandleMe\<close> gives
  a role; everybody else gets 401. Neither changes the database.
\<close>
theorem roles_need_credentials:
  assumes "undisturbed env" and "serve_on (HandleMe h env r) d = (rep, ev, d')"
  shows "d' = d \<and> ev = [] \<and> (rep = ReplyJSON 200 RoleAdmin \<longleftrightarrow> ValidateAccessKey (h_accessKey h) r) \<and>
    (\<forall>i n. rep = ReplyJSON 200 (RoleKey i n) \<longrightarrow>
       (\<exists>k \<in> set (db_api_keys d). k_KeyHash k = HashKey (BearerToken r) \<and> BearerToken r \<noteq> '''' \<and> k_IsActive k \<and> k_ID k = i \<and> k_Name k = n)) \<and>
    (rep \<in> {ReplyError 401 ''unauthorized'', ReplyJSON 200 RoleAdmin} \<or> (\<exists>i n. rep = ReplyJSON 200 (RoleKey i n))) \<and>
    (fst (serve_on (HandleAuth h env r) d) = ReplyJSON 200 True \<longleftrightarrow> reply_status rep = 200)"
proof -
  have found: "\<exists>k \<in> set (db_api_keys d). k_KeyHash k = hash \<and> k = key" if "GetAPIKeyByHash flt hash d = Inr (Some key)" for flt hash key
    using that by (auto simp: GetAPIKeyByHash_def query_row_def filter_eq_Cons_iff split: option.splits list.splits sum.splits if_splits)
  have env: "ae_others env = (\<lambda>i d. d)" using assms(1) by (simp add: undisturbed_def)
  consider "ValidateAccessKey (h_accessKey h) r" | "\<not> ValidateAccessKey (h_accessKey h) r" "BearerToken r = ''''"
    | "\<not> ValidateAccessKey (h_accessKey h) r" "BearerToken r \<noteq> ''''" by blast
  then show ?thesis
  proof cases
    case 3
    let ?res = "GetAPIKeyByHash (ae_fault env 0) (HashKey (BearerToken r)) d"
    have "rep = (case ?res of Inr (Some key) \<Rightarrow> if k_IsActive key then ReplyJSON 200 (RoleKey (k_ID key) (k_Name key)) else ReplyError 401 ''unauthorized''
          | _ \<Rightarrow> ReplyError 401 ''unauthorized'') \<and> ev = [] \<and> d' = d"
      using assms(2) 3 by (auto simp: serve_on_def HandleMe_def done_with_def store_read_def env Let_def)
    moreover have "fst (serve_on (HandleAuth h env r) d) = (case ?res of Inr (Some key) \<Rightarrow> if k_IsActive key then ReplyJSON 200 True else ReplyError 401 ''unauthorized''
          | _ \<Rightarrow> ReplyError 401 ''unauthorized'')"
      using 3 by (auto simp: serve_on_def HandleAuth_def done_with_def store_read_def env Let_def)
    ultimately show ?thesis using 3 found [of "ae_fault env 0" "HashKey (BearerToken r)"] by (auto split: sum.splits option.splits)
  qed (use assms(2) in \<open>auto simp: serve_on_def HandleMe_def HandleAuth_def done_with_def Let_def\<close>)
qed

text \<open>
  C21. Revoking a key. Once a delete of a key has been answered without content, or an update that deactivates it has been answered with success,
  the token of that key no longer passes the proxy, whatever the settings and limits.
\<close>
theorem revoked_key_stops:
  assumes "undisturbed env" and "db_ok d" and "k \<in> set (db_api_keys d)" and "k_KeyHash k = HashKey (BearerToken r')" and "BearerToken r' \<noteq> ''''"
    and "serve_on (HandleDeleteAPIKey env (k_ID k)) d = (ReplyNoContent, ev, d') \<or>
      serve_on (HandleUpdateAPIKey tx env (k_ID k) r) d = (rep, ev, d') \<and> reply_status rep = 200 \<and> (\<exists>body. decode_update r = Some body \<and> kr_IsActive body = Some False)"
  shows "fst (RequireAPIKey cfg (store_keys d') l r' now) = AuthReject 401 ''invalid API key''"
proof -
  have one: "filter (\<lambda>x. k_KeyHash x = k_KeyHash k) (db_api_keys d) = [k]"
    using unique_find [of k_KeyHash "db_api_keys d" k] assms(2,3) by (simp add: db_ok_def keys_ok_def)
  have ids: "k_ID x = k_ID k \<longleftrightarrow> x = k" if "x \<in> set (db_api_keys d)" for x
    using that assms(2,3) by (auto simp: db_ok_def keys_ok_def unique_on_def distinct_map inj_on_def)
  have "\<exists>x. store_keys d' (HashKey (BearerToken r')) = Inr x \<and> (\<forall>key. x = Some key \<longrightarrow> \<not> k_IsActive key)"
    using assms(6)
  proof
    assume del: "serve_on (HandleDeleteAPIKey env (k_ID k)) d = (ReplyNoContent, ev, d')"
    have "wp (HandleDeleteAPIKey env (k_ID k)) (\<lambda>rep s'. rep = ReplyNoContent \<longrightarrow> db_api_keys (sv_db s') = filter (\<lambda>x. k_ID x \<noteq> k_ID k) (db_api_keys (sv_db s))) s" for s
      unfolding HandleDeleteAPIKey_def by (intro wp_intros wp_write_alone [OF assms(1)]) (auto dest!: DeleteAPIKey_cases split: sum.splits)
    from serve_on_wp [OF this del] have "db_api_keys d' = filter (\<lambda>x. k_ID x \<noteq> k_ID k) (db_api_keys d)" by simp
    then have "filter (\<lambda>x. k_KeyHash x = k_KeyHash k) (db_api_keys d') = []"
      using ids arg_cong [OF one, of set] by (auto simp: filter_empty_conv)
    then show ?thesis using assms(4) by (simp add: store_keys_eq)
  next
    assume upd: "serve_on (HandleUpdateAPIKey tx env (k_ID k) r) d = (rep, ev, d') \<and> reply_status rep = 200 \<and> (\<exists>body. decode_update r = Some body \<and> kr_IsActive body = Some False)"
    define f :: "APIKey \<Rightarrow> APIKey \<Rightarrow> APIKey" where "f = (\<lambda>m x. if k_ID x = k_ID k
      then x\<lparr>k_Name := k_Name m, k_IsActive := k_IsActive m, k_RateLimitRPM := k_RateLimitRPM m, k_RateLimitTPM := k_RateLimitTPM m\<rparr> else x)"
    have "\<exists>m. \<not> k_IsActive m \<and> db_api_keys d' = map (f m) (db_api_keys d)"
      using upd serve_on_wp [OF updated_outcome [OF assms(1)], of tx "k_ID k" r d rep ev d'] by (fastforce simp: f_def)
    then obtain m where m: "\<not> k_IsActive m" "db_api_keys d' = map (f m) (db_api_keys d)" by blast
    have "filter (\<lambda>x. k_KeyHash x = k_KeyHash k) (db_api_keys d') = map (f m) (filter (\<lambda>x. k_KeyHash x = k_KeyHash k) (db_api_keys d))"
      by (simp add: m(2) filter_map comp_def f_def if_distrib cong: if_cong)
    then have "filter (\<lambda>x. k_KeyHash x = k_KeyHash k) (db_api_keys d') = [f m k]" by (simp only: one list.map)
    then show ?thesis using m(1) unfolding assms(4) by (simp add: store_keys_eq f_def)
  qed
  then show ?thesis using assms(5) by (auto simp: RequireAPIKey_def Let_def split: option.splits)
qed

section \<open>Samples\<close>

lemma HashKey_nonempty [simp]: "HashKey token \<noteq> ''''"
  using length_sha256_hex [of token] by (auto simp: HashKey_def)

definition ascii_text :: text_env where
  "ascii_text = \<lparr>tx_lower = ToLower, tx_quoted = (\<lambda>s. s)\<rparr>"

definition sample_raw :: string where
  "sample_raw = EncodeToString ''ab''"

definition sample_key :: APIKey where
  "sample_key = \<lparr>k_ID = ''u0'', k_KeyHash = HashKey sample_raw, k_Name = ''ci'', k_IsActive = True, k_RateLimitRPM = None, k_RateLimitTPM = None,
     k_CreatedAt = 7, k_LastUsedAt = None\<rparr>"

definition create_request :: http_request where
  "create_request = admin_request ''{\"name\":\" ci \"}''"

lemma create_request_body: "decode_create create_request = Some \<lparr>kc_Name = '' ci '', kc_RateLimitRPM = None, kc_RateLimitTPM = None\<rparr>"
proof -
  have "body_members create_request = Some [(''name'', JStr '' ci '')]" by code_simp
  moreover have "field dec_string '''' ''name'' [(''name'', JStr '' ci '')] = ('' ci '', False)" by code_simp
  moreover have "field_values ''rate_limit_rpm'' [(''name'', JStr '' ci '')] = []" "field_values ''rate_limit_tpm'' [(''name'', JStr '' ci '')] = []" by code_simp+
  ultimately show ?thesis by (simp add: decode_create_def field_def [of "dec_ptr dec_int 0"] decode_all_def)
qed

lemma sample_raw_token: "BearerToken (bearer sample_raw) = sample_raw" "sample_raw \<noteq> ''''"
  by code_simp+

lemma trimmed_ci: "TrimSpace '' ci '' = ''ci''"
  by code_simp

lemma sample_created:
  "serve_on (HandleCreateAPIKey ascii_text calm_env create_request) empty_db =
   (ReplyJSON 201 (KeyCreated sample_key sample_raw), [], empty_db\<lparr>db_api_keys := [sample_key]\<rparr>)"
  by (simp add: serve_on_def HandleCreateAPIKey_def create_request_body trimmed_ci not_positive_def apiKeyNameTaken_def store_read_def store_write_def
      calm_env_def ListAPIKeys_def order_by_def empty_db_def done_with_def Let_def CreateAPIKey_def exec_def run_stmt_def insert_key_def no_fault_def
      sample_key_def sample_raw_def show_nat.simps digit_def char_of_def bit_Suc_0_iff ascii_text_def)

theorem created_key_works_witness:
  "\<forall>h. fst (serve_on (HandleAuth h calm_env (bearer sample_raw)) (empty_db\<lparr>db_api_keys := [sample_key]\<rparr>)) = ReplyJSON 200 True"
  using created_key_works [OF calm_env_calm(1) sample_created sample_raw_token, of undefined undefined undefined calm_env _ undefined undefined] calm_env_calm
  by blast

theorem key_names_unique_witness: "unique_on (\<lambda>k. ToLower (TrimSpace (k_Name k))) [sample_key] \<and> list_all key_ok [sample_key]"
proof -
  have "key_reach ascii_text (empty_db\<lparr>db_api_keys := [sample_key]\<rparr>)"
    by (rule k_create [OF k_start calm_env_calm(1) _ sample_created]) (simp_all add: calm_env_def empty_db_def)
  from key_names_unique [OF this] show ?thesis by (simp add: ascii_text_def)
qed

theorem revoked_key_stops_witness:
  "\<forall>cfg l now. fst (RequireAPIKey cfg (store_keys empty_db) l (bearer sample_raw) now) = AuthReject 401 ''invalid API key''"
proof -
  have "serve_on (HandleDeleteAPIKey calm_env (k_ID sample_key)) (empty_db\<lparr>db_api_keys := [sample_key]\<rparr>) = (ReplyNoContent, [], empty_db)"
    by (simp add: serve_on_def HandleDeleteAPIKey_def store_write_def calm_env_def DeleteAPIKey_def exec_def run_stmt_def delete_key_def no_fault_def
        done_with_def sample_key_def empty_db_def)
  moreover have "db_ok (empty_db\<lparr>db_api_keys := [sample_key]\<rparr>)"
    by (simp add: db_ok_def empty_db_def providers_ok_def endpoints_ok_def models_ok_def aliases_ok_def chunks_ok_def keys_ok_def unique_on_def refs_ok_def)
  moreover have "k_KeyHash sample_key = HashKey (BearerToken (bearer sample_raw))" by (simp add: sample_key_def sample_raw_token)
  ultimately show ?thesis
    using sample_raw_token
    by (intro allI revoked_key_stops [OF calm_env_calm(1), of "empty_db\<lparr>db_api_keys := [sample_key]\<rparr>" sample_key "bearer sample_raw" "[]" empty_db
          ascii_text create_request undefined]) simp_all
qed

theorem roles_need_credentials_witness:
  "\<exists>rep ev d'. serve_on (HandleMe (NewHandler \<lparr>hc_OnHTTPIdleConnTimeoutSaved = True, hc_OnRoutingChanged = True, hc_OnConfigChanged = True, hc_AccessKey = ''secret''\<rparr>)
     calm_env (bearer ''secret'')) empty_db = (rep, ev, d') \<and> rep = ReplyJSON 200 RoleAdmin \<and> d' = empty_db"
proof -
  let ?h = "NewHandler \<lparr>hc_OnHTTPIdleConnTimeoutSaved = True, hc_OnRoutingChanged = True, hc_OnConfigChanged = True, hc_AccessKey = ''secret''\<rparr>"
  obtain rep ev d' where s: "serve_on (HandleMe ?h calm_env (bearer ''secret'')) empty_db = (rep, ev, d')"
    by (cases "serve_on (HandleMe ?h calm_env (bearer ''secret'')) empty_db") auto
  have "ValidateAccessKey (h_accessKey ?h) (bearer ''secret'')" by code_simp
  then show ?thesis using roles_need_credentials [OF calm_env_calm(1) s] s by blast
qed

text \<open>
  The check of the name and the insertion are two calls: if another admin creates the same name between them, both get their key.
\<close>
theorem name_race:
  "let env = calm_env\<lparr>ae_others := (\<lambda>i d. if i = 1 then d\<lparr>db_api_keys := db_api_keys d @ [sample_key\<lparr>k_ID := ''other'', k_KeyHash := ''''\<rparr>]\<rparr> else d)\<rparr>;
       (rep, ev, d') = serve_on (HandleCreateAPIKey ascii_text env create_request) empty_db
   in reply_status rep = 201 \<and> map k_Name (db_api_keys d') = [''ci'', ''ci'']"
  by (simp add: serve_on_def HandleCreateAPIKey_def create_request_body trimmed_ci not_positive_def apiKeyNameTaken_def store_read_def store_write_def
      calm_env_def ListAPIKeys_def order_by_def empty_db_def done_with_def Let_def CreateAPIKey_def exec_def run_stmt_def insert_key_def no_fault_def
      sample_key_def show_nat.simps digit_def char_of_def bit_Suc_0_iff ascii_text_def HashKey_nonempty)

end
