(* ===== verification/Admin_Catalog.thy ===== *)
theory Admin_Catalog
  imports Admin_Http
begin

text \<open>
  The handlers of \<open>internal/admin/handler.go\<close> for providers, endpoints, models and aliases. Each
  is the whole handler: path parameters, decoding, checks in their order, store calls, the notification of the router
  and the reply.
\<close>

section \<open>Providers\<close>

record providerListItem =
  pi_Provider :: Provider
  pi_Models :: "string list"

datatype catalog_body =
    Providers "providerListItem list"
  | ProviderBody Provider
  | ProviderDetail Provider "ProviderEndpoint list" "ProviderModel list"
  | EndpointBody ProviderEndpoint
  | Aliases "ModelAlias list"
  | AliasBody ModelAlias
  | Models "ProviderModel list"

text \<open>The models grouped by provider in the order of the listing.\<close>

definition modelsByProvider :: "ProviderModel list \<Rightarrow> string \<Rightarrow> string list" where
  "modelsByProvider allModels pid = map m_ModelID (filter (\<lambda>m. m_ProviderID m = pid) allModels)"

definition HandleListProviders :: "admin_env \<Rightarrow> catalog_body reply act" where
  "HandleListProviders env = do {
     ps \<leftarrow> store_read env ListProviders;
     case ps of
       Inl e \<Rightarrow> done_with (ReplyError 500 ''failed to list providers'')
     | Inr providers \<Rightarrow> do {
         ms \<leftarrow> store_read env (\<lambda>flt ks. ListAllModels flt);
         done_with (case ms of
             Inl e \<Rightarrow> ReplyError 500 ''failed to list models''
           | Inr allModels \<Rightarrow> ReplyJSON 200 (Providers (map (\<lambda>p. \<lparr>pi_Provider = p, pi_Models = modelsByProvider allModels (p_ID p)\<rparr>) providers)))
       }
   }"

record provider_create =
  pc_Name :: string
  pc_BaseURL :: string
  pc_APIKey :: string

definition decode_provider_create :: "http_request \<Rightarrow> provider_create option" where
  "decode_provider_create r = (case body_members r of None \<Rightarrow> None | Some ms \<Rightarrow>
     (let (name, e1) = field dec_string '''' ''name'' ms;
          (url, e2) = field dec_string '''' ''base_url'' ms;
          (key, e3) = field dec_string '''' ''api_key'' ms
      in if e1 \<or> e2 \<or> e3 then None else Some \<lparr>pc_Name = name, pc_BaseURL = url, pc_APIKey = key\<rparr>))"

definition HandleCreateProvider :: "Handler \<Rightarrow> admin_env \<Rightarrow> http_request \<Rightarrow> catalog_body reply act" where
  "HandleCreateProvider h env r =
     (case decode_provider_create r of
        None \<Rightarrow> done_with (ReplyError 400 ''invalid JSON body'')
      | Some body \<Rightarrow>
          (if TrimSpace (pc_Name body) = '''' then done_with (ReplyError 400 ''name is required'')
           else if TrimSpace (pc_BaseURL body) = '''' then done_with (ReplyError 400 ''base_url is required'')
           else
             (let p = \<lparr>p_ID = ae_uuid env 0, p_Name = pc_Name body, p_BaseURL = pc_BaseURL body, p_APIKey = pc_APIKey body, p_IsHealthy = False,
                       p_HealthCheckedAt = None, p_CreatedAt = ae_now env, p_UpdatedAt = ae_now env, p_CBEnabled = True,
                       p_CBErrorThreshold = DefaultCircuitBreakerErrorThreshold, p_CBWindowSeconds = DefaultCircuitBreakerWindowSeconds,
                       p_CBCooldownSeconds = DefaultCircuitBreakerCooldownSeconds\<rparr>
              in do {
                res \<leftarrow> store_write env (\<lambda>flt. CreateProvider flt p);
                case res of
                  Inl e \<Rightarrow> done_with (ReplyError 500 ''failed to create provider'')
                | Inr u \<Rightarrow> do { notifyRoutingChanged h; done_with (ReplyJSON 201 (ProviderBody p)) }
              })))"

definition HandleGetProvider :: "admin_env \<Rightarrow> string \<Rightarrow> catalog_body reply act" where
  "HandleGetProvider env i =
     (if i = '''' then done_with (ReplyError 400 ''id is required'')
      else do {
        p \<leftarrow> store_read env (\<lambda>flt ks. GetProvider flt i);
        case p of
          Inl e \<Rightarrow> done_with (if is_no_rows e then ReplyError 404 ''provider not found'' else ReplyError 500 ''failed to get provider'')
        | Inr provider \<Rightarrow> do {
            es \<leftarrow> store_read env (\<lambda>flt ks. ListProviderEndpoints flt i);
            case es of
              Inl e \<Rightarrow> done_with (ReplyError 500 ''failed to list endpoints'')
            | Inr endpoints \<Rightarrow> do {
                ms \<leftarrow> store_read env (\<lambda>flt ks. ListProviderModels flt i);
                done_with (case ms of
                    Inl e \<Rightarrow> ReplyError 500 ''failed to list models''
                  | Inr providerModels \<Rightarrow> ReplyJSON 200 (ProviderDetail provider endpoints providerModels))
              }
          }
      })"

record provider_update =
  pu_Name :: string
  pu_BaseURL :: string
  pu_APIKey :: string
  pu_CBEnabled :: "bool option"
  pu_CBErrorThreshold :: "float64 option"
  pu_CBWindowSeconds :: "int option"
  pu_CBCooldownSeconds :: "int option"

definition decode_provider_update :: "http_request \<Rightarrow> provider_update option" where
  "decode_provider_update r = (case body_members r of None \<Rightarrow> None | Some ms \<Rightarrow>
     (let (name, e1) = field dec_string '''' ''name'' ms;
          (url, e2) = field dec_string '''' ''base_url'' ms;
          (key, e3) = field dec_string '''' ''api_key'' ms;
          (en, e4) = field (dec_ptr dec_bool False) None ''circuit_breaker_enabled'' ms;
          (th, e5) = field (dec_ptr dec_float 0) None ''circuit_breaker_error_threshold'' ms;
          (wi, e6) = field (dec_ptr dec_int 0) None ''circuit_breaker_window_seconds'' ms;
          (co, e7) = field (dec_ptr dec_int 0) None ''circuit_breaker_cooldown_seconds'' ms
      in if e1 \<or> e2 \<or> e3 \<or> e4 \<or> e5 \<or> e6 \<or> e7 then None
         else Some \<lparr>pu_Name = name, pu_BaseURL = url, pu_APIKey = key, pu_CBEnabled = en, pu_CBErrorThreshold = th, pu_CBWindowSeconds = wi,
                    pu_CBCooldownSeconds = co\<rparr>))"

definition given :: "'a option \<Rightarrow> 'a \<Rightarrow> 'a" where
  "given x old = (case x of None \<Rightarrow> old | Some y \<Rightarrow> y)"

definition merged_provider :: "provider_update \<Rightarrow> time \<Rightarrow> Provider \<Rightarrow> Provider" where
  "merged_provider body now existing =
     (NormalizeCircuitBreaker (existing\<lparr>p_Name := pu_Name body, p_BaseURL := pu_BaseURL body,
        p_APIKey := (if pu_APIKey body \<noteq> '''' then pu_APIKey body else p_APIKey existing),
        p_CBEnabled := given (pu_CBEnabled body) (p_CBEnabled existing),
        p_CBErrorThreshold := given (pu_CBErrorThreshold body) (p_CBErrorThreshold existing),
        p_CBWindowSeconds := given (pu_CBWindowSeconds body) (p_CBWindowSeconds existing),
        p_CBCooldownSeconds := given (pu_CBCooldownSeconds body) (p_CBCooldownSeconds existing)\<rparr>))\<lparr>p_UpdatedAt := now\<rparr>"

definition HandleUpdateProvider :: "Handler \<Rightarrow> admin_env \<Rightarrow> string \<Rightarrow> http_request \<Rightarrow> catalog_body reply act" where
  "HandleUpdateProvider h env i r =
     (if i = '''' then done_with (ReplyError 400 ''id is required'')
      else case decode_provider_update r of
        None \<Rightarrow> done_with (ReplyError 400 ''invalid JSON body'')
      | Some body \<Rightarrow>
          (if TrimSpace (pu_Name body) = '''' then done_with (ReplyError 400 ''name is required'')
           else if TrimSpace (pu_BaseURL body) = '''' then done_with (ReplyError 400 ''base_url is required'')
           else if (case pu_CBErrorThreshold body of None \<Rightarrow> False | Some t \<Rightarrow> t \<le> 0 \<or> t > 1)
           then done_with (ReplyError 400 ''circuit_breaker_error_threshold must be > 0 and <= 1'')
           else if (case pu_CBWindowSeconds body of None \<Rightarrow> False | Some n \<Rightarrow> n \<le> 0)
           then done_with (ReplyError 400 ''circuit_breaker_window_seconds must be > 0'')
           else if (case pu_CBCooldownSeconds body of None \<Rightarrow> False | Some n \<Rightarrow> n \<le> 0)
           then done_with (ReplyError 400 ''circuit_breaker_cooldown_seconds must be > 0'')
           else do {
             p \<leftarrow> store_read env (\<lambda>flt ks. GetProvider flt i);
             case p of
               Inl e \<Rightarrow> done_with (if is_no_rows e then ReplyError 404 ''provider not found'' else ReplyError 500 ''failed to get provider'')
             | Inr existing \<Rightarrow>
                 (let merged = merged_provider body (ae_now env) existing
                  in do {
                    res \<leftarrow> store_write env (\<lambda>flt. UpdateProvider flt merged);
                    case res of
                      Inl e \<Rightarrow> done_with (ReplyError 500 ''failed to update provider'')
                    | Inr u \<Rightarrow> do { notifyRoutingChanged h; done_with (ReplyJSON 200 (ProviderBody merged)) }
                  })
           }))"

definition HandleDeleteProvider :: "Handler \<Rightarrow> admin_env \<Rightarrow> string \<Rightarrow> catalog_body reply act" where
  "HandleDeleteProvider h env i =
     (if i = '''' then done_with (ReplyError 400 ''id is required'')
      else do {
        res \<leftarrow> store_write env (\<lambda>flt. DeleteProvider flt i);
        case res of
          Inl e \<Rightarrow> done_with (if is_no_rows e then ReplyError 404 ''provider not found'' else ReplyError 500 ''failed to delete provider'')
        | Inr u \<Rightarrow> do { notifyRoutingChanged h; done_with ReplyNoContent }
      })"

definition decode_enabled :: "http_request \<Rightarrow> bool option option" where
  "decode_enabled r = (case body_members r of None \<Rightarrow> None | Some ms \<Rightarrow>
     (let (en, e) = field (dec_ptr dec_bool False) None ''is_enabled'' ms in if e then None else Some en))"

definition HandleUpdateEndpoint :: "Handler \<Rightarrow> admin_env \<Rightarrow> string \<Rightarrow> string \<Rightarrow> http_request \<Rightarrow> catalog_body reply act" where
  "HandleUpdateEndpoint h env pid eid r =
     (if pid = '''' \<or> eid = '''' then done_with (ReplyError 400 ''provider id and endpoint id are required'')
      else case decode_enabled r of
        None \<Rightarrow> done_with (ReplyError 400 ''invalid JSON body'')
      | Some None \<Rightarrow> done_with (ReplyError 400 ''is_enabled is required'')
      | Some (Some enabled) \<Rightarrow> do {
          es \<leftarrow> store_read env (\<lambda>flt ks. ListProviderEndpoints flt pid);
          case es of
            Inl e \<Rightarrow> done_with (ReplyError 500 ''failed to list endpoints'')
          | Inr endpoints \<Rightarrow>
              (case find (\<lambda>e. e_ID e = eid) endpoints of
                 None \<Rightarrow> done_with (ReplyError 404 ''endpoint not found'')
               | Some target \<Rightarrow>
                   (let target' = target\<lparr>e_IsEnabled := enabled\<rparr>
                    in do {
                      res \<leftarrow> store_write env (\<lambda>flt. UpdateProviderEndpoint flt target');
                      case res of
                        Inl e \<Rightarrow> done_with (ReplyError 500 ''failed to update endpoint'')
                      | Inr u \<Rightarrow> do { notifyRoutingChanged h; done_with (ReplyJSON 200 (EndpointBody target')) }
                    }))
        })"

section \<open>Aliases\<close>

definition HandleListAliases :: "admin_env \<Rightarrow> catalog_body reply act" where
  "HandleListAliases env = do {
     res \<leftarrow> store_read env ListAliases;
     done_with (case res of Inl e \<Rightarrow> ReplyError 500 ''failed to list aliases'' | Inr aliases \<Rightarrow> ReplyJSON 200 (Aliases aliases))
   }"

record alias_create =
  al_Alias :: string
  al_ProviderID :: string
  al_ModelID :: string
  al_Weight :: "int option"
  al_Priority :: "int option"

definition decode_alias_create :: "http_request \<Rightarrow> alias_create option" where
  "decode_alias_create r = (case body_members r of None \<Rightarrow> None | Some ms \<Rightarrow>
     (let (al, e1) = field dec_string '''' ''alias'' ms;
          (pid, e2) = field dec_string '''' ''provider_id'' ms;
          (mid, e3) = field dec_string '''' ''model_id'' ms;
          (we, e4) = field (dec_ptr dec_int 0) None ''weight'' ms;
          (pr, e5) = field (dec_ptr dec_int 0) None ''priority'' ms
      in if e1 \<or> e2 \<or> e3 \<or> e4 \<or> e5 then None
         else Some \<lparr>al_Alias = al, al_ProviderID = pid, al_ModelID = mid, al_Weight = we, al_Priority = pr\<rparr>))"

definition HandleCreateAlias :: "Handler \<Rightarrow> admin_env \<Rightarrow> http_request \<Rightarrow> catalog_body reply act" where
  "HandleCreateAlias h env r =
     (case decode_alias_create r of
        None \<Rightarrow> done_with (ReplyError 400 ''invalid JSON body'')
      | Some body \<Rightarrow>
          (if TrimSpace (al_Alias body) = '''' then done_with (ReplyError 400 ''alias is required'')
           else if TrimSpace (al_ProviderID body) = '''' then done_with (ReplyError 400 ''provider_id is required'')
           else if TrimSpace (al_ModelID body) = '''' then done_with (ReplyError 400 ''model_id is required'')
           else do {
             p \<leftarrow> store_read env (\<lambda>flt ks. GetProvider flt (al_ProviderID body));
             case p of
               Inl e \<Rightarrow> done_with (if is_no_rows e then ReplyError 400 ''unknown provider'' else ReplyError 500 ''failed to verify provider'')
             | Inr provider \<Rightarrow>
                 (let a = \<lparr>a_ID = ae_uuid env 0, a_Alias = al_Alias body, a_ProviderID = al_ProviderID body, a_ModelID = al_ModelID body,
                           a_Weight = given (al_Weight body) 1, a_Priority = given (al_Priority body) 0, a_IsEnabled = True,
                           a_CreatedAt = ae_now env, a_UpdatedAt = ae_now env\<rparr>
                  in do {
                    res \<leftarrow> store_write env (\<lambda>flt. CreateAlias flt a);
                    case res of
                      Inl e \<Rightarrow> done_with (ReplyError 500 ''failed to create alias'')
                    | Inr u \<Rightarrow> do { notifyRoutingChanged h; done_with (ReplyJSON 201 (AliasBody a)) }
                  })
           }))"

record alias_update =
  au_Alias :: "string option"
  au_ProviderID :: "string option"
  au_ModelID :: "string option"
  au_Weight :: "int option"
  au_Priority :: "int option"
  au_IsEnabled :: "bool option"

definition decode_alias_update :: "http_request \<Rightarrow> alias_update option" where
  "decode_alias_update r = (case body_members r of None \<Rightarrow> None | Some ms \<Rightarrow>
     (let (al, e1) = field (dec_ptr dec_string '''') None ''alias'' ms;
          (pid, e2) = field (dec_ptr dec_string '''') None ''provider_id'' ms;
          (mid, e3) = field (dec_ptr dec_string '''') None ''model_id'' ms;
          (we, e4) = field (dec_ptr dec_int 0) None ''weight'' ms;
          (pr, e5) = field (dec_ptr dec_int 0) None ''priority'' ms;
          (en, e6) = field (dec_ptr dec_bool False) None ''is_enabled'' ms
      in if e1 \<or> e2 \<or> e3 \<or> e4 \<or> e5 \<or> e6 then None
         else Some \<lparr>au_Alias = al, au_ProviderID = pid, au_ModelID = mid, au_Weight = we, au_Priority = pr, au_IsEnabled = en\<rparr>))"

definition merged_alias :: "alias_update \<Rightarrow> time \<Rightarrow> ModelAlias \<Rightarrow> ModelAlias" where
  "merged_alias body now target =
     target\<lparr>a_Alias := (case au_Alias body of None \<Rightarrow> a_Alias target | Some x \<Rightarrow> TrimSpace x),
       a_ProviderID := (case au_ProviderID body of None \<Rightarrow> a_ProviderID target | Some x \<Rightarrow> TrimSpace x),
       a_ModelID := (case au_ModelID body of None \<Rightarrow> a_ModelID target | Some x \<Rightarrow> TrimSpace x),
       a_Weight := given (au_Weight body) (a_Weight target), a_Priority := given (au_Priority body) (a_Priority target),
       a_IsEnabled := given (au_IsEnabled body) (a_IsEnabled target), a_UpdatedAt := now\<rparr>"

definition blank :: "string option \<Rightarrow> bool" where
  "blank x = (case x of None \<Rightarrow> False | Some s \<Rightarrow> TrimSpace s = '''')"

text \<open>The provider is looked up only when the body names one.\<close>

definition verify_provider :: "admin_env \<Rightarrow> string option \<Rightarrow> catalog_body reply option act" where
  "verify_provider env x =
     (case x of
        None \<Rightarrow> State_Monad.return None
      | Some s \<Rightarrow>
          (if TrimSpace s = '''' then State_Monad.return (Some (ReplyError 400 ''provider_id cannot be empty''))
           else do {
             p \<leftarrow> store_read env (\<lambda>flt ks. GetProvider flt (TrimSpace s));
             State_Monad.return (case p of
                 Inl e \<Rightarrow> Some (if is_no_rows e then ReplyError 400 ''unknown provider'' else ReplyError 500 ''failed to verify provider'')
               | Inr provider \<Rightarrow> None)
           }))"

definition HandleUpdateAlias :: "Handler \<Rightarrow> admin_env \<Rightarrow> string \<Rightarrow> http_request \<Rightarrow> catalog_body reply act" where
  "HandleUpdateAlias h env i r =
     (if i = '''' then done_with (ReplyError 400 ''id is required'')
      else case decode_alias_update r of
        None \<Rightarrow> done_with (ReplyError 400 ''invalid JSON body'')
      | Some body \<Rightarrow> do {
          as \<leftarrow> store_read env ListAliases;
          case as of
            Inl e \<Rightarrow> done_with (ReplyError 500 ''failed to list aliases'')
          | Inr aliases \<Rightarrow>
              (case find (\<lambda>a. a_ID a = i) aliases of
                 None \<Rightarrow> done_with (ReplyError 404 ''alias not found'')
               | Some target \<Rightarrow>
                   (if blank (au_Alias body) then done_with (ReplyError 400 ''alias cannot be empty'')
                    else do {
                      bad \<leftarrow> verify_provider env (au_ProviderID body);
                      case bad of
                        Some rep \<Rightarrow> done_with rep
                      | None \<Rightarrow>
                          (if blank (au_ModelID body) then done_with (ReplyError 400 ''model_id cannot be empty'')
                           else
                             (let target' = merged_alias body (ae_now env) target
                              in do {
                                res \<leftarrow> store_write env (\<lambda>flt. UpdateAlias flt target');
                                case res of
                                  Inl e \<Rightarrow> done_with (ReplyError 500 ''failed to update alias'')
                                | Inr u \<Rightarrow> do { notifyRoutingChanged h; done_with (ReplyJSON 200 (AliasBody target')) }
                              }))
                    }))
        })"

definition HandleDeleteAlias :: "Handler \<Rightarrow> admin_env \<Rightarrow> string \<Rightarrow> catalog_body reply act" where
  "HandleDeleteAlias h env i =
     (if i = '''' then done_with (ReplyError 400 ''id is required'')
      else do {
        res \<leftarrow> store_write env (\<lambda>flt. DeleteAlias flt i);
        case res of
          Inl e \<Rightarrow> done_with (if is_no_rows e then ReplyError 404 ''alias not found'' else ReplyError 500 ''failed to delete alias'')
        | Inr u \<Rightarrow> do { notifyRoutingChanged h; done_with ReplyNoContent }
      })"

section \<open>Models\<close>

record model_update =
  mu_IsAvailable :: "bool option"
  mu_Input :: "float64 option"
  mu_Output :: "float64 option"
  mu_CacheRead :: "float64 option"
  mu_CacheWrite :: "float64 option"
  mu_MaxContext :: "int option"

definition decode_model_update :: "http_request \<Rightarrow> model_update option" where
  "decode_model_update r = (case body_members r of None \<Rightarrow> None | Some ms \<Rightarrow>
     (let (av, e1) = field (dec_ptr dec_bool False) None ''is_available'' ms;
          (ci, e2) = field (dec_ptr dec_float 0) None ''cost_per_million_input'' ms;
          (co, e3) = field (dec_ptr dec_float 0) None ''cost_per_million_output'' ms;
          (cr, e4) = field (dec_ptr dec_float 0) None ''cost_per_million_cache_read'' ms;
          (cw, e5) = field (dec_ptr dec_float 0) None ''cost_per_million_cache_write'' ms;
          (mc, e6) = field (dec_ptr dec_int 0) None ''max_context'' ms
      in if e1 \<or> e2 \<or> e3 \<or> e4 \<or> e5 \<or> e6 then None
         else Some \<lparr>mu_IsAvailable = av, mu_Input = ci, mu_Output = co, mu_CacheRead = cr, mu_CacheWrite = cw, mu_MaxContext = mc\<rparr>))"

definition costs_of :: "model_update \<Rightarrow> ProviderModel" where
  "costs_of body = (new_model '''' '''' '''' 0)\<lparr>m_CostPerMillionInput := mu_Input body, m_CostPerMillionOutput := mu_Output body,
     m_CostPerMillionCacheRead := mu_CacheRead body, m_CostPerMillionCacheWrite := mu_CacheWrite body, m_MaxContext := mu_MaxContext body\<rparr>"

definition hasCostUpdate :: "model_update \<Rightarrow> bool" where
  "hasCostUpdate body \<longleftrightarrow> mu_Input body \<noteq> None \<or> mu_Output body \<noteq> None \<or> mu_CacheRead body \<noteq> None \<or> mu_CacheWrite body \<noteq> None \<or> mu_MaxContext body \<noteq> None"

text \<open>The listing with which the three handlers of models end; the router is told after the reply is written.\<close>

definition reply_models :: "Handler \<Rightarrow> admin_env \<Rightarrow> string \<Rightarrow> int \<Rightarrow> catalog_body reply act" where
  "reply_models h env pid status = do {
     ms \<leftarrow> store_read env (\<lambda>flt ks. ListProviderModels flt pid);
     case ms of
       Inl e \<Rightarrow> done_with (ReplyError 500 ''failed to list models'')
     | Inr providerModels \<Rightarrow> do { notifyRoutingChanged h; done_with (ReplyJSON status (Models providerModels)) }
   }"

definition model_missing :: "store_error \<Rightarrow> string \<Rightarrow> catalog_body reply" where
  "model_missing e msg = (if is_no_rows e then ReplyError 404 ''model not found'' else ReplyError 500 msg)"

definition HandleUpdateProviderModel :: "Handler \<Rightarrow> admin_env \<Rightarrow> string \<Rightarrow> string \<Rightarrow> http_request \<Rightarrow> catalog_body reply act" where
  "HandleUpdateProviderModel h env pid mid r =
     (if pid = '''' \<or> mid = '''' then done_with (ReplyError 400 ''provider id and model id are required'')
      else case decode_model_update r of
        None \<Rightarrow> done_with (ReplyError 400 ''invalid JSON body'')
      | Some body \<Rightarrow> do {
          av \<leftarrow> (case mu_IsAvailable body of
                   None \<Rightarrow> State_Monad.return (Inr ())
                 | Some b \<Rightarrow> store_write env (\<lambda>flt. UpdateProviderModelAvailability flt pid mid b));
          case av of
            Inl e \<Rightarrow> done_with (model_missing e ''failed to update model availability'')
          | Inr u \<Rightarrow> do {
              co \<leftarrow> (if hasCostUpdate body then store_write env (\<lambda>flt. UpdateProviderModelCosts flt mid (costs_of body)) else State_Monad.return (Inr ()));
              case co of
                Inl e \<Rightarrow> done_with (model_missing e ''failed to update model costs'')
              | Inr u \<Rightarrow>
                  (if mu_IsAvailable body = None \<and> \<not> hasCostUpdate body then done_with (ReplyError 400 ''no fields to update'')
                   else reply_models h env pid 200)
            }
        })"

definition decode_model_add :: "http_request \<Rightarrow> (string \<times> int option) option" where
  "decode_model_add r = (case body_members r of None \<Rightarrow> None | Some ms \<Rightarrow>
     (let (mid, e1) = field dec_string '''' ''model_id'' ms;
          (mc, e2) = field (dec_ptr dec_int 0) None ''max_context'' ms
      in if e1 \<or> e2 then None else Some (mid, mc)))"

definition HandleAddProviderModel :: "Handler \<Rightarrow> admin_env \<Rightarrow> string \<Rightarrow> http_request \<Rightarrow> catalog_body reply act" where
  "HandleAddProviderModel h env pid r =
     (if pid = '''' then done_with (ReplyError 400 ''provider id is required'')
      else do {
        p \<leftarrow> store_read env (\<lambda>flt ks. GetProvider flt pid);
        case p of
          Inl e \<Rightarrow> done_with (if is_no_rows e then ReplyError 404 ''provider not found'' else ReplyError 500 ''failed to get provider'')
        | Inr provider \<Rightarrow>
            (case decode_model_add r of
               None \<Rightarrow> done_with (ReplyError 400 ''invalid JSON body'')
             | Some (mid, maxContext) \<Rightarrow>
                 (let modelID = TrimSpace mid
                  in if modelID = '''' then done_with (ReplyError 400 ''model_id is required'')
                     else do {
                       c \<leftarrow> store_read env (\<lambda>flt ks. GetProviderModelCosts flt pid modelID);
                       case c of
                         Inl e \<Rightarrow> done_with (ReplyError 500 ''failed to check existing model'')
                       | Inr existing \<Rightarrow>
                           (if existing \<noteq> None then done_with (ReplyError 409 ''model already configured for this provider'')
                            else do {
                              res \<leftarrow> store_write env (\<lambda>flt. CreateProviderModel flt ((new_model (ae_uuid env 0) pid modelID (ae_now env))\<lparr>m_MaxContext := maxContext\<rparr>));
                              case res of
                                Inl e \<Rightarrow> done_with (ReplyError 500 ''failed to add model'')
                              | Inr u \<Rightarrow> reply_models h env pid 201
                            })
                     }))
      })"

definition HandleDeleteProviderModel :: "Handler \<Rightarrow> admin_env \<Rightarrow> string \<Rightarrow> string \<Rightarrow> catalog_body reply act" where
  "HandleDeleteProviderModel h env pid mid =
     (if pid = '''' \<or> mid = '''' then done_with (ReplyError 400 ''provider id and model id are required'')
      else do {
        res \<leftarrow> store_write env (\<lambda>flt. DeleteProviderModel flt pid mid);
        case res of
          Inl e \<Rightarrow> done_with (model_missing e ''failed to delete model'')
        | Inr u \<Rightarrow> reply_models h env pid 200
      })"

section \<open>What an update of a provider stores\<close>

lemma update_row_scan:
  "NormalizeCircuitBreaker p = p \<Longrightarrow> p_ID p = pr_id r \<Longrightarrow> p_IsHealthy p = pr_is_healthy r \<Longrightarrow> p_HealthCheckedAt p = pr_health_checked_at r \<Longrightarrow>
   p_CreatedAt p = pr_created_at r \<Longrightarrow>
   scanProvider (r\<lparr>pr_name := p_Name p, pr_base_url := p_BaseURL p, pr_api_key := nullStr (p_APIKey p), pr_updated_at := p_UpdatedAt p,
     pr_cb_enabled := p_CBEnabled p, pr_cb_error_threshold := p_CBErrorThreshold p, pr_cb_window_seconds := p_CBWindowSeconds p,
     pr_cb_cooldown_seconds := p_CBCooldownSeconds p\<rparr>) = p"
  by (simp add: scanProvider_def)

lemma merged_provider_frame:
  "p_ID (merged_provider body now p) = p_ID p" "p_IsHealthy (merged_provider body now p) = p_IsHealthy p"
  "p_HealthCheckedAt (merged_provider body now p) = p_HealthCheckedAt p" "p_CreatedAt (merged_provider body now p) = p_CreatedAt p"
  by (simp_all add: merged_provider_def NormalizeCircuitBreaker_def Let_def)

lemma merged_provider_normal: "NormalizeCircuitBreaker (merged_provider body now p) = merged_provider body now p" "cb_settings_ok (merged_provider body now p)"
proof -
  let ?q = "NormalizeCircuitBreaker (p\<lparr>p_Name := pu_Name body, p_BaseURL := pu_BaseURL body,
        p_APIKey := (if pu_APIKey body \<noteq> '''' then pu_APIKey body else p_APIKey p), p_CBEnabled := given (pu_CBEnabled body) (p_CBEnabled p),
        p_CBErrorThreshold := given (pu_CBErrorThreshold body) (p_CBErrorThreshold p), p_CBWindowSeconds := given (pu_CBWindowSeconds body) (p_CBWindowSeconds p),
        p_CBCooldownSeconds := given (pu_CBCooldownSeconds body) (p_CBCooldownSeconds p)\<rparr>)"
  have "cb_settings_ok ?q" by (rule NormalizeCircuitBreaker_ok)
  then show "cb_settings_ok (merged_provider body now p)" by (simp add: merged_provider_def cb_settings_ok_def)
  then show "NormalizeCircuitBreaker (merged_provider body now p) = merged_provider body now p" by (rule NormalizeCircuitBreaker_id)
qed

lemma GetProvider_alone: "GetProvider no_fault i d = (case filter (\<lambda>r. pr_id r = i) (db_providers d) of [] \<Rightarrow> Inl (StoreError ''get provider'' ErrNoRows) | r # rs \<Rightarrow> Inr (scanProvider r))"
  by (simp add: GetProvider_def query_row_def no_fault_def split: list.split)


definition update_request :: http_request where
  "update_request = admin_request ''{\"name\":\"n\",\"base_url\":\"u\"}''"

lemma fold_name_c: "fold_name (CHR ''c'' # s) = CHR ''C'' # fold_name s"
  by (simp add: HasPrefix_def char_of_def bit_Suc_0_iff)

lemma update_request_body:
  "decode_provider_update update_request = Some \<lparr>pu_Name = ''n'', pu_BaseURL = ''u'', pu_APIKey = '''', pu_CBEnabled = None, pu_CBErrorThreshold = None,
     pu_CBWindowSeconds = None, pu_CBCooldownSeconds = None\<rparr>"
proof -
  let ?ms = "[(''name'', JStr ''n''), (''base_url'', JStr ''u'')]"
  have "body_members update_request = Some ?ms" by code_simp
  moreover have "field dec_string '''' ''name'' ?ms = (''n'', False)" "field dec_string '''' ''base_url'' ?ms = (''u'', False)"
    "field dec_string '''' ''api_key'' ?ms = ('''', False)" by code_simp+
  moreover have "fold_name (unquote ''name'') = ''NAME''" "fold_name (unquote ''base_url'') = ''BASE_URL''" by code_simp+
  then have "field_values ''circuit_breaker_enabled'' ?ms = []" "field_values ''circuit_breaker_error_threshold'' ?ms = []"
    "field_values ''circuit_breaker_window_seconds'' ?ms = []" "field_values ''circuit_breaker_cooldown_seconds'' ?ms = []"
    by (simp_all only: field_values_def filter.simps prod.case fold_name_c list.inject char.inject if_False list.map) simp_all
  ultimately show ?thesis
    by (simp add: decode_provider_update_def field_def [of "dec_ptr dec_bool False"] field_def [of "dec_ptr dec_float 0"] field_def [of "dec_ptr dec_int 0"] decode_all_def)
qed


text \<open>
  The prices of a model are set under its own identifier alone: the provider of the path does not have to be the one that offers the model.
\<close>
theorem costs_ignore_provider:
  assumes "undisturbed env" and "faultless env" and "pid \<noteq> ''''" and "mid \<noteq> ''''" and "decode_model_update r = Some body" and "mu_IsAvailable body = None"
    and "hasCostUpdate body" and "m \<in> set (db_models d)" and "m_ID m = mid"
  shows "let (rep, ev, d') = serve_on (HandleUpdateProviderModel h env pid mid r) d
    in reply_status rep = 200 \<and> (\<exists>m' \<in> set (db_models d'). m_ID m' = mid \<and> m_ProviderID m' = m_ProviderID m \<and> m_CostPerMillionInput m' = mu_Input body)"
proof -
  define f where "f = (\<lambda>m :: ProviderModel. if m_ID m = mid then m\<lparr>m_CostPerMillionInput := mu_Input body, m_CostPerMillionOutput := mu_Output body,
    m_CostPerMillionCacheRead := mu_CacheRead body, m_CostPerMillionCacheWrite := mu_CacheWrite body, m_MaxContext := mu_MaxContext body\<rparr> else m)"
  have "filter (\<lambda>m. m_ID m = mid) (db_models d) \<noteq> []" using assms(8,9) by (auto simp: filter_empty_conv)
  then have u: "UpdateProviderModelCosts no_fault mid (costs_of body) d = (Inr (), d\<lparr>db_models := map f (db_models d)\<rparr>)"
    by (simp add: UpdateProviderModelCosts_def exec_rows_def run_stmt_def update_models_def no_fault_def costs_of_def f_def)
  have "f m \<in> set (map f (db_models d)) \<and> m_ID (f m) = mid \<and> m_ProviderID (f m) = m_ProviderID m \<and> m_CostPerMillionInput (f m) = mu_Input body"
    using assms(8,9) by (simp add: f_def)
  then have "\<exists>m' \<in> set (map f (db_models d)). m_ID m' = mid \<and> m_ProviderID m' = m_ProviderID m \<and> m_CostPerMillionInput m' = mu_Input body" by blast
  then show ?thesis
    using assms(1-7) u
    by (simp add: serve_on_def HandleUpdateProviderModel_def undisturbed_def faultless_def store_write_def store_read_def reply_models_def ListProviderModels_def
        notifyRoutingChanged_def announce_def done_with_def)
qed

end
