(* ===== verification/Admin_Onboard.thy ===== *)
theory Admin_Onboard
  imports Admin_Http
begin

text \<open>
  Taking a provider into service (\<open>internal/admin/onboard.go\<close>): \<open>HandleDiscover\<close> asks the provider's
  backend for its models and probes its endpoints without storing anything, \<open>HandleConfirm\<close> stores what the
  user confirmed. The backend, the texts of the errors of \<open>net/http\<close> and \<open>encoding/json\<close>, and which URLs
  \<open>http.NewRequest\<close> refuses are arguments.
\<close>

section \<open>Asking the backend\<close>

record out_request =
  or_Method :: string
  or_URL :: string
  or_Header :: header
  or_Body :: string

record backend =
  bk_badURL :: "string \<Rightarrow> string option"
  bk_do :: "out_request \<Rightarrow> string + int \<times> (string + string)"  \<comment> \<open>a transport error, or the status and what reading the body gives\<close>
  bk_jsonError :: "string \<Rightarrow> string"

definition out_headers :: "header \<Rightarrow> string \<Rightarrow> header" where
  "out_headers base apiKey = (if apiKey \<noteq> '''' then hdr_set ''Authorization'' (''Bearer '' @ apiKey) base else base)"

definition dec_model_entry :: "string \<Rightarrow> json \<Rightarrow> string \<times> bool" where
  "dec_model_entry = dec_struct (\<lambda>x ms. decode_all dec_string x (field_values ''id'' ms))"

definition dec_models :: "string list \<Rightarrow> (string \<times> json) list \<Rightarrow> string list \<times> bool" where
  "dec_models x ms = decode_all (dec_slice dec_model_entry '''') x (field_values ''data'' ms)"

definition discoverModels :: "backend \<Rightarrow> string \<Rightarrow> string \<Rightarrow> string + string list" where
  "discoverModels bk baseURL apiKey =
     (case bk_badURL bk (baseURL @ ''/v1/models'') of
        Some err \<Rightarrow> Inl (''building models request: '' @ err)
      | None \<Rightarrow>
          (case bk_do bk \<lparr>or_Method = ''GET'', or_URL = baseURL @ ''/v1/models'', or_Header = out_headers [] apiKey, or_Body = ''''\<rparr> of
             Inl err \<Rightarrow> Inl (''fetching models: '' @ err)
           | Inr (status, body) \<Rightarrow>
               (if status < 200 \<or> status \<ge> 300 then Inl (''models endpoint returned status '' @ Itoa status)
                else case body of
                  Inl err \<Rightarrow> Inl (''reading models response: '' @ err)
                | Inr raw \<Rightarrow>
                    (let (ids, bad) = unmarshal_struct dec_models [] raw
                     in if bad then Inl (''parsing models response: '' @ bk_jsonError bk raw)
                        else if ids = [] then Inl ''provider returned no models''
                        else Inr ids))))"

text \<open>\<open>Some True\<close>: 2xx; \<open>Some False\<close>: 404; \<open>None\<close>: unknown. The caller drops the error.\<close>

definition probeEndpoint :: "backend \<Rightarrow> string \<Rightarrow> string \<Rightarrow> string \<Rightarrow> string \<Rightarrow> bool option" where
  "probeEndpoint bk baseURL apiKey path probeBody =
     (case bk_badURL bk (baseURL @ path) of
        Some err \<Rightarrow> None
      | None \<Rightarrow>
          (case bk_do bk \<lparr>or_Method = ''POST'', or_URL = baseURL @ path, or_Header = out_headers [(''Content-Type'', [''application/json''])] apiKey,
                         or_Body = probeBody\<rparr> of
             Inl err \<Rightarrow> None
           | Inr (status, body) \<Rightarrow> if 200 \<le> status \<and> status < 300 then Some True else if status = 404 then Some False else None))"

record discoverEndpoint =
  de_Path :: string
  de_Method :: string
  de_IsSupported :: "bool option"

datatype onboard_body = Discovered "string list" "discoverEndpoint list" | Confirmed Provider "ProviderEndpoint list" "ProviderModel list"

text \<open>The paths with their probe bodies; the last three are listed but not probed.\<close>

definition probe_specs :: "string \<Rightarrow> (string \<times> string option) list" where
  "probe_specs firstModel =
     (let model = (''model'', JStr (quote firstModel)) in
      [(''/v1/chat/completions'', Some (json_print (JObj [(''max_tokens'', JNum ''1''),
          (''messages'', JArr [JObj [(''content'', JStr ''hi''), (''role'', JStr ''user'')]]), model]))),
       (''/v1/completions'', Some (json_print (JObj [(''max_tokens'', JNum ''1''), model, (''prompt'', JStr ''hi'')]))),
       (''/v1/embeddings'', Some (json_print (JObj [(''input'', JStr ''test''), model]))),
       (''/api/show'', Some (json_print (JObj [model]))),
       (''/v1/images/generations'', None), (''/v1/audio/speech'', None), (''/v1/audio/transcriptions'', None)])"

definition HandleDiscover :: "backend \<Rightarrow> admin_env \<Rightarrow> string \<Rightarrow> onboard_body reply act" where
  "HandleDiscover bk env i = do {
     p \<leftarrow> store_read env (\<lambda>flt ks. GetProvider flt i);
     case p of
       Inl e \<Rightarrow> done_with (if is_no_rows e then ReplyError 404 ''provider not found'' else ReplyError 500 ''failed to get provider'')
     | Inr provider \<Rightarrow>
         (let baseURL = TrimRight (p_BaseURL provider) (CHR ''/'')
          in case discoverModels bk baseURL (p_APIKey provider) of
               Inl err \<Rightarrow> done_with (ReplyError 502 (''failed to reach provider: '' @ err))
             | Inr [] \<Rightarrow> done_with (ReplyError 502 ''provider returned no models'')
             | Inr (firstModel # rest) \<Rightarrow>
                 done_with (ReplyJSON 200 (Discovered (firstModel # rest)
                   (map (\<lambda>(path, body). \<lparr>de_Path = path, de_Method = ''POST'',
                      de_IsSupported = (case body of None \<Rightarrow> None | Some b \<Rightarrow> probeEndpoint bk baseURL (p_APIKey provider) path b)\<rparr>)
                     (probe_specs firstModel)))))
   }"

section \<open>Storing what was confirmed\<close>

record confirmEndpointEntry =
  ce_Path :: string
  ce_Method :: string
  ce_IsSupported :: bool
  ce_IsEnabled :: bool

record confirmRequest =
  cr_Endpoints :: "confirmEndpointEntry list"
  cr_Models :: "string list"

definition dec_confirm_entry :: "confirmEndpointEntry \<Rightarrow> json \<Rightarrow> confirmEndpointEntry \<times> bool" where
  "dec_confirm_entry = dec_struct (\<lambda>x ms.
     (let (pa, e1) = decode_all dec_string (ce_Path x) (field_values ''path'' ms);
          (me, e2) = decode_all dec_string (ce_Method x) (field_values ''method'' ms);
          (su, e3) = decode_all dec_bool (ce_IsSupported x) (field_values ''is_supported'' ms);
          (en, e4) = decode_all dec_bool (ce_IsEnabled x) (field_values ''is_enabled'' ms)
      in (\<lparr>ce_Path = pa, ce_Method = me, ce_IsSupported = su, ce_IsEnabled = en\<rparr>, e1 \<or> e2 \<or> e3 \<or> e4)))"

definition decode_confirm :: "http_request \<Rightarrow> confirmRequest option" where
  "decode_confirm r = (case body_members r of None \<Rightarrow> None | Some ms \<Rightarrow>
     (let (es, e1) = field (dec_slice dec_confirm_entry \<lparr>ce_Path = '''', ce_Method = '''', ce_IsSupported = False, ce_IsEnabled = False\<rparr>) [] ''endpoints'' ms;
          (mids, e2) = field (dec_slice dec_string '''') [] ''models'' ms
      in if e1 \<or> e2 then None else Some \<lparr>cr_Endpoints = es, cr_Models = mids\<rparr>))"

definition mergeProviderModelIDs :: "string list \<Rightarrow> ProviderModel list \<Rightarrow> string list" where
  "mergeProviderModelIDs requested existing = sort (remdups (filter (\<lambda>mid. mid \<noteq> '''') (map m_ModelID existing @ requested)))"

definition confirmed_endpoints :: "admin_env \<Rightarrow> string \<Rightarrow> confirmEndpointEntry list \<Rightarrow> ProviderEndpoint list" where
  "confirmed_endpoints env pid es =
     map (\<lambda>(i, e). \<lparr>e_ID = ae_uuid env i, e_ProviderID = pid, e_Path = ce_Path e, e_Method = ce_Method e, e_IsSupported = ce_IsSupported e,
            e_IsEnabled = ce_IsEnabled e, e_CreatedAt = ae_now env\<rparr>) (enumerate 0 es)"

text \<open>The identifiers of new models are drawn after those of the endpoints.\<close>

definition HandleConfirm :: "bool \<Rightarrow> admin_env \<Rightarrow> string \<Rightarrow> http_request \<Rightarrow> onboard_body reply act" where
  "HandleConfirm onRoutingChanged env i r =
     (case decode_confirm r of
        None \<Rightarrow> done_with (ReplyError 400 ''invalid JSON body'')
      | Some body \<Rightarrow> do {
          p \<leftarrow> store_read env (\<lambda>flt ks. GetProvider flt i);
          case p of
            Inl e \<Rightarrow> done_with (if is_no_rows e then ReplyError 404 ''provider not found'' else ReplyError 500 ''failed to get provider'')
          | Inr provider \<Rightarrow> do {
              up \<leftarrow> store_write env (\<lambda>flt. UpsertProviderEndpoints flt (p_ID provider) (confirmed_endpoints env (p_ID provider) (cr_Endpoints body)));
              case up of
                Inl e \<Rightarrow> done_with (ReplyError 500 ''failed to upsert endpoints'')
              | Inr u \<Rightarrow> do {
                  ex \<leftarrow> store_read env (\<lambda>flt ks. ListProviderModels flt (p_ID provider));
                  case ex of
                    Inl e \<Rightarrow> done_with (ReplyError 500 ''failed to list existing models'')
                  | Inr existingModels \<Rightarrow> do {
                      sy \<leftarrow> store_write env (\<lambda>flt. SyncProviderModels flt (\<lambda>j. ae_uuid env (length (cr_Endpoints body) + j)) (ae_now env) (p_ID provider)
                              (mergeProviderModelIDs (cr_Models body) existingModels));
                      case sy of
                        Inl e \<Rightarrow> done_with (ReplyError 500 ''failed to sync models'')
                      | Inr u \<Rightarrow> do {
                          av \<leftarrow> store_write env (\<lambda>flt. SetProviderModelsAvailability flt (p_ID provider) (cr_Models body));
                          case av of
                            Inl e \<Rightarrow> done_with (ReplyError 500 ''failed to update model availability'')
                          | Inr u \<Rightarrow> do {
                              es \<leftarrow> store_read env (\<lambda>flt ks. ListProviderEndpoints flt (p_ID provider));
                              case es of
                                Inl e \<Rightarrow> done_with (ReplyError 500 ''failed to list endpoints'')
                              | Inr endpoints \<Rightarrow> do {
                                  ms \<leftarrow> store_read env (\<lambda>flt ks. ListProviderModels flt (p_ID provider));
                                  case ms of
                                    Inl e \<Rightarrow> done_with (ReplyError 500 ''failed to list models'')
                                  | Inr providerModels \<Rightarrow> do {
                                      (if onRoutingChanged then announce RoutingChanged else State_Monad.return ());
                                      done_with (ReplyJSON 200 (Confirmed provider endpoints providerModels))
                                    }
                                }
                            }
                        }
                    }
                }
            }
        })"

section \<open>What it stores\<close>

lemma mergeProviderModelIDs_set: "set (mergeProviderModelIDs requested existing) = (m_ModelID ` set existing \<union> set requested) - {''''}"
  by (auto simp: mergeProviderModelIDs_def)

lemma mergeProviderModelIDs_sorted: "sorted (mergeProviderModelIDs requested existing)" "distinct (mergeProviderModelIDs requested existing)"
  by (simp_all add: mergeProviderModelIDs_def)

definition endpoint_flags :: "db \<Rightarrow> string \<times> string \<times> string \<Rightarrow> (bool \<times> bool) option" where
  "endpoint_flags d key = map_option (\<lambda>e. (e_IsSupported e, e_IsEnabled e)) (find (\<lambda>e. endpoint_key e = key) (db_endpoints d))"

lemma find_map_keyed: "(\<And>x. key (f x) = key x) \<Longrightarrow> find (\<lambda>x. key x = k) (map f xs) = map_option f (find (\<lambda>x. key x = k) xs)"
  by (induction xs) auto

lemma upsert_flags:
  assumes "upsert_endpoint pid ep d = Inr (n, d')"
  shows "endpoint_flags d' = (endpoint_flags d)((pid, e_Path ep, e_Method ep) \<mapsto> (e_IsSupported ep, e_IsEnabled ep)) \<and> db_models d' = db_models d"
proof -
  let ?k = "(pid, e_Path ep, e_Method ep)"
  have k: "endpoint_key (ep\<lparr>e_ProviderID := pid\<rparr>) = ?k" by (simp add: endpoint_key_def)
  have present: "find (\<lambda>e. endpoint_key e = ?k) (db_endpoints d) \<noteq> None \<longleftrightarrow> ?k \<in> endpoint_key ` set (db_endpoints d)"
    by (auto simp: find_None_iff) (metis imageI)
  show ?thesis
  proof (cases "?k \<in> endpoint_key ` set (db_endpoints d)")
    case True
    let ?f = "\<lambda>e. if endpoint_key e = ?k then e\<lparr>e_IsSupported := e_IsSupported ep, e_IsEnabled := e_IsEnabled ep\<rparr> else e"
    have d': "d' = d\<lparr>db_endpoints := map ?f (db_endpoints d)\<rparr>" using assms True k by (simp add: upsert_endpoint_def)
    then have rows: "db_endpoints d' = map ?f (db_endpoints d)" by simp
    have found: "find (\<lambda>e. endpoint_key e = key) (db_endpoints d') = map_option ?f (find (\<lambda>e. endpoint_key e = key) (db_endpoints d))" for key
      unfolding rows by (rule find_map_keyed) (simp add: endpoint_key_def)
    have "endpoint_flags d' key = ((endpoint_flags d)(?k \<mapsto> (e_IsSupported ep, e_IsEnabled ep))) key" for key
    proof (cases "find (\<lambda>e. endpoint_key e = key) (db_endpoints d)")
      case None
      then show ?thesis using found [of key] present True by (auto simp: endpoint_flags_def)
    next
      case (Some e)
      then have "endpoint_key e = key" by (auto simp: find_Some_iff)
      then show ?thesis using found [of key] Some by (simp add: endpoint_flags_def)
    qed
    then show ?thesis by (simp add: fun_eq_iff d')
  next
    case False
    then have "d' = d\<lparr>db_endpoints := db_endpoints d @ [ep\<lparr>e_ProviderID := pid\<rparr>]\<rparr>"
      using assms k by (auto simp: upsert_endpoint_def Let_def split: if_splits)
    then show ?thesis using present False k by (auto simp: endpoint_flags_def fun_eq_iff find_append split: option.split)
  qed
qed

lemma upsert_all:
  assumes "tx_stmts flt j (map (\<lambda>ep. (c, upsert_endpoint pid ep)) eps) d = Inr d'"
  shows "endpoint_flags d' = fold (\<lambda>ep m. m((pid, e_Path ep, e_Method ep) \<mapsto> (e_IsSupported ep, e_IsEnabled ep))) eps (endpoint_flags d) \<and> db_models d' = db_models d"
  using assms
proof (induction eps arbitrary: j d)
  case (Cons ep eps)
  from Cons.prems obtain n d1 where st: "upsert_endpoint pid ep d = Inr (n, d1)"
    and rest: "tx_stmts flt (Suc j) (map (\<lambda>ep. (c, upsert_endpoint pid ep)) eps) d1 = Inr d'"
    by (auto split: prod.splits sum.splits dest!: run_stmt_effect)
  show ?case using Cons.IH [OF rest] upsert_flags [OF st] by simp
qed simp

lemma transaction_Inr: "transaction flt ctx sts d = (Inr (), d') \<Longrightarrow> tx_stmts flt 1 sts d = Inr d'"
  by (auto simp: transaction_def split: option.splits sum.splits)

lemma GetProvider_Inr: "GetProvider flt i d = Inr p \<Longrightarrow> p_ID p = i \<and> i \<in> provider_ids d"
  by (auto simp: GetProvider_def query_row_def provider_ids_def scanProvider_def filter_eq_Cons_iff split: option.splits list.splits)

lemma confirm_outcome:
  assumes "undisturbed env"
  shows "wp (HandleConfirm b env i r) (\<lambda>rep s'. reply_status rep = 200 \<longrightarrow>
    (\<exists>body f1 f2 f3 d1 d2 existing. decode_confirm r = Some body \<and> i \<in> provider_ids (sv_db s) \<and>
      UpsertProviderEndpoints f1 i (confirmed_endpoints env i (cr_Endpoints body)) (sv_db s) = (Inr (), d1) \<and>
      SyncProviderModels f2 (\<lambda>j. ae_uuid env (length (cr_Endpoints body) + j)) (ae_now env) i (mergeProviderModelIDs (cr_Models body) existing) d1 = (Inr (), d2) \<and>
      set existing = {m \<in> set (db_models d1). m_ProviderID m = i} \<and>
      SetProviderModelsAvailability f3 i (cr_Models body) d2 = (Inr (), sv_db s') \<and>
      sv_events s' = sv_events s @ (if b then [RoutingChanged] else []))) s"
  unfolding HandleConfirm_def
  apply (intro wp_intros wp_read_alone [OF assms] wp_write_alone [OF assms]; simp)
  apply (auto simp: ListProviderModels_def dest!: GetProvider_Inr query_Inr)
  apply (intro exI conjI, assumption+, simp, assumption)+
  done

lemma tx_frame:
  assumes "tx_stmts flt j sts d = Inr d'" and "\<And>c st d n d'. (c, st) \<in> set sts \<Longrightarrow> st d = Inr (n, d') \<Longrightarrow> g d' = g d"
  shows "g d' = g d"
  using assms
proof (induction flt j sts d rule: tx_stmts.induct)
  case (2 flt i ctx st sts d)
  from "2.prems"(1) obtain n d1 where st: "st d = Inr (n, d1)" "run_stmt flt i ctx st d = (Inr n, d1)" and rest: "tx_stmts flt (Suc i) sts d1 = Inr d'"
    by (auto split: prod.splits sum.splits dest: run_stmt_effect)
  have "g d' = g d1" by (rule "2.IH" [OF st(2) [symmetric] refl rest]) (rule "2.prems"(2) [OF list.set_intros(2)])
  moreover have "g d1 = g d" by (rule "2.prems"(2) [OF list.set_intros(1)]) (rule st(1))
  ultimately show ?case by simp
qed simp

lemma models_only: "insert_model_or_ignore m d = Inr (n, d') \<Longrightarrow> db_endpoints d' = db_endpoints d" "update_models P f d = Inr (n, d') \<Longrightarrow> db_endpoints d' = db_endpoints d"
  by (auto simp: insert_model_or_ignore_def insert_model_def update_models_def split: if_splits)

lemma others_untouched:
  "filter (\<lambda>m. m_ProviderID m \<noteq> i) (map (\<lambda>m. if m_ProviderID m = i then m\<lparr>m_IsAvailable := g m\<rparr> else m) ms) = filter (\<lambda>m. m_ProviderID m \<noteq> i) ms"
  by (induction ms) auto

lemma listed_models_update:
  "listed_models i (map (\<lambda>m. if m_ProviderID m = j then m\<lparr>m_IsAvailable := g m\<rparr> else m) ms) = listed_models i ms"
proof -
  have "model_key ` set (map (\<lambda>m. if m_ProviderID m = j then m\<lparr>m_IsAvailable := g m\<rparr> else m) ms) = model_key ` set ms"
    by (rule image_key_update) (simp add: model_key_def)
  then show ?thesis by (simp add: set_eq_iff listed_models_key del: set_map)
qed

lemma flagged:
  "\<forall>m \<in> set (map (\<lambda>m. if m_ProviderID m = i then m\<lparr>m_IsAvailable := g (m_ModelID m)\<rparr> else m) ms).
     m_ProviderID m = i \<longrightarrow> (m_IsAvailable m \<longleftrightarrow> g (m_ModelID m))"
  unfolding list.set_map ball_simps(9) by (intro ballI) (simp split: if_split)

lemma endpoint_flags_cong: "db_endpoints d' = db_endpoints d \<Longrightarrow> endpoint_flags d' = endpoint_flags d"
  by (simp add: endpoint_flags_def fun_eq_iff)

lemma fold_confirmed:
  "fold (\<lambda>ep m. m((i, e_Path ep, e_Method ep) \<mapsto> (e_IsSupported ep, e_IsEnabled ep))) (confirmed_endpoints env i es) m =
   fold (\<lambda>e m. m((i, ce_Path e, ce_Method e) \<mapsto> (ce_IsSupported e, ce_IsEnabled e))) es m"
proof -
  have "fold (\<lambda>ep m. m((i, e_Path ep, e_Method ep) \<mapsto> (e_IsSupported ep, e_IsEnabled ep)))
      (map (\<lambda>(j, e). \<lparr>e_ID = ae_uuid env j, e_ProviderID = i, e_Path = ce_Path e, e_Method = ce_Method e, e_IsSupported = ce_IsSupported e,
            e_IsEnabled = ce_IsEnabled e, e_CreatedAt = ae_now env\<rparr>) (enumerate k es)) m =
    fold (\<lambda>e m. m((i, ce_Path e, ce_Method e) \<mapsto> (ce_IsSupported e, ce_IsEnabled e))) es m" for k m
    by (induction es arbitrary: k m) simp_all
  then show ?thesis by (simp add: confirmed_endpoints_def)
qed

lemma new_model_provider: "m = new_model u i mid now \<Longrightarrow> m_ProviderID m = i"
  by (simp add: new_model_def)

text \<open>
  C23. Confirming a provider. If nobody else uses the database and \<open>HandleConfirm\<close> answers with success, then the provider exists, the router was told,
  every confirmed endpoint has the flags that its last mention gives and no other endpoint has changed; the
  confirmed models, the empty name apart, have been added to those the provider had, exactly the confirmed ones are available, and
  no model of another provider has changed. The identifiers drawn are assumed new.
\<close>
theorem confirm_result:
  assumes "undisturbed env" and "inj (ae_uuid env)" and "\<forall>j. ae_uuid env j \<notin> m_ID ` set (db_models d)"
    and "serve_on (HandleConfirm b env i r) d = (rep, ev, d')" and "reply_status rep = 200" and "decode_confirm r = Some body"
  shows "i \<in> provider_ids d \<and> (b \<longrightarrow> ev = [RoutingChanged]) \<and>
    endpoint_flags d' = fold (\<lambda>e m. m((i, ce_Path e, ce_Method e) \<mapsto> (ce_IsSupported e, ce_IsEnabled e))) (cr_Endpoints body) (endpoint_flags d) \<and>
    listed_models i (db_models d') = listed_models i (db_models d) \<union> (set (cr_Models body) - {''''}) \<and>
    (\<forall>m \<in> set (db_models d'). m_ProviderID m = i \<longrightarrow> (m_IsAvailable m \<longleftrightarrow> m_ModelID m \<in> set (cr_Models body) \<and> m_ModelID m \<noteq> '''')) \<and>
    filter (\<lambda>m. m_ProviderID m \<noteq> i) (db_models d') = filter (\<lambda>m. m_ProviderID m \<noteq> i) (db_models d)"
proof -
  let ?uuids = "\<lambda>j. ae_uuid env (length (cr_Endpoints body) + j)"
  obtain f1 f2 f3 d1 d2 existing where p: "i \<in> provider_ids d" and ev: "ev = (if b then [RoutingChanged] else [])"
    and up: "UpsertProviderEndpoints f1 i (confirmed_endpoints env i (cr_Endpoints body)) d = (Inr (), d1)"
    and sy: "SyncProviderModels f2 ?uuids (ae_now env) i (mergeProviderModelIDs (cr_Models body) existing) d1 = (Inr (), d2)"
    and ex: "set existing = {m \<in> set (db_models d1). m_ProviderID m = i}"
    and av: "SetProviderModelsAvailability f3 i (cr_Models body) d2 = (Inr (), d')"
    using serve_on_wp [OF confirm_outcome [OF assms(1)] assms(4)] assms(5,6) by auto
  from transaction_Inr [OF up [unfolded UpsertProviderEndpoints_def]]
  have d1: "endpoint_flags d1 = fold (\<lambda>e m. m((i, ce_Path e, ce_Method e) \<mapsto> (ce_IsSupported e, ce_IsEnabled e))) (cr_Endpoints body) (endpoint_flags d)"
    "db_models d1 = db_models d"
    by (auto dest!: upsert_all simp: fold_confirmed)
  have "db_endpoints d2 = db_endpoints d1"
    by (rule tx_frame [OF transaction_Inr [OF sy [unfolded SyncProviderModels_def]]]) (auto dest: models_only)
  moreover have "db_endpoints d' = db_endpoints d2"
    by (rule tx_frame [OF transaction_Inr [OF av [unfolded SetProviderModelsAvailability_def]]]) (auto dest: models_only)
  ultimately have flags: "endpoint_flags d' = endpoint_flags d1" by (intro endpoint_flags_cong) simp
  have "inj ?uuids" by (rule injI) (use injD [OF assms(2)] in fastforce)
  then obtain new where new: "db_models d2 = db_models d @ new" "\<forall>m \<in> set new. \<exists>j. m = new_model (?uuids j) i (m_ModelID m) (ae_now env)"
    "m_ModelID ` set new = set (mergeProviderModelIDs (cr_Models body) existing) - {''''} - listed_models i (db_models d)"
    using sync_adds_missing [of ?uuids d1 f2 "ae_now env" i "mergeProviderModelIDs (cr_Models body) existing"] assms(3) sy by (auto simp: d1(2))
  have pid: "m_ProviderID m = i" if "m \<in> set new" for m using new(2) that new_model_provider by blast
  have "m_ModelID ` set existing = listed_models i (db_models d)" using ex by (auto simp: listed_models_def d1(2))
  then have names: "m_ModelID ` set new = set (cr_Models body) - {''''} - listed_models i (db_models d)" using new(3) by (auto simp: mergeProviderModelIDs_set)
  have ms: "db_models d' = map (\<lambda>m. if m_ProviderID m = i then m\<lparr>m_IsAvailable := (m_ModelID m \<in> set (cr_Models body) \<and> m_ModelID m \<noteq> '''')\<rparr> else m) (db_models d @ new)"
    using availability_exact [of f3 i "cr_Models body" d2] av new(1) by simp
  have "filter (\<lambda>m. m_ProviderID m \<noteq> i) (db_models d') = filter (\<lambda>m. m_ProviderID m \<noteq> i) (db_models d @ new)"
    unfolding ms by (rule others_untouched)
  moreover have "listed_models i (db_models d') = listed_models i (db_models d) \<union> m_ModelID ` set new"
    unfolding ms listed_models_update using pid by (auto simp: listed_models_def)
  moreover have "\<forall>m \<in> set (db_models d'). m_ProviderID m = i \<longrightarrow> (m_IsAvailable m \<longleftrightarrow> m_ModelID m \<in> set (cr_Models body) \<and> m_ModelID m \<noteq> '''')"
    unfolding ms by (rule flagged [where g = "\<lambda>mid. mid \<in> set (cr_Models body) \<and> mid \<noteq> ''''"])
  moreover have "filter (\<lambda>m. m_ProviderID m \<noteq> i) new = []" using pid by (simp add: filter_empty_conv)
  moreover have "listed_models i (db_models d) \<union> m_ModelID ` set new = listed_models i (db_models d) \<union> (set (cr_Models body) - {''''})"
    unfolding names by blast
  ultimately show ?thesis using p ev by (simp only: flags d1(1) filter_append append_Nil2 if_True) simp
qed

section \<open>A sample\<close>

definition confirm_request :: http_request where
  "confirm_request = \<lparr>rq_Method = ''POST'', rq_Path = ''/'', rq_Header = [], rq_RemoteAddr = '''', rq_ContentLength = 18, rq_Body = Some ''{\"models\":[\"new\"]}''\<rparr>"

lemma confirm_request_body: "decode_confirm confirm_request = Some \<lparr>cr_Endpoints = [], cr_Models = [''new'']\<rparr>"
proof -
  have "body_members confirm_request = Some [(''models'', JArr [JStr ''new''])]" by code_simp
  moreover have "field (dec_slice dec_string '''') [] ''models'' [(''models'', JArr [JStr ''new''])] = ([''new''], False)" by code_simp
  moreover have "field_values ''endpoints'' [(''models'', JArr [JStr ''new''])] = []" by code_simp
  ultimately show ?thesis by (simp add: decode_confirm_def field_def [of "dec_slice dec_confirm_entry _"] decode_all_def)
qed

theorem confirm_result_witness:
  "\<exists>rep ev d'. serve_on (HandleConfirm True calm_env ''p'' confirm_request) sample_db = (rep, ev, d') \<and> ev = [RoutingChanged] \<and>
     listed_models ''p'' (db_models d') = {''gpt'', ''new''}"
proof -
  obtain rep ev d' where s: "serve_on (HandleConfirm True calm_env ''p'' confirm_request) sample_db = (rep, ev, d')"
    by (cases "serve_on (HandleConfirm True calm_env ''p'' confirm_request) sample_db") auto
  have u: "undisturbed calm_env" by (simp add: undisturbed_def calm_env_def)
  have "inj show_nat" by (rule inj_on_inverseI [of _ read_digits]) (rule read_show_nat)
  then have inj: "inj (ae_uuid calm_env)" by (auto simp: calm_env_def inj_def)
  have "map m_ID (db_models sample_db) = [''0'']" "map (\<lambda>m. (m_ProviderID m, m_ModelID m)) (db_models sample_db) = [(''p'', ''gpt'')]" by code_simp+
  then have ids: "m_ID ` set (db_models sample_db) = {''0''}" and ms: "listed_models ''p'' (db_models sample_db) = {''gpt''}"
    by (auto simp: listed_models_def)
  have "reply_status (fst (serve_on (HandleConfirm True calm_env ''p'' confirm_request) sample_db)) = 200"
    unfolding HandleConfirm_def confirm_request_body by code_simp
  then show ?thesis
    using confirm_result [OF u inj _ s _ confirm_request_body] s ids ms by (auto simp: calm_env_def)
qed

end
