(* ===== verification/Admin_Logs.thy ===== *)
theory Admin_Logs
  imports Admin_Http
begin

text \<open>
  Showing logs and requests in flight (\<open>HandleActive\<close>, \<open>HandleQueryLogs\<close>, \<open>HandleGetLog\<close> and \<open>HandleGetStreamingLogs\<close> of
  \<open>internal/admin/handler.go\<close>) and the worker that runs their queries one at a time
  (\<open>query_worker.go\<close>). For a handler the worker is how its wait ends: with the answer, with its own cancelled
  context, or after 30 seconds. The worker itself is a step relation.
\<close>

section \<open>The query worker\<close>

text \<open>
  Jobs are numbered as they are handed over. A job's result channel has room for its one result, so the worker never waits;
  after its context is cancelled it takes no further job. \<open>qw_done\<close> are the results delivered so far, oldest first.
\<close>

record 'a QueryWorker =
  qw_ch :: "(nat \<times> (db \<Rightarrow> 'a)) list"
  qw_size :: nat
  qw_stopped :: bool
  qw_next :: nat
  qw_done :: "(nat \<times> 'a) list"

definition NewQueryWorker :: "nat \<Rightarrow> 'a QueryWorker" where
  "NewQueryWorker bufferSize = \<lparr>qw_ch = [], qw_size = bufferSize, qw_stopped = False, qw_next = 0, qw_done = []\<rparr>"

inductive worker_step :: "'a QueryWorker \<Rightarrow> 'a QueryWorker \<Rightarrow> bool" where
  hand_over: "length (qw_ch w) < qw_size w \<Longrightarrow> worker_step w (w\<lparr>qw_ch := qw_ch w @ [(qw_next w, fn)], qw_next := Suc (qw_next w)\<rparr>)"
| work: "\<not> qw_stopped w \<Longrightarrow> qw_ch w = (i, fn) # rest \<Longrightarrow> worker_step w (w\<lparr>qw_ch := rest, qw_done := qw_done w @ [(i, fn d)]\<rparr>)"
| stop: "worker_step w (w\<lparr>qw_stopped := True\<rparr>)"

inductive worker_reach :: "nat \<Rightarrow> 'a QueryWorker \<Rightarrow> bool" for bufferSize where
  w_start: "worker_reach bufferSize (NewQueryWorker bufferSize)"
| w_step: "worker_reach bufferSize w \<Longrightarrow> worker_step w w' \<Longrightarrow> worker_reach bufferSize w'"

text \<open>
  Every job handed over is either done or waiting, exactly once, in the order of the hand-overs, and no more than the size of the channel wait.
\<close>
theorem worker_in_order:
  assumes "worker_reach bufferSize w"
  shows "map fst (qw_done w) @ map fst (qw_ch w) = [0..<qw_next w] \<and> length (qw_ch w) \<le> bufferSize"
proof -
  have "map fst (qw_done w) @ map fst (qw_ch w) = [0..<qw_next w] \<and> length (qw_ch w) \<le> qw_size w \<and> qw_size w = bufferSize"
    using assms
  proof (induction rule: worker_reach.induct)
    case (w_step w w')
    from w_step.hyps(2) w_step.IH show ?case by (cases rule: worker_step.cases) auto
  qed (simp add: NewQueryWorker_def)
  then show ?thesis by simp
qed

datatype run_error = StoreFailed store_error | ContextDone | TimedOut

datatype run_end = Answered | Cancelled | Expired

text \<open>\<open>Run\<close>: the function on the store, unless the wait ends first.\<close>

definition QueryWorker_Run :: "run_end \<Rightarrow> admin_env \<Rightarrow> (fault \<Rightarrow> nat list \<Rightarrow> db \<Rightarrow> store_error + 'a) \<Rightarrow> (run_error + 'a) act" where
  "QueryWorker_Run ended env fn = do {
     res \<leftarrow> store_read env fn;
     State_Monad.return (case ended of
         Cancelled \<Rightarrow> Inl ContextDone
       | Expired \<Rightarrow> Inl TimedOut
       | Answered \<Rightarrow> (case res of Inl e \<Rightarrow> Inl (StoreFailed e) | Inr x \<Rightarrow> Inr x))
   }"

section \<open>Handlers\<close>

datatype logs_body =
    ActiveBody int "ActiveRequest list"
  | LogPage "RequestLog list" int
  | LogBody RequestLog
  | StreamingLogs "StreamingLog list"

definition HandleActive :: "Handler \<Rightarrow> admin_env \<Rightarrow> logs_body reply act" where
  "HandleActive h env =
     (case h_active h of
        None \<Rightarrow> done_with (ReplyJSON 200 (ActiveBody 0 []))
      | Some reg \<Rightarrow> done_with (ReplyJSON 200 (ActiveBody (Count reg) (Snapshot (ae_order env 0) reg))))"

definition time_param :: "string \<Rightarrow> string \<Rightarrow> string + time option" where
  "time_param name s = (if s = '''' then Inr None else case parse_RFC3339 s of None \<Rightarrow> Inl (''invalid '' @ name @ '': must be RFC3339'') | Some t \<Rightarrow> Inr (Some t))"

definition limit_param :: "string \<Rightarrow> string + int" where
  "limit_param s = (if s = '''' then Inr 50 else case Atoi s of None \<Rightarrow> Inl ''invalid limit''
     | Some v \<Rightarrow> if v < 1 then Inl ''invalid limit'' else Inr (if v > 1000 then 1000 else v))"

definition offset_param :: "string \<Rightarrow> string + int" where
  "offset_param s = (if s = '''' then Inr 0 else case Atoi s of None \<Rightarrow> Inl ''invalid offset'' | Some v \<Rightarrow> if v < 0 then Inl ''invalid offset'' else Inr v)"

definition status_range :: "string \<Rightarrow> int \<times> int" where
  "status_range s =
     (if s = ''2xx'' \<or> s = ''success'' then (200, 299)
      else if s = ''3xx'' then (300, 399)
      else if s = ''4xx'' then (400, 499)
      else if s = ''5xx'' then (500, 599)
      else if s = ''error'' then (400, 0)
      else (0, 0))"

definition log_filter :: "(string \<Rightarrow> string) \<Rightarrow> string + LogFilter" where
  "log_filter q =
     (case time_param ''since'' (q ''since'') of Inl m \<Rightarrow> Inl m | Inr since \<Rightarrow>
      case time_param ''until'' (q ''until'') of Inl m \<Rightarrow> Inl m | Inr until \<Rightarrow>
      case limit_param (q ''limit'') of Inl m \<Rightarrow> Inl m | Inr lm \<Rightarrow>
      case offset_param (q ''offset'') of Inl m \<Rightarrow> Inl m | Inr off \<Rightarrow>
      Inr \<lparr>lf_Model = q ''model'', lf_ProviderID = q ''provider_id'', lf_Since = since, lf_Until = until,
           lf_StatusMin = fst (status_range (q ''status'')), lf_StatusMax = snd (status_range (q ''status'')), lf_Limit = lm, lf_Offset = off\<rparr>)"

definition HandleQueryLogs :: "run_end \<Rightarrow> admin_env \<Rightarrow> (string \<Rightarrow> string) \<Rightarrow> logs_body reply act" where
  "HandleQueryLogs ended env q =
     (case log_filter q of
        Inl msg \<Rightarrow> done_with (ReplyError 400 msg)
      | Inr f \<Rightarrow> do {
          res \<leftarrow> QueryWorker_Run ended env (\<lambda>flt ks d. QueryRequestLogs flt ks f d (ae_drift env 0 d));
          done_with (case res of Inl e \<Rightarrow> ReplyError 500 ''failed to query logs'' | Inr (lgs, n) \<Rightarrow> ReplyJSON 200 (LogPage lgs n))
        })"

definition HandleGetLog :: "run_end \<Rightarrow> admin_env \<Rightarrow> string \<Rightarrow> logs_body reply act" where
  "HandleGetLog ended env i =
     (if i = '''' then done_with (ReplyError 400 ''id is required'')
      else do {
        res \<leftarrow> QueryWorker_Run ended env (\<lambda>flt ks. GetRequestLog flt i);
        case res of
          Inl e \<Rightarrow> done_with (case e of
              StoreFailed se \<Rightarrow> if is_no_rows se then ReplyError 404 ''log not found'' else ReplyError 500 ''failed to get log''
            | _ \<Rightarrow> ReplyError 500 ''failed to get log'')
        | Inr lg \<Rightarrow>
            (if l_ProviderID lg \<noteq> '''' \<and> l_ResolvedModel lg \<noteq> ''''
             then do {
               pm \<leftarrow> store_read env (\<lambda>flt ks. GetProviderModelCosts flt (l_ProviderID lg) (l_ResolvedModel lg));
               done_with (ReplyJSON 200 (LogBody (case pm of
                   Inr (Some m) \<Rightarrow>
                     (let b = ForRequestLog (Some lg) (Some m)
                      in lg\<lparr>l_CostBreakdown := Some \<lparr>cb_InputUSD = bd_InputUSD b, cb_OutputUSD = bd_OutputUSD b, cb_CachedReadUSD = bd_CachedReadUSD b,
                           cb_TotalUSD = bd_TotalUSD b\<rparr>\<rparr>)
                 | _ \<Rightarrow> lg)))
             }
             else done_with (ReplyJSON 200 (LogBody lg)))
      })"

text \<open>Every chunk gets the text up to and including it.\<close>

fun cumulate :: "string \<Rightarrow> StreamingLog list \<Rightarrow> StreamingLog list" where
  "cumulate acc [] = []"
| "cumulate acc (c # cs) = c\<lparr>s_CumulativeBody := acc @ s_ContentDelta c\<rparr> # cumulate (acc @ s_ContentDelta c) cs"

definition HandleGetStreamingLogs :: "run_end \<Rightarrow> admin_env \<Rightarrow> string \<Rightarrow> logs_body reply act" where
  "HandleGetStreamingLogs ended env i =
     (if i = '''' then done_with (ReplyError 400 ''id is required'')
      else do {
        res \<leftarrow> QueryWorker_Run ended env (\<lambda>flt ks. GetStreamingLogs flt ks i);
        done_with (case res of Inl e \<Rightarrow> ReplyError 500 ''failed to get streaming logs'' | Inr lgs \<Rightarrow> ReplyJSON 200 (StreamingLogs (cumulate '''' lgs)))
      })"

section \<open>What they show\<close>

lemma log_filter_Inr:
  assumes "log_filter q = Inr f"
  shows "1 \<le> lf_Limit f \<and> lf_Limit f \<le> 1000 \<and> 0 \<le> lf_Offset f"
  using assms by (auto simp: log_filter_def limit_param_def offset_param_def split: sum.splits option.splits if_splits)

lemma run_answer: "wp (QueryWorker_Run ended env fn) (\<lambda>res s'. \<forall>x. res = Inr x \<longrightarrow>
    fn (ae_fault env (sv_calls s)) (ae_order env (sv_calls s)) (ae_others env (sv_calls s) (sv_db s)) = Inr x) s"
  unfolding QueryWorker_Run_def by (intro wp_intros wp_read) (auto split: run_end.splits sum.splits)

lemma log_page_Inr:
  assumes "QueryRequestLogs flt ks f d d = Inr (lgs, n)"
  shows "lgs = take (page_limit f) (drop (nat (lf_Offset f)) (matching_logs ks f d)) \<and> n = int (length (matching_logs ks f d))"
  using assms
  by (auto simp: QueryRequestLogs_def log_page_def matching_logs_def drop_map take_map split: sum.splits dest!: query_Inr query_row_Inr)

text \<open>
  The list of logs. A page that is shown holds between 1 and 1000 logs at most (50 unless the request says otherwise), in the order of time, newest first; it is
  the stretch of the logs selected by the request's filter that starts at its offset, and the total shown is the number of selected logs.
\<close>
theorem log_list_page:
  assumes "undisturbed env" and "ae_drift env = (\<lambda>i d. d)" and "serve_on (HandleQueryLogs ended env q) d = (ReplyJSON 200 (LogPage lgs n), ev, d')"
  shows "\<exists>f ks. log_filter q = Inr f \<and> 1 \<le> lf_Limit f \<and> lf_Limit f \<le> 1000 \<and> (q ''limit'' = '''' \<longrightarrow> lf_Limit f = 50) \<and>
    lgs = take (nat (lf_Limit f)) (drop (nat (lf_Offset f)) (matching_logs ks f d)) \<and> n = int (length (matching_logs ks f d)) \<and>
    sorted (map (\<lambda>l. - l_Timestamp l) lgs)"
proof -
  have o: "ae_others env = (\<lambda>i d. d)" using assms(1) by (simp add: undisturbed_def)
  have "wp (HandleQueryLogs ended env q) (\<lambda>rep s'. \<forall>lgs n. rep = ReplyJSON 200 (LogPage lgs n) \<longrightarrow>
      (\<exists>f. log_filter q = Inr f \<and> QueryRequestLogs (ae_fault env (sv_calls s)) (ae_order env (sv_calls s)) f (sv_db s) (sv_db s) = Inr (lgs, n))) s" for s
    unfolding HandleQueryLogs_def
    by (intro wp_intros wp_mono [OF run_answer]) (auto simp: o assms(2) split: sum.splits)
  from serve_on_wp [OF this assms(3)] obtain f where f: "log_filter q = Inr f"
    and res: "QueryRequestLogs (ae_fault env 0) (ae_order env 0) f d d = Inr (lgs, n)" by auto
  let ?ms = "matching_logs (ae_order env 0) f d"
  have "map (\<lambda>l. - l_Timestamp l) ?ms = map (\<lambda>r. - lr_timestamp r) (order_by (ae_order env 0) (\<lambda>r. - lr_timestamp r) (filter (log_matches f) (db_request_logs d)))"
    by (simp add: matching_logs_def scan_timestamp)
  then have "sorted (map (\<lambda>l. - l_Timestamp l) ?ms)" by (simp only: sorted_order_by)
  moreover have "page_limit f = nat (lf_Limit f)" using log_filter_Inr [OF f] by (simp add: page_limit_def)
  moreover have "q ''limit'' = '''' \<longrightarrow> lf_Limit f = 50" using f by (auto simp: log_filter_def limit_param_def split: sum.splits)
  ultimately show ?thesis using log_page_Inr [OF res] log_filter_Inr [OF f] f
    by (intro exI [of _ f] exI [of _ "ae_order env 0"]) (auto simp: take_map [symmetric] drop_map [symmetric] sorted_wrt_take sorted_wrt_drop)
qed

lemma cumulate_nth:
  "k < length cs \<Longrightarrow> cumulate acc cs ! k = (cs ! k)\<lparr>s_CumulativeBody := acc @ concat (map s_ContentDelta (take (Suc k) cs))\<rparr>"
proof (induction acc cs arbitrary: k rule: cumulate.induct)
  case (2 acc c cs)
  then show ?case by (cases k) auto
qed simp

lemma length_cumulate [simp]: "length (cumulate acc cs) = length cs"
  by (induction acc cs rule: cumulate.induct) simp_all

text \<open>
  Replaying a stream. The chunks shown for a request are those stored for it, in the order of their indices, each with the text
  of all chunks up to it.
\<close>
theorem stream_replay:
  assumes "undisturbed env" and "serve_on (HandleGetStreamingLogs ended env i) d = (ReplyJSON 200 (StreamingLogs lgs), ev, d')"
  shows "\<exists>cs. mset cs = filter_mset (\<lambda>c. s_RequestLogID c = i) (mset (db_streaming_logs d)) \<and> sorted (map s_ChunkIndex cs) \<and> length lgs = length cs \<and>
    (\<forall>k < length cs. lgs ! k = (cs ! k)\<lparr>s_CumulativeBody := concat (map s_ContentDelta (take (Suc k) cs))\<rparr>)"
proof -
  have o: "ae_others env = (\<lambda>i d. d)" using assms(1) by (simp add: undisturbed_def)
  have "wp (HandleGetStreamingLogs ended env i) (\<lambda>rep s'. \<forall>lgs. rep = ReplyJSON 200 (StreamingLogs lgs) \<longrightarrow>
      (\<exists>cs. GetStreamingLogs (ae_fault env (sv_calls s)) (ae_order env (sv_calls s)) i (sv_db s) = Inr cs \<and> lgs = cumulate '''' cs)) s" for s
    unfolding HandleGetStreamingLogs_def
    by (intro wp_intros wp_mono [OF run_answer]) (auto simp: o split: sum.splits)
  from serve_on_wp [OF this assms(2)] obtain cs where cs: "GetStreamingLogs (ae_fault env 0) (ae_order env 0) i d = Inr cs" "lgs = cumulate '''' cs"
    by auto
  then have "cs = order_by (ae_order env 0) s_ChunkIndex (filter (\<lambda>c. s_RequestLogID c = i) (db_streaming_logs d))"
    by (auto simp: GetStreamingLogs_def split: option.splits)
  then show ?thesis using cs(2) by (intro exI [of _ cs]) (auto simp: cumulate_nth sorted_order_by)
qed

text \<open>The filter \<open>success\<close> selects no log with a 3xx status.\<close>

lemma success_excludes_redirects:
  "log_filter (\<lambda>name. if name = ''status'' then ''success'' else '''') = Inr f \<Longrightarrow> log_matches f r \<Longrightarrow> lr_status_code r \<le> 299"
  by (auto simp: log_filter_def status_range_def time_param_def limit_param_def offset_param_def log_matches_def in_range_def split: if_splits)

section \<open>A sample\<close>

theorem log_list_page_witness:
  "\<exists>lgs n ev d'. serve_on (HandleQueryLogs Answered calm_env (\<lambda>_. '''')) stats_db = (ReplyJSON 200 (LogPage lgs n), ev, d') \<and> n = 1"
proof -
  let ?f = "\<lparr>lf_Model = '''', lf_ProviderID = '''', lf_Since = None, lf_Until = None, lf_StatusMin = 0, lf_StatusMax = 0, lf_Limit = 50, lf_Offset = 0\<rparr>"
  have f: "log_filter (\<lambda>_. '''') = Inr ?f" by (simp add: log_filter_def time_param_def limit_param_def offset_param_def status_range_def)
  have m: "length (matching_logs ks ?f stats_db) = 1" for ks
    by (simp add: matching_logs_def stats_db_def log_matches_def in_range_def)
  obtain lgs n ev d' where s: "serve_on (HandleQueryLogs Answered calm_env (\<lambda>_. '''')) stats_db = (ReplyJSON 200 (LogPage lgs n), ev, d')"
    by (simp add: serve_on_def HandleQueryLogs_def f QueryWorker_Run_def store_read_def calm_env_def QueryRequestLogs_page done_with_def Let_def)
  moreover have "n = 1"
    using log_list_page [OF _ _ s] f m by (auto simp: undisturbed_def calm_env_def)
  ultimately show ?thesis by blast
qed

end
