(* ===== verification/Admin_Stats.thy ===== *)
theory Admin_Stats
  imports Admin_Keys
begin

text \<open>
  The statistics pages (\<open>internal/admin/stats.go\<close>): which window a request asks for, and the dashboard, time series
  and cost of the whole gateway or of the API key that asks. \<open>time.ParseDuration\<close> is modelled with its unsigned 64-bit
  arithmetic. Shown are the windows that come out, where day counts overflow, and that a key sees the statistics of its own logs.
\<close>

section \<open>Durations\<close>

definition two63 :: nat where
  "two63 = 9223372036854775808"

text \<open>The digits in front; \<open>None\<close> if they exceed \<open>1<<63\<close>.\<close>

fun leadingInt :: "nat \<Rightarrow> string \<Rightarrow> (nat \<times> string) option" where
  "leadingInt x [] = Some (x, [])"
| "leadingInt x (c # s) =
     (if \<not> is_digit c then Some (x, c # s)
      else if x > two63 div 10 then None
      else let x' = x * 10 + digit_val c in if x' > two63 then None else leadingInt x' s)"

text \<open>The digits after the point with their scale; digits that would overflow are dropped.\<close>

fun leadingFraction :: "nat \<Rightarrow> float64 \<Rightarrow> bool \<Rightarrow> string \<Rightarrow> nat \<times> float64 \<times> string" where
  "leadingFraction x scale overflow [] = (x, scale, [])"
| "leadingFraction x scale overflow (c # s) =
     (if \<not> is_digit c then (x, scale, c # s)
      else if overflow \<or> x > (two63 - 1) div 10 \<or> x * 10 + digit_val c > two63 then leadingFraction x scale True s
      else leadingFraction (x * 10 + digit_val c) (fmul scale 10) False s)"

definition unit_of :: "string \<Rightarrow> nat option" where
  "unit_of u =
     (if u = ''ns'' then Some 1
      else if u = ''us'' \<or> u = [CHR 0xC2, CHR 0xB5, CHR ''s''] \<or> u = [CHR 0xCE, CHR 0xBC, CHR ''s''] then Some 1000
      else if u = ''ms'' then Some 1000000
      else if u = ''s'' then Some 1000000000
      else if u = ''m'' then Some 60000000000
      else if u = ''h'' then Some 3600000000000
      else None)"

definition unit_char :: "char \<Rightarrow> bool" where
  "unit_char c \<longleftrightarrow> c \<noteq> CHR ''.'' \<and> \<not> is_digit c"

text \<open>One number with its unit: its nanoseconds and the rest of the text.\<close>

definition duration_part :: "string \<Rightarrow> (nat \<times> string) option" where
  "duration_part s =
     (if s = [] \<or> \<not> (hd s = CHR ''.'' \<or> is_digit (hd s)) then None
      else case leadingInt 0 s of
        None \<Rightarrow> None
      | Some (v, s1) \<Rightarrow>
          (let pre = length s1 \<noteq> length s;
               dot = HasPrefix s1 ''.'';
               (f, scale, s2) = (if dot then leadingFraction 0 1 False (tl s1) else (0, 1, s1));
               post = dot \<and> length s2 \<noteq> length (tl s1);
               u = takeWhile unit_char s2; rest = dropWhile unit_char s2
           in if \<not> pre \<and> \<not> post then None
              else if u = [] then None
              else case unit_of u of
                None \<Rightarrow> None
              | Some un \<Rightarrow>
                  (if v > two63 div un then None
                   else let v1 = v * un + (if f > 0 then nat \<lfloor>fmul (f64 (int f)) (fdiv (f64 (int un)) scale)\<rfloor> else 0)
                        in if f > 0 \<and> v1 > two63 then None else Some (v1, rest))))"

lemma leadingInt_length: "leadingInt x s = Some (v, r) \<Longrightarrow> length r \<le> length s"
  by (induction x s rule: leadingInt.induct) (auto simp: Let_def split: if_splits)

lemma leadingFraction_length: "leadingFraction x sc ov s = (f, sc', r) \<Longrightarrow> length r \<le> length s"
  by (induction x sc ov s rule: leadingFraction.induct) (auto split: if_splits)

lemma takeWhile_shorter: "takeWhile P s \<noteq> [] \<Longrightarrow> length (dropWhile P s) < length s"
  by (metis add.commute append_Nil2 length_0_conv length_append less_add_same_cancel2 length_greater_0_conv takeWhile_dropWhile_id)

lemma duration_part_length: "duration_part s = Some (v, rest) \<Longrightarrow> length rest < length s"
proof -
  assume p: "duration_part s = Some (v, rest)"
  then obtain v0 s1 where l: "leadingInt 0 s = Some (v0, s1)" by (auto simp: duration_part_def split: if_splits option.splits)
  obtain f scale s2 where x: "(if HasPrefix s1 ''.'' then leadingFraction 0 1 False (tl s1) else (0, 1, s1)) = (f, scale, s2)"
    using prod_cases3 by blast
  have "length s2 \<le> length s1" using x by (auto dest!: leadingFraction_length split: if_splits)
  moreover have "rest = dropWhile unit_char s2" "takeWhile unit_char s2 \<noteq> []"
    using p l x by (auto simp: duration_part_def Let_def split: if_splits option.splits)
  ultimately show ?thesis using leadingInt_length [OF l] takeWhile_shorter [of unit_char s2] by simp
qed

function duration_sum :: "nat \<Rightarrow> string \<Rightarrow> nat option" where
  "duration_sum d s =
     (if s = [] then Some d
      else case duration_part s of
        None \<Rightarrow> None
      | Some (v, rest) \<Rightarrow> (let d' = (d + v) mod 18446744073709551616 in if d' > two63 then None else duration_sum d' rest))"
  by pat_completeness auto
termination
  by (relation "measure (length \<circ> snd)") (auto dest: duration_part_length)

declare duration_sum.simps [simp del]

definition ParseDuration :: "string \<Rightarrow> duration option" where
  "ParseDuration s =
     (let neg = HasPrefix s ''-''; s1 = (if HasPrefix s ''-'' \<or> HasPrefix s ''+'' then tl s else s)
      in if s1 = ''0'' then Some 0
         else if s1 = [] then None
         else case duration_sum 0 s1 of
           None \<Rightarrow> None
         | Some d \<Rightarrow> if neg then Some (i64 (- int d)) else if d > two63 - 1 then None else Some (int d))"

definition parseDurationParam :: "string \<Rightarrow> duration option" where
  "parseDurationParam s =
     (if s = '''' then None
      else if HasSuffix s ''d'' then map_option (\<lambda>days. i64 (i64 (days * 24) * hour)) (Atoi (butlast s))
      else ParseDuration s)"

section \<open>Windows\<close>

definition parseRFC3339Param :: "string \<Rightarrow> time option" where
  "parseRFC3339Param s = parse_RFC3339 s"

text \<open>The text of the error inside \<open>invalid since: ...\<close> is an argument.\<close>

definition parseStatsWindow :: "(string \<Rightarrow> string) \<Rightarrow> time \<Rightarrow> (string \<Rightarrow> string) \<Rightarrow> string + time \<times> time" where
  "parseStatsWindow durErr now q =
     (let fromStr = q ''from''; toStr = q ''to''
      in if fromStr \<noteq> '''' \<or> toStr \<noteq> '''' then
           (if fromStr = '''' \<or> toStr = '''' then Inl ''from and to must both be provided''
            else case parseRFC3339Param fromStr of
              None \<Rightarrow> Inl ''invalid from: must be RFC3339''
            | Some since \<Rightarrow>
                (case parseRFC3339Param toStr of
                   None \<Rightarrow> Inl ''invalid to: must be RFC3339''
                 | Some until \<Rightarrow> if until < since then Inl ''from must be before or equal to to'' else Inr (since, until)))
         else
           case (if q ''since'' = '''' then Some (24 * hour) else parseDurationParam (q ''since'')) of
             None \<Rightarrow> Inl (''invalid since: '' @ durErr (q ''since''))
           | Some d \<Rightarrow> Inr (now + i64 (- d), now))"

section \<open>Handlers\<close>

datatype stats_body =
    StatsBody DashboardStats int
  | MyStatsBody int float64 float64 "ModelStats list"
  | PointsBody "TimeSeriesPoint list"
  | CostBody LifetimeCost

definition HandleGetStats :: "Handler \<Rightarrow> (string \<Rightarrow> string) \<Rightarrow> admin_env \<Rightarrow> (string \<Rightarrow> string) \<Rightarrow> stats_body reply act" where
  "HandleGetStats h durErr env q =
     (case parseStatsWindow durErr (ae_now env) q of
        Inl msg \<Rightarrow> done_with (ReplyError 400 msg)
      | Inr (since, until) \<Rightarrow> do {
          res \<leftarrow> store_read env (\<lambda>flt ks d. GetDashboardStats (ae_floats env) flt (ae_order env) (\<lambda>i. ae_drift env i d) since until);
          done_with (case res of Inl e \<Rightarrow> ReplyError 500 ''failed to load stats'' | Inr stats \<Rightarrow> ReplyJSON 200 (StatsBody stats (ActiveCount (h_active h))))
        })"

definition series_granularity :: "(string \<Rightarrow> string) \<Rightarrow> time \<Rightarrow> time \<Rightarrow> string" where
  "series_granularity q since until = (if q ''granularity'' = '''' then defaultGranularity (time_sub until since) else q ''granularity'')"

definition HandleGetTimeSeries :: "(string \<Rightarrow> string) \<Rightarrow> admin_env \<Rightarrow> (string \<Rightarrow> string) \<Rightarrow> stats_body reply act" where
  "HandleGetTimeSeries durErr env q =
     (case parseStatsWindow durErr (ae_now env) q of
        Inl msg \<Rightarrow> done_with (ReplyError 400 msg)
      | Inr (since, until) \<Rightarrow>
          (let g = series_granularity q since until
           in if g \<noteq> ''hour'' \<and> g \<noteq> ''day'' then done_with (ReplyError 400 ''granularity must be hour or day'')
              else do {
                res \<leftarrow> store_read env (\<lambda>flt ks d. GetTimeSeries (ae_floats env) flt d since until g);
                done_with (case res of Inl e \<Rightarrow> ReplyError 500 ''failed to load time series'' | Inr points \<Rightarrow> ReplyJSON 200 (PointsBody points))
              }))"

definition HandleMyStats :: "(string \<Rightarrow> string) \<Rightarrow> admin_env \<Rightarrow> http_request \<Rightarrow> (string \<Rightarrow> string) \<Rightarrow> stats_body reply act" where
  "HandleMyStats durErr env r q = do {
     key \<leftarrow> authenticateAPIKey env r;
     case key of
       None \<Rightarrow> done_with (ReplyError 401 ''unauthorized'')
     | Some k \<Rightarrow>
         (case parseStatsWindow durErr (ae_now env) q of
            Inl msg \<Rightarrow> done_with (ReplyError 400 msg)
          | Inr (since, until) \<Rightarrow> do {
              res \<leftarrow> store_read env (\<lambda>flt ks d. GetDashboardStatsForAPIKey (ae_floats env) flt (ae_order env) (\<lambda>i. ae_drift env i d) (k_ID k) since until);
              done_with (case res of
                  Inl e \<Rightarrow> ReplyError 500 ''failed to load stats''
                | Inr st \<Rightarrow> ReplyJSON 200 (MyStatsBody (ds_TotalRequests st) (ds_AvgLatencyMs st) (ds_ErrorRate st) (ds_ByModel st)))
            })
   }"

definition HandleMyStatsTimeSeries :: "(string \<Rightarrow> string) \<Rightarrow> admin_env \<Rightarrow> http_request \<Rightarrow> (string \<Rightarrow> string) \<Rightarrow> stats_body reply act" where
  "HandleMyStatsTimeSeries durErr env r q = do {
     key \<leftarrow> authenticateAPIKey env r;
     case key of
       None \<Rightarrow> done_with (ReplyError 401 ''unauthorized'')
     | Some k \<Rightarrow>
         (case parseStatsWindow durErr (ae_now env) q of
            Inl msg \<Rightarrow> done_with (ReplyError 400 msg)
          | Inr (since, until) \<Rightarrow>
              (let g = series_granularity q since until
               in if g \<noteq> ''hour'' \<and> g \<noteq> ''day'' then done_with (ReplyError 400 ''granularity must be hour or day'')
                  else do {
                    res \<leftarrow> store_read env (\<lambda>flt ks d. TimeSeriesByAPIKey (ae_floats env) flt d (k_ID k) since until g);
                    done_with (case res of Inl e \<Rightarrow> ReplyError 500 ''failed to load time series'' | Inr points \<Rightarrow> ReplyJSON 200 (PointsBody points))
                  }))
   }"

definition HandleMyLifetimeCost :: "admin_env \<Rightarrow> http_request \<Rightarrow> stats_body reply act" where
  "HandleMyLifetimeCost env r = do {
     key \<leftarrow> authenticateAPIKey env r;
     case key of
       None \<Rightarrow> done_with (ReplyError 401 ''unauthorized'')
     | Some k \<Rightarrow> do {
         res \<leftarrow> store_read env (\<lambda>flt ks d. GetLifetimeCostForAPIKey (ae_floats env) flt d (k_ID k));
         done_with (case res of Inl e \<Rightarrow> ReplyError 500 ''failed to load lifetime cost'' | Inr cost \<Rightarrow> ReplyJSON 200 (CostBody cost))
       }
   }"

definition HandleGetLifetimeCost :: "admin_env \<Rightarrow> stats_body reply act" where
  "HandleGetLifetimeCost env = do {
     res \<leftarrow> store_read env (\<lambda>flt ks d. GetLifetimeCost (ae_floats env) flt d);
     done_with (case res of Inl e \<Rightarrow> ReplyError 500 ''failed to load lifetime cost'' | Inr cost \<Rightarrow> ReplyJSON 200 (CostBody cost))
   }"

section \<open>What they show\<close>

lemma Itoa_nonempty: "Itoa n \<noteq> ''''"
  by (simp add: Itoa_def)

lemma i64_mult_left: "i64 (i64 x * y) = i64 (x * y)"
proof -
  define q where "q = (x + 2 ^ 63) div 2 ^ 64"
  have "i64 x = x - q * 2 ^ 64" using div_mult_mod_eq [of "x + 2 ^ 63" "2 ^ 64"] unfolding i64_def q_def by linarith
  then have "i64 x * y + 2 ^ 63 = (x * y + 2 ^ 63) + (- q * y) * 2 ^ 64" by (simp only:) (simp add: algebra_simps)
  then show ?thesis by (simp only: i64_def mod_mult_self1)
qed

lemma parse_days: "in_i64 n \<Longrightarrow> parseDurationParam (Itoa n @ ''d'') = Some (i64 (n * 24 * hour))"
  using Atoi_Itoa [of n] by (simp add: parseDurationParam_def HasSuffix_def HasPrefix_def butlast_append i64_mult_left)

text \<open>
  Windows in days. Asking for the last \<open>n\<close> days gives the window of exactly \<open>n\<close> days up to now for every \<open>n\<close> up to 106751; from 106752 on
  the duration has wrapped around, and the window of 106752 days begins after it ends, so that it shows nothing.
\<close>
theorem day_windows:
  assumes "q ''from'' = ''''" and "q ''to'' = ''''" and "q ''since'' = Itoa n @ ''d''" and "0 \<le> n" and "n \<le> 106752"
  shows "\<exists>since. parseStatsWindow durErr now q = Inr (since, now) \<and> (if n \<le> 106751 then since = now - n * 24 * hour else now < since)"
proof -
  have n: "in_i64 n" using assms(4,5) by (simp add: in_i64_def)
  show ?thesis
  proof (cases "n \<le> 106751")
    case True
    then have "in_i64 (n * 24 * hour)" "in_i64 (- (n * 24 * hour))" using assms(4) by (simp_all add: in_i64_def hour_ns)
    then show ?thesis using True assms(1-3) parse_days [OF n] by (simp add: parseStatsWindow_def Itoa_nonempty i64_id)
  next
    case False
    then have "n = 106752" using assms(5) by simp
    then show ?thesis using assms(1-3) parse_days [OF n] by (simp add: parseStatsWindow_def Itoa_nonempty i64_def hour_ns)
  qed
qed

lemma model_row_count: "ms_RequestCount (model_row f g) = int (length (snd g))"
  by (simp add: model_row_def split: prod.splits)

text \<open>
  A key sees its own statistics. On tables that do not change meanwhile, an answer to \<open>HandleMyStats\<close> goes only to a request whose token hashes to a stored, active key, and
  counts exactly the logs of that key in the window; the requests of its models add up to that count.
\<close>
theorem own_statistics:
  assumes "undisturbed env" and "ae_drift env = (\<lambda>i d. d)" and "list_all key_ok (db_api_keys d)"
    and "serve_on (HandleMyStats durErr env r q) d = (ReplyJSON 200 (MyStatsBody n avg rate ms), ev, d')"
  shows "\<exists>k since until. k \<in> set (db_api_keys d) \<and> k_IsActive k \<and> k_KeyHash k = HashKey (BearerToken r) \<and>
    parseStatsWindow durErr (ae_now env) q = Inr (since, until) \<and>
    n = int (length (filter (\<lambda>x. lr_api_key_id x = Some (k_ID k) \<and> since \<le> lr_timestamp x \<and> lr_timestamp x \<le> until) (db_request_logs d))) \<and>
    sum_list (map ms_RequestCount ms) = n"
proof -
  have "wp (HandleMyStats durErr env r q) (\<lambda>rep s'. \<forall>n avg rate ms. rep = ReplyJSON 200 (MyStatsBody n avg rate ms) \<longrightarrow>
      (\<exists>k flt flt' since until st. GetAPIKeyByHash flt (HashKey (BearerToken r)) (sv_db s) = Inr (Some k) \<and> k_IsActive k \<and>
        parseStatsWindow durErr (ae_now env) q = Inr (since, until) \<and>
        dashboardStats (ae_floats env) flt' (ae_order env) (\<lambda>i. sv_db s) since until (k_ID k) = Inr st \<and> n = ds_TotalRequests st \<and> ms = ds_ByModel st)) s" for s
    unfolding HandleMyStats_def authenticateAPIKey_def
    by (intro wp_intros wp_read_alone [OF assms(1)])
      (auto simp: assms(2) GetDashboardStatsForAPIKey_def split: sum.splits option.splits if_splits)
  from serve_on_wp [OF this assms(4)] obtain k flt flt' since until st where k: "GetAPIKeyByHash flt (HashKey (BearerToken r)) d = Inr (Some k)" "k_IsActive k"
    and w: "parseStatsWindow durErr (ae_now env) q = Inr (since, until)"
    and st: "dashboardStats (ae_floats env) flt' (ae_order env) (\<lambda>i. d) since until (k_ID k) = Inr st" "n = ds_TotalRequests st" "ms = ds_ByModel st" by auto
  have kd: "k \<in> set (db_api_keys d)" "k_KeyHash k = HashKey (BearerToken r)"
    using k(1) by (auto simp: GetAPIKeyByHash_def query_row_def filter_eq_Cons_iff split: option.splits list.splits sum.splits if_splits)
  then have "k_ID k \<noteq> ''''" using assms(3) by (auto simp: list_all_iff key_ok_def)
  then have "n = int (length (window_rows since until (k_ID k) d))" "sum_list (map ms_RequestCount ms) = n"
    using st by (auto simp: dashboardStats_def Let_def sum_list_order_by comp_def model_row_count group_by_counts split: sum.splits if_splits dest!: query_Inr query_row_Inr)
  moreover have "window_rows since until (k_ID k) d = filter (\<lambda>x. lr_api_key_id x = Some (k_ID k) \<and> since \<le> lr_timestamp x \<and> lr_timestamp x \<le> until) (db_request_logs d)"
    unfolding window_rows_def by (rule filter_cong) (use \<open>k_ID k \<noteq> ''''\<close> in auto)
  ultimately show ?thesis using k(2) kd w by (intro exI [of _ k] exI [of _ since] exI [of _ until] conjI) simp_all
qed

section \<open>Times as texts\<close>

text \<open>
  Times survive their text. The text in which the statistics give a time is read back as that time, to the second, by the parser of the
  window parameters, for every time up to the year 9999.
\<close>
theorem parse_format_RFC3339:
  assumes "printable t"
  shows "parse_RFC3339 (format_RFC3339 t) = Some (Truncate t second)"
proof -
  have "getfraction ''Z'' = (0, ''Z'')" "getzone ''Z'' = Some (0, '''')" by code_simp+
  with parse_datetime_text [where zone = getzone and skip = "literal ''T''" and sep = "''T''" and r = "''Z''" and z = "''Z''"] assms
  have "parse_datetime (literal ''T'') getzone (format_day t @ ''T'' @ format_clock t @ ''Z'') = Some (Truncate t second)"
    by (simp add: printable_def)
  then show ?thesis by (simp add: parse_RFC3339_def format_RFC3339_def format_clock_def)
qed

section \<open>Samples\<close>

theorem day_windows_witness:
  "parseStatsWindow (\<lambda>s. s) 0 (\<lambda>p. if p = ''since'' then ''30d'' else '''') = Inr (- 30 * 24 * hour, 0)"
proof -
  have "Itoa 30 @ ''d'' = ''30d''" by (simp add: Itoa_def show_nat.simps digit_def char_of_def bit_Suc_0_iff)
  then show ?thesis using day_windows [of "\<lambda>p. if p = ''since'' then ''30d'' else ''''" 30 "\<lambda>s. s" 0] by simp
qed

definition own_db :: db where
  "own_db = empty_db\<lparr>db_api_keys := [sample_key], db_request_logs := [sample_row, sample_row\<lparr>lr_api_key_id := Some ''u0''\<rparr>]\<rparr>"

theorem own_statistics_witness:
  "\<exists>avg rate ms. fst (serve_on (HandleMyStats (\<lambda>s. s) calm_env (bearer sample_raw) (\<lambda>_. '''')) own_db) = ReplyJSON 200 (MyStatsBody 1 avg rate ms) \<and>
     sum_list (map ms_RequestCount ms) = 1"
proof -
  let ?s = "serve_on (HandleMyStats (\<lambda>s. s) calm_env (bearer sample_raw) (\<lambda>_. '''')) own_db"
  have w: "parseStatsWindow (\<lambda>s. s) 7 (\<lambda>_. '''') = Inr (7 - 24 * hour, 7)"
    by (simp add: parseStatsWindow_def hour_ns i64_id in_i64_def)
  have rows: "filter (\<lambda>x. lr_api_key_id x = Some (k_ID sample_key) \<and> 7 - 24 * hour \<le> lr_timestamp x \<and> lr_timestamp x \<le> 7) (db_request_logs own_db) =
      [sample_row\<lparr>lr_api_key_id := Some ''u0''\<rparr>]"
    by (simp add: own_db_def sample_row_def log_columns_def sample_key_def hour_ns zero_RequestLog_def)
  then have "window_rows (7 - 24 * hour) 7 ''u0'' own_db \<noteq> []"
    by (auto simp: window_rows_def filter_empty_conv own_db_def sample_row_def log_columns_def hour_ns)
  then obtain n avg rate ms ev d' where s: "?s = (ReplyJSON 200 (MyStatsBody n avg rate ms), ev, d')"
    using w sample_raw_token
    by (simp add: serve_on_def HandleMyStats_def authenticateAPIKey_def store_read_def done_with_def calm_env_def Let_def GetAPIKeyByHash_def
        own_db_def [THEN arg_cong [of _ _ db_api_keys]] sample_key_def GetDashboardStatsForAPIKey_def dashboardStats_def)
  have "TrimSpace ''ci'' = ''ci''" by code_simp
  then have "list_all key_ok (db_api_keys own_db)" by (simp add: own_db_def key_ok_def sample_key_def not_positive_def)
  moreover have e: "ae_drift calm_env = (\<lambda>i d. d)" "ae_now calm_env = 7" "db_api_keys own_db = [sample_key]" by (simp_all add: calm_env_def own_db_def)
  ultimately have "n = 1 \<and> sum_list (map ms_RequestCount ms) = 1"
    using own_statistics [OF calm_env_calm(1) e(1) _ s] rows w by (auto simp: e)
  then show ?thesis by (simp add: s)
qed

theorem parse_format_RFC3339_witness: "parse_RFC3339 (format_RFC3339 (3 * day + 5 * hour)) = Some (3 * day + 5 * hour)"
proof -
  have "printable (3 * day + 5 * hour)" by code_simp
  from parse_format_RFC3339 [OF this] show ?thesis by (simp add: Truncate_def hour_ns)
qed

end
