(* ===== verification/Admin_Api.thy ===== *)
theory Admin_Api
  imports Admin_Keys Admin_Catalog Admin_Onboard Admin_Logs Admin_Stats
begin

text \<open>
  The admin API as the process mounts it (\<open>Handler.Routes\<close> in \<open>internal/admin/handler.go\<close>, the admin part of
  \<open>cmd/gateway/main.go\<close>): which handler answers which route and which routes ask for the access key. The matching of paths is
  chi's; a route carries the parameters that chi took from the path. Shown is what holds for every route: the constraints of the
  schema survive, a change of the routing tables is announced, a refused request changes nothing, and without the access key nothing can be changed.
\<close>

section \<open>Routes\<close>

datatype admin_route =
    GET_keys | POST_keys | PUT_key string | DELETE_key string | GET_usage
  | GET_providers | POST_providers | GET_provider string | PUT_provider string | DELETE_provider string | PUT_endpoint string string
  | GET_aliases | POST_aliases | PUT_alias string | DELETE_alias string
  | GET_active
  | GET_logs | GET_log string | GET_log_streaming string
  | PUT_model string string | POST_models string | DELETE_model string string
  | GET_config | PUT_config | GET_config_definition
  | GET_stats | GET_stats_timeseries | GET_stats_lifetime

text \<open>What a request brings besides its route, and what its handler meets.\<close>

record api_call =
  ac_request :: http_request
  ac_query :: "string \<Rightarrow> string"
  ac_writer :: header
  ac_text :: text_env
  ac_durErr :: "string \<Rightarrow> string"
  ac_run :: run_end
  ac_config :: config_env
  ac_backend :: backend

definition status_of :: "'b reply act \<Rightarrow> int act" where
  "status_of m = do { rep \<leftarrow> m; State_Monad.return (reply_status rep) }"

text \<open>The settings handlers on the server.\<close>

definition get_config :: "admin_env \<Rightarrow> header \<Rightarrow> int act" where
  "get_config env w = do { resp \<leftarrow> store_read env (\<lambda>flt ks. HandleGetConfig flt w); State_Monad.return (rs_Status resp) }"

definition put_config :: "Handler \<Rightarrow> admin_env \<Rightarrow> config_env \<Rightarrow> header \<Rightarrow> http_request \<Rightarrow> int act" where
  "put_config h env ce w r = State (\<lambda>s.
     let i = sv_calls s; (resp, ev, d) = HandleUpdateConfig (h_configHandler h) ce w r (ae_others env i (sv_db s))
     in (rs_Status resp, s\<lparr>sv_db := d, sv_calls := Suc i, sv_events := sv_events s @ ev\<rparr>))"

definition Routes :: "Handler \<Rightarrow> admin_env \<Rightarrow> api_call \<Rightarrow> admin_route \<Rightarrow> int act" where
  "Routes h env c route = (let r = ac_request c; q = ac_query c in case route of
     GET_keys \<Rightarrow> status_of (HandleListAPIKeys env)
   | POST_keys \<Rightarrow> status_of (HandleCreateAPIKey (ac_text c) env r)
   | PUT_key i \<Rightarrow> status_of (HandleUpdateAPIKey (ac_text c) env i r)
   | DELETE_key i \<Rightarrow> status_of (HandleDeleteAPIKey env i)
   | GET_usage \<Rightarrow> status_of (HandleUsageByKey env q)
   | GET_providers \<Rightarrow> status_of (HandleListProviders env)
   | POST_providers \<Rightarrow> status_of (HandleCreateProvider h env r)
   | GET_provider i \<Rightarrow> status_of (HandleGetProvider env i)
   | PUT_provider i \<Rightarrow> status_of (HandleUpdateProvider h env i r)
   | DELETE_provider i \<Rightarrow> status_of (HandleDeleteProvider h env i)
   | PUT_endpoint i eid \<Rightarrow> status_of (HandleUpdateEndpoint h env i eid r)
   | GET_aliases \<Rightarrow> status_of (HandleListAliases env)
   | POST_aliases \<Rightarrow> status_of (HandleCreateAlias h env r)
   | PUT_alias i \<Rightarrow> status_of (HandleUpdateAlias h env i r)
   | DELETE_alias i \<Rightarrow> status_of (HandleDeleteAlias h env i)
   | GET_active \<Rightarrow> status_of (HandleActive h env)
   | GET_logs \<Rightarrow> status_of (HandleQueryLogs (ac_run c) env q)
   | GET_log i \<Rightarrow> status_of (HandleGetLog (ac_run c) env i)
   | GET_log_streaming i \<Rightarrow> status_of (HandleGetStreamingLogs (ac_run c) env i)
   | PUT_model i mid \<Rightarrow> status_of (HandleUpdateProviderModel h env i mid r)
   | POST_models i \<Rightarrow> status_of (HandleAddProviderModel h env i r)
   | DELETE_model i mid \<Rightarrow> status_of (HandleDeleteProviderModel h env i mid)
   | GET_config \<Rightarrow> get_config env (ac_writer c)
   | PUT_config \<Rightarrow> put_config h env (ac_config c) (ac_writer c) r
   | GET_config_definition \<Rightarrow> State_Monad.return (rs_Status (HandleConfigDefinition (ac_writer c)))
   | GET_stats \<Rightarrow> status_of (HandleGetStats h (ac_durErr c) env q)
   | GET_stats_timeseries \<Rightarrow> status_of (HandleGetTimeSeries (ac_durErr c) env q)
   | GET_stats_lifetime \<Rightarrow> status_of (HandleGetLifetimeCost env))"

datatype mounted =
    Auth | Me | My_usage | My_usage_timeseries | My_stats | My_stats_timeseries | My_stats_lifetime
  | Discover string | Confirm string | Admin admin_route

text \<open>The handlers as the process sets them up: every notification is wired, and the registry is shared with the proxy.\<close>

definition gateway_handler :: "string \<Rightarrow> ActiveRegistry \<Rightarrow> Handler" where
  "gateway_handler accessKey reg = Handler_SetActiveRegistry
     (NewHandler \<lparr>hc_OnHTTPIdleConnTimeoutSaved = True, hc_OnRoutingChanged = True, hc_OnConfigChanged = True, hc_AccessKey = accessKey\<rparr>) (Some reg)"

text \<open>The routes behind \<open>AccessKeyMiddleware\<close>.\<close>

definition with_access_key :: "string \<Rightarrow> http_request \<Rightarrow> int act \<Rightarrow> int act" where
  "with_access_key accessKey r next = (if ValidateAccessKey accessKey r then next else State_Monad.return 401)"

definition admin_mux :: "string \<Rightarrow> ActiveRegistry \<Rightarrow> admin_env \<Rightarrow> api_call \<Rightarrow> mounted \<Rightarrow> int act" where
  "admin_mux accessKey reg env c m = (let h = gateway_handler accessKey reg; r = ac_request c; q = ac_query c in case m of
     Auth \<Rightarrow> status_of (HandleAuth h env r)
   | Me \<Rightarrow> status_of (HandleMe h env r)
   | My_usage \<Rightarrow> status_of (HandleMyUsage env r q)
   | My_usage_timeseries \<Rightarrow> status_of (HandleMyTimeSeries env r q)
   | My_stats \<Rightarrow> status_of (HandleMyStats (ac_durErr c) env r q)
   | My_stats_timeseries \<Rightarrow> status_of (HandleMyStatsTimeSeries (ac_durErr c) env r q)
   | My_stats_lifetime \<Rightarrow> status_of (HandleMyLifetimeCost env r)
   | Discover i \<Rightarrow> with_access_key accessKey r (status_of (HandleDiscover (ac_backend c) env i))
   | Confirm i \<Rightarrow> with_access_key accessKey r (status_of (HandleConfirm True env i r))
   | Admin route \<Rightarrow> with_access_key accessKey r (Routes h env c route))"

definition serve :: "int act \<Rightarrow> db \<Rightarrow> int \<times> admin_event list \<times> db" where
  "serve m d = (case run_state m \<lparr>sv_db = d, sv_calls = 0, sv_events = []\<rparr> of (st, s) \<Rightarrow> (st, sv_events s, sv_db s))"

lemma serve_wp:
  "wp m (\<lambda>st s. Q st (sv_events s) (sv_db s)) \<lparr>sv_db = d, sv_calls = 0, sv_events = []\<rparr> \<Longrightarrow> serve m d = (st, ev, d') \<Longrightarrow> Q st ev d'"
  by (auto simp: wp_def serve_def split: prod.splits)

section \<open>What every route keeps\<close>

lemmas reading_handlers = HandleListAPIKeys_def HandleUsageByKey_def HandleListProviders_def HandleGetProvider_def HandleListAliases_def HandleActive_def
  HandleQueryLogs_def HandleGetLog_def HandleGetStreamingLogs_def QueryWorker_Run_def HandleGetStats_def HandleGetTimeSeries_def HandleGetLifetimeCost_def
  HandleAuth_def HandleMe_def HandleMyUsage_def HandleMyTimeSeries_def HandleMyStats_def HandleMyStatsTimeSeries_def HandleMyLifetimeCost_def
  authenticateAPIKey_def HandleDiscover_def get_config_def

lemmas key_handlers = HandleCreateAPIKey_def HandleUpdateAPIKey_def HandleDeleteAPIKey_def apiKeyNameTaken_def

lemmas catalog_handlers = HandleCreateProvider_def HandleUpdateProvider_def HandleDeleteProvider_def HandleUpdateEndpoint_def HandleCreateAlias_def
  HandleUpdateAlias_def verify_provider_def HandleDeleteAlias_def HandleUpdateProviderModel_def HandleAddProviderModel_def HandleDeleteProviderModel_def
  reply_models_def HandleConfirm_def

lemma maintains_status_of [keep_intros]: "maintains P m \<Longrightarrow> maintains P (status_of m)"
  unfolding status_of_def by (intro keep_intros; assumption)

lemma maintains_list [keep_intros]:
  "(xs = [] \<Longrightarrow> maintains P m) \<Longrightarrow> (\<And>y ys. xs = y # ys \<Longrightarrow> maintains P (f y ys)) \<Longrightarrow> maintains P (case xs of [] \<Rightarrow> m | y # ys \<Rightarrow> f y ys)"
  by (cases xs) simp_all

lemma reading_keep:
  assumes "others_keep P env"
  shows "maintains P (HandleListAPIKeys env)" "maintains P (HandleUsageByKey env q)" "maintains P (HandleListProviders env)" "maintains P (HandleGetProvider env i)"
    "maintains P (HandleListAliases env)" "maintains P (HandleActive h env)" "maintains P (HandleQueryLogs e env q)" "maintains P (HandleGetLog e env i)"
    "maintains P (HandleGetStreamingLogs e env i)" "maintains P (HandleGetStats h de env q)" "maintains P (HandleGetTimeSeries de env q)"
    "maintains P (HandleGetLifetimeCost env)" "maintains P (HandleAuth h env r)" "maintains P (HandleMe h env r)" "maintains P (HandleMyUsage env r q)"
    "maintains P (HandleMyTimeSeries env r q)" "maintains P (HandleMyStats de env r q)" "maintains P (HandleMyStatsTimeSeries de env r q)"
    "maintains P (HandleMyLifetimeCost env r)" "maintains P (HandleDiscover bk env i)" "maintains P (get_config env w)"
  unfolding reading_handlers by (intro keep_intros assms)+

lemma db_ok_keys:
  assumes "others_keep db_ok env"
  shows "maintains db_ok (HandleCreateAPIKey tx env r)" "maintains db_ok (HandleUpdateAPIKey tx env i r)" "maintains db_ok (HandleDeleteAPIKey env i)"
  unfolding key_handlers by (intro keep_intros db_ok_intros assms; assumption)+

lemma db_ok_catalog:
  assumes "others_keep db_ok env"
  shows "maintains db_ok (HandleCreateProvider h env r)" "maintains db_ok (HandleUpdateProvider h env i r)" "maintains db_ok (HandleDeleteProvider h env i)"
    "maintains db_ok (HandleUpdateEndpoint h env i j r)" "maintains db_ok (HandleCreateAlias h env r)" "maintains db_ok (HandleUpdateAlias h env i r)"
    "maintains db_ok (HandleDeleteAlias h env i)" "maintains db_ok (HandleUpdateProviderModel h env i j r)" "maintains db_ok (HandleAddProviderModel h env i r)"
    "maintains db_ok (HandleDeleteProviderModel h env i j)" "maintains db_ok (HandleConfirm b env i r)"
  unfolding catalog_handlers by (intro keep_intros db_ok_intros assms; assumption)+

text \<open>What the update of the settings keeps: anything that saving a setting and the three purges keep.\<close>

lemma save_values_keep:
  assumes keep: "\<And>flt k v now d. P d \<Longrightarrow> P (snd (SetConfig flt k v now d))"
  shows "P d \<Longrightarrow> P (snd (save_values flt clock i config d))"
proof (induction flt clock i config d rule: save_values.induct)
  case (2 flt clock i k v config d)
  then show ?case using keep [of d "flt i" k v "clock i"] by (auto split: prod.splits sum.splits)
qed simp

lemma purge_after_keep:
  "(\<And>flt now days d. P d \<Longrightarrow> P (snd (purge flt now days d))) \<Longrightarrow> purge_after purge key config flt now d = Inr d' \<Longrightarrow> P d \<Longrightarrow> P d'"
  by (auto simp: purge_after_def split: option.splits)

lemma keep_result:
  "(r = None \<Longrightarrow> P (snd (snd m))) \<Longrightarrow> (\<And>x. r = Some x \<Longrightarrow> P (snd (snd (f x)))) \<Longrightarrow> P (snd (snd (case r of None \<Rightarrow> m | Some x \<Rightarrow> f x)))"
  "(\<And>e. u = Inl e \<Longrightarrow> P (snd (snd (g e)))) \<Longrightarrow> (\<And>x. u = Inr x \<Longrightarrow> P (snd (snd (k x)))) \<Longrightarrow> P (snd (snd (case u of Inl e \<Rightarrow> g e | Inr x \<Rightarrow> k x)))"
  "(\<And>x y. z = (x, y) \<Longrightarrow> P (snd (snd (p x y)))) \<Longrightarrow> P (snd (snd (case z of (x, y) \<Rightarrow> p x y)))"
  "(b \<Longrightarrow> P (snd (snd m))) \<Longrightarrow> (\<not> b \<Longrightarrow> P (snd (snd n))) \<Longrightarrow> P (snd (snd (if b then m else n)))"
  "P d \<Longrightarrow> P (snd (snd (resp, ev, d)))"
  by (auto split: option.split sum.split prod.split)

lemma update_config_keep:
  assumes "\<And>flt k v now d. P d \<Longrightarrow> P (snd (SetConfig flt k v now d))" and "\<And>flt now days d. P d \<Longrightarrow> P (snd (PurgeStreamingChunkBodies flt now days d))"
    and "\<And>flt now days d. P d \<Longrightarrow> P (snd (PurgeRequestLogRequestBodies flt now days d))"
    and "\<And>flt now days d. P d \<Longrightarrow> P (snd (PurgeRequestLogResponseBodies flt now days d))" and "P d"
  shows "P (snd (snd (HandleUpdateConfig h ce w r d)))"
proof -
  have save: "P d'" if "save_values flt clock i config d = (b, d')" for flt clock i config b d'
    using save_values_keep [where P = P, OF assms(1,5), of flt clock i config] that by simp
  have purge: "P d'" if "purge_after purge key config flt now d = Inr d'" "P d"
    "purge \<in> {PurgeStreamingChunkBodies, PurgeRequestLogRequestBodies, PurgeRequestLogResponseBodies}" for purge key config flt now d d'
    using that(3) by (intro purge_after_keep [where P = P, OF _ that(1,2)]) (auto intro: assms(2-4))
  show ?thesis unfolding HandleUpdateConfig_def Let_def
    by (intro keep_result [where P = P]; (rule assms(5))?; drule save; assumption?; drule (1) purge, simp; assumption?; drule (1) purge, simp; assumption?; drule (1) purge, simp)
qed

lemma purge_ops_keep:
  assumes "\<And>flt t. P (snd (PurgeStreamingLogBodiesOlderThan flt t d))" and "\<And>flt t. P (snd (PurgeRequestLogRequestBodiesOlderThan flt t d))"
    and "\<And>flt t. P (snd (PurgeRequestLogResponseBodiesOlderThan flt t d))" and "P d"
  shows "P (snd (PurgeStreamingChunkBodies flt now days d))" "P (snd (PurgeRequestLogRequestBodies flt now days d))"
    "P (snd (PurgeRequestLogResponseBodies flt now days d))"
  using assms by (simp_all add: PurgeStreamingChunkBodies_def PurgeRequestLogRequestBodies_def PurgeRequestLogResponseBodies_def split: option.split)

lemma maintains_put_config:
  "others_keep P env \<Longrightarrow> (\<And>d. P d \<Longrightarrow> P (snd (snd (HandleUpdateConfig (h_configHandler h) ce w r d)))) \<Longrightarrow> maintains P (put_config h env ce w r)"
  unfolding maintains_def others_keep_def wp_def put_config_def by (auto simp: Let_def split: prod.splits) (metis snd_conv)

lemma db_ok_update_config: "db_ok d \<Longrightarrow> db_ok (snd (snd (HandleUpdateConfig h ce w r d)))"
  by (rule update_config_keep [where P = db_ok]) (auto intro!: db_ok_intros purge_ops_keep [where P = db_ok] db_ok_log_ops)


section \<open>What a reply says about the database\<close>

definition routing_tables :: "db \<Rightarrow> providers_row list \<times> ProviderEndpoint list \<times> ProviderModel list \<times> ModelAlias list" where
  "routing_tables d = (db_providers d, db_endpoints d, db_models d, db_aliases d)"

text \<open>
  An account of the change from \<open>d\<close>: either there is none, or the reply is an internal error, or it is a success, and then the change was announced if it
  concerns the routing.
\<close>

definition accounted :: "db \<Rightarrow> int \<Rightarrow> server \<Rightarrow> bool" where
  "accounted d st s \<longleftrightarrow> sv_db s = d \<or> st = 500 \<or> st < 400 \<and> (routing_tables (sv_db s) = routing_tables d \<or> RoutingChanged \<in> set (sv_events s))"

definition accounts :: "int act \<Rightarrow> bool" where
  "accounts m \<longleftrightarrow> (\<forall>s. wp m (accounted (sv_db s)) s)"

lemma accounts_reading: "(\<And>d. maintains (\<lambda>x. x = d) m) \<Longrightarrow> accounts m"
  unfolding accounts_def maintains_def wp_def accounted_def by (fastforce split: prod.splits)

lemma alone_keeps: "undisturbed env \<Longrightarrow> others_keep P env"
  by (simp add: undisturbed_def others_keep_def)

text \<open>An operation that reports that no row was found has changed none.\<close>

lemma exec_rows_none:
  "exec_rows flt ctx none st d = (Inl e, d') \<Longrightarrow> is_no_rows e \<Longrightarrow> (\<And>d''. st d = Inr (0, d'') \<Longrightarrow> d'' = d) \<Longrightarrow>
   (\<And>c. st d = Inl c \<Longrightarrow> \<not> is_no_rows (StoreError ctx c)) \<Longrightarrow> d' = d"
  by (auto simp: exec_rows_def run_stmt_def is_no_rows_def split: option.splits sum.splits if_splits)

lemma filter_none: "length (filter P xs) = 0 \<Longrightarrow> map (\<lambda>x. if P x then f x else x) xs = xs" "length (filter P xs) = 0 \<Longrightarrow> filter (\<lambda>x. \<not> P x) xs = xs"
  by (auto simp: filter_empty_conv intro: map_idI filter_True)

lemma missing_unchanged:
  "DeleteProvider flt i d = (Inl e, d') \<Longrightarrow> d' = d"
  "DeleteAlias flt i d = (Inl e, d') \<Longrightarrow> d' = d"
  "DeleteAPIKey flt i d = (Inl e, d') \<Longrightarrow> d' = d"
  "DeleteProviderModel flt i j d = (Inl e, d') \<Longrightarrow> is_no_rows e \<Longrightarrow> d' = d"
  "UpdateProviderModelAvailability flt i j b d = (Inl e, d') \<Longrightarrow> is_no_rows e \<Longrightarrow> d' = d"
  "UpdateProviderModelCosts flt j m d = (Inl e, d') \<Longrightarrow> is_no_rows e \<Longrightarrow> d' = d"
proof -
  show "DeleteProvider flt i d = (Inl e, d') \<Longrightarrow> d' = d"
    by (auto simp: DeleteProvider_def split: option.splits prod.splits sum.splits if_splits)
  show "DeleteAlias flt i d = (Inl e, d') \<Longrightarrow> d' = d" "DeleteAPIKey flt i d = (Inl e, d') \<Longrightarrow> d' = d"
    using exec_atomic by (metis DeleteAlias_def DeleteAPIKey_def fst_conv snd_conv)+
  show "DeleteProviderModel flt i j d = (Inl e, d') \<Longrightarrow> is_no_rows e \<Longrightarrow> d' = d"
    unfolding DeleteProviderModel_def by (erule (1) exec_rows_none) (auto simp: delete_model_def filter_none simp del: de_Morgan_conj)
  show "UpdateProviderModelAvailability flt i j b d = (Inl e, d') \<Longrightarrow> is_no_rows e \<Longrightarrow> d' = d" "UpdateProviderModelCosts flt j m d = (Inl e, d') \<Longrightarrow> is_no_rows e \<Longrightarrow> d' = d"
    unfolding UpdateProviderModelAvailability_def UpdateProviderModelCosts_def by (erule (1) exec_rows_none; auto simp: update_models_def filter_none)+
qed

text \<open>After its availability could be set a model is there, so that its prices can be set as well.\<close>

lemma available_model_found:
  assumes "UpdateProviderModelAvailability flt i j b d = (Inr u, d1)" and "UpdateProviderModelCosts flt' j m d1 = (Inl e, d2)"
  shows "\<not> is_no_rows e"
proof -
  have "length (filter (\<lambda>m. m_ID m = j \<and> m_ProviderID m = i) (db_models d)) \<noteq> 0"
    and d1: "db_models d1 = map (\<lambda>m. if m_ID m = j \<and> m_ProviderID m = i then m\<lparr>m_IsAvailable := b\<rparr> else m) (db_models d)"
    using assms(1) by (auto simp: UpdateProviderModelAvailability_def exec_rows_def run_stmt_def update_models_def split: option.splits if_splits)
  then have "j \<in> m_ID ` set (db_models d)" by (auto simp: filter_empty_conv)
  moreover have "map m_ID (db_models d1) = map m_ID (db_models d)" by (simp add: d1)
  ultimately have "j \<in> m_ID ` set (db_models d1)" by (metis list.set_map)
  then have "filter (\<lambda>m. m_ID m = j) (db_models d1) \<noteq> []" by (auto simp: filter_empty_conv)
  then show ?thesis
    using assms(2) by (auto simp: UpdateProviderModelCosts_def exec_rows_def run_stmt_def update_models_def is_no_rows_def split: option.splits if_splits)
qed

lemma accounts_statusI: "(\<And>s. wp m (\<lambda>rep. accounted (sv_db s) (reply_status rep)) s) \<Longrightarrow> accounts (status_of m)"
  unfolding accounts_def status_of_def by (intro allI wp_bind) (simp add: wp_def)

lemma accounts_catalog:
  assumes "undisturbed env" and "h_onRoutingChanged h"
  shows "accounts (status_of (HandleCreateProvider h env r))" "accounts (status_of (HandleUpdateProvider h env i r))"
    "accounts (status_of (HandleDeleteProvider h env i))" "accounts (status_of (HandleUpdateEndpoint h env i j r))"
    "accounts (status_of (HandleCreateAlias h env r))" "accounts (status_of (HandleUpdateAlias h env i r))" "accounts (status_of (HandleDeleteAlias h env i))"
  unfolding catalog_handlers
  by (rule accounts_statusI; intro wp_intros wp_read_alone [OF assms(1)] wp_write_alone [OF assms(1)];
      auto simp: assms(2) accounted_def dest: missing_unchanged split: sum.splits)+

lemma accounted_missing: "(is_no_rows e \<Longrightarrow> sv_db s = d) \<Longrightarrow> accounted d (reply_status (model_missing e msg)) s"
  by (simp add: model_missing_def accounted_def)

lemma given_not_missing: "x = Some b \<Longrightarrow> x = None \<and> P \<Longrightarrow> R"
  by simp

lemma accounts_models:
  assumes "undisturbed env" and "h_onRoutingChanged h"
  shows "accounts (status_of (HandleUpdateProviderModel h env i j r))" "accounts (status_of (HandleAddProviderModel h env i r))"
    "accounts (status_of (HandleDeleteProviderModel h env i j))"
  unfolding HandleUpdateProviderModel_def HandleAddProviderModel_def HandleDeleteProviderModel_def reply_models_def
  by (rule accounts_statusI; intro wp_intros wp_read_alone [OF assms(1)] wp_write_alone [OF assms(1)] accounted_missing;
      (simp (no_asm) add: assms(2) accounted_def; fail)?; (erule (1) given_not_missing)?; simp (no_asm) add: accounted_def;
      auto dest: missing_unchanged available_model_found)+

lemma accounts_confirm: "undisturbed env \<Longrightarrow> accounts (status_of (HandleConfirm True env i r))"
  unfolding HandleConfirm_def
  by (rule accounts_statusI; intro wp_intros wp_read_alone wp_write_alone; simp add: accounted_def)

lemma routing_tables_key_ops [simp]:
  "routing_tables (snd (CreateAPIKey flt k d)) = routing_tables d" "routing_tables (snd (UpdateAPIKey flt k d)) = routing_tables d"
  "routing_tables (snd (DeleteAPIKey flt i d)) = routing_tables d"
  by (auto simp: CreateAPIKey_def UpdateAPIKey_def DeleteAPIKey_def exec_def run_stmt_def insert_key_def update_keys_def delete_key_def routing_tables_def
      split: option.splits sum.splits prod.splits if_splits)

lemma accounts_keys:
  assumes "undisturbed env"
  shows "accounts (status_of (HandleCreateAPIKey tx env r))" "accounts (status_of (HandleUpdateAPIKey tx env i r))" "accounts (status_of (HandleDeleteAPIKey env i))"
  unfolding key_handlers
  by (rule accounts_statusI; intro wp_intros wp_read_alone [OF assms(1)] wp_write_alone [OF assms(1)];
      auto simp: accounted_def dest: missing_unchanged arg_cong [of _ _ "routing_tables \<circ> snd"] split: sum.splits)+

lemma routing_tables_config_ops:
  "routing_tables (snd (SetConfig flt k v now d)) = routing_tables d" "routing_tables (snd (PurgeStreamingLogBodiesOlderThan flt t d)) = routing_tables d"
  "routing_tables (snd (PurgeRequestLogRequestBodiesOlderThan flt t d)) = routing_tables d"
  "routing_tables (snd (PurgeRequestLogResponseBodiesOlderThan flt t d)) = routing_tables d"
  by (auto simp: SetConfig_def PurgeStreamingLogBodiesOlderThan_def PurgeRequestLogRequestBodiesOlderThan_def PurgeRequestLogResponseBodiesOlderThan_def
      exec_def exec_count_def run_stmt_def upsert_config_def purge_chunks_def purge_request_bodies_def purge_response_bodies_def routing_tables_def Let_def
      split: option.splits sum.splits prod.splits if_splits)

lemma update_config_routing: "routing_tables (snd (snd (HandleUpdateConfig h ce w r d))) = routing_tables d"
  by (rule update_config_keep [where P = "\<lambda>x. routing_tables x = routing_tables d"])
    (auto intro!: purge_ops_keep [where P = "\<lambda>x. routing_tables x = routing_tables d"] simp: routing_tables_config_ops)

lemma respond_status [simp]: "rs_Status (respondError w st msg) = st" "rs_Status (respondJSON w st data) = st"
  by (simp_all add: respondError_def respondJSON_def)

lemma update_config_status:
  "let (resp, ev, d') = HandleUpdateConfig h ce w r d in d' = d \<or> rs_Status resp = 500 \<or> rs_Status resp < 400"
  by (auto simp: HandleUpdateConfig_def HandleGetConfig_def Let_def split: option.split sum.split prod.split)

lemma accounts_put_config:
  assumes "undisturbed env"
  shows "accounts (put_config h env ce w r)"
  unfolding accounts_def
proof
  fix s :: server
  obtain resp ev d' where u: "HandleUpdateConfig (h_configHandler h) ce w r (sv_db s) = (resp, ev, d')" by (rule prod_cases3)
  then have "routing_tables d' = routing_tables (sv_db s)" "d' = sv_db s \<or> rs_Status resp = 500 \<or> rs_Status resp < 400"
    using update_config_routing [of "h_configHandler h" ce w r "sv_db s"] update_config_status [of "h_configHandler h" ce w r "sv_db s"] by simp_all
  then show "wp (put_config h env ce w r) (accounted (sv_db s)) s"
    using assms u by (auto simp: wp_def put_config_def accounted_def undisturbed_def)
qed

lemma accounts_mux:
  assumes "undisturbed env"
  shows "accounts (admin_mux accessKey reg env c m)"
proof -
  have h: "h_onRoutingChanged (gateway_handler accessKey reg)" by (simp add: gateway_handler_def NewHandler_def Handler_SetActiveRegistry_def)
  note reads = accounts_reading maintains_status_of reading_keep [OF alone_keeps [OF assms]]
  have ret: "accounts (State_Monad.return st)" for st by (rule accounts_reading) (rule maintains_return)
  have "accounts (Routes (gateway_handler accessKey reg) env c route)" for route
    unfolding Routes_def Let_def
    by (cases route) (auto intro: reads ret accounts_catalog accounts_models accounts_keys accounts_put_config assms h)
  then show ?thesis
    unfolding admin_mux_def with_access_key_def Let_def
    by (cases m) (auto intro: reads ret accounts_confirm assms)
qed

text \<open>
  C11. Routing changes are announced. If a request on an undisturbed database changes the providers, endpoints, models or aliases and its answer is not an
  internal error, then the answer is a success and the routing catalog has been told to reload.
\<close>
theorem routing_changes_announced:
  assumes "undisturbed env" and "serve (admin_mux accessKey reg env c m) d = (st, ev, d')"
    and "routing_tables d' \<noteq> routing_tables d" and "st \<noteq> 500"
  shows "RoutingChanged \<in> set ev \<and> st < 400"
  using serve_wp [OF accounts_mux [OF assms(1), unfolded accounts_def accounted_def, THEN spec] assms(2)] assms(3,4) by auto

text \<open>
  C27. A refused request changes nothing. On an undisturbed database an answer of status 400 or more, other than an internal error, leaves every table as it was;
  in particular a model whose availability could be set is not reported missing when its prices are set.
\<close>
theorem refused_changes_nothing:
  assumes "undisturbed env" and "serve (admin_mux accessKey reg env c m) d = (st, ev, d')" and "400 \<le> st" and "st \<noteq> 500"
  shows "d' = d"
  using serve_wp [OF accounts_mux [OF assms(1), unfolded accounts_def accounted_def, THEN spec] assms(2)] assms(3,4) by auto

section \<open>Credentials\<close>

definition protected :: "mounted \<Rightarrow> bool" where
  "protected m = (case m of Discover i \<Rightarrow> True | Confirm i \<Rightarrow> True | Admin route \<Rightarrow> True | _ \<Rightarrow> False)"

text \<open>
  C17. Without the access key nothing changes. A request that does not present the access key leaves the database as it is, whatever its route; a route of
  the admin API then answers 401, and without a bearer token so does every other.
\<close>
theorem no_access_key_no_change:
  assumes "undisturbed env" and "\<not> ValidateAccessKey accessKey (ac_request c)" and "serve (admin_mux accessKey reg env c m) d = (st, ev, d')"
  shows "d' = d \<and> (protected m \<or> BearerToken (ac_request c) = '''' \<longrightarrow> st = 401)"
proof -
  have k: "h_accessKey (gateway_handler accessKey reg) = accessKey" by (simp add: gateway_handler_def NewHandler_def Handler_SetActiveRegistry_def)
  have "maintains (\<lambda>x. x = d) (admin_mux accessKey reg env c m)"
    unfolding admin_mux_def with_access_key_def Let_def
    by (cases m) (auto intro: maintains_status_of reading_keep [OF alone_keeps [OF assms(1)]] maintains_return simp: assms(2))
  then have "d' = d" using assms(3) by (auto simp: maintains_def dest!: serve_wp [rotated])
  moreover have "st = 401" if "protected m \<or> BearerToken (ac_request c) = ''''"
    using assms(2,3) that k
    by (cases m) (auto simp: admin_mux_def with_access_key_def protected_def serve_def status_of_def HandleAuth_def HandleMe_def HandleMyUsage_def HandleMyTimeSeries_def
        HandleMyStats_def HandleMyStatsTimeSeries_def HandleMyLifetimeCost_def authenticateAPIKey_def done_with_def Let_def)
  ultimately show ?thesis by blast
qed

section \<open>Samples\<close>

definition sample_call :: "http_request \<Rightarrow> api_call" where
  "sample_call r = \<lparr>ac_request = r, ac_query = (\<lambda>_. ''''), ac_writer = [], ac_text = ascii_text, ac_durErr = (\<lambda>s. s), ac_run = Answered,
     ac_config = calm_config_env, ac_backend = \<lparr>bk_badURL = (\<lambda>_. None), bk_do = (\<lambda>_. Inl ''refused''), bk_jsonError = (\<lambda>s. s)\<rparr>\<rparr>"

definition models_db :: db where
  "models_db = empty_db\<lparr>db_models := [new_model ''m'' ''p'' ''gpt'' 0]\<rparr>"

abbreviation sample_mux :: "admin_env \<Rightarrow> string \<Rightarrow> mounted \<Rightarrow> int act" where
  "sample_mux env token \<equiv> admin_mux ''secret'' NewActiveRegistry env (sample_call (bearer token))"

lemma sample_access: "ValidateAccessKey ''secret'' (bearer ''secret'')" "\<not> ValidateAccessKey ''secret'' (bearer ''other'')"
  by code_simp+

lemma sample_deleted:
  "serve (sample_mux calm_env ''secret'' (Admin (DELETE_model ''p'' ''m''))) models_db = (200, [RoutingChanged], empty_db)"
  by (simp add: serve_def admin_mux_def with_access_key_def sample_call_def sample_access Routes_def status_of_def HandleDeleteProviderModel_def
      reply_models_def store_read_def store_write_def calm_env_def DeleteProviderModel_def exec_rows_def run_stmt_def delete_model_def no_fault_def new_model_def
      models_db_def empty_db_def ListProviderModels_def query_def order_by_def notifyRoutingChanged_def gateway_handler_def NewHandler_def
      Handler_SetActiveRegistry_def announce_def done_with_def)


theorem routing_changes_announced_witness: "RoutingChanged \<in> set [RoutingChanged] \<and> (200::int) < 400 \<and> routing_tables empty_db \<noteq> routing_tables models_db"
proof -
  have "routing_tables empty_db \<noteq> routing_tables models_db" by (simp add: routing_tables_def models_db_def empty_db_def)
  then show ?thesis using routing_changes_announced [OF calm_env_calm(1) sample_deleted] by simp
qed

theorem refused_changes_nothing_witness:
  "\<exists>st ev d'. serve (sample_mux calm_env ''secret'' (Admin (DELETE_model ''p'' ''x''))) models_db = (st, ev, d') \<and> st = 404 \<and> d' = models_db"
proof -
  obtain st ev d' where s: "serve (sample_mux calm_env ''secret'' (Admin (DELETE_model ''p'' ''x''))) models_db = (st, ev, d')" by (rule prod_cases3)
  then have "st = 404"
    by (simp add: serve_def admin_mux_def with_access_key_def sample_call_def sample_access Routes_def status_of_def HandleDeleteProviderModel_def
        store_write_def calm_env_def DeleteProviderModel_def exec_rows_def run_stmt_def delete_model_def no_fault_def new_model_def
        models_db_def empty_db_def done_with_def model_missing_def is_no_rows_def)
  then show ?thesis using refused_changes_nothing [OF calm_env_calm(1) s] s by simp
qed

theorem no_access_key_no_change_witness:
  "\<exists>st ev d'. serve (sample_mux calm_env ''other'' (Admin (DELETE_model ''p'' ''m''))) models_db = (st, ev, d') \<and> st = 401 \<and> d' = models_db"
proof -
  obtain st ev d' where s: "serve (sample_mux calm_env ''other'' (Admin (DELETE_model ''p'' ''m''))) models_db = (st, ev, d')" by (rule prod_cases3)
  have "\<not> ValidateAccessKey ''secret'' (ac_request (sample_call (bearer ''other'')))" by (simp add: sample_call_def sample_access)
  from no_access_key_no_change [OF calm_env_calm(1) this s] s show ?thesis by (simp add: protected_def)
qed

text \<open>
  An internal error may hide a change of the routing: if the list that the reply carries cannot be read, the model is gone and the catalog keeps it.
\<close>
theorem silent_change:
  "serve (sample_mux (calm_env\<lparr>ae_fault := (\<lambda>i. if i = 1 then \<lambda>_. Some ''disk I/O error'' else no_fault)\<rparr>) ''secret'' (Admin (DELETE_model ''p'' ''m''))) models_db =
   (500, [], empty_db)"
  by (simp add: serve_def admin_mux_def with_access_key_def sample_call_def sample_access Routes_def status_of_def HandleDeleteProviderModel_def
      reply_models_def store_read_def store_write_def calm_env_def DeleteProviderModel_def exec_rows_def run_stmt_def delete_model_def no_fault_def new_model_def
      models_db_def empty_db_def ListProviderModels_def query_def done_with_def)

end
