(* ===== verification/Store_Times.thy ===== *)
theory Store_Times
  imports Go_Time_Text Store_Logs
begin

text \<open>
  Values on their way to and from the database driver (\<open>internal/db/sqlite.go\<close>, helpers): nullable
  arguments, and the scanners that read a time column in any of the formats the database may hold. Shown is that
  a time read back is the instant that was stored.
\<close>

section \<open>Driver values\<close>

datatype driver_value = VNull | VInt int | VFloat rat | VString string | VBytes string | VTime time

definition nullInt :: "int option \<Rightarrow> driver_value" where
  "nullInt v = (case v of None \<Rightarrow> VNull | Some n \<Rightarrow> VInt n)"

definition nullFloat64 :: "rat option \<Rightarrow> driver_value" where
  "nullFloat64 v = (case v of None \<Rightarrow> VNull | Some x \<Rightarrow> VFloat x)"

definition nullInt64 :: "int option \<Rightarrow> driver_value" where
  "nullInt64 v = (case v of None \<Rightarrow> VNull | Some n \<Rightarrow> VInt n)"

definition nullTime :: "time option \<Rightarrow> driver_value" where
  "nullTime v = (case v of None \<Rightarrow> VNull | Some t \<Rightarrow> VTime t)"

section \<open>Time formats\<close>

text \<open>
  The layout element \<open>MST\<close>: a signed hour, \<open>GMT\<close> with or without one, or three to five capital letters. The name decides
  the instant only when it is \<open>UTC\<close>, which overrides the offset before it; otherwise the offset counts.
\<close>

definition parseSignedOffset :: "string \<Rightarrow> nat" where
  "parseSignedOffset s = (case s of
     [] \<Rightarrow> 0
   | sign # r \<Rightarrow> let ds = takeWhile is_digit r
       in if sign \<noteq> CHR ''-'' \<and> sign \<noteq> CHR ''+'' then 0
          else if ds = [] \<or> read_digits ds > 23 then 0 else Suc (length ds))"

definition is_upper :: "char \<Rightarrow> bool" where
  "is_upper c \<longleftrightarrow> 65 \<le> (of_char c :: nat) \<and> (of_char c :: nat) \<le> 90"

definition parseTimeZone :: "string \<Rightarrow> nat option" where
  "parseTimeZone s =
     (if length s < 3 then None
      else if HasPrefix s ''ChST'' \<or> HasPrefix s ''MeST'' then Some 4
      else if HasPrefix s ''GMT'' then Some (3 + parseSignedOffset (drop 3 s))
      else if hd s = CHR ''+'' \<or> hd s = CHR ''-'' then (let n = parseSignedOffset s in if n > 0 then Some n else None)
      else let n = length (takeWhile is_upper (take 6 s))
           in if n = 3 then Some 3
              else if n = 4 then (if s ! 3 = CHR ''T'' \<or> HasPrefix s ''WITA'' then Some 4 else None)
              else if n = 5 then (if s ! 4 = CHR ''T'' then Some 5 else None)
              else None)"

definition named_zone :: "string \<Rightarrow> (int \<times> string) option" where
  "named_zone s = do {
     s \<leftarrow> skip_space s;
     (off, s) \<leftarrow> getoffset '''' s;
     s \<leftarrow> skip_space s;
     if HasPrefix s ''UTC'' then Some (0, drop 3 s)
     else do { n \<leftarrow> parseTimeZone s; Some (off, drop n s) }
   }"

definition spaced_zone :: "string \<Rightarrow> (int \<times> string) option" where
  "spaced_zone s = do { s \<leftarrow> skip_space s; getoffset '':'' s }"

text \<open>The layouts with and without a fraction accept the same texts.\<close>

definition timeFormats :: "(string \<Rightarrow> time option) list" where
  "timeFormats = [
     parse_datetime skip_space named_zone,
     parse_datetime skip_space spaced_zone,
     parse_datetime skip_space (getoffset '':''),
     parse_datetime skip_space spaced_zone,
     parse_datetime skip_space (getoffset '':''),
     parse_datetime skip_space (\<lambda>s. Some (0, s)),
     parse_RFC3339,
     parse_RFC3339]"

section \<open>Scanners\<close>

datatype scan_error = CannotParseTime string | UnsupportedType driver_value

record nullTimeScanner =
  nt_Time :: time
  nt_Valid :: bool

fun first_parse :: "(string \<Rightarrow> time option) list \<Rightarrow> string \<Rightarrow> time option" where
  "first_parse [] v = None"
| "first_parse (f # fs) v = (case f v of Some t \<Rightarrow> Some t | None \<Rightarrow> first_parse fs v)"

text \<open>A failed scan leaves the scanner as it was.\<close>

definition nullTimeScanner_Scan :: "driver_value \<Rightarrow> scan_error + nullTimeScanner" where
  "nullTimeScanner_Scan value =
     (let scan_string = (\<lambda>v. case first_parse timeFormats v of Some t \<Rightarrow> Inr \<lparr>nt_Time = t, nt_Valid = True\<rparr> | None \<Rightarrow> Inl (CannotParseTime v))
      in case value of
        VNull \<Rightarrow> Inr \<lparr>nt_Time = 0, nt_Valid = False\<rparr>
      | VTime t \<Rightarrow> Inr \<lparr>nt_Time = t, nt_Valid = True\<rparr>
      | VString v \<Rightarrow> scan_string v
      | VBytes v \<Rightarrow> scan_string v
      | _ \<Rightarrow> Inl (UnsupportedType value))"

definition timeScanner_Scan :: "driver_value \<Rightarrow> scan_error + time" where
  "timeScanner_Scan value = (case nullTimeScanner_Scan value of Inl e \<Rightarrow> Inl e | Inr n \<Rightarrow> Inr (nt_Time n))"

text \<open>What a reader keeps of a nullable column.\<close>

definition time_column :: "nullTimeScanner \<Rightarrow> time option" where
  "time_column n = (if nt_Valid n then Some (nt_Time n) else None)"

section \<open>What the driver writes\<close>

text \<open>
  With \<open>_time_format=sqlite\<close> a time is written as \<open>2006-01-02 15:04:05.999999999-07:00\<close>, without it as \<open>Time.String\<close> does, with the
  zone's name. The zone is given by its offset in minutes.
\<close>

definition minutes :: "int \<Rightarrow> int" where
  "minutes z = z * 60 * second"

definition format_offset :: "string \<Rightarrow> int \<Rightarrow> string" where
  "format_offset colon z = (if z < 0 then ''-'' else ''+'') @ pad2 (\<bar>z\<bar> div 60) @ colon @ pad2 (\<bar>z\<bar> mod 60)"

definition sqlite_text :: "int \<Rightarrow> time \<Rightarrow> string" where
  "sqlite_text z t = (let l = t + minutes z in format_day l @ '' '' @ format_clock l @ format_fraction l @ format_offset '':'' z)"

definition go_text :: "int \<Rightarrow> string \<Rightarrow> time \<Rightarrow> string" where
  "go_text z name t = (let l = t + minutes z in format_day l @ '' '' @ format_clock l @ format_fraction l @ '' '' @ format_offset '''' z @ '' '' @ name)"

definition stored :: "int \<Rightarrow> driver_value \<Rightarrow> driver_value" where
  "stored z v = (case v of VTime t \<Rightarrow> VString (sqlite_text z t) | _ \<Rightarrow> v)"

section \<open>Reading back\<close>

lemma getoffset_format:
  assumes "\<bar>z\<bar> < 24 * 60"
  shows "getoffset colon (format_offset colon z @ r) = Some (minutes z, r)"
proof -
  have "\<bar>z\<bar> div 60 < 24" "0 \<le> \<bar>z\<bar> div 60" "\<bar>z\<bar> mod 60 < 60" "0 \<le> \<bar>z\<bar> mod 60" using assms by auto
  moreover have "\<bar>z\<bar> div 60 * hour + \<bar>z\<bar> mod 60 * 60 * second = minutes \<bar>z\<bar>"
    using div_mult_mod_eq [of "\<bar>z\<bar>" 60] unfolding minutes_def hour_ns by linarith
  moreover have "minutes \<bar>z\<bar> = (if z < 0 then - minutes z else minutes z)" by (simp add: minutes_def)
  ultimately show ?thesis by (simp add: getoffset_def format_offset_def split: if_splits)
qed

lemma skip_space_clock: "skip_space ('' '' @ format_clock t @ r) = Some (format_clock t @ r)"
proof -
  have "0 \<le> t mod day div hour" "t mod day div hour < 24" using clock_digit [of hour 24 t] by (simp_all add: hour_ns)
  then have "is_digit (digit (nat (t mod day div hour div 10)))" by simp
  then have "digit (nat (t mod day div hour div 10)) \<noteq> CHR '' ''" by (auto simp: is_digit_def)
  then show ?thesis by (simp add: skip_space_def format_clock_def pad2_def)
qed

lemma whole_seconds: "Truncate t second + t mod second = t"
  by (simp add: Truncate_def)

lemma parse_stored:
  assumes "printable l" and "r = [] \<or> \<not> is_digit (hd r) \<and> hd r \<noteq> CHR ''.'' \<and> hd r \<noteq> CHR '',''"
  shows "parse_datetime skip_space zone (format_day l @ CHR '' '' # format_clock l @ format_fraction l @ r) =
    (case zone r of None \<Rightarrow> None | Some (off, s) \<Rightarrow> if s = '''' then Some (l - off) else None)"
  using parse_datetime_text [where sep = "'' ''" and skip = skip_space and r = "format_fraction l @ r" and zone = zone, OF _ _ getfraction_format [OF assms(2)]]
    assms(1) skip_space_clock [of l "format_fraction l @ r"] whole_seconds [of l] by (simp add: printable_def split: option.split)

lemma sqlite_text_read:
  assumes "printable (t + minutes z)" and "\<bar>z\<bar> < 24 * 60"
  shows "first_parse timeFormats (sqlite_text z t) = Some t"
proof -
  have o: "getoffset '':'' (format_offset '':'' z) = Some (minutes z, [])" using getoffset_format [OF assms(2), of "'':''" "[]"] by simp
  have h: "format_offset '':'' z = (if z < 0 then CHR ''-'' else CHR ''+'') # tl (format_offset '':'' z)" by (simp add: format_offset_def)
  have s: "skip_space (format_offset '':'' z) = None" by (subst h) (simp add: skip_space_def)
  have "\<not> is_digit (hd (format_offset '':'' z)) \<and> hd (format_offset '':'' z) \<noteq> CHR ''.'' \<and> hd (format_offset '':'' z) \<noteq> CHR '',''"
    by (subst (1 2 3) h) (simp add: is_digit_def)
  then show ?thesis
    using s o by (simp add: sqlite_text_def Let_def timeFormats_def parse_stored [OF assms(1)] named_zone_def spaced_zone_def)
qed

lemma go_text_read:
  assumes "printable (t + minutes z)" and "\<bar>z\<bar> < 24 * 60" and "length name = 3" "list_all is_upper name" "name = ''UTC'' \<longrightarrow> z = 0"
  shows "first_parse timeFormats (go_text z name t) = Some t"
proof -
  let ?r = "'' '' @ format_offset '''' z @ '' '' @ name"
  obtain a b c where n: "name = [a, b, c]" using assms(3) by (auto simp: numeral_3_eq_3 length_Suc_conv)
  have sp: "a \<noteq> CHR '' ''" "a \<noteq> CHR ''+''" "a \<noteq> CHR ''-''" using assms(4) by (auto simp: n is_upper_def)
  have s: "skip_space ?r = Some (format_offset '''' z @ '' '' @ name)" by (simp add: skip_space_def format_offset_def)
  have m: "skip_space ('' '' @ name) = Some name" using sp by (simp add: skip_space_def n)
  have z: "parseTimeZone name = Some 3" if "name \<noteq> ''UTC''"
    using sp assms(4) by (auto simp: parseTimeZone_def n HasPrefix_def parseSignedOffset_def)
  have "named_zone ?r = Some (minutes z, '''')"
    using m z assms(5) unfolding named_zone_def s by (simp add: getoffset_format [OF assms(2)] minutes_def n HasPrefix_def)
  then show ?thesis by (simp add: go_text_def Let_def timeFormats_def parse_stored [OF assms(1)] is_digit_def)
qed



end
