(* ===== verification/Sql_Tables.thy ===== *)
theory Sql_Tables
  imports Store_Times
begin

text \<open>
  What the migrations use of SQLite: tables with their columns, keys and foreign keys, the catalog \<open>sqlite_master\<close>, the
  statements that the program writes itself (reading a table, inserting a row), and quoted identifiers. The text of any other statement is read by
  the engine, a parameter. Foreign keys are enforced. Shown is that the statement written for a
  copied row names exactly the table and the columns it is written for, whatever characters they hold.
\<close>

section \<open>Tables\<close>

record sq_schema =
  sc_name :: string
  sc_columns :: "string list"
  sc_not_null :: "string list"
  sc_keys :: "string list list"
  sc_refs :: "(string \<times> string \<times> string) list"

type_synonym sq_row = "driver_value list"

record sq_table =
  tb_schema :: sq_schema
  tb_sql :: string
  tb_rows :: "sq_row list"

record sq_db =
  sq_tables :: "sq_table list"
  sq_indexes :: "(string \<times> string option) list"

definition empty_sq :: sq_db where
  "empty_sq = \<lparr>sq_tables = [], sq_indexes = []\<rparr>"

datatype sq_error =
    NoSuchTable string
  | TableExists string
  | NullValue string
  | KeyTaken "string list"
  | BrokenReference string
  | BadStatement string
  | DriverFault string

abbreviation tb_name :: "sq_table \<Rightarrow> string" where
  "tb_name t \<equiv> sc_name (tb_schema t)"

definition find_table :: "string \<Rightarrow> sq_db \<Rightarrow> sq_table option" where
  "find_table n d = find (\<lambda>t. tb_name t = n) (sq_tables d)"

definition column :: "sq_schema \<Rightarrow> sq_row \<Rightarrow> string \<Rightarrow> driver_value" where
  "column sc r c = (case map_of (zip (sc_columns sc) r) c of Some v \<Rightarrow> v | None \<Rightarrow> VNull)"

text \<open>Two rows collide on a key when they agree on it and hold no NULL there.\<close>

definition collides :: "sq_schema \<Rightarrow> string list \<Rightarrow> sq_row \<Rightarrow> sq_row \<Rightarrow> bool" where
  "collides sc k r r' \<longleftrightarrow> list_all (\<lambda>c. column sc r c = column sc r' c \<and> column sc r c \<noteq> VNull) k"

definition own_error :: "sq_table \<Rightarrow> sq_row \<Rightarrow> sq_error option" where
  "own_error t r =
     (let sc = tb_schema t
      in case find (\<lambda>c. column sc r c = VNull) (sc_not_null sc) of
           Some c \<Rightarrow> Some (NullValue c)
         | None \<Rightarrow> map_option KeyTaken (find (\<lambda>k. list_ex (collides sc k r) (tb_rows t)) (sc_keys sc)))"

text \<open>A row that refers to a table that does not exist is refused; otherwise a value other than NULL has to be in the column it refers to.\<close>

definition ref_error :: "sq_db \<Rightarrow> sq_schema \<Rightarrow> sq_row \<Rightarrow> string \<times> string \<times> string \<Rightarrow> sq_error option" where
  "ref_error d sc r ref = (case ref of (c, p, pc) \<Rightarrow>
     (case find_table p d of
        None \<Rightarrow> Some (NoSuchTable p)
      | Some t \<Rightarrow> if column sc r c = VNull \<or> list_ex (\<lambda>r'. column (tb_schema t) r' pc = column sc r c) (tb_rows t) then None
                  else Some (BrokenReference p)))"

definition add_row :: "string \<Rightarrow> sq_row \<Rightarrow> sq_db \<Rightarrow> sq_db" where
  "add_row n r d = d\<lparr>sq_tables := map (\<lambda>t. if tb_name t = n then t\<lparr>tb_rows := tb_rows t @ [r]\<rparr> else t) (sq_tables d)\<rparr>"

definition insert_row :: "string \<Rightarrow> string list \<Rightarrow> driver_value list \<Rightarrow> sq_db \<Rightarrow> sq_error + sq_db" where
  "insert_row n cols vals d = (case find_table n d of
     None \<Rightarrow> Inl (NoSuchTable n)
   | Some t \<Rightarrow>
       let sc = tb_schema t;
           r = map (\<lambda>c. case map_of (zip cols vals) c of Some v \<Rightarrow> v | None \<Rightarrow> VNull) (sc_columns sc);
           d' = add_row n r d
       in case own_error t r of
            Some e \<Rightarrow> Inl e
          | None \<Rightarrow> (case find (\<lambda>ref. ref_error d' sc r ref \<noteq> None) (sc_refs sc) of
              Some ref \<Rightarrow> Inl (the (ref_error d' sc r ref))
            | None \<Rightarrow> Inr d'))"

definition create_table :: "sq_schema \<Rightarrow> string \<Rightarrow> sq_db \<Rightarrow> sq_error + sq_db" where
  "create_table sc sql d =
     (if find_table (sc_name sc) d \<noteq> None then Inl (TableExists (sc_name sc))
      else Inr (d\<lparr>sq_tables := sq_tables d @ [\<lparr>tb_schema = sc, tb_sql = sql, tb_rows = []\<rparr>]\<rparr>))"

section \<open>Statements written by the program\<close>

definition dquote :: char where
  "dquote = CHR 0x22"

definition double_quotes :: "string \<Rightarrow> string" where
  "double_quotes s = concat (map (\<lambda>c. if c = dquote then [dquote, dquote] else [c]) s)"

definition quoteIdent :: "string \<Rightarrow> string" where
  "quoteIdent s = [dquote] @ double_quotes s @ [dquote]"

definition quoteAll :: "string list \<Rightarrow> string list" where
  "quoteAll names = map quoteIdent names"

fun Join :: "string list \<Rightarrow> string \<Rightarrow> string" where
  "Join [] sep = ''''"
| "Join [s] sep = s"
| "Join (s # t # ts) sep = s @ sep @ Join (t # ts) sep"

definition Repeat :: "string \<Rightarrow> nat \<Rightarrow> string" where
  "Repeat s n = concat (replicate n s)"

definition insertSQL :: "string \<Rightarrow> string list \<Rightarrow> string" where
  "insertSQL name cols =
     ''INSERT INTO '' @ quoteIdent name @ '' ('' @ Join (quoteAll cols) '', '' @ '') VALUES ('' @
     TrimSuffix (Repeat ''?, '' (length cols)) '', '' @ '')''"

definition selectSQL :: "string \<Rightarrow> string" where
  "selectSQL name = ''SELECT * FROM '' @ quoteIdent name"

text \<open>How the engine reads them.\<close>

fun unquote_ident :: "string \<Rightarrow> (string \<times> string) option" where
  "unquote_ident [] = None"
| "unquote_ident (c # s) =
     (if c = dquote
      then (case s of [] \<Rightarrow> Some ([], []) | c' # s' \<Rightarrow> if c' = dquote then map_option (apfst (Cons dquote)) (unquote_ident s') else Some ([], s))
      else map_option (apfst (Cons c)) (unquote_ident s))"

definition read_ident :: "string \<Rightarrow> (string \<times> string) option" where
  "read_ident s = do { s \<leftarrow> literal [dquote] s; unquote_ident s }"

fun read_idents :: "nat \<Rightarrow> string \<Rightarrow> (string list \<times> string) option" where
  "read_idents 0 s = None"
| "read_idents (Suc k) s = do {
     (n, s) \<leftarrow> read_ident s;
     case literal '', '' s of
       Some s' \<Rightarrow> do { (ns, s'') \<leftarrow> read_idents k s'; Some (n # ns, s'') }
     | None \<Rightarrow> Some ([n], s)
   }"

definition placeholders :: "nat \<Rightarrow> string" where
  "placeholders n = Join (replicate n ''?'') '', ''"

definition read_insert :: "string \<Rightarrow> (string \<times> string list) option" where
  "read_insert s = do {
     s \<leftarrow> literal ''INSERT INTO '' s;
     (n, s) \<leftarrow> read_ident s;
     s \<leftarrow> literal '' ('' s;
     (cols, s) \<leftarrow> read_idents (length s) s;
     if s = '') VALUES ('' @ placeholders (length cols) @ '')'' then Some (n, cols) else None
   }"

definition exec_insert :: "string \<Rightarrow> driver_value list \<Rightarrow> sq_db \<Rightarrow> sq_error + sq_db" where
  "exec_insert s vals d = (case read_insert s of
     Some (n, cols) \<Rightarrow> if length vals = length cols then insert_row n cols vals d else Inl (BadStatement s)
   | None \<Rightarrow> Inl (BadStatement s))"

definition exec_select :: "string \<Rightarrow> sq_db \<Rightarrow> sq_error + string list \<times> sq_row list" where
  "exec_select s d = (case do { s \<leftarrow> literal ''SELECT * FROM '' s; read_ident s } of
     Some (n, r) \<Rightarrow> if r \<noteq> '''' then Inl (BadStatement s) else (case find_table n d of
         Some t \<Rightarrow> Inr (sc_columns (tb_schema t), tb_rows t)
       | None \<Rightarrow> Inl (NoSuchTable n))
   | None \<Rightarrow> Inl (BadStatement s))"

section \<open>Quoting is read back\<close>

lemma unquote_double:
  assumes "r = [] \<or> hd r \<noteq> dquote"
  shows "unquote_ident (double_quotes s @ dquote # r) = Some (s, r)"
  using assms by (induction s) (auto simp: double_quotes_def split: list.split)

lemma read_quoteIdent: "r = [] \<or> hd r \<noteq> dquote \<Longrightarrow> read_ident (quoteIdent s @ r) = Some (s, r)"
  using literal_append [of "[dquote]" "double_quotes s @ dquote # r"] unquote_double [of r s]
  by (simp add: read_ident_def quoteIdent_def)

lemma read_quoteAll:
  assumes "r = [] \<or> hd r \<noteq> dquote \<and> hd r \<noteq> CHR '',''" and "cols \<noteq> []" and "length cols \<le> k"
  shows "read_idents k (Join (quoteAll cols) '', '' @ r) = Some (cols, r)"
  using assms(2,3)
proof (induction cols arbitrary: k)
  case (Cons c cs)
  then obtain k' where k: "k = Suc k'" "length cs \<le> k'" by (cases k) auto
  have comma: "CHR '','' \<noteq> dquote" by (simp add: dquote_def)
  show ?case
  proof (cases cs)
    case Nil
    have "literal '', '' r = None" using assms(1) by (cases r) (auto simp: literal_def HasPrefix_def)
    moreover have "read_ident (quoteIdent c @ r) = Some (c, r)" using assms(1) by (intro read_quoteIdent) blast
    ultimately show ?thesis by (simp add: k Nil quoteAll_def)
  next
    case (Cons c' cs')
    let ?rest = "Join (quoteAll cs) '', '' @ r"
    have "read_ident (quoteIdent c @ '', '' @ ?rest) = Some (c, '', '' @ ?rest)" by (rule read_quoteIdent) (simp add: comma)
    moreover have "literal '', '' ('', '' @ ?rest) = Some ?rest" by (rule literal_append)
    moreover have "read_idents k' ?rest = Some (cs, r)" using Cons.IH k(2) Cons by blast
    moreover have "Join (quoteAll (c # cs)) '', '' @ r = quoteIdent c @ '', '' @ ?rest" by (simp add: Cons quoteAll_def)
    ultimately show ?thesis by (simp only: k read_idents.simps) simp
  qed
qed simp

lemma placeholders_text: "TrimSuffix (Repeat ''?, '' n) '', '' = placeholders n"
proof (cases n)
  case (Suc m)
  have "Repeat ''?, '' (Suc m) = placeholders (Suc m) @ '', ''"
    by (induction m) (simp_all add: Repeat_def placeholders_def)
  then show ?thesis by (simp add: Suc TrimSuffix_def TrimPrefix_def HasPrefix_def)
qed (simp add: Repeat_def placeholders_def TrimSuffix_def TrimPrefix_def HasPrefix_def)

lemma length_Join_quoteAll: "length cols \<le> length (Join (quoteAll cols) sep)"
proof (induction cols)
  case (Cons c cs)
  then show ?case by (cases cs) (simp_all add: quoteAll_def quoteIdent_def)
qed (simp add: quoteAll_def)

lemma read_insertSQL:
  assumes "cols \<noteq> []"
  shows "read_insert (insertSQL name cols) = Some (name, cols)"
proof -
  let ?tail = "'') VALUES ('' @ placeholders (length cols) @ '')''"
  let ?list = "Join (quoteAll cols) '', '' @ ?tail"
  have "read_ident (quoteIdent name @ '' ('' @ ?list) = Some (name, '' ('' @ ?list)" by (rule read_quoteIdent) (simp add: dquote_def)
  moreover have "read_idents (length ?list) ?list = Some (cols, ?tail)"
    using length_Join_quoteAll [of cols "'', ''"] by (intro read_quoteAll assms) (simp_all add: dquote_def)
  moreover have "insertSQL name cols = ''INSERT INTO '' @ quoteIdent name @ '' ('' @ ?list" by (simp add: insertSQL_def placeholders_text)
  ultimately show ?thesis
    using literal_append [of "''INSERT INTO ''"] literal_append [of "'' (''"] by (simp only: read_insert_def) simp
qed

lemma exec_selectSQL:
  "exec_select (selectSQL name) d = (case find_table name d of Some t \<Rightarrow> Inr (sc_columns (tb_schema t), tb_rows t) | None \<Rightarrow> Inl (NoSuchTable name))"
  using literal_append [of "''SELECT * FROM ''" "quoteIdent name"] read_quoteIdent [of "[]" name] by (simp add: exec_select_def selectSQL_def)

end
