(* ===== verification/Store_Migrate.thy ===== *)
theory Store_Migrate
  imports Sql_Tables
begin

text \<open>
  The schema migrations (\<open>internal/db/sqlite.go\<close>, \<open>runMigrations\<close>). Each embedded \<open>*.up.sql\<close> file is cut into statements
  and run in a transaction that also records its name in \<open>_migrations\<close>. Every call of the driver may fail; a commit that fails may have taken
  effect all the same. Shown is that the database always holds a prefix of the migrations, each applied as a whole and once, so that boots that fail
  at any point are made up for by the next one.
\<close>

section \<open>Statements of a file\<close>

fun Split :: "string \<Rightarrow> char \<Rightarrow> string list" where
  "Split [] sep = [[]]"
| "Split (c # s) sep = (if c = sep then [] # Split s sep else (case Split s sep of [] \<Rightarrow> [[c]] | t # ts \<Rightarrow> (c # t) # ts))"

definition allComment :: "string \<Rightarrow> bool" where
  "allComment stmt = list_all (\<lambda>line. let l = TrimSpace line in l = '''' \<or> HasPrefix l ''--'') (Split stmt (CHR 0x0A))"

definition statements :: "string \<Rightarrow> string list" where
  "statements content = filter (\<lambda>stmt. stmt \<noteq> '''' \<and> \<not> allComment stmt) (map TrimSpace (Split content (CHR '';'')))"

section \<open>The run\<close>

datatype mig_call =
    CreateMigrations
  | ReadDir
  | CheckApplied string
  | ReadFile string
  | BeginTx string
  | ExecStmt string nat
  | RecordApplied string
  | CommitTx string

text \<open>
  The embedded directory lists names, whether they are directories, and contents. \<open>me_kept\<close> says of a failed commit whether it took
  effect, \<open>me_now\<close> when a migration is recorded.
\<close>

record mig_env =
  me_flt :: "mig_call \<Rightarrow> string option"
  me_kept :: "string \<Rightarrow> bool"
  me_now :: "string \<Rightarrow> time"
  me_exec :: "string \<Rightarrow> sq_db \<Rightarrow> sq_error + sq_db"
  me_files :: "(string \<times> bool \<times> string) list"

datatype db_failure = Failed string sq_error
datatype mig_event = Skipped string | Applied string

definition migrations_schema :: sq_schema where
  "migrations_schema = \<lparr>sc_name = ''_migrations'', sc_columns = [''name'', ''applied_at''], sc_not_null = [''applied_at''],
     sc_keys = [[''name'']], sc_refs = []\<rparr>"

definition migrations_sql :: string where
  "migrations_sql = ''CREATE TABLE _migrations (name TEXT PRIMARY KEY, applied_at DATETIME NOT NULL)''"

definition with_migrations :: "sq_db \<Rightarrow> sq_db" where
  "with_migrations d = (case create_table migrations_schema migrations_sql d of Inl e \<Rightarrow> d | Inr d' \<Rightarrow> d')"

definition upFiles :: "(string \<times> bool \<times> string) list \<Rightarrow> string list" where
  "upFiles files = sort (map fst (filter (\<lambda>(name, isdir, content). \<not> isdir \<and> HasSuffix name ''.up.sql'') files))"

text \<open>The rows of \<open>_migrations\<close> with the given name.\<close>

definition applied_count :: "string \<Rightarrow> sq_db \<Rightarrow> sq_error + nat" where
  "applied_count name d = (case find_table ''_migrations'' d of
     None \<Rightarrow> Inl (NoSuchTable ''_migrations'')
   | Some t \<Rightarrow> Inr (length (filter (\<lambda>r. column (tb_schema t) r ''name'' = VString name) (tb_rows t))))"

definition read_file :: "(string \<times> bool \<times> string) list \<Rightarrow> string \<Rightarrow> string" where
  "read_file files name = (case map_of files name of Some (isdir, content) \<Rightarrow> content | None \<Rightarrow> '''')"

fun exec_stmts :: "mig_env \<Rightarrow> string \<Rightarrow> nat \<Rightarrow> string list \<Rightarrow> sq_db \<Rightarrow> sq_error + sq_db" where
  "exec_stmts env name i [] d = Inr d"
| "exec_stmts env name i (stmt # stmts) d = (case me_flt env (ExecStmt name i) of
     Some e \<Rightarrow> Inl (DriverFault e)
   | None \<Rightarrow> (case me_exec env stmt d of
       Inl e \<Rightarrow> Inl e
     | Inr d' \<Rightarrow> exec_stmts env name (Suc i) stmts d'))"

definition record_applied :: "mig_env \<Rightarrow> string \<Rightarrow> sq_db \<Rightarrow> sq_error + sq_db" where
  "record_applied env name d = insert_row ''_migrations'' [''name'', ''applied_at''] [VString name, stored 0 (VTime (me_now env name))] d"

text \<open>One unapplied migration in its transaction: unless the commit took effect, the database stays as it was.\<close>

definition apply_migration :: "mig_env \<Rightarrow> string \<Rightarrow> sq_db \<Rightarrow> (db_failure + unit) \<times> sq_db" where
  "apply_migration env name d = (case me_flt env (ReadFile name) of
     Some e \<Rightarrow> (Inl (Failed (''read migration '' @ name) (DriverFault e)), d)
   | None \<Rightarrow> (case me_flt env (BeginTx name) of
     Some e \<Rightarrow> (Inl (Failed (''begin migration '' @ name) (DriverFault e)), d)
   | None \<Rightarrow> (case exec_stmts env name 0 (statements (read_file (me_files env) name)) d of
     Inl e \<Rightarrow> (Inl (Failed (''migration '' @ name) e), d)
   | Inr d1 \<Rightarrow> (case (case me_flt env (RecordApplied name) of Some e \<Rightarrow> Inl (DriverFault e) | None \<Rightarrow> record_applied env name d1) of
     Inl e \<Rightarrow> (Inl (Failed (''record migration '' @ name) e), d)
   | Inr d2 \<Rightarrow> (case me_flt env (CommitTx name) of
     Some e \<Rightarrow> (Inl (Failed (''commit migration '' @ name) (DriverFault e)), if me_kept env name then d2 else d)
   | None \<Rightarrow> (Inr (), d2))))))"

fun run_files :: "mig_env \<Rightarrow> string list \<Rightarrow> sq_db \<Rightarrow> mig_event list \<times> (db_failure + unit) \<times> sq_db" where
  "run_files env [] d = ([], Inr (), d)"
| "run_files env (name # names) d =
     (case (case me_flt env (CheckApplied name) of Some e \<Rightarrow> Inl (DriverFault e) | None \<Rightarrow> applied_count name d) of
        Inl e \<Rightarrow> ([], Inl (Failed (''check migration '' @ name) e), d)
      | Inr cnt \<Rightarrow>
          if cnt > 0 then (case run_files env names d of (ev, r) \<Rightarrow> (Skipped name # ev, r))
          else (case apply_migration env name d of
              (Inl e, d') \<Rightarrow> ([], Inl e, d')
            | (Inr _, d') \<Rightarrow> (case run_files env names d' of (ev, r) \<Rightarrow> (Applied name # ev, r))))"

definition runMigrationsWithLog :: "mig_env \<Rightarrow> sq_db \<Rightarrow> mig_event list \<times> (db_failure + unit) \<times> sq_db" where
  "runMigrationsWithLog env d = (case me_flt env CreateMigrations of
     Some e \<Rightarrow> ([], Inl (Failed ''create migrations table'' (DriverFault e)), d)
   | None \<Rightarrow> (case me_flt env ReadDir of
     Some e \<Rightarrow> ([], Inl (Failed ''read migrations dir'' (DriverFault e)), with_migrations d)
   | None \<Rightarrow> run_files env (upFiles (me_files env)) (with_migrations d)))"

definition runMigrations :: "mig_env \<Rightarrow> sq_db \<Rightarrow> (db_failure + unit) \<times> sq_db" where
  "runMigrations env d = snd (runMigrationsWithLog env d)"

section \<open>Whole migrations\<close>

text \<open>The specification: the effect of a list of migrations recorded at given instants, if all their statements succeed.\<close>

fun stmts_effect :: "(string \<Rightarrow> sq_db \<Rightarrow> sq_error + sq_db) \<Rightarrow> string list \<Rightarrow> sq_db \<Rightarrow> sq_db option" where
  "stmts_effect ex [] d = Some d"
| "stmts_effect ex (stmt # stmts) d = (case ex stmt d of Inl e \<Rightarrow> None | Inr d' \<Rightarrow> stmts_effect ex stmts d')"

definition whole :: "mig_env \<Rightarrow> (string \<Rightarrow> time) \<Rightarrow> string \<Rightarrow> sq_db \<Rightarrow> sq_db option" where
  "whole env clock name d = do {
     d1 \<leftarrow> stmts_effect (me_exec env) (statements (read_file (me_files env) name)) d;
     case record_applied (env\<lparr>me_now := clock\<rparr>) name d1 of Inl e \<Rightarrow> None | Inr d2 \<Rightarrow> Some d2
   }"

fun wholes :: "mig_env \<Rightarrow> (string \<Rightarrow> time) \<Rightarrow> string list \<Rightarrow> sq_db \<Rightarrow> sq_db option" where
  "wholes env clock [] d = Some d"
| "wholes env clock (n # ns) d = do { d' \<leftarrow> whole env clock n d; wholes env clock ns d' }"

text \<open>Recorded means counted by the check.\<close>

definition recorded :: "sq_db \<Rightarrow> string \<Rightarrow> bool" where
  "recorded d name = (case applied_count name d of Inl e \<Rightarrow> False | Inr cnt \<Rightarrow> cnt > 0)"

text \<open>The statements of the files leave \<open>_migrations\<close> alone.\<close>

definition leaves_record :: "mig_env \<Rightarrow> bool" where
  "leaves_record env \<longleftrightarrow> (\<forall>stmt d d'. me_exec env stmt d = Inr d' \<longrightarrow> find_table ''_migrations'' d' = find_table ''_migrations'' d)"

definition tracks :: "sq_db \<Rightarrow> bool" where
  "tracks d \<longleftrightarrow> (\<exists>t. find_table ''_migrations'' d = Some t \<and> tb_schema t = migrations_schema)"

lemma stmts_effect_record:
  assumes "leaves_record env" and "stmts_effect (me_exec env) stmts d = Some d'"
  shows "find_table ''_migrations'' d' = find_table ''_migrations'' d"
  using assms(2)
proof (induction stmts arbitrary: d)
  case (Cons stmt stmts)
  then obtain d1 where "me_exec env stmt d = Inr d1" "stmts_effect (me_exec env) stmts d1 = Some d'" by (auto split: sum.splits)
  with Cons.IH assms(1) show ?case by (metis leaves_record_def)
qed simp

lemma exec_stmts_effect: "exec_stmts env name i stmts d = Inr d' \<Longrightarrow> stmts_effect (me_exec env) stmts d = Some d'"
  by (induction stmts arbitrary: d i) (auto split: option.splits sum.splits)

lemma exec_stmts_calm: "\<forall>c. me_flt env c = None \<Longrightarrow> stmts_effect (me_exec env) stmts d = Some d' \<Longrightarrow> exec_stmts env name i stmts d = Inr d'"
  by (induction stmts arbitrary: d i) (auto split: sum.splits)

lemma find_table_add_row:
  "find_table n (add_row m r d) = map_option (\<lambda>t. if n = m then t\<lparr>tb_rows := tb_rows t @ [r]\<rparr> else t) (find_table n d)"
proof -
  have "find (\<lambda>t. tb_name t = n) (map (\<lambda>t. if tb_name t = m then t\<lparr>tb_rows := tb_rows t @ [r]\<rparr> else t) ts) =
      map_option (\<lambda>t. if n = m then t\<lparr>tb_rows := tb_rows t @ [r]\<rparr> else t) (find (\<lambda>t. tb_name t = n) ts)" for ts
    by (induction ts) auto
  then show ?thesis by (simp add: find_table_def add_row_def)
qed

lemma record_applied_result:
  assumes "tracks d" and "record_applied env name d = Inr d'"
  shows "tracks d' \<and> recorded d' n = (n = name \<or> recorded d n)"
proof -
  let ?r = "[VString name, stored 0 (VTime (me_now env name))]"
  obtain t where t: "find_table ''_migrations'' d = Some t" "tb_schema t = migrations_schema" using assms(1) by (auto simp: tracks_def)
  then have "d' = add_row ''_migrations'' ?r d"
    using assms(2) by (simp add: record_applied_def insert_row_def migrations_schema_def Let_def split: option.splits)
  then have f: "find_table ''_migrations'' d' = Some (t\<lparr>tb_rows := tb_rows t @ [?r]\<rparr>)" using t by (simp add: find_table_add_row)
  have "column migrations_schema ?r ''name'' = VString name" by (simp add: column_def migrations_schema_def)
  with f t show ?thesis by (auto simp: tracks_def recorded_def applied_count_def)
qed

lemma whole_result:
  assumes "leaves_record env" "tracks d" "whole env clock name d = Some d'"
  shows "tracks d' \<and> recorded d' n = (n = name \<or> recorded d n)"
proof -
  obtain d1 where d1: "stmts_effect (me_exec env) (statements (read_file (me_files env) name)) d = Some d1"
      "record_applied (env\<lparr>me_now := clock\<rparr>) name d1 = Inr d'"
    using assms(3) by (auto simp: whole_def split: bind_splits sum.splits)
  have f: "find_table ''_migrations'' d1 = find_table ''_migrations'' d" by (rule stmts_effect_record [OF assms(1) d1(1)])
  then have "tracks d1" "recorded d1 = recorded d" using assms(2) by (auto simp: tracks_def recorded_def applied_count_def fun_eq_iff)
  with record_applied_result [OF _ d1(2)] show ?thesis by simp
qed

lemma wholes_result:
  assumes "leaves_record env" "tracks d" "wholes env clock ns d = Some d'"
  shows "tracks d' \<and> recorded d' n = (n \<in> set ns \<or> recorded d n)"
  using assms(2,3)
proof (induction ns arbitrary: d)
  case (Cons m ns)
  then obtain d1 where "whole env clock m d = Some d1" "wholes env clock ns d1 = Some d'" by (auto split: bind_splits)
  with whole_result [OF assms(1) Cons.prems(1), of clock m d1] Cons.IH [of d1] show ?case by auto
qed simp

lemma wholes_append: "wholes env clock (ms @ ns) d = do { d' \<leftarrow> wholes env clock ms d; wholes env clock ns d' }"
  by (induction ms arbitrary: d) (simp_all add: fun_eq_iff split: bind_split)

lemma whole_cong: "clock n = clock' n \<Longrightarrow> whole env clock n d = whole env clock' n d"
  by (simp add: whole_def record_applied_def)

lemma wholes_cong: "(\<And>n. n \<in> set ns \<Longrightarrow> clock n = clock' n) \<Longrightarrow> wholes env clock ns d = wholes env clock' ns d"
proof (induction ns arbitrary: d)
  case (Cons n ns)
  then show ?case using whole_cong [of clock n clock' env d] by (cases "whole env clock' n d") simp_all
qed simp

lemma wholes_env: "me_exec e = me_exec env \<Longrightarrow> me_files e = me_files env \<Longrightarrow> wholes e clock ns d = wholes env clock ns d"
proof (induction ns arbitrary: d)
  case (Cons n ns)
  moreover have "whole e clock n d = whole env clock n d" using Cons.prems by (simp add: whole_def record_applied_def)
  ultimately show ?case by (cases "whole env clock n d") simp_all
qed simp

lemma apply_migration_whole:
  "apply_migration env name d = (r, d') \<Longrightarrow> d' = d \<and> r \<noteq> Inr () \<or> whole env (me_now env) name d = Some d'"
  by (auto simp: apply_migration_def whole_def split: option.splits sum.splits if_splits dest!: exec_stmts_effect)

lemma filter_whole:
  assumes "leaves_record env" "tracks d" "whole env clock name d = Some d1" "name \<notin> set names"
  shows "filter (\<lambda>n. \<not> recorded d1 n) names = filter (\<lambda>n. \<not> recorded d n) names"
  using whole_result [OF assms(1-3)] assms(4) by (intro filter_cong) auto

lemma run_files_prefix:
  assumes "leaves_record env"
  shows "run_files env names d = (ev, r, d') \<Longrightarrow> tracks d \<Longrightarrow> distinct names \<Longrightarrow>
    \<exists>k\<le>length names. wholes env (me_now env) (filter (\<lambda>n. \<not> recorded d n) (take k names)) d = Some d' \<and> (r = Inr () \<longrightarrow> k = length names)"
proof (induction names arbitrary: d ev)
  case (Cons name names)
  obtain t where t: "find_table ''_migrations'' d = Some t" using Cons.prems(2) by (auto simp: tracks_def)
  consider "d' = d" "r \<noteq> Inr ()"
    | "\<not> recorded d name" "whole env (me_now env) name d = Some d'" "r \<noteq> Inr ()"
    | ev' where "recorded d name" "run_files env names d = (ev', r, d')"
    | ev' d1 where "\<not> recorded d name" "whole env (me_now env) name d = Some d1" "run_files env names d1 = (ev', r, d')"
    using Cons.prems(1) apply_migration_whole [of env name d]
    by (auto simp: recorded_def applied_count_def t split: option.splits sum.splits if_splits prod.splits)
  then show ?case
  proof cases
    case 1
    then show ?thesis by (intro exI [of _ 0]) simp
  next
    case 2
    then show ?thesis by (intro exI [of _ 1]) simp
  next
    case 3
    from Cons.IH [OF 3(2) Cons.prems(2)] Cons.prems(3) obtain k where "k \<le> length names"
      "wholes env (me_now env) (filter (\<lambda>n. \<not> recorded d n) (take k names)) d = Some d'" "r = Inr () \<longrightarrow> k = length names" by auto
    with 3 show ?thesis by (intro exI [of _ "Suc k"]) simp
  next
    case 4
    from Cons.IH [OF 4(3)] whole_result [OF assms Cons.prems(2) 4(2)] Cons.prems(3) obtain k where k: "k \<le> length names"
      "wholes env (me_now env) (filter (\<lambda>n. \<not> recorded d1 n) (take k names)) d1 = Some d'" "r = Inr () \<longrightarrow> k = length names" by auto
    have "name \<notin> set (take k names)" using Cons.prems(3) in_set_takeD by fastforce
    with 4 k show ?thesis by (intro exI [of _ "Suc k"]) (simp add: filter_whole [OF assms Cons.prems(2) 4(2), symmetric])
  qed
qed simp

text \<open>Without faults the pending migrations are all applied.\<close>

lemma apply_migration_calm:
  "\<forall>c. me_flt env c = None \<Longrightarrow> whole env (me_now env) name d = Some d' \<Longrightarrow> apply_migration env name d = (Inr (), d')"
  by (auto simp: apply_migration_def whole_def exec_stmts_calm split: bind_splits sum.splits)

lemma run_files_calm:
  assumes "leaves_record env" "\<forall>c. me_flt env c = None"
  shows "wholes env (me_now env) (filter (\<lambda>n. \<not> recorded d n) names) d = Some d' \<Longrightarrow> tracks d \<Longrightarrow> distinct names \<Longrightarrow>
    \<exists>ev. run_files env names d = (ev, Inr (), d')"
proof (induction names arbitrary: d)
  case (Cons name names)
  obtain t where t: "find_table ''_migrations'' d = Some t" using Cons.prems(2) by (auto simp: tracks_def)
  show ?case
  proof (cases "recorded d name")
    case True
    with Cons.IH [of d] Cons.prems obtain ev where "run_files env names d = (ev, Inr (), d')" by auto
    with True show ?thesis by (simp add: assms(2) recorded_def applied_count_def t)
  next
    case False
    then obtain d1 where d1: "whole env (me_now env) name d = Some d1" "wholes env (me_now env) (filter (\<lambda>n. \<not> recorded d n) names) d1 = Some d'"
      using Cons.prems(1) by (auto split: bind_splits)
    have "filter (\<lambda>n. \<not> recorded d1 n) names = filter (\<lambda>n. \<not> recorded d n) names"
      using filter_whole [OF assms(1) Cons.prems(2) d1(1)] Cons.prems(3) by simp
    moreover have "tracks d1" using whole_result [OF assms(1) Cons.prems(2) d1(1)] by blast
    ultimately obtain ev where "run_files env names d1 = (ev, Inr (), d')" using Cons.IH [of d1] d1(2) Cons.prems(3) by auto
    with False show ?thesis using apply_migration_calm [OF assms(2) d1(1)] by (simp add: assms(2) recorded_def applied_count_def t)
  qed
qed simp

section \<open>Boots\<close>

text \<open>A series of boots, each of which may fail anywhere.\<close>

fun boots :: "mig_env list \<Rightarrow> sq_db \<Rightarrow> sq_db" where
  "boots [] d = d"
| "boots (e # es) d = boots es (snd (runMigrations e d))"

definition same_release :: "mig_env \<Rightarrow> mig_env \<Rightarrow> bool" where
  "same_release env e \<longleftrightarrow> me_exec e = me_exec env \<and> me_files e = me_files env"

text \<open>Between boots the database is untouched, or holds the migrations of a prefix of the files.\<close>

definition partway :: "mig_env \<Rightarrow> sq_db \<Rightarrow> nat \<Rightarrow> (string \<Rightarrow> time) \<Rightarrow> sq_db \<Rightarrow> bool" where
  "partway env d k clock s \<longleftrightarrow> k \<le> length (upFiles (me_files env)) \<and>
     wholes env clock (filter (\<lambda>n. \<not> recorded (with_migrations d) n) (take k (upFiles (me_files env)))) (with_migrations d) = Some s"

lemma with_migrations_tracked: "tracks d \<Longrightarrow> with_migrations d = d"
  by (auto simp: with_migrations_def create_table_def tracks_def migrations_schema_def)

lemma tracks_with_migrations:
  assumes "\<forall>t. find_table ''_migrations'' d = Some t \<longrightarrow> tb_schema t = migrations_schema"
  shows "tracks (with_migrations d)"
proof (cases "find_table ''_migrations'' d")
  case None
  then have "find (\<lambda>t. tb_name t = ''_migrations'') (sq_tables d) = None" by (simp add: find_table_def)
  then have "find_table ''_migrations'' (with_migrations d) = Some \<lparr>tb_schema = migrations_schema, tb_sql = migrations_sql, tb_rows = []\<rparr>"
    using None by (auto simp: with_migrations_def create_table_def migrations_schema_def find_table_def find_append)
  then show ?thesis by (simp add: tracks_def)
next
  case (Some t)
  then have "tracks d" using assms by (simp add: tracks_def)
  then show ?thesis by (simp add: with_migrations_tracked)
qed

lemma distinct_upFiles: "distinct (map fst files) \<Longrightarrow> distinct (upFiles files)"
  by (simp add: upFiles_def distinct_map_filter)

lemma partway_step:
  assumes "leaves_record env" "distinct (upFiles (me_files env))" "tracks (with_migrations d)" "same_release env e"
    and "partway env d k clock s" "run_files e (upFiles (me_files env)) s = (ev, r, s')"
  shows "\<exists>k' clock'. partway env d k' clock' s' \<and> (r = Inr () \<longrightarrow> k' = length (upFiles (me_files env)))"
proof -
  let ?names = "upFiles (me_files env)" and ?P = "\<lambda>n. \<not> recorded (with_migrations d) n"
  have lr: "leaves_record e" and rel: "me_exec e = me_exec env" "me_files e = me_files env"
    using assms(1,4) by (simp_all add: leaves_record_def same_release_def)
  have s: "k \<le> length ?names" "wholes env clock (filter ?P (take k ?names)) (with_migrations d) = Some s" using assms(5) by (simp_all add: partway_def)
  have rec: "tracks s \<and> recorded s n = (n \<in> set (filter ?P (take k ?names)) \<or> recorded (with_migrations d) n)" for n
    by (rule wholes_result [OF assms(1,3) s(2)])
  obtain k' where k': "k' \<le> length ?names" "wholes e (me_now e) (filter (\<lambda>n. \<not> recorded s n) (take k' ?names)) s = Some s'" "r = Inr () \<longrightarrow> k' = length ?names"
    using run_files_prefix [OF lr assms(6) _ assms(2)] rec by blast
  have split: "take (max k k') ?names = take k ?names @ drop k (take k' ?names)"
    by (cases "k \<le> k'") (auto simp: max_def, metis append_take_drop_id min.absorb1 take_take)
  have dis: "n \<notin> set (take k ?names)" if "n \<in> set (drop k (take k' ?names))" for n
    using that split distinct_take [OF assms(2), of "max k k'"] by (auto simp: disjoint_iff)
  have rest: "filter (\<lambda>n. \<not> recorded s n) (take k' ?names) = filter ?P (drop k (take k' ?names))"
  proof -
    have "take k' ?names = take k (take k' ?names) @ drop k (take k' ?names)" by (rule append_take_drop_id [symmetric])
    moreover have "filter (\<lambda>n. \<not> recorded s n) (take k (take k' ?names)) = []"
      using rec set_take_subset_set_take [of "min k k'" k ?names] by (auto simp: filter_empty_conv)
    moreover have "filter (\<lambda>n. \<not> recorded s n) (drop k (take k' ?names)) = filter ?P (drop k (take k' ?names))"
      using rec dis by (intro filter_cong) auto
    ultimately show ?thesis by (metis append_Nil filter_append)
  qed
  define c where "c = (\<lambda>n. if n \<in> set (take k ?names) then clock n else me_now e n)"
  have "wholes env c (filter ?P (take k ?names)) (with_migrations d) = Some s" using s(2) by (subst wholes_cong [of _ c clock]) (auto simp: c_def)
  moreover have "wholes env c (filter ?P (drop k (take k' ?names))) s = Some s'"
    using k'(2) dis by (subst wholes_cong [of _ c "me_now e"]) (auto simp: c_def rest wholes_env [OF rel])
  ultimately have "partway env d (max k k') c s'" using s(1) k'(1) by (simp add: partway_def split wholes_append)
  moreover have "r = Inr () \<longrightarrow> max k k' = length ?names" using k'(1,3) s(1) by auto
  ultimately show ?thesis by blast
qed

lemma partway_run:
  assumes "leaves_record env" "distinct (upFiles (me_files env))" "tracks (with_migrations d)" "same_release env e"
    and "s = d \<or> (\<exists>k clock. partway env d k clock s)"
  shows "snd (runMigrations e s) = d \<and> fst (runMigrations e s) \<noteq> Inr () \<or>
    (\<exists>k clock. partway env d k clock (snd (runMigrations e s)) \<and> (fst (runMigrations e s) = Inr () \<longrightarrow> k = length (upFiles (me_files env))))"
proof -
  have zero: "partway env d 0 clock (with_migrations d)" for clock by (simp add: partway_def)
  have "\<exists>k clock. partway env d k clock (with_migrations s)"
  proof (cases "s = d")
    case False
    then obtain k clock where p: "partway env d k clock s" using assms(5) by blast
    then have "tracks s" using wholes_result [OF assms(1,3)] by (auto simp: partway_def)
    with p show ?thesis by (auto simp: with_migrations_tracked)
  qed (use zero in blast)
  then obtain k clock where p: "partway env d k clock (with_migrations s)" by blast
  have f: "me_files e = me_files env" using assms(4) by (simp add: same_release_def)
  obtain ev r s' where run: "run_files e (upFiles (me_files env)) (with_migrations s) = (ev, r, s')" using prod_cases3 by blast
  show ?thesis
    using p assms(5) partway_step [OF assms(1-4) p run] run f
    by (cases "me_flt e CreateMigrations"; cases "me_flt e ReadDir") (auto simp: runMigrations_def runMigrationsWithLog_def)
qed

lemma partway_boots:
  assumes "leaves_record env" "distinct (upFiles (me_files env))" "tracks (with_migrations d)" "list_all (same_release env) es"
    and "s = d \<or> (\<exists>k clock. partway env d k clock s)"
  shows "boots es s = d \<or> (\<exists>k clock. partway env d k clock (boots es s))"
  using assms(4,5)
proof (induction es arbitrary: s)
  case (Cons e es)
  with partway_run [OF assms(1-3), of e s] show ?case by (simp, blast)
qed simp


section \<open>Samples\<close>

text \<open>An engine that counts the statements it is given as tables, and two files.\<close>

definition sample_exec :: "string \<Rightarrow> sq_db \<Rightarrow> sq_error + sq_db" where
  "sample_exec stmt d =
     (if stmt = ''_migrations'' then Inl (BadStatement stmt)
      else create_table \<lparr>sc_name = stmt, sc_columns = [''id''], sc_not_null = [], sc_keys = [], sc_refs = []\<rparr> stmt d)"

definition sample_mig :: "(mig_call \<Rightarrow> string option) \<Rightarrow> mig_env" where
  "sample_mig flt = \<lparr>me_flt = flt, me_kept = (\<lambda>n. True), me_now = (\<lambda>n. 7), me_exec = sample_exec,
     me_files = [(''2.up.sql'', False, ''c;''), (''1.up.sql'', False, ''a; b''), (''1.down.sql'', False, ''d'')]\<rparr>"

lemma sample_leaves: "leaves_record (sample_mig flt)"
  by (auto simp: leaves_record_def sample_mig_def sample_exec_def create_table_def find_table_def find_append split: if_splits option.split)


end
