(* ===== verification/Store_Legacy.thy ===== *)
theory Store_Legacy
  imports Store_Migrate
begin

text \<open>
  Moving an existing SQLite database into an empty libSQL one (\<open>internal/db/migrate.go\<close>): the tables in the order of their names, each created from its
  text and filled row by row, then the indexes. Every call of a driver may fail, and nothing is undone. Shown is
  under which condition the copy is complete, and what is left behind when the condition does not hold.
\<close>

section \<open>Definitions\<close>

datatype stage = AtQuery | AtScan nat | AtEnd

datatype legacy_call =
    CountTables
  | OpenLegacy
  | ListTables stage
  | CreateTable string
  | SelectRows string
  | ColumnsOf string
  | ScanRow string nat
  | InsertRow string nat
  | EndOfRows string
  | ListIndexes stage
  | CreateIndex nat

datatype stat_result = Present | NotExist | StatFailed string

text \<open>
  The engine reads the text of a table; creates an index, giving its name, or refuses to; and carries a value from one database through
  the two drivers to the other. Files are given by their paths.
\<close>

record legacy_env =
  le_flt :: "legacy_call \<Rightarrow> string option"
  le_stat :: "string \<Rightarrow> stat_result"
  le_file :: "string \<Rightarrow> sq_db"
  le_create :: "string \<Rightarrow> sq_schema option"
  le_index :: "string \<Rightarrow> sq_table list \<Rightarrow> sq_error + string"
  le_carry :: "driver_value \<Rightarrow> driver_value"

text \<open>\<open>name NOT LIKE 'sqlite_%'\<close>: the underscore stands for any character, and letters match in either case.\<close>

definition user_table :: "sq_table \<Rightarrow> bool" where
  "user_table t \<longleftrightarrow> \<not> (length (tb_name t) \<ge> 7 \<and> ToLower (take 6 (tb_name t)) = ''sqlite'')"

definition hasUserTables :: "legacy_env \<Rightarrow> sq_db \<Rightarrow> db_failure + bool" where
  "hasUserTables env d = (case le_flt env CountTables of
     Some e \<Rightarrow> Inl (Failed ''check target tables'' (DriverFault e))
   | None \<Rightarrow> Inr (length (filter user_table (sq_tables d)) > 0))"

text \<open>A query whose rows are scanned one by one; any failure discards them.\<close>

definition fetch :: "(stage \<Rightarrow> string option) \<Rightarrow> string \<times> string \<times> string \<Rightarrow> 'a list \<Rightarrow> db_failure + 'a list" where
  "fetch flt ctx rows = (case ctx of (q, s, i) \<Rightarrow>
     (case flt AtQuery of
        Some e \<Rightarrow> Inl (Failed q (DriverFault e))
      | None \<Rightarrow> (case find (\<lambda>k. flt (AtScan k) \<noteq> None) [0..<length rows] of
        Some k \<Rightarrow> Inl (Failed s (DriverFault (the (flt (AtScan k)))))
      | None \<Rightarrow> (case flt AtEnd of
        Some e \<Rightarrow> Inl (Failed i (DriverFault e))
      | None \<Rightarrow> Inr rows))))"

definition listTables :: "legacy_env \<Rightarrow> sq_db \<Rightarrow> db_failure + (string \<times> string) list" where
  "listTables env src = fetch (\<lambda>st. le_flt env (ListTables st)) (''list legacy tables'', ''scan legacy table'', ''iterate legacy tables'')
     (map (\<lambda>t. (tb_name t, tb_sql t)) (sort_key tb_name (filter user_table (sq_tables src))))"

definition listIndexes :: "legacy_env \<Rightarrow> sq_db \<Rightarrow> db_failure + string list" where
  "listIndexes env src = fetch (\<lambda>st. le_flt env (ListIndexes st)) (''list legacy indexes'', ''scan legacy index'', ''iterate legacy indexes'')
     (map (\<lambda>ix. the (snd ix)) (sort_key fst (filter (\<lambda>ix. snd ix \<noteq> None) (sq_indexes src))))"

fun copy_rows :: "legacy_env \<Rightarrow> string \<Rightarrow> string \<Rightarrow> nat \<Rightarrow> sq_row list \<Rightarrow> sq_db \<Rightarrow> (db_failure + unit) \<times> sq_db" where
  "copy_rows env name sql i [] target = (case le_flt env (EndOfRows name) of
     Some e \<Rightarrow> (Inl (Failed (''iterate rows of '' @ name) (DriverFault e)), target)
   | None \<Rightarrow> (Inr (), target))"
| "copy_rows env name sql i (row # rows) target = (case le_flt env (ScanRow name i) of
     Some e \<Rightarrow> (Inl (Failed (''scan row of '' @ name) (DriverFault e)), target)
   | None \<Rightarrow> (case (case le_flt env (InsertRow name i) of Some e \<Rightarrow> Inl (DriverFault e) | None \<Rightarrow> exec_insert sql (map (le_carry env) row) target) of
     Inl e \<Rightarrow> (Inl (Failed (''insert row into '' @ name) e), target)
   | Inr target' \<Rightarrow> copy_rows env name sql (Suc i) rows target'))"

definition exec_create :: "legacy_env \<Rightarrow> string \<Rightarrow> sq_db \<Rightarrow> sq_error + sq_db" where
  "exec_create env sql d = (case le_create env sql of None \<Rightarrow> Inl (BadStatement sql) | Some sc \<Rightarrow> create_table sc sql d)"

definition copyTable :: "legacy_env \<Rightarrow> sq_db \<Rightarrow> string \<Rightarrow> string \<Rightarrow> sq_db \<Rightarrow> (db_failure + unit) \<times> sq_db" where
  "copyTable env src name createSQL target =
     (case (case le_flt env (CreateTable name) of Some e \<Rightarrow> Inl (DriverFault e) | None \<Rightarrow> exec_create env createSQL target) of
        Inl e \<Rightarrow> (Inl (Failed (''create table '' @ name @ '' in target'') e), target)
      | Inr target1 \<Rightarrow>
     (case (case le_flt env (SelectRows name) of Some e \<Rightarrow> Inl (DriverFault e) | None \<Rightarrow> exec_select (selectSQL name) src) of
        Inl e \<Rightarrow> (Inl (Failed (''select '' @ name @ '' from legacy db'') e), target1)
      | Inr (colNames, rows) \<Rightarrow>
     (case le_flt env (ColumnsOf name) of
        Some e \<Rightarrow> (Inl (Failed (''columns of '' @ name) (DriverFault e)), target1)
      | None \<Rightarrow> copy_rows env name (insertSQL name colNames) 0 rows target1)))"

fun copy_tables :: "legacy_env \<Rightarrow> sq_db \<Rightarrow> (string \<times> string) list \<Rightarrow> sq_db \<Rightarrow> (db_failure + unit) \<times> sq_db" where
  "copy_tables env src [] target = (Inr (), target)"
| "copy_tables env src ((name, sql) # ts) target = (case copyTable env src name sql target of
     (Inl e, target') \<Rightarrow> (Inl e, target')
   | (Inr _, target') \<Rightarrow> copy_tables env src ts target')"

fun copy_indexes :: "legacy_env \<Rightarrow> nat \<Rightarrow> string list \<Rightarrow> sq_db \<Rightarrow> (db_failure + unit) \<times> sq_db" where
  "copy_indexes env i [] target = (Inr (), target)"
| "copy_indexes env i (sql # sqls) target =
     (case (case le_flt env (CreateIndex i) of Some e \<Rightarrow> Inl (DriverFault e) | None \<Rightarrow> le_index env sql (sq_tables target)) of
        Inl e \<Rightarrow> (Inl (Failed ''create index from legacy db'' e), target)
      | Inr name \<Rightarrow> copy_indexes env (Suc i) sqls (target\<lparr>sq_indexes := sq_indexes target @ [(name, Some sql)]\<rparr>))"

text \<open>The error contexts that quote the path are given without it.\<close>

definition migrateLegacySQLite :: "legacy_env \<Rightarrow> string \<Rightarrow> sq_db \<Rightarrow> (db_failure + unit) \<times> sq_db" where
  "migrateLegacySQLite env legacyPath target =
     (if legacyPath = '''' then (Inr (), target)
      else case le_stat env legacyPath of
        NotExist \<Rightarrow> (Inr (), target)
      | StatFailed e \<Rightarrow> (Inl (Failed ''stat legacy db'' (DriverFault e)), target)
      | Present \<Rightarrow> (case hasUserTables env target of
        Inl e \<Rightarrow> (Inl e, target)
      | Inr True \<Rightarrow> (Inr (), target)
      | Inr False \<Rightarrow> (case le_flt env OpenLegacy of
        Some e \<Rightarrow> (Inl (Failed ''open legacy db'' (DriverFault e)), target)
      | None \<Rightarrow> (case listTables env (le_file env legacyPath) of
        Inl e \<Rightarrow> (Inl e, target)
      | Inr tables \<Rightarrow> (case copy_tables env (le_file env legacyPath) tables target of
        (Inl e, target1) \<Rightarrow> (Inl e, target1)
      | (Inr _, target1) \<Rightarrow> (case listIndexes env (le_file env legacyPath) of
        Inl e \<Rightarrow> (Inl e, target1)
      | Inr indexes \<Rightarrow> copy_indexes env 0 indexes target1))))))"

section \<open>When the copy is complete\<close>

definition carried :: "legacy_env \<Rightarrow> sq_table \<Rightarrow> sq_table" where
  "carried env t = t\<lparr>tb_rows := map (map (le_carry env)) (tb_rows t)\<rparr>"

text \<open>The rows of a table meet its own constraints, and refer to rows of earlier tables only.\<close>

definition refs_earlier :: "sq_table list \<Rightarrow> sq_table \<Rightarrow> bool" where
  "refs_earlier earlier t = list_all (\<lambda>(c, p, pc). case find (\<lambda>t'. tb_name t' = p) earlier of
       None \<Rightarrow> tb_rows t = []
     | Some t' \<Rightarrow> list_all (\<lambda>r. column (tb_schema t) r c = VNull \<or>
         list_ex (\<lambda>r'. column (tb_schema t') r' pc = column (tb_schema t) r c) (tb_rows t')) (tb_rows t)) (sc_refs (tb_schema t))"

definition rows_ok :: "sq_table \<Rightarrow> bool" where
  "rows_ok t \<longleftrightarrow> distinct (sc_columns (tb_schema t)) \<and> sc_columns (tb_schema t) \<noteq> [] \<and>
     list_all (\<lambda>r. length r = length (sc_columns (tb_schema t))) (tb_rows t) \<and>
     list_all (\<lambda>i. own_error (t\<lparr>tb_rows := take i (tb_rows t)\<rparr>) (tb_rows t ! i) = None) [0..<length (tb_rows t)]"

fun copyable :: "sq_table list \<Rightarrow> sq_table list \<Rightarrow> bool" where
  "copyable earlier [] = True"
| "copyable earlier (t # ts) = (rows_ok t \<and> refs_earlier earlier t \<and> tb_name t \<notin> set (map tb_name earlier) \<and> copyable (earlier @ [t]) ts)"

lemma not_named: "n \<notin> set (map tb_name ts) \<Longrightarrow> t \<in> set ts \<Longrightarrow> tb_name t \<noteq> n"
  using imageI [of t "set ts" tb_name] by auto

lemma find_named_None: "n \<notin> set (map tb_name ts) \<Longrightarrow> find (\<lambda>t. tb_name t = n) ts = None"
  unfolding find_None_iff using not_named by blast

lemma find_table_last:
  "tb_name t \<notin> set (map tb_name ts) \<Longrightarrow> sq_tables d = ts @ [t] \<Longrightarrow> find_table (tb_name t) d = Some t"
  by (simp add: find_table_def find_append find_named_None)

lemma add_row_last:
  assumes "tb_name t \<notin> set (map tb_name ts)" "sq_tables d = ts @ [t]"
  shows "sq_tables (add_row (tb_name t) r d) = ts @ [t\<lparr>tb_rows := tb_rows t @ [r]\<rparr>]"
proof -
  have "map (\<lambda>t'. if tb_name t' = tb_name t then t'\<lparr>tb_rows := tb_rows t' @ [r]\<rparr> else t') ts = ts"
    using not_named [OF assms(1)] by (intro map_idI) simp
  then show ?thesis by (simp add: add_row_def assms(2))
qed

lemma insert_last:
  assumes "tb_name t \<notin> set (map tb_name ts)" "sq_tables d = ts @ [t]" "distinct (sc_columns (tb_schema t))" "length r = length (sc_columns (tb_schema t))"
    and "own_error t r = None"
    and "list_all (\<lambda>(c, p, pc). \<exists>t'. find (\<lambda>t'. tb_name t' = p) ts = Some t' \<and>
        (column (tb_schema t) r c = VNull \<or> list_ex (\<lambda>r'. column (tb_schema t') r' pc = column (tb_schema t) r c) (tb_rows t'))) (sc_refs (tb_schema t))"
  shows "insert_row (tb_name t) (sc_columns (tb_schema t)) r d = Inr (add_row (tb_name t) r d)"
proof -
  let ?cols = "sc_columns (tb_schema t)" and ?d = "add_row (tb_name t) r d"
  have "map (\<lambda>c. case map_of (zip ?cols r) c of Some v \<Rightarrow> v | None \<Rightarrow> VNull) ?cols = r"
    using assms(3,4) by (intro nth_equalityI) (simp_all add: map_of_zip_nth)
  moreover have "ref_error ?d (tb_schema t) r ref = None" if ref: "ref \<in> set (sc_refs (tb_schema t))" for ref
  proof -
    obtain c p pc where "ref = (c, p, pc)" using prod_cases3 by blast
    with assms(6) ref obtain t' where "ref = (c, p, pc)" "find (\<lambda>t'. tb_name t' = p) ts = Some t'"
      "column (tb_schema t) r c = VNull \<or> list_ex (\<lambda>r'. column (tb_schema t') r' pc = column (tb_schema t) r c) (tb_rows t')"
      unfolding list_all_iff by blast
    then show ?thesis by (simp add: ref_error_def find_table_def add_row_last [OF assms(1,2)] find_append)
  qed
  then have "find (\<lambda>ref. ref_error ?d (tb_schema t) r ref \<noteq> None) (sc_refs (tb_schema t)) = None" by (auto simp: find_None_iff)
  ultimately show ?thesis using assms(5) by (simp add: insert_row_def find_table_last [OF assms(1,2)] Let_def)
qed

lemma exec_insertSQL:
  "cols \<noteq> [] \<Longrightarrow> length vals = length cols \<Longrightarrow> exec_insert (insertSQL name cols) vals d = insert_row name cols vals d"
  by (simp add: exec_insert_def read_insertSQL)

text \<open>Filling a table that has just been created.\<close>

lemma copy_rows_complete:
  assumes "\<forall>c. le_flt env c = None" "t = carried env u" "rows_ok t" "refs_earlier ts t" "tb_name t \<notin> set (map tb_name ts)"
  shows "tb_rows u = done_rows @ rows \<Longrightarrow> sq_tables d = ts @ [t\<lparr>tb_rows := map (map (le_carry env)) done_rows\<rparr>] \<Longrightarrow>
    copy_rows env (tb_name t) (insertSQL (tb_name t) (sc_columns (tb_schema t))) i rows d = (Inr (), d\<lparr>sq_tables := ts @ [t]\<rparr>)"
proof (induction rows arbitrary: done_rows d i)
  case Nil
  then have "t\<lparr>tb_rows := map (map (le_carry env)) done_rows\<rparr> = t" by (simp add: assms(2) carried_def)
  with Nil show ?case by (simp add: assms(1))
next
  case (Cons row rows)
  let ?n = "length done_rows" and ?r = "map (le_carry env) row" and ?t = "t\<lparr>tb_rows := map (map (le_carry env)) done_rows\<rparr>"
  have rt: "tb_rows t = map (map (le_carry env)) done_rows @ ?r # map (map (le_carry env)) rows" using Cons.prems(1) by (simp add: assms(2) carried_def)
  then have at: "tb_rows t ! ?n = ?r" "take ?n (tb_rows t) = map (map (le_carry env)) done_rows" "?n < length (tb_rows t)" "?r \<in> set (tb_rows t)"
    by (simp_all add: nth_append)
  have "own_error (t\<lparr>tb_rows := take ?n (tb_rows t)\<rparr>) (tb_rows t ! ?n) = None" using assms(3) at(3) by (simp add: rows_ok_def list_all_iff)
  then have own: "own_error ?t ?r = None" by (simp only: at)
  have len: "length ?r = length (sc_columns (tb_schema t))" and cols: "distinct (sc_columns (tb_schema t))" "sc_columns (tb_schema t) \<noteq> []"
    using assms(3) at(4) by (auto simp: rows_ok_def list_all_iff)
  have refs: "list_all (\<lambda>(c, p, pc). \<exists>t'. find (\<lambda>t'. tb_name t' = p) ts = Some t' \<and>
      (column (tb_schema t) ?r c = VNull \<or> list_ex (\<lambda>r'. column (tb_schema t') r' pc = column (tb_schema t) ?r c) (tb_rows t'))) (sc_refs (tb_schema t))"
    using assms(4) at(4) by (fastforce simp: refs_earlier_def list_all_iff split: option.splits)
  have ins: "insert_row (tb_name t) (sc_columns (tb_schema t)) ?r d = Inr (add_row (tb_name t) ?r d)"
    using insert_last [of ?t ts d ?r] assms(5) Cons.prems(2) own len cols refs by simp
  have "sq_tables (add_row (tb_name t) ?r d) = ts @ [t\<lparr>tb_rows := map (map (le_carry env)) (done_rows @ [row])\<rparr>]"
    using add_row_last [of ?t ts d ?r] assms(5) Cons.prems(2) by simp
  moreover have "add_row (tb_name t) ?r d\<lparr>sq_tables := x\<rparr> = d\<lparr>sq_tables := x\<rparr>" for x by (simp add: add_row_def)
  ultimately show ?case
    using Cons.IH [of "done_rows @ [row]" "add_row (tb_name t) ?r d" "Suc i"] Cons.prems(1)
    by (simp add: assms(1) exec_insertSQL [OF cols(2) len] ins)
qed

lemma copyTable_complete:
  assumes "\<forall>c. le_flt env c = None" "rows_ok (carried env u)" "refs_earlier (sq_tables d) (carried env u)" "tb_name u \<notin> set (map tb_name (sq_tables d))"
    and "le_create env (tb_sql u) = Some (tb_schema u)" "find_table (tb_name u) src = Some u"
  shows "copyTable env src (tb_name u) (tb_sql u) d = (Inr (), d\<lparr>sq_tables := sq_tables d @ [carried env u]\<rparr>)"
proof -
  let ?t = "carried env u" and ?d = "d\<lparr>sq_tables := sq_tables d @ [\<lparr>tb_schema = tb_schema u, tb_sql = tb_sql u, tb_rows = []\<rparr>]\<rparr>"
  have c: "tb_schema ?t = tb_schema u" by (simp add: carried_def)
  have "find_table (tb_name u) d = None" using find_named_None [OF assms(4)] by (simp add: find_table_def)
  then have "exec_create env (tb_sql u) d = Inr ?d" using assms(5) by (simp add: exec_create_def create_table_def)
  moreover have "copy_rows env (tb_name ?t) (insertSQL (tb_name ?t) (sc_columns (tb_schema ?t))) 0 (tb_rows u) ?d = (Inr (), ?d\<lparr>sq_tables := sq_tables d @ [?t]\<rparr>)"
    by (rule copy_rows_complete [where u = u and done_rows = "[]"]) (use assms in \<open>auto simp: c carried_def\<close>)
  ultimately show ?thesis by (simp add: copyTable_def assms(1) exec_selectSQL assms(6) c)
qed

lemma copy_tables_complete:
  assumes "\<forall>c. le_flt env c = None"
  shows "copyable (sq_tables d) (map (carried env) us) \<Longrightarrow> \<forall>u\<in>set us. le_create env (tb_sql u) = Some (tb_schema u) \<and> find_table (tb_name u) src = Some u \<Longrightarrow>
    copy_tables env src (map (\<lambda>u. (tb_name u, tb_sql u)) us) d = (Inr (), d\<lparr>sq_tables := sq_tables d @ map (carried env) us\<rparr>)"
proof (induction us arbitrary: d)
  case (Cons u us)
  have "tb_schema (carried env u) = tb_schema u" by (simp add: carried_def)
  then have "copyTable env src (tb_name u) (tb_sql u) d = (Inr (), d\<lparr>sq_tables := sq_tables d @ [carried env u]\<rparr>)"
    using Cons.prems by (intro copyTable_complete [OF assms]) auto
  with Cons.IH [of "d\<lparr>sq_tables := sq_tables d @ [carried env u]\<rparr>"] Cons.prems show ?case by simp
qed simp

lemma fetch_calm: "\<forall>c. flt c = None \<Longrightarrow> fetch flt ctx rows = Inr rows"
  by (cases ctx) (auto simp: fetch_def find_None_iff split: option.split)

abbreviation legacy_tables :: "sq_db \<Rightarrow> sq_table list" where
  "legacy_tables src \<equiv> sort_key tb_name (filter user_table (sq_tables src))"

abbreviation legacy_indexes :: "sq_db \<Rightarrow> (string \<times> string option) list" where
  "legacy_indexes src \<equiv> sort_key fst (filter (\<lambda>ix. snd ix \<noteq> None) (sq_indexes src))"

lemma find_table_distinct: "distinct (map tb_name (sq_tables d)) \<Longrightarrow> t \<in> set (sq_tables d) \<Longrightarrow> find_table (tb_name t) d = Some t"
  unfolding find_table_def
proof (induction "sq_tables d" arbitrary: d)
  case (Cons u us)
  then show ?case using Cons(1) [of "d\<lparr>sq_tables := us\<rparr>"] Cons(2) [symmetric] by (auto simp: rev_image_eqI)
qed simp

text \<open>
  C18. A complete copy. When nothing fails, the legacy tables are created as they were and their rows satisfy their constraints with every table referring only to
  tables before it in the order of names, an empty target receives every table with all its rows and every index.
\<close>
theorem legacy_copy_complete:
  assumes "\<forall>c. le_flt env c = None" and "path \<noteq> ''''" and "le_stat env path = Present" and "sq_tables target = []"
    and "distinct (map tb_name (sq_tables (le_file env path)))" and "\<forall>t\<in>set (legacy_tables (le_file env path)). le_create env (tb_sql t) = Some (tb_schema t)"
    and "copyable [] (map (carried env) (legacy_tables (le_file env path)))"
    and "\<forall>ix\<in>set (legacy_indexes (le_file env path)). le_index env (the (snd ix)) (map (carried env) (legacy_tables (le_file env path))) = Inr (fst ix)"
  shows "migrateLegacySQLite env path target =
    (Inr (), target\<lparr>sq_tables := map (carried env) (legacy_tables (le_file env path)), sq_indexes := sq_indexes target @ legacy_indexes (le_file env path)\<rparr>)"
proof -
  let ?src = "le_file env path" and ?ts = "map (carried env) (legacy_tables (le_file env path))"
  let ?d = "target\<lparr>sq_tables := ?ts\<rparr>" and ?ixs = "legacy_indexes (le_file env path)"
  have "find_table (tb_name t) ?src = Some t" if "t \<in> set (legacy_tables ?src)" for t using find_table_distinct [OF assms(5)] that by simp
  then have tables: "copy_tables env ?src (map (\<lambda>t. (tb_name t, tb_sql t)) (legacy_tables ?src)) target = (Inr (), ?d)"
    using copy_tables_complete [OF assms(1), of target "legacy_tables ?src" ?src] assms(4,6,7) by simp
  have idx: "copy_indexes env i (map (\<lambda>ix. the (snd ix)) ixs) d = (Inr (), d\<lparr>sq_indexes := sq_indexes d @ ixs\<rparr>)"
    if "\<forall>ix\<in>set ixs. snd ix \<noteq> None \<and> le_index env (the (snd ix)) (sq_tables d) = Inr (fst ix)" for ixs d i
    using that by (induction ixs arbitrary: d i) (auto simp: assms(1))
  have "copy_indexes env 0 (map (\<lambda>ix. the (snd ix)) ?ixs) ?d = (Inr (), ?d\<lparr>sq_indexes := sq_indexes target @ ?ixs\<rparr>)"
    using idx [of ?ixs ?d 0] assms(8) by simp
  with tables show ?thesis
    by (simp add: migrateLegacySQLite_def assms(1-4) hasUserTables_def listTables_def listIndexes_def fetch_calm)
qed

section \<open>When it is not\<close>

lemma copyTable_stuck:
  assumes "\<forall>c. le_flt env c = None" "rows_ok (carried env u)" "tb_rows u \<noteq> []" "tb_name u \<notin> set (map tb_name (sq_tables d))"
    and "le_create env (tb_sql u) = Some (tb_schema u)" "find_table (tb_name u) src = Some u"
    and "(c, p, pc) \<in> set (sc_refs (tb_schema u))" "p \<noteq> tb_name u" "p \<notin> set (map tb_name (sq_tables d))"
  shows "\<exists>e. copyTable env src (tb_name u) (tb_sql u) d =
    (Inl (Failed (''insert row into '' @ tb_name u) e), d\<lparr>sq_tables := sq_tables d @ [u\<lparr>tb_rows := []\<rparr>]\<rparr>)"
proof -
  let ?t = "u\<lparr>tb_rows := []\<rparr>" and ?cols = "sc_columns (tb_schema u)"
  let ?d = "d\<lparr>sq_tables := sq_tables d @ [?t]\<rparr>"
  obtain row rows where u: "tb_rows u = row # rows" using assms(3) by (cases "tb_rows u") auto
  let ?r = "map (le_carry env) row"
  have cols: "?cols \<noteq> []" "length ?r = length ?cols" using assms(2) by (auto simp: rows_ok_def carried_def u)
  have "find_table (tb_name u) d = None" using find_named_None [OF assms(4)] by (simp add: find_table_def)
  moreover have "u\<lparr>tb_rows := []\<rparr> = \<lparr>tb_schema = tb_schema u, tb_sql = tb_sql u, tb_rows = []\<rparr>" by simp
  ultimately have "exec_create env (tb_sql u) d = Inr ?d" using assms(5) by (simp only: exec_create_def create_table_def) simp
  moreover have "\<exists>e. insert_row (tb_name u) ?cols ?r ?d = Inl e"
  proof -
    let ?row = "map (\<lambda>c. case map_of (zip ?cols ?r) c of Some v \<Rightarrow> v | None \<Rightarrow> VNull) ?cols"
    have "sq_tables (add_row (tb_name u) ?row ?d) = sq_tables d @ [?t\<lparr>tb_rows := [?row]\<rparr>]" using add_row_last [of ?t "sq_tables d" ?d ?row] assms(4) by simp
    then have "find_table p (add_row (tb_name u) ?row ?d) = None" using find_named_None [OF assms(9)] assms(8) by (simp add: find_table_def find_append)
    then have "ref_error (add_row (tb_name u) ?row ?d) (tb_schema u) ?row (c, p, pc) \<noteq> None" by (simp add: ref_error_def)
    then have "find (\<lambda>ref. ref_error (add_row (tb_name u) ?row ?d) (tb_schema u) ?row ref \<noteq> None) (sc_refs (tb_schema u)) \<noteq> None"
      using assms(7) by (auto simp: find_None_iff)
    moreover have "find_table (tb_name u) ?d = Some ?t" using find_table_last [of ?t "sq_tables d" ?d] assms(4) by simp
    ultimately show ?thesis by (auto simp: insert_row_def Let_def split: option.split)
  qed
  ultimately show ?thesis by (auto simp: copyTable_def assms(1) exec_selectSQL assms(6) u exec_insertSQL [OF cols])
qed

lemma copy_tables_append:
  "copy_tables env src (xs @ ys) d = (case copy_tables env src xs d of (Inl e, d') \<Rightarrow> (Inl e, d') | (Inr _, d') \<Rightarrow> copy_tables env src ys d')"
  by (induction xs arbitrary: d) (auto split: prod.split sum.split)

lemma legacy_noop:
  "le_flt env CountTables = None \<Longrightarrow> list_ex user_table (sq_tables d) \<Longrightarrow> (case le_stat env path of StatFailed e \<Rightarrow> False | _ \<Rightarrow> True) \<Longrightarrow>
    migrateLegacySQLite env path d = (Inr (), d)"
  by (auto simp: migrateLegacySQLite_def hasUserTables_def list_ex_iff filter_empty_conv split: stat_result.splits)

text \<open>
  A table before the one it refers to. When the rows of a legacy table refer to a table whose name comes later, the copy of its first row fails.
  The tables before it have been copied and stay, and the next start, which finds tables in the target, reports success without copying anything more.
\<close>
theorem legacy_copy_stuck:
  assumes "\<forall>c. le_flt env c = None" and "path \<noteq> ''''" and "le_stat env path = Present" and "sq_tables target = []"
    and "distinct (map tb_name (sq_tables (le_file env path)))" and "\<forall>t\<in>set (legacy_tables (le_file env path)). le_create env (tb_sql t) = Some (tb_schema t)"
    and "legacy_tables (le_file env path) = us @ u # vs" and "copyable [] (map (carried env) us)"
    and "rows_ok (carried env u)" and "tb_rows u \<noteq> []" and "(c, p, pc) \<in> set (sc_refs (tb_schema u))" and "p \<notin> set (map tb_name (us @ [u]))"
  shows "\<exists>e d. migrateLegacySQLite env path target = (Inl (Failed (''insert row into '' @ tb_name u) e), d) \<and>
    sq_tables d = map (carried env) us @ [u\<lparr>tb_rows := []\<rparr>] \<and> migrateLegacySQLite env path d = (Inr (), d)"
proof -
  let ?src = "le_file env path" and ?d = "target\<lparr>sq_tables := map (carried env) us\<rparr>"
  have mem: "t \<in> set (sq_tables ?src) \<and> user_table t" if "t \<in> set (us @ u # vs)" for t
    using that unfolding assms(7) [symmetric] by simp
  then have at: "find_table (tb_name t) ?src = Some t" if "t \<in> set (us @ u # vs)" for t using find_table_distinct [OF assms(5)] that by blast
  have "distinct (map tb_name (legacy_tables ?src))"
    using distinct_map_filter [OF assms(5)] by (simp add: distinct_map)
  then have new: "tb_name u \<notin> set (map tb_name us)" unfolding assms(7) by simp
  have names: "map tb_name (map (carried env) us) = map tb_name us" by (simp add: carried_def comp_def)
  have "copy_tables env ?src (map (\<lambda>t. (tb_name t, tb_sql t)) us) target = (Inr (), ?d)"
    using copy_tables_complete [OF assms(1), of target us ?src] assms(4,6-8) at by simp
  moreover obtain e where "copyTable env ?src (tb_name u) (tb_sql u) ?d =
      (Inl (Failed (''insert row into '' @ tb_name u) e), ?d\<lparr>sq_tables := sq_tables ?d @ [u\<lparr>tb_rows := []\<rparr>]\<rparr>)"
    using copyTable_stuck [OF assms(1,9,10), of ?d ?src c p pc] assms(6,7,11,12) at new names by auto
  ultimately have "migrateLegacySQLite env path target = (Inl (Failed (''insert row into '' @ tb_name u) e), ?d\<lparr>sq_tables := map (carried env) us @ [u\<lparr>tb_rows := []\<rparr>]\<rparr>)"
    by (simp add: migrateLegacySQLite_def assms(1-4,7) hasUserTables_def listTables_def fetch_calm copy_tables_append)
  moreover have "user_table (u\<lparr>tb_rows := []\<rparr>)" using mem [of u] by (simp add: user_table_def)
  ultimately show ?thesis using assms(1,3) by (intro exI conjI) (auto intro!: legacy_noop)
qed

section \<open>Samples\<close>

definition sample_schema :: "string \<Rightarrow> (string \<times> string \<times> string) list \<Rightarrow> sq_schema" where
  "sample_schema n refs = \<lparr>sc_name = n, sc_columns = [''id'', ''provider_id''], sc_not_null = [''id''], sc_keys = [[''id'']], sc_refs = refs\<rparr>"

definition sample_read :: "string \<Rightarrow> sq_schema option" where
  "sample_read sql = (if sql = ''T'' then Some (sample_schema ''providers'' [])
     else if sql = ''U'' then Some (sample_schema ''provider_models'' [(''provider_id'', ''providers'', ''id'')])
     else if sql = ''V'' then Some (sample_schema ''request_logs'' [(''provider_id'', ''providers'', ''id'')]) else None)"

definition sample_table :: "string \<Rightarrow> sq_row list \<Rightarrow> sq_table" where
  "sample_table sql rows = \<lparr>tb_schema = the (sample_read sql), tb_sql = sql, tb_rows = rows\<rparr>"

definition sample_legacy :: "sq_table list \<Rightarrow> legacy_env" where
  "sample_legacy ts = \<lparr>le_flt = (\<lambda>c. None), le_stat = (\<lambda>p. Present), le_file = (\<lambda>p. \<lparr>sq_tables = ts, sq_indexes = [(''i'', Some ''X''), (''auto'', None)]\<rparr>),
     le_create = sample_read, le_index = (\<lambda>sql ts. Inr ''i''), le_carry = (\<lambda>v. v)\<rparr>"

definition provider_rows :: sq_table where
  "provider_rows = sample_table ''T'' [[VString ''p'', VNull]]"

theorem legacy_copy_complete_witness:
  "migrateLegacySQLite (sample_legacy [sample_table ''V'' [[VString ''r'', VString ''p'']], provider_rows]) ''old.db'' empty_sq =
    (Inr (), \<lparr>sq_tables = [provider_rows, sample_table ''V'' [[VString ''r'', VString ''p'']]], sq_indexes = [(''i'', Some ''X'')]\<rparr>)"
proof -
  let ?env = "sample_legacy [sample_table ''V'' [[VString ''r'', VString ''p'']], provider_rows]"
  have t: "legacy_tables (le_file ?env ''old.db'') = [provider_rows, sample_table ''V'' [[VString ''r'', VString ''p'']]]" by code_simp
  have i: "legacy_indexes (le_file ?env ''old.db'') = [(''i'', Some ''X'')]" by code_simp
  have c: "map (carried ?env) [provider_rows, sample_table ''V'' [[VString ''r'', VString ''p'']]] = [provider_rows, sample_table ''V'' [[VString ''r'', VString ''p'']]]"
    by (simp add: carried_def sample_legacy_def)
  have "copyable [] [provider_rows, sample_table ''V'' [[VString ''r'', VString ''p'']]]" by code_simp
  moreover have "distinct (map tb_name (sq_tables (le_file ?env ''old.db'')))" by code_simp
  moreover have "\<forall>t\<in>set [provider_rows, sample_table ''V'' [[VString ''r'', VString ''p'']]]. le_create ?env (tb_sql t) = Some (tb_schema t)" by code_simp
  ultimately show ?thesis
    using legacy_copy_complete [of ?env "''old.db''" empty_sq] unfolding t i c by (simp add: sample_legacy_def empty_sq_def)
qed

theorem legacy_copy_stuck_witness:
  "\<exists>e d. migrateLegacySQLite (sample_legacy [provider_rows, sample_table ''U'' [[VString ''m'', VString ''p'']]]) ''old.db'' empty_sq =
      (Inl (Failed ''insert row into provider_models'' e), d) \<and> sq_tables d = [sample_table ''U'' []]"
proof -
  let ?u = "sample_table ''U'' [[VString ''m'', VString ''p'']]"
  let ?env = "sample_legacy [provider_rows, ?u]"
  have t: "legacy_tables (le_file ?env ''old.db'') = [] @ ?u # [provider_rows]" by code_simp
  have c: "carried ?env ?u = ?u" by (simp add: carried_def sample_legacy_def)
  have "rows_ok ?u" by code_simp
  moreover have "distinct (map tb_name (sq_tables (le_file ?env ''old.db'')))" by code_simp
  moreover have "\<forall>t\<in>set ([] @ ?u # [provider_rows]). le_create ?env (tb_sql t) = Some (tb_schema t)" by code_simp
  moreover have "(''provider_id'', ''providers'', ''id'') \<in> set (sc_refs (tb_schema ?u))" "''providers'' \<notin> set (map tb_name ([] @ [?u]))" "tb_name ?u = ''provider_models''"
    by (simp_all add: sample_table_def sample_read_def sample_schema_def)
  moreover have "?u\<lparr>tb_rows := []\<rparr> = sample_table ''U'' []" "tb_rows ?u \<noteq> []" by (simp_all add: sample_table_def)
  moreover have "\<forall>c. le_flt ?env c = None" "le_stat ?env ''old.db'' = Present" "sq_tables empty_sq = []" by (simp_all add: sample_legacy_def empty_sq_def)
  ultimately show ?thesis
    using legacy_copy_stuck [of ?env "''old.db''" empty_sq "[]" ?u "[provider_rows]" "''provider_id''" "''providers''" "''id''"] t c by auto
qed

end
