(* ===== verification/Store_Open.thy ===== *)
theory Store_Open
  imports Store_Legacy
begin

text \<open>
  Opening the store (\<open>NewStore\<close> in \<open>internal/db/store.go\<close>, \<open>openDB\<close> in \<open>internal/db/sqlite.go\<close>): the data source name for
  each driver, the settings of the connection, the copy of a legacy database and the schema migrations. Shown is that a store is handed out only with
  foreign keys on and every migration recorded, and that no other way out leaves the database open.
\<close>

section \<open>Definitions\<close>

text \<open>\<open>filepath.Abs\<close> on Unix.\<close>

fun clean_step :: "string list \<Rightarrow> string \<Rightarrow> string list" where
  "clean_step stack c = (if c = '''' \<or> c = ''.'' then stack else if c = ''..'' then butlast stack else stack @ [c])"

definition Clean_rooted :: "string \<Rightarrow> string" where
  "Clean_rooted path = ''/'' @ Join (foldl clean_step [] (Split path (CHR ''/''))) ''/''"

definition Abs :: "string + string \<Rightarrow> string \<Rightarrow> string + string" where
  "Abs wd path = (if HasPrefix path ''/'' then Inr (Clean_rooted path)
     else case wd of Inl e \<Rightarrow> Inl e | Inr w \<Rightarrow> Inr (Clean_rooted (w @ ''/'' @ path)))"

definition isRemoteLibSQL :: "string \<Rightarrow> bool" where
  "isRemoteLibSQL dbPath \<longleftrightarrow> HasPrefix dbPath ''libsql://'' \<or> HasPrefix dbPath ''https://'' \<or> HasPrefix dbPath ''http://'' \<or>
     HasPrefix dbPath ''wss://'' \<or> HasPrefix dbPath ''ws://''"

definition sqliteQuery :: string where
  "sqliteQuery = ''_time_format=sqlite&_pragma=busy_timeout(5000)&_pragma=foreign_keys(1)''"

datatype open_error =
    UnsupportedDriver string
  | NotImplemented string
  | PathError string
  | OpenError db_failure

datatype open_event = Opened string string | SetMaxOpenConns nat | Exec string | Closed

record open_env =
  oe_getwd :: "string + string"
  oe_open :: "string option"
  oe_pragma :: "string \<Rightarrow> string option"
  oe_legacy :: legacy_env
  oe_mig :: mig_env

definition dsn_of :: "open_env \<Rightarrow> string \<Rightarrow> string \<Rightarrow> open_error + string" where
  "dsn_of env driver dbPath =
     (if driver = ''sqlite'' then
        (if dbPath = '':memory:'' then Inr (''file::memory:?'' @ sqliteQuery) else Inr (''file:'' @ dbPath @ ''?'' @ sqliteQuery))
      else if driver = ''libsql'' then
        (if dbPath = '':memory:'' then Inr (''file::memory:?'' @ sqliteQuery)
         else if isRemoteLibSQL dbPath then Inr dbPath
         else case Abs (oe_getwd env) dbPath of Inl e \<Rightarrow> Inl (PathError e) | Inr p \<Rightarrow> Inr (''file://'' @ p @ ''?'' @ sqliteQuery))
      else Inl (UnsupportedDriver driver))"

text \<open>The settings, in order, with the context of the error of each.\<close>

definition pragmas :: "string \<Rightarrow> (string \<times> string) list" where
  "pragmas dbPath =
     [(''PRAGMA busy_timeout = 5000'', ''set busy_timeout''), (''PRAGMA foreign_keys = ON'', ''enable foreign keys'')] @
     (if dbPath \<noteq> '':memory:'' then [(''PRAGMA journal_mode = WAL'', ''set WAL journal mode'')] else [])"

fun exec_pragmas :: "open_env \<Rightarrow> (string \<times> string) list \<Rightarrow> open_event list \<times> (db_failure + unit)" where
  "exec_pragmas env [] = ([], Inr ())"
| "exec_pragmas env ((sql, ctx) # ps) = (case oe_pragma env sql of
     Some e \<Rightarrow> ([Exec sql], Inl (Failed ctx (DriverFault e)))
   | None \<Rightarrow> (case exec_pragmas env ps of (ev, r) \<Rightarrow> (Exec sql # ev, r)))"

text \<open>A later failure closes the database. The database behind the data source is passed along.\<close>

definition openDB :: "open_env \<Rightarrow> string \<Rightarrow> string \<Rightarrow> string \<Rightarrow> sq_db \<Rightarrow> open_event list \<times> (open_error + string) \<times> sq_db" where
  "openDB env driver dbPath legacyPath d = (case dsn_of env driver dbPath of
     Inl e \<Rightarrow> ([], Inl e, d)
   | Inr dsn \<Rightarrow> (case oe_open env of
     Some e \<Rightarrow> ([], Inl (OpenError (Failed (''open '' @ driver @ '' database'') (DriverFault e))), d)
   | None \<Rightarrow>
     let opened = [Opened driver dsn, SetMaxOpenConns 4]
     in case exec_pragmas env (pragmas dbPath) of
       (ev, Inl e) \<Rightarrow> (opened @ ev @ [Closed], Inl (OpenError e), d)
     | (ev, Inr _) \<Rightarrow>
     (case (if driver = ''libsql'' \<and> legacyPath \<noteq> '''' then migrateLegacySQLite (oe_legacy env) legacyPath d else (Inr (), d)) of
       (Inl e, d1) \<Rightarrow> (opened @ ev @ [Closed], Inl (OpenError e), d1)
     | (Inr _, d1) \<Rightarrow>
     (case runMigrations (oe_mig env) d1 of
       (Inl e, d2) \<Rightarrow> (opened @ ev @ [Closed], Inl (OpenError e), d2)
     | (Inr _, d2) \<Rightarrow> (opened @ ev, Inr dsn, d2)))))"

definition NewSQLiteStore :: "open_env \<Rightarrow> string \<Rightarrow> sq_db \<Rightarrow> open_event list \<times> (open_error + string) \<times> sq_db" where
  "NewSQLiteStore env dbPath = openDB env ''sqlite'' dbPath ''''"

definition NewLibSQLStore :: "open_env \<Rightarrow> string \<Rightarrow> string \<Rightarrow> sq_db \<Rightarrow> open_event list \<times> (open_error + string) \<times> sq_db" where
  "NewLibSQLStore env dbPath legacyPath = openDB env ''libsql'' dbPath legacyPath"

definition NewStore :: "open_env \<Rightarrow> string \<Rightarrow> string \<Rightarrow> string \<Rightarrow> sq_db \<Rightarrow> open_event list \<times> (open_error + string) \<times> sq_db" where
  "NewStore env driver dsn legacyPath d =
     (if driver = ''sqlite'' then NewSQLiteStore env dsn d
      else if driver = ''libsql'' then NewLibSQLStore env dsn legacyPath d
      else if driver = ''postgres'' then ([], Inl (NotImplemented driver), d)
      else ([], Inl (UnsupportedDriver driver), d))"

section \<open>The record of migrations survives the copy\<close>

definition record_schema :: "sq_db \<Rightarrow> bool" where
  "record_schema d \<longleftrightarrow> list_all (\<lambda>sc. sc_name sc = ''_migrations'' \<longrightarrow> sc = migrations_schema) (map tb_schema (sq_tables d))"

lemma record_schema_find: "record_schema d \<Longrightarrow> \<forall>t. find_table ''_migrations'' d = Some t \<longrightarrow> tb_schema t = migrations_schema"
  by (auto simp: record_schema_def list_all_iff find_table_def find_Some_iff)

lemma add_row_schemas: "map tb_schema (sq_tables (add_row n r d)) = map tb_schema (sq_tables d)"
  by (simp add: add_row_def)

lemma insert_row_schemas: "insert_row n cols vals d = Inr d' \<Longrightarrow> map tb_schema (sq_tables d') = map tb_schema (sq_tables d)"
  using add_row_schemas by (auto simp: insert_row_def Let_def split: option.splits)

lemma exec_insert_schemas: "exec_insert sql vals d = Inr d' \<Longrightarrow> map tb_schema (sq_tables d') = map tb_schema (sq_tables d)"
  by (auto simp: exec_insert_def insert_row_schemas split: option.splits if_splits)

lemma copy_rows_schemas: "map tb_schema (sq_tables (snd (copy_rows env name sql i rows d))) = map tb_schema (sq_tables d)"
  by (induction rows arbitrary: i d) (auto split: option.splits sum.splits dest: exec_insert_schemas)

definition reads_record :: "legacy_env \<Rightarrow> bool" where
  "reads_record env \<longleftrightarrow> (\<forall>sql sc. le_create env sql = Some sc \<and> sc_name sc = ''_migrations'' \<longrightarrow> sc = migrations_schema)"

lemma exec_create_schema: "reads_record env \<Longrightarrow> record_schema d \<Longrightarrow> exec_create env sql d = Inr d' \<Longrightarrow> record_schema d'"
  by (auto simp: exec_create_def create_table_def record_schema_def reads_record_def split: option.splits if_splits)

lemma copyTable_schema: "reads_record env \<Longrightarrow> record_schema d \<Longrightarrow> record_schema (snd (copyTable env src name sql d))"
  by (auto simp: copyTable_def record_schema_def copy_rows_schemas split: sum.splits option.splits prod.splits dest: exec_create_schema [unfolded record_schema_def])

lemma copy_tables_schema: "reads_record env \<Longrightarrow> record_schema d \<Longrightarrow> record_schema (snd (copy_tables env src ts d))"
proof (induction ts arbitrary: d)
  case (Cons t ts)
  obtain name sql where t: "t = (name, sql)" by (cases t)
  obtain r d' where c: "copyTable env src name sql d = (r, d')" by (cases "copyTable env src name sql d")
  then have "record_schema d'" using copyTable_schema [OF Cons.prems, of src name sql] by simp
  then show ?case using Cons.IH [OF Cons.prems(1)] by (simp add: t c split: sum.split)
qed simp

lemma copy_indexes_tables: "sq_tables (snd (copy_indexes env i sqls d)) = sq_tables d"
  by (induction sqls arbitrary: i d) (auto split: sum.split)

lemma migrateLegacy_schema:
  assumes "reads_record env" "record_schema d"
  shows "record_schema (snd (migrateLegacySQLite env path d))"
proof -
  have t: "record_schema d'" if "copy_tables env src ts d = (r, d')" for src ts r d' using copy_tables_schema [OF assms, of src ts] that by simp
  have i: "record_schema (snd (copy_indexes env i sqls d')) = record_schema d'" for i sqls d' by (simp add: record_schema_def copy_indexes_tables)
  show ?thesis
    using assms(2) by (simp add: migrateLegacySQLite_def i split: stat_result.split sum.split bool.split option.split prod.split) (blast intro: t)
qed

section \<open>A store in use\<close>

lemma pragmas_run: "exec_pragmas env ps = (ev, Inr u) \<Longrightarrow> ev = map (\<lambda>(sql, ctx). Exec sql) ps"
  by (induction ps arbitrary: ev) (auto split: option.splits prod.splits)

lemma pragmas_no_close: "exec_pragmas env ps = (ev, r) \<Longrightarrow> Closed \<notin> set ev \<and> (\<forall>a b. Opened a b \<notin> set ev)"
  by (induction ps arbitrary: ev r) (auto split: option.splits prod.splits)

lemma migrations_recorded:
  assumes "leaves_record env" "distinct (map fst (me_files env))" "record_schema d" "runMigrations env d = (Inr (), d')"
  shows "list_all (recorded d') (upFiles (me_files env))"
proof -
  let ?names = "upFiles (me_files env)"
  note dn = distinct_upFiles [OF assms(2)] and tr = tracks_with_migrations [OF record_schema_find [OF assms(3)]]
  from partway_run [OF assms(1) dn tr, of env d] assms(4) obtain clock where "partway env d (length ?names) clock d'" by (auto simp: same_release_def)
  then have "wholes env clock (filter (\<lambda>n. \<not> recorded (with_migrations d) n) ?names) (with_migrations d) = Some d'" by (simp add: partway_def)
  from wholes_result [OF assms(1) tr this] show ?thesis by (auto simp: list_all_iff)
qed

lemma NewStore_outcome:
  assumes "leaves_record (oe_mig env)" and "distinct (map fst (me_files (oe_mig env)))" and "record_schema d" and "reads_record (oe_legacy env)"
    and "NewStore env driver path legacyPath d = (ev, res, d')"
  shows "case res of
      Inl e \<Rightarrow> ev = [] \<or> (last ev = Closed \<and> length (filter (\<lambda>x. x = Closed) ev) = 1)
    | Inr dsn \<Rightarrow> hd ev = Opened driver dsn \<and> Closed \<notin> set ev \<and> Exec ''PRAGMA foreign_keys = ON'' \<in> set ev \<and>
        list_all (recorded d') (upFiles (me_files (oe_mig env)))"
proof -
  obtain lp where o: "ev = [] \<and> (\<exists>e. res = Inl e) \<or> openDB env driver path lp d = (ev, res, d')"
    using assms(5) by (auto simp: NewStore_def NewSQLiteStore_def NewLibSQLStore_def split: if_splits)
  define legacy where "legacy = (if driver = ''libsql'' \<and> lp \<noteq> '''' then migrateLegacySQLite (oe_legacy env) lp d else (Inr (), d))"
  have ls: "record_schema (snd legacy)" using migrateLegacy_schema [OF assms(4,3)] assms(3) by (simp add: legacy_def)
  obtain pe pr where p: "exec_pragmas env (pragmas path) = (pe, pr)" by (cases "exec_pragmas env (pragmas path)")
  note np = pragmas_no_close [OF p]
  have fk: "Exec ''PRAGMA foreign_keys = ON'' \<in> set pe" if "pr = Inr u" for u using pragmas_run [of env "pragmas path" pe u] p that by (simp add: pragmas_def)
  obtain lr ld where l: "legacy = (lr, ld)" by (cases legacy)
  obtain mr md where m: "runMigrations (oe_mig env) ld = (mr, md)" by (cases "runMigrations (oe_mig env) ld")
  have rec: "list_all (recorded md) (upFiles (me_files (oe_mig env)))" if "mr = Inr u" for u
    using migrations_recorded [OF assms(1,2), of ld md] ls l m that by simp
  have "filter (\<lambda>x. x = Closed) pe = []" using np by (auto simp: filter_empty_conv)
  with o show ?thesis
    unfolding openDB_def legacy_def [symmetric] l using np p m fk rec
    by (auto simp: Let_def l m split: sum.splits option.splits)
qed

text \<open>
  A store is ready or closed. A store is handed out only over a database in which foreign keys have been switched on and every schema migration is recorded,
  and which has not been closed; every failure after the database was opened ends by closing it.
\<close>
theorem store_ready_or_closed:
  assumes "leaves_record (oe_mig env)" and "distinct (map fst (me_files (oe_mig env)))" and "record_schema d" and "reads_record (oe_legacy env)"
    and "NewStore env driver path legacyPath d = (ev, res, d')"
  shows "case res of
      Inl e \<Rightarrow> ev = [] \<or> (last ev = Closed \<and> length (filter (\<lambda>x. x = Closed) ev) = 1)
    | Inr dsn \<Rightarrow> hd ev = Opened driver dsn \<and> Closed \<notin> set ev \<and> Exec ''PRAGMA foreign_keys = ON'' \<in> set ev \<and>
        list_all (recorded d') (upFiles (me_files (oe_mig env)))"
  by (rule NewStore_outcome [OF assms])

section \<open>Samples\<close>

definition sample_open :: "string option \<Rightarrow> open_env" where
  "sample_open wal = \<lparr>oe_getwd = Inr ''/srv'', oe_open = None, oe_pragma = (\<lambda>sql. if sql = ''PRAGMA journal_mode = WAL'' then wal else None),
     oe_legacy = (sample_legacy [provider_rows])\<lparr>le_create := (\<lambda>sql. if sql = ''T'' then sample_read sql else None)\<rparr>, oe_mig = sample_mig (\<lambda>c. None)\<rparr>"

theorem store_ready_or_closed_witness:
  "fst (NewStore (sample_open None) ''libsql'' ''./data//x.db'' ''old.db'' empty_sq) =
     [Opened ''libsql'' (''file:///srv/data/x.db?'' @ sqliteQuery), SetMaxOpenConns 4, Exec ''PRAGMA busy_timeout = 5000'', Exec ''PRAGMA foreign_keys = ON'',
      Exec ''PRAGMA journal_mode = WAL''] \<and>
   list_all (recorded (snd (snd (NewStore (sample_open None) ''libsql'' ''./data//x.db'' ''old.db'' empty_sq)))) [''1.up.sql'', ''2.up.sql''] \<and>
   last (fst (NewStore (sample_open (Some ''read-only'')) ''sqlite'' ''x.db'' '''' empty_sq)) = Closed"
proof (intro conjI)
  let ?env = "sample_open None" and ?bad = "sample_open (Some ''read-only'')"
  let ?run = "NewStore ?env ''libsql'' ''./data//x.db'' ''old.db'' empty_sq" and ?fail = "NewStore ?bad ''sqlite'' ''x.db'' '''' empty_sq"
  have e: "leaves_record (oe_mig (sample_open w))" "distinct (map fst (me_files (oe_mig (sample_open w))))" "record_schema empty_sq" "reads_record (oe_legacy (sample_open w))" for w
    using sample_leaves by (simp_all add: sample_open_def sample_mig_def record_schema_def empty_sq_def reads_record_def sample_read_def sample_schema_def)
  show ev: "fst ?run = [Opened ''libsql'' (''file:///srv/data/x.db?'' @ sqliteQuery), SetMaxOpenConns 4, Exec ''PRAGMA busy_timeout = 5000'',
      Exec ''PRAGMA foreign_keys = ON'', Exec ''PRAGMA journal_mode = WAL'']" by code_simp
  obtain evs res d' where r: "?run = (evs, res, d')" using prod_cases3 by blast
  have "upFiles (me_files (oe_mig ?env)) = [''1.up.sql'', ''2.up.sql'']" by code_simp
  then show "list_all (recorded (snd (snd ?run))) [''1.up.sql'', ''2.up.sql'']"
    using store_ready_or_closed [OF e r] ev unfolding r by (cases res) simp_all
  have f: "fst ?fail \<noteq> [] \<and> (\<exists>e. fst (snd ?fail) = Inl e)"
  proof -
    have "map_sum (\<lambda>e. ()) (\<lambda>s. ()) (fst (snd ?fail)) = Inl () \<and> fst ?fail \<noteq> []" by code_simp
    then show ?thesis by (cases "fst (snd ?fail)") simp_all
  qed
  obtain evs' res' d'' where r': "?fail = (evs', res', d'')" using prod_cases3 by blast
  show "last (fst ?fail) = Closed" using store_ready_or_closed [OF e r'] f unfolding r' by (cases res') auto
qed

end
