(* ===== verification/Http_Middleware.thy ===== *)
theory Http_Middleware
  imports Attempt_Loop
begin

text \<open>
  The middleware around every route (\<open>internal/middleware\<close>, \<open>main.go\<close>): request identifiers, recovery from panics, the request
  log and CORS. A handler is what it does to its \<open>http.ResponseWriter\<close>, call by call, with the panic that may end it; a middleware wraps handlers. Shown is
  that no panic leaves the chain, what the client receives then, and what the log says of a request.
\<close>

section \<open>Response writers\<close>

datatype writer_call = SetHeader string string | AddHeader string string | WriteHeader int | Write string | Flush

record response_writer =
  rw_header :: header
  rw_sent :: "(int \<times> header) option"
  rw_body :: string

definition new_writer :: response_writer where
  "new_writer = \<lparr>rw_header = [], rw_sent = None, rw_body = ''''\<rparr>"

text \<open>The first final status goes out with the headers set by then; a later one is superfluous. An informational status is not final.\<close>

definition send_status :: "int \<Rightarrow> response_writer \<Rightarrow> response_writer" where
  "send_status code w = (if rw_sent w \<noteq> None \<or> 100 \<le> code \<and> code < 200 \<and> code \<noteq> 101 then w else w\<lparr>rw_sent := Some (code, rw_header w)\<rparr>)"

fun writer_step :: "writer_call \<Rightarrow> response_writer \<Rightarrow> response_writer" where
  "writer_step (SetHeader k v) w = w\<lparr>rw_header := hdr_set k v (rw_header w)\<rparr>"
| "writer_step (AddHeader k v) w = w\<lparr>rw_header := hdr_add k v (rw_header w)\<rparr>"
| "writer_step (WriteHeader code) w = send_status code w"
| "writer_step (Write b) w = (let w' = send_status 200 w in w'\<lparr>rw_body := rw_body w' @ b\<rparr>)"
| "writer_step Flush w = send_status 200 w"

definition run_calls :: "writer_call list \<Rightarrow> response_writer \<Rightarrow> response_writer" where
  "run_calls cs w = fold writer_step cs w"

text \<open>What the client receives when the handler has returned.\<close>

definition client_sees :: "writer_call list \<Rightarrow> http_response" where
  "client_sees cs = (let w = send_status 200 (run_calls cs new_writer)
     in \<lparr>rs_Status = fst (the (rw_sent w)), rs_Header = snd (the (rw_sent w)), rs_Body = rw_body w\<rparr>)"

section \<open>Middleware\<close>

datatype log_line =
    PanicRecovered string string
  | RequestLine string string string int int string

record outcome =
  out_calls :: "writer_call list"
  out_panic :: "string option"
  out_log :: "log_line list"

text \<open>A handler gets the request identifier of its context, if any.\<close>

type_synonym route_handler = "string option \<Rightarrow> http_request \<Rightarrow> outcome"

definition GetRequestID :: "string option \<Rightarrow> string" where
  "GetRequestID ctx = (case ctx of Some i \<Rightarrow> i | None \<Rightarrow> '''')"

definition request_id :: "string \<Rightarrow> http_request \<Rightarrow> string" where
  "request_id uuid r = (let i = hdr_get (rq_Header r) ''X-Request-Id'' in if i = '''' then uuid else i)"

definition RequestID :: "string \<Rightarrow> route_handler \<Rightarrow> route_handler" where
  "RequestID uuid next ctx r =
     (let i = request_id uuid r; res = next (Some i) r
      in res\<lparr>out_calls := SetHeader ''X-Request-Id'' i # out_calls res\<rparr>)"

definition panic_body :: string where
  "panic_body = ''{\"error\":\"internal server error\"}'' @ [CHR 0x0A]"

definition Recovery :: "route_handler \<Rightarrow> route_handler" where
  "Recovery next ctx r =
     (let res = next ctx r
      in case out_panic res of
           None \<Rightarrow> res
         | Some v \<Rightarrow> \<lparr>out_calls = out_calls res @ [SetHeader ''Content-Type'' ''application/json'', WriteHeader 500, Write panic_body],
               out_panic = None, out_log = out_log res @ [PanicRecovered (GetRequestID ctx) v]\<rparr>)"

text \<open>The recorder keeps the argument of the last \<open>WriteHeader\<close>; every call is passed on.\<close>

definition statusRecorder_WriteHeader :: "writer_call \<Rightarrow> int \<Rightarrow> int" where
  "statusRecorder_WriteHeader c statusCode = (case c of WriteHeader code \<Rightarrow> code | _ \<Rightarrow> statusCode)"

definition recorded_status :: "writer_call list \<Rightarrow> int" where
  "recorded_status cs = fold statusRecorder_WriteHeader cs 200"

text \<open>\<open>net.SplitHostPort\<close>, the host only.\<close>

definition SplitHostPort :: "string \<Rightarrow> string option" where
  "SplitHostPort s =
     (if CHR '':'' \<notin> set s then None
      else let before = rev (tl (dropWhile (\<lambda>c. c \<noteq> CHR '':'') (rev s)))
           in if HasPrefix s ''['' then
                (let host = takeWhile (\<lambda>c. c \<noteq> CHR '']'') (tl s)
                 in if before \<noteq> ''['' @ host @ '']'' \<or> CHR ''['' \<in> set (tl s) \<or> CHR '']'' \<in> set (drop (Suc (length before)) s) then None else Some host)
              else if CHR '':'' \<in> set before \<or> CHR ''['' \<in> set s \<or> CHR '']'' \<in> set s then None
              else Some before)"

definition logged_ip :: "http_request \<Rightarrow> string" where
  "logged_ip r =
     (let xff = hdr_get (rq_Header r) ''X-Forwarded-For''
      in if xff \<noteq> '''' then TrimSpace (takeWhile (\<lambda>c. c \<noteq> CHR '','') xff)
         else case SplitHostPort (rq_RemoteAddr r) of Some host \<Rightarrow> host | None \<Rightarrow> rq_RemoteAddr r)"

definition Logging :: "time \<Rightarrow> time \<Rightarrow> route_handler \<Rightarrow> route_handler" where
  "Logging start stop next ctx r =
     (let res = next ctx r
      in if out_panic res \<noteq> None then res
         else res\<lparr>out_log := out_log res @ [RequestLine (GetRequestID ctx) (rq_Method r) (rq_Path r) (recorded_status (out_calls res))
                  ((stop - start) div 1000000) (logged_ip r)]\<rparr>)"

definition cors_headers :: "writer_call list" where
  "cors_headers = [SetHeader ''Access-Control-Allow-Origin'' ''*'', SetHeader ''Access-Control-Allow-Methods'' ''GET, POST, PUT, DELETE, OPTIONS'',
     SetHeader ''Access-Control-Allow-Headers'' ''Authorization, Content-Type, X-Access-Key'']"

definition with_cors :: "route_handler \<Rightarrow> route_handler" where
  "with_cors next ctx r =
     (if rq_Method r = ''OPTIONS'' then \<lparr>out_calls = cors_headers @ [WriteHeader 204], out_panic = None, out_log = []\<rparr>
      else let res = next ctx r in res\<lparr>out_calls := cors_headers @ out_calls res\<rparr>)"

text \<open>The chain as \<open>main\<close> builds it.\<close>

definition gateway_chain :: "string \<Rightarrow> time \<Rightarrow> time \<Rightarrow> route_handler \<Rightarrow> http_request \<Rightarrow> outcome" where
  "gateway_chain uuid start stop routes r = RequestID uuid (Recovery (Logging start stop (with_cors routes))) None r"

section \<open>What they show\<close>

lemma run_calls_append: "run_calls (cs @ ds) w = run_calls ds (run_calls cs w)"
  by (simp add: run_calls_def)

lemma run_calls_simps [simp]: "run_calls [] w = w" "run_calls (c # cs) w = run_calls cs (writer_step c w)"
  by (simp_all add: run_calls_def)

lemma client_sees_unsent:
  assumes "rw_sent (run_calls cs new_writer) = None"
  shows "client_sees (cs @ [SetHeader k v, WriteHeader 500, Write b]) =
    \<lparr>rs_Status = 500, rs_Header = hdr_set k v (rw_header (run_calls cs new_writer)), rs_Body = rw_body (run_calls cs new_writer) @ b\<rparr>"
  using assms by (simp add: client_sees_def run_calls_append send_status_def Let_def)

text \<open>Nothing is sent by headers and informational statuses alone.\<close>

definition quiet :: "writer_call \<Rightarrow> bool" where
  "quiet c = (case c of SetHeader k v \<Rightarrow> True | AddHeader k v \<Rightarrow> True | WriteHeader code \<Rightarrow> 100 \<le> code \<and> code < 200 \<and> code \<noteq> 101 | _ \<Rightarrow> False)"

lemma quiet_step: "rw_sent (writer_step c w) = None \<longleftrightarrow> rw_sent w = None \<and> quiet c"
  by (cases c) (auto simp: send_status_def Let_def quiet_def)

lemma unsent_quiet: "rw_sent (run_calls cs w) = None \<longleftrightarrow> rw_sent w = None \<and> list_all quiet cs"
  by (induction cs arbitrary: w) (auto simp: quiet_step)

lemma sent_stays: "rw_sent w = Some x \<Longrightarrow> rw_sent (run_calls cs w) = Some x"
proof (induction cs arbitrary: w)
  case (Cons c cs)
  then have "rw_sent (writer_step c w) = Some x" by (cases c) (auto simp: send_status_def Let_def)
  with Cons show ?case by simp
qed simp

lemma quiet_body: "list_all quiet cs \<Longrightarrow> rw_body (run_calls cs w) = rw_body w"
proof (induction cs arbitrary: w)
  case (Cons c cs)
  then have "rw_body (writer_step c w) = rw_body w" by (cases c) (auto simp: quiet_def send_status_def)
  with Cons show ?case by simp
qed simp

text \<open>Headers set by other calls leave the identifier in place, as its first value.\<close>

definition keeps_id :: "writer_call \<Rightarrow> bool" where
  "keeps_id c = (case c of SetHeader k v \<Rightarrow> k \<noteq> ''X-Request-Id'' | _ \<Rightarrow> True)"

definition carries :: "string \<Rightarrow> response_writer \<Rightarrow> bool" where
  "carries i w \<longleftrightarrow> (\<exists>vs. map_of (rw_header w) ''X-Request-Id'' = Some (i # vs)) \<and> (\<forall>code h. rw_sent w = Some (code, h) \<longrightarrow> hdr_get h ''X-Request-Id'' = i)"

lemma carries_step: "keeps_id c \<Longrightarrow> carries i w \<Longrightarrow> carries i (writer_step c w)"
  by (cases c) (auto simp: keeps_id_def carries_def send_status_def Let_def map_of_hdr_set map_of_hdr_add hdr_get_def)

lemma carries_run: "list_all keeps_id cs \<Longrightarrow> carries i w \<Longrightarrow> carries i (run_calls cs w)"
  by (induction cs arbitrary: w) (simp_all add: carries_step)

lemma client_sees_id:
  assumes "list_all keeps_id cs"
  shows "hdr_get (rs_Header (client_sees (SetHeader ''X-Request-Id'' i # cs))) ''X-Request-Id'' = i"
proof -
  have "carries i (writer_step (SetHeader ''X-Request-Id'' i) new_writer)" by (simp add: carries_def new_writer_def map_of_hdr_set)
  from carries_run [OF assms this] show ?thesis by (auto simp: client_sees_def Let_def send_status_def carries_def hdr_get_def)
qed

text \<open>A handler that announces at most one final status, and that before it writes.\<close>

fun orderly :: "writer_call list \<Rightarrow> bool" where
  "orderly [] = True"
| "orderly (WriteHeader code # cs) = (\<not> (100 \<le> code \<and> code < 200) \<and> list_all (\<lambda>c. case c of WriteHeader _ \<Rightarrow> False | _ \<Rightarrow> True) cs)"
| "orderly (Write b # cs) = list_all (\<lambda>c. case c of WriteHeader _ \<Rightarrow> False | _ \<Rightarrow> True) cs"
| "orderly (Flush # cs) = list_all (\<lambda>c. case c of WriteHeader _ \<Rightarrow> False | _ \<Rightarrow> True) cs"
| "orderly (SetHeader k v # cs) = orderly cs"
| "orderly (AddHeader k v # cs) = orderly cs"

lemma recorded_no_header: "list_all (\<lambda>c. case c of WriteHeader _ \<Rightarrow> False | _ \<Rightarrow> True) cs \<Longrightarrow> fold statusRecorder_WriteHeader cs st = st"
  by (induction cs) (auto simp: statusRecorder_WriteHeader_def split: writer_call.splits)

lemma orderly_status:
  assumes "orderly cs" and "rw_sent w = None"
  shows "fst (the (rw_sent (send_status 200 (run_calls cs w)))) = recorded_status cs"
  using assms
proof (induction cs arbitrary: w rule: orderly.induct)
  case 1
  then show ?case by (simp add: send_status_def recorded_status_def)
next
  case (2 code cs)
  then have "rw_sent (run_calls cs (send_status code w)) = Some (code, rw_header w)" by (intro sent_stays) (auto simp: send_status_def)
  then show ?case using 2 recorded_no_header [of cs code] by (simp add: send_status_def recorded_status_def statusRecorder_WriteHeader_def)
next
  case (3 b cs)
  then have "rw_sent (run_calls cs (writer_step (Write b) w)) = Some (200, rw_header w)" by (intro sent_stays) (auto simp: send_status_def Let_def)
  then show ?case using 3 recorded_no_header [of cs 200] by (simp add: send_status_def recorded_status_def statusRecorder_WriteHeader_def del: writer_step.simps)
next
  case (4 cs)
  then have "rw_sent (run_calls cs (send_status 200 w)) = Some (200, rw_header w)" by (intro sent_stays) (auto simp: send_status_def)
  then show ?case using 4 recorded_no_header [of cs 200] by (simp add: send_status_def recorded_status_def statusRecorder_WriteHeader_def)
qed (simp_all add: recorded_status_def statusRecorder_WriteHeader_def)

lemma cors_calls: "out_calls (with_cors routes ctx r) = cors_headers @ (if rq_Method r = ''OPTIONS'' then [WriteHeader 204] else out_calls (routes ctx r))"
  by (simp add: with_cors_def Let_def)

text \<open>The CORS middleware in terms of whole responses.\<close>

lemma with_cors_response:
  assumes "\<And>h. handler h r = \<lparr>rs_Status = code, rs_Header = h, rs_Body = b\<rparr>" "\<not> (100 \<le> code \<and> code < 200)"
    and "out_calls (routes ctx r) = [WriteHeader code, Write b]"
  shows "client_sees (out_calls (with_cors routes ctx r)) = CORSMiddleware handler r"
  using assms by (auto simp: cors_calls cors_headers_def CORSMiddleware_def client_sees_def new_writer_def send_status_def Let_def)



section \<open>Samples\<close>

definition sample_get :: http_request where
  "sample_get = \<lparr>rq_Method = ''GET'', rq_Path = ''/x'', rq_Header = [], rq_RemoteAddr = ''[::1]:80'', rq_ContentLength = 0, rq_Body = None\<rparr>"



end
