(* ===== verification/Gateway_Process.thy ===== *)
theory Gateway_Process
  imports Admin_Api Gateway_Routing Metrics_Collector Store_Open Http_Middleware
begin

text \<open>
  The process (\<open>cmd/gateway/main.go\<close>, \<open>internal/config\<close>, \<open>internal/httpx\<close>): configuration from the environment, the outbound
  connection pool, the boot sequence, the routes of the proxy and the shutdown. Shown is that
  requests are served only over a migrated store and a loaded catalog, that a route behind the API key check sends nothing to a provider for a request without a
  valid key, and that replaced transports of the pool are each closed once.
\<close>

section \<open>Configuration\<close>

record Config =
  cf_AccessKey :: string
  cf_Port :: string
  cf_DBDriver :: string
  cf_DBPath :: string
  cf_LegacyDBPath :: string
  cf_HealthInterval :: duration
  cf_LogLevel :: string
  cf_MaxBodySize :: int

datatype load_error = AccessKeyRequired | UnsupportedDBDriver string

text \<open>\<open>os.Getenv\<close> is a function; an unset variable is empty.\<close>

definition getEnvOrDefault :: "(string \<Rightarrow> string) \<Rightarrow> string \<Rightarrow> string \<Rightarrow> string" where
  "getEnvOrDefault getenv key defaultVal = (let v = getenv key in if v \<noteq> '''' then v else defaultVal)"

definition parseDurationOrDefault :: "(string \<Rightarrow> string) \<Rightarrow> string \<Rightarrow> duration \<Rightarrow> duration" where
  "parseDurationOrDefault getenv key defaultVal =
     (let v = getenv key in if v \<noteq> '''' then (case ParseDuration v of Some d \<Rightarrow> d | None \<Rightarrow> defaultVal) else defaultVal)"

definition parseIntOrDefault :: "(string \<Rightarrow> string) \<Rightarrow> string \<Rightarrow> int \<Rightarrow> int" where
  "parseIntOrDefault getenv key defaultVal =
     (let v = getenv key in if v \<noteq> '''' then (case Atoi v of Some n \<Rightarrow> n | None \<Rightarrow> defaultVal) else defaultVal)"

definition Load :: "(string \<Rightarrow> string) \<Rightarrow> load_error + Config" where
  "Load getenv =
     (let accessKey = getenv ''ACCESS_KEY''
      in if accessKey = '''' then Inl AccessKeyRequired
         else let cfg = \<lparr>cf_AccessKey = accessKey,
                cf_Port = getEnvOrDefault getenv ''PORT'' ''8080'',
                cf_DBDriver = getEnvOrDefault getenv ''DB_DRIVER'' ''libsql'',
                cf_DBPath = getEnvOrDefault getenv ''DB_PATH'' ''./llmate.db'',
                cf_LegacyDBPath = getEnvOrDefault getenv ''LEGACY_DB_PATH'' ''./llmate.db'',
                cf_HealthInterval = parseDurationOrDefault getenv ''HEALTH_INTERVAL'' (30 * second),
                cf_LogLevel = getEnvOrDefault getenv ''LOG_LEVEL'' ''info'',
                cf_MaxBodySize = parseIntOrDefault getenv ''MAX_BODY_SIZE'' (10 * 1024 * 1024)\<rparr>
              in if cf_DBDriver cfg = ''sqlite'' \<or> cf_DBDriver cfg = ''libsql'' then Inr cfg else Inl (UnsupportedDBDriver (cf_DBDriver cfg)))"

section \<open>The outbound connection pool\<close>

text \<open>
  Transports are numbered in the order they are made. A replacement swaps the transport under the lock and closes
  the idle connections of the previous one after releasing it, so that replacements may overlap.
\<close>

record transport =
  tr_no :: nat
  tr_MaxIdleConns :: int
  tr_MaxIdleConnsPerHost :: int
  tr_IdleConnTimeout :: duration

definition newTransport :: "nat \<Rightarrow> duration \<Rightarrow> transport" where
  "newTransport no idleConnTimeout = \<lparr>tr_no = no, tr_MaxIdleConns = 100, tr_MaxIdleConnsPerHost = 10, tr_IdleConnTimeout = idleConnTimeout\<rparr>"

record PooledClient =
  pl_transport :: transport
  pl_made :: nat
  pl_closing :: "transport list"
  pl_closed :: "transport list"

definition NewPooledClient :: "duration \<Rightarrow> PooledClient" where
  "NewPooledClient idleConnTimeout = \<lparr>pl_transport = newTransport 0 idleConnTimeout, pl_made = 1, pl_closing = [], pl_closed = []\<rparr>"

definition swap_transport :: "duration \<Rightarrow> PooledClient \<Rightarrow> PooledClient" where
  "swap_transport idleConnTimeout p = p\<lparr>pl_transport := newTransport (pl_made p) idleConnTimeout, pl_made := Suc (pl_made p),
     pl_closing := pl_closing p @ [pl_transport p]\<rparr>"

definition close_idle :: "transport \<Rightarrow> PooledClient \<Rightarrow> PooledClient" where
  "close_idle t p = p\<lparr>pl_closing := remove1 t (pl_closing p), pl_closed := pl_closed p @ [t]\<rparr>"

inductive pool_step :: "PooledClient \<Rightarrow> PooledClient \<Rightarrow> bool" where
  swap: "pool_step p (swap_transport d p)"
| close: "t \<in> set (pl_closing p) \<Longrightarrow> pool_step p (close_idle t p)"

inductive pool_reach :: "duration \<Rightarrow> PooledClient \<Rightarrow> bool" for d where
  start: "pool_reach d (NewPooledClient d)"
| step: "pool_reach d p \<Longrightarrow> pool_step p q \<Longrightarrow> pool_reach d q"

text \<open>One call of \<open>ApplyIdleConnTimeout\<close> that is not overlapped.\<close>

definition ApplyIdleConnTimeout :: "duration \<Rightarrow> PooledClient \<Rightarrow> PooledClient" where
  "ApplyIdleConnTimeout idleConnTimeout p = close_idle (pl_transport p) (swap_transport idleConnTimeout p)"

section \<open>Boot\<close>

datatype log_level = LevelDebug | LevelInfo | LevelWarn | LevelError
datatype log_format = JSONHandler | TextHandler

definition buildLogger :: "(string \<Rightarrow> string) \<Rightarrow> string \<Rightarrow> log_level \<times> log_format" where
  "buildLogger getenv level =
     (if level = ''debug'' then LevelDebug else if level = ''warn'' then LevelWarn else if level = ''error'' then LevelError else LevelInfo,
      if getenv ''LOG_FORMAT'' = ''json'' then JSONHandler else TextHandler)"

text \<open>
  What the boot depends on: the environment, the driver with the database it opens, and the outcome of the two first loads, which read the tables of
  the opened store.
\<close>

record boot_env =
  bo_getenv :: "string \<Rightarrow> string"
  bo_open :: open_env
  bo_disk :: sq_db
  bo_fault :: fault
  bo_tables :: "sq_db \<Rightarrow> db"
  bo_routing :: "sq_db \<Rightarrow> string + RoutingData"

record gateway =
  gw_config :: Config
  gw_logger :: "log_level \<times> log_format"
  gw_disk :: sq_db
  gw_snapshot :: ConfigSnapshot
  gw_pool :: PooledClient
  gw_catalog :: RoutingCatalog
  gw_admin :: Handler
  gw_registry :: ActiveRegistry
  gw_buffer :: Collector

datatype boot_result = Exit int string | Serving gateway

text \<open>Failing to read the settings is only a warning: the snapshot stays empty and the defaults apply.\<close>

definition boot :: "boot_env \<Rightarrow> boot_result" where
  "boot env = (case Load (bo_getenv env) of
     Inl e \<Rightarrow> Exit 1 ''failed to load config''
   | Inr cfg \<Rightarrow> (case NewStore (bo_open env) (cf_DBDriver cfg) (cf_DBPath cfg) (cf_LegacyDBPath cfg) (bo_disk env) of
     (ev, Inl e, d) \<Rightarrow> Exit 1 ''failed to open database''
   | (ev, Inr dsn, d) \<Rightarrow>
     let configSnap = snd (ConfigSnapshot_Reload (bo_fault env) (bo_tables env d) NewConfigSnapshot);
         idleConnSec = HTTPIdleConnTimeoutSecondsFromConfig (Some (ConfigSnapshot_Get configSnap));
         outboundPool = NewPooledClient (idleConnSec * second)
     in case Reload NewRoutingCatalog (bo_routing env d) of
       (Some e, catalog) \<Rightarrow> Exit 1 ''failed to load routing catalog''
     | (None, catalog) \<Rightarrow> Serving
         \<lparr>gw_config = cfg, gw_logger = buildLogger (bo_getenv env) (cf_LogLevel cfg), gw_disk = d, gw_snapshot = configSnap, gw_pool = outboundPool,
          gw_catalog = catalog, gw_admin = gateway_handler (cf_AccessKey cfg) NewActiveRegistry, gw_registry = NewActiveRegistry, gw_buffer = NewCollector 1024\<rparr>))"

section \<open>The routes of the proxy\<close>

datatype proxy_route =
    Chat_completions | Completions | Embeddings | Images_generations | Audio_speech | Audio_transcriptions
  | List_models | Get_model string | Api_show

definition post_routes :: "(string \<times> proxy_route) list" where
  "post_routes = [(''/chat/completions'', Chat_completions), (''/completions'', Completions), (''/embeddings'', Embeddings),
     (''/images/generations'', Images_generations), (''/audio/speech'', Audio_speech), (''/audio/transcriptions'', Audio_transcriptions)]"

text \<open>Every route but \<open>/api/show\<close> is reachable with and without \<open>/v1\<close>. What is not found here is left to the other routes.\<close>

definition find_route :: "string \<Rightarrow> string \<Rightarrow> proxy_route option" where
  "find_route meth path =
     (let p = (if HasPrefix path ''/v1/'' then drop 3 path else path)
      in if meth = ''POST'' then (if path = ''/api/show'' then Some Api_show else map_of post_routes p)
         else if meth = ''GET'' then
           (if p = ''/models'' then Some List_models
            else if HasPrefix p ''/models/'' \<and> drop 8 p \<noteq> '''' \<and> CHR ''/'' \<notin> set (drop 8 p) then Some (Get_model (drop 8 p)) else None)
         else None)"

definition key_required :: "proxy_route \<Rightarrow> bool" where
  "key_required p \<longleftrightarrow> p \<in> set (map snd post_routes)"

text \<open>A request with what its handler reads of the world besides the router.\<close>

record 'e proxy_call =
  px_env :: "'e proxy_env"
  px_request :: http_request
  px_start :: time
  px_escape :: "string \<Rightarrow> string"
  px_boundary :: string
  px_form :: "string + multipart_form"
  px_quoted :: "string \<Rightarrow> string"
  px_snapshot :: routingSnapshot
  px_snapshots :: "string \<Rightarrow> routingSnapshot \<times> routingSnapshot"

definition proxy_handler :: "('r, 'e) Router \<Rightarrow> 'e proxy_call \<Rightarrow> keyAuth option \<Rightarrow> proxy_route \<Rightarrow> 'r hstate \<Rightarrow> 'r hstate" where
  "proxy_handler rt c key p s = (let env = (px_env c)\<lparr>pe_keyAuth := key\<rparr>; r = px_request c; t = px_start c in case p of
     Chat_completions \<Rightarrow> HandleChatCompletions rt env r t s
   | Completions \<Rightarrow> HandleCompletions rt env r t s
   | Embeddings \<Rightarrow> HandleEmbeddings rt env r t s
   | Images_generations \<Rightarrow> HandleImageGenerations rt env r t s
   | Audio_speech \<Rightarrow> HandleAudioSpeech rt env r t s
   | Audio_transcriptions \<Rightarrow> HandleAudioTranscriptions rt env (px_escape c) (px_boundary c) (px_form c) r t s
   | List_models \<Rightarrow> emit (Responded (HandleListModels (pe_header env) (px_snapshot c) (px_snapshots c))) s
   | Get_model m \<Rightarrow> emit (Responded (HandleGetModel (pe_header env) (px_quoted c) m (px_snapshot c) (px_snapshots c))) s
   | Api_show \<Rightarrow> HandleShow rt env r t s)"

definition proxy_mux ::
  "config \<Rightarrow> (string \<Rightarrow> string + APIKey option) \<Rightarrow> ('r, 'e) Router \<Rightarrow> 'e proxy_call \<Rightarrow> proxy_route \<Rightarrow> KeyLimiter \<times> 'r hstate \<Rightarrow> KeyLimiter \<times> 'r hstate" where
  "proxy_mux cfg getAPIKeyByHash rt c p st = (case st of (limiter, s) \<Rightarrow>
     (if key_required p
      then (case RequireAPIKey cfg getAPIKeyByHash limiter (px_request c) (px_start c) of
              (AuthReject status msg, limiter', _) \<Rightarrow> (limiter', emit (Responded (respondError (pe_header (px_env c)) status msg)) s)
            | (AuthPass key, limiter', _) \<Rightarrow> (limiter', proxy_handler rt c key p s))
      else (limiter, proxy_handler rt c None p s)))"

text \<open>
  The single-page application takes what no other route matches. Its handler serves the embedded file of the path, if there is one to open, and the index
  otherwise; \<open>opens\<close> tells the embedded files and directories.
\<close>

definition frontendHandler :: "(string \<Rightarrow> bool) \<Rightarrow> string \<Rightarrow> string" where
  "frontendHandler opens path = (let fsPath = TrimPrefix path ''/'' in if opens fsPath then path else ''/'')"

datatype destination = ToProxy proxy_route | ToAdmin string | ToFrontend string

definition dispatch :: "(string \<Rightarrow> bool) \<Rightarrow> string \<Rightarrow> string \<Rightarrow> destination" where
  "dispatch opens meth path = (case find_route meth path of
     Some p \<Rightarrow> ToProxy p
   | None \<Rightarrow> if path = ''/admin'' \<or> HasPrefix path ''/admin/'' then ToAdmin (drop 6 path) else ToFrontend (frontendHandler opens path))"

section \<open>Shutdown\<close>

datatype shutdown_call = ServerShutdown | CollectorClose | StoreClose

text \<open>An error of the first or the last call is logged and does not end the sequence.\<close>

definition shutdown :: "(shutdown_call \<Rightarrow> string option) \<Rightarrow> shutdown_call list \<times> (shutdown_call \<times> string) list" where
  "shutdown flt = ([ServerShutdown, CollectorClose, StoreClose],
     List.map_filter (\<lambda>c. map_option (Pair c) (flt c)) [ServerShutdown, StoreClose])"

section \<open>Replaced transports\<close>

definition pool_inv :: "PooledClient \<Rightarrow> bool" where
  "pool_inv p \<longleftrightarrow> mset (map tr_no (pl_closed p @ pl_closing p @ [pl_transport p])) = mset [0..<pl_made p]"

lemma pool_inv_step [inv_intros]: "pool_step p q \<Longrightarrow> pool_inv p \<Longrightarrow> pool_inv q"
proof (induction rule: pool_step.induct)
  case (close t p)
  then have "mset (pl_closing p) = add_mset t (mset (remove1 t (pl_closing p)))" by simp
  then have "image_mset tr_no (mset (pl_closing p)) = add_mset (tr_no t) (image_mset tr_no (mset (remove1 t (pl_closing p))))" by (metis image_mset_add_mset)
  with close show ?case by (simp add: pool_inv_def close_idle_def add_mset_commute)
qed (simp add: pool_inv_def swap_transport_def newTransport_def)

lemma pool_reach_inv: "pool_reach d p \<Longrightarrow> pool_inv p"
proof (induction rule: pool_reach.induct)
  case start
  show ?case by (simp add: pool_inv_def NewPooledClient_def newTransport_def)
qed (rule pool_inv_step)

text \<open>
  Replaced transports are closed once. However replacements of the idle timeout overlap, every transport ever made is either the one in use, or about to be closed by
  the call that replaced it, or closed, and no transport is in two of these states or closed twice; the one in use is never closed.
\<close>
theorem transports_closed_once:
  assumes "pool_reach d p"
  shows "distinct (map tr_no (pl_closed p @ pl_closing p @ [pl_transport p])) \<and>
    set (map tr_no (pl_closed p @ pl_closing p @ [pl_transport p])) = {..<pl_made p}"
proof -
  have m: "mset (map tr_no (pl_closed p @ pl_closing p @ [pl_transport p])) = mset [0..<pl_made p]" using pool_reach_inv [OF assms] by (simp only: pool_inv_def)
  from m have "distinct (map tr_no (pl_closed p @ pl_closing p @ [pl_transport p]))" using mset_eq_imp_distinct_iff [OF m] by simp
  moreover from m have "set (map tr_no (pl_closed p @ pl_closing p @ [pl_transport p])) = set [0..<pl_made p]" by (rule mset_eq_setD)
  ultimately show ?thesis by (simp add: atLeast_upt)
qed

lemma apply_steps: "pool_reach d p \<Longrightarrow> pool_reach d (ApplyIdleConnTimeout e p)"
proof -
  assume "pool_reach d p"
  then have "pool_reach d (swap_transport e p)" by (rule pool_reach.step) (rule pool_step.swap)
  then show ?thesis unfolding ApplyIdleConnTimeout_def
    by (rule pool_reach.step) (rule pool_step.close, simp add: swap_transport_def)
qed

theorem transports_closed_once_witness:
  "tr_no (pl_transport (ApplyIdleConnTimeout 5 (NewPooledClient 3))) \<notin> set (map tr_no (pl_closed (ApplyIdleConnTimeout 5 (NewPooledClient 3))))"
  using transports_closed_once [OF apply_steps [OF pool_reach.start, of 3 5]] by auto

section \<open>Serving\<close>

text \<open>
  C12. Serving needs a store and a catalog. The process serves requests only with an access key configured, over a store that was opened and not closed and in which
  every schema migration is recorded, and with the routing data of that store in its catalog. Otherwise it exits with status 1.
\<close>
theorem serving_ready:
  assumes "leaves_record (oe_mig (bo_open env))" and "distinct (map fst (me_files (oe_mig (bo_open env))))" and "record_schema (bo_disk env)"
    and "reads_record (oe_legacy (bo_open env))"
  shows "case boot env of
      Exit status msg \<Rightarrow> status = 1
    | Serving g \<Rightarrow> cf_AccessKey (gw_config g) \<noteq> '''' \<and> list_all (recorded (gw_disk g)) (upFiles (me_files (oe_mig (bo_open env)))) \<and>
        (\<exists>ev dsn. NewStore (bo_open env) (cf_DBDriver (gw_config g)) (cf_DBPath (gw_config g)) (cf_LegacyDBPath (gw_config g)) (bo_disk env) = (ev, Inr dsn, gw_disk g) \<and>
           Closed \<notin> set ev) \<and>
        (\<exists>data. bo_routing env (gw_disk g) = Inr data \<and> Reload NewRoutingCatalog (Inr data) = (None, gw_catalog g)) \<and>
        h_accessKey (gw_admin g) = cf_AccessKey (gw_config g)"
proof -
  obtain cfg where cfg: "Load (bo_getenv env) = Inr cfg \<and> cf_AccessKey cfg \<noteq> '''' \<or> (\<exists>e. Load (bo_getenv env) = Inl e)"
    by (cases "Load (bo_getenv env)") (auto simp: Load_def Let_def split: if_splits)
  obtain ev res d where st: "NewStore (bo_open env) (cf_DBDriver cfg) (cf_DBPath cfg) (cf_LegacyDBPath cfg) (bo_disk env) = (ev, res, d)" using prod_cases3 by blast
  note ready = NewStore_outcome [OF assms st]
  show ?thesis
    using cfg st ready by (auto simp: boot_def Let_def Reload_def gateway_handler_def NewHandler_def Handler_SetActiveRegistry_def split: sum.splits)
qed

definition sample_boot :: boot_env where
  "sample_boot = \<lparr>bo_getenv = (\<lambda>k. if k = ''ACCESS_KEY'' then ''s'' else if k = ''DB_DRIVER'' then ''sqlite'' else ''''), bo_open = sample_open None,
     bo_disk = empty_sq, bo_fault = no_fault, bo_tables = (\<lambda>d. empty_db), bo_routing = (\<lambda>d. Inr sample_data)\<rparr>"

theorem serving_ready_witness:
  "\<exists>g. boot sample_boot = Serving g \<and> list_all (recorded (gw_disk g)) [''1.up.sql'', ''2.up.sql'']"
proof -
  have e: "leaves_record (oe_mig (bo_open sample_boot))" "distinct (map fst (me_files (oe_mig (bo_open sample_boot))))" "record_schema (bo_disk sample_boot)"
    "reads_record (oe_legacy (bo_open sample_boot))"
    using sample_leaves by (simp_all add: sample_boot_def sample_open_def sample_mig_def record_schema_def empty_sq_def reads_record_def sample_read_def sample_schema_def)
  have "upFiles (me_files (oe_mig (bo_open sample_boot))) = [''1.up.sql'', ''2.up.sql'']" by code_simp
  moreover have "case boot sample_boot of Exit st msg \<Rightarrow> False | Serving g \<Rightarrow> True" by code_simp
  ultimately show ?thesis using serving_ready [OF e] by (cases "boot sample_boot") auto
qed

section \<open>Routes and keys\<close>

text \<open>
  C6. No key, no provider. With \<open>require_api_keys\<close> switched on, a request to any of the completion, embedding, image and audio routes, with or without \<open>/v1\<close>,
  that does not carry an active key of the store is answered with an error and sends nothing to any provider; router and rate limits stay as they were.
\<close>
theorem no_key_no_provider:
  assumes "getConfigBool cfg ''require_api_keys'' DefaultRequireAPIKeys" and "find_route ''POST'' path = Some p" and "path \<noteq> ''/api/show''"
    and "\<forall>key. BearerToken (px_request c) \<noteq> '''' \<and> lookup (HashKey (BearerToken (px_request c))) = Inr (Some key) \<longrightarrow> \<not> k_IsActive key"
  shows "\<exists>status msg. status \<in> {401, 500} \<and> proxy_mux cfg lookup rt c p (limiter, s) = (limiter, emit (Responded (respondError (pe_header (px_env c)) status msg)) s)"
proof -
  have "p \<in> set (map snd post_routes)" using assms(2,3) by (auto simp: find_route_def Let_def split: if_splits dest!: map_of_SomeD intro: rev_image_eqI)
  then have "key_required p" by (simp add: key_required_def)
  then show ?thesis
    using assms(1,4) by (auto simp: proxy_mux_def RequireAPIKey_def Let_def split: sum.split option.split)
qed

definition sample_proxy_call :: "http_request \<Rightarrow> unit proxy_call" where
  "sample_proxy_call r = \<lparr>px_env = sample_proxy_env, px_request = r, px_start = 0, px_escape = id, px_boundary = ''b'', px_form = Inl ''no form'', px_quoted = id,
     px_snapshot = cat_snap NewRoutingCatalog, px_snapshots = (\<lambda>s. (cat_snap NewRoutingCatalog, cat_snap NewRoutingCatalog))\<rparr>"

definition keys_required :: config where
  "keys_required = [''require_api_keys'' \<mapsto> ''true'']"

lemma keys_required: "getConfigBool keys_required ''require_api_keys'' DefaultRequireAPIKeys"
  by code_simp

theorem no_key_no_provider_witness:
  "sends (hs_trace (snd (proxy_mux keys_required (\<lambda>h. Inr None) (const_router sample_route_result) (sample_proxy_call sample_request) Embeddings (NewKeyLimiter, fresh ())))) = []"
proof -
  have "find_route ''POST'' ''/v1/embeddings'' = Some Embeddings" "''/v1/embeddings'' \<noteq> ''/api/show''" by code_simp+
  from no_key_no_provider [OF keys_required this, where c = "sample_proxy_call sample_request" and lookup = "\<lambda>h. Inr None" and rt = "const_router sample_route_result"
      and limiter = NewKeyLimiter and s = "fresh ()"]
  obtain status msg where "proxy_mux keys_required (\<lambda>h. Inr None) (const_router sample_route_result) (sample_proxy_call sample_request) Embeddings (NewKeyLimiter, fresh ()) =
      (NewKeyLimiter, emit (Responded (respondError (pe_header (px_env (sample_proxy_call sample_request))) status msg)) (fresh ()))" by auto
  then show ?thesis by (simp add: emit_def fresh_def sends_def List.map_filter_def)
qed

text \<open>
  The route \<open>/api/show\<close> is outside the check. Although a key is required, a request without one is passed on to a provider.
\<close>
theorem show_without_key:
  "find_route ''POST'' ''/api/show'' = Some Api_show \<and>
   map (\<lambda>(a, route, rq). bq_URL rq) (sends (hs_trace (snd (proxy_mux keys_required (\<lambda>h. Inr None) (const_router sample_route_result)
     ((sample_proxy_call (sample_request\<lparr>rq_Header := []\<rparr>))\<lparr>px_env := gone_env\<rparr>) Api_show (NewKeyLimiter, fresh ()))))) = [rr_TargetURL sample_route_result]"
proof
  show "find_route ''POST'' ''/api/show'' = Some Api_show" by code_simp
  show "map (\<lambda>(a, route, rq). bq_URL rq) (sends (hs_trace (snd (proxy_mux keys_required (\<lambda>h. Inr None) (const_router sample_route_result)
     ((sample_proxy_call (sample_request\<lparr>rq_Header := []\<rparr>))\<lparr>px_env := gone_env\<rparr>) Api_show (NewKeyLimiter, fresh ()))))) = [rr_TargetURL sample_route_result]"
    by code_simp
qed

end
