(* ===== verification/Spec2Isabelle.thy ===== *)
theory Spec2Isabelle
  imports Gateway_Routing Pricing Log_Retention Metrics_Collector Health_Checker Admin_Api Gateway_Process
begin

text \<open>
  \<^bold>\<open>LLMate, a gateway for language models.\<close> Clients send OpenAI-style requests; the gateway
  authenticates them, picks a provider for the requested model or alias, forwards the request, fails
  over to another provider if a backend fails, relays the answer (as a whole or as a stream of events), and keeps
  logs and statistics. Settings, providers, models, aliases and API keys live in an SQL database.

  \<^bold>\<open>How the parts interact.\<close> The routing catalog holds a snapshot of the provider tables and is reloaded
  when a writer notifies it. The smart router draws a provider from the snapshot's candidates, minus those that their
  circuit breaker or endpoint table rules out. The proxy handlers run up to three attempts per request and
  report every outcome to the router; each request leaves a log, which the metrics collector prices, stores
  and counts in the background. The health checker probes the providers and reports to
  store, breaker and catalog. The retention worker clears old bodies. The admin API manages settings, keys, providers, models and
  aliases in the store, tells the catalog and the settings snapshot of changes, and shows logs and statistics.

  \<^bold>\<open>Theories.\<close>
  \<^item> Go itself: \<open>Go_Prelude\<close> (64-bit integers, durations, orders that Go leaves open as shuffle codes),
    \<open>Go_Strings\<close>, \<open>Go_Float\<close> (binary64 as rationals with rounding; locales \<open>rounding\<close>, \<open>accurate_rounding\<close>), \<open>Go_Time\<close>, \<open>Go_Time_Text\<close>,
    \<open>Go_Http\<close>, \<open>Go_Json\<close> and \<open>Json_Codec\<close> (scanner, printer, \<open>Marshal\<close>, \<open>Unmarshal\<close>), \<open>Go_Sha256\<close>.
  \<^item> \<open>Domain_Models\<close>: the structs of \<open>internal/models\<close>, one record each, fields with a prefix per struct.
  \<^item> \<open>Circuit_Breaker\<close> (\<open>proxy/circuit.go\<close>): all methods; the locale \<open>breaker_machine\<close> gives the state diagram and the
    guarantee of an open breaker, for the breaker of the code and for a reference that keeps the whole history, which the code refines.
  \<^item> \<open>Routing_Catalog\<close> (\<open>proxy/catalog.go\<close>): the snapshot builder against a comprehension over the tables; the reload
    protocol as a step relation with its invariant.
  \<^item> \<open>Smart_Router\<close> (\<open>proxy/router.go\<close>): soundness of routes, weights, errors, avoidance of failed providers.
  \<^item> \<open>API_Auth\<close> (\<open>proxy/auth.go\<close>, \<open>auth/middleware.go\<close>): keys and rate windows (locale \<open>fixed_window\<close>), access key, CORS.
  \<^item> \<open>Request_Rewrite\<close>, \<open>Streaming\<close>, \<open>Active_Registry\<close> (locale \<open>tracker\<close>), \<open>Attempt_Loop\<close> (locale \<open>attempt_body\<close>), \<open>Proxy_Handler\<close>,
    \<open>Proxy_Streaming\<close> (\<open>proxy/handler.go\<close>, \<open>streaming.go\<close>, \<open>active.go\<close>): every proxy route. A handler maps its environment to
    a trace of visible actions; the theorems say which requests are sent, what is reported, logged and answered.
  \<^item> \<open>Pricing\<close>, \<open>Stats_Accumulator\<close> (locale \<open>counter_table\<close>; \<open>pricing\<close>, \<open>stats\<close>): cost estimates and hourly statistics.
  \<^item> \<open>Store_Schema\<close>, \<open>Store\<close>, \<open>Store_Logs\<close>, \<open>Store_Catalog\<close> (locale \<open>routing_source\<close>; \<open>internal/db\<close>): the tables as lists of
    rows, each operation as its statements' effect with constraints, cascades, transactions and driver failures.
  \<^item> \<open>Metrics_Collector\<close>, \<open>Health_Checker\<close>, \<open>Log_Retention\<close> (\<open>metrics\<close>, \<open>health\<close>, \<open>logretention\<close>): the background workers.
  \<^item> \<open>Store_Stats\<close> (\<open>db/sqlite_stats.go\<close>; locale \<open>time_buckets\<close>, for hours and for days): the statistics queries, with prices as in
    \<open>Pricing\<close> and points as in \<open>Stats_Accumulator\<close>.
  \<^item> \<open>Config_Handler\<close> (\<open>admin/config_handler.go\<close>): the settings, against a record of settings as the specification.
  \<^item> \<open>Admin_Http\<close> (the frame: programs of the state monad over the server, with weakest preconditions), \<open>Admin_Keys\<close>, \<open>Admin_Catalog\<close>, \<open>Admin_Logs\<close>,
    \<open>Admin_Stats\<close> (\<open>admin/handler.go\<close>, \<open>stats.go\<close>, \<open>query_worker.go\<close>), \<open>Admin_Onboard\<close> (\<open>admin/onboard.go\<close>): one program per handler. Between its
    store calls other clients may change the database. \<open>Admin_Api\<close> mounts them as \<open>cmd/gateway/main.go\<close> does and shows what holds for every route.
  \<^item> \<open>Gateway_Routing\<close> (locale \<open>routed_body\<close>): the handlers with the smart router over a catalog loaded from the store.
  \<^item> \<open>Store_Times\<close> (\<open>db/sqlite.go\<close>, helpers): values exchanged with the driver and the scanners of time columns; times survive the database.
  \<^item> \<open>Sql_Tables\<close>, \<open>Store_Migrate\<close> (\<open>runMigrations\<close>), \<open>Store_Legacy\<close> (\<open>db/migrate.go\<close>), \<open>Store_Open\<close> (\<open>openDB\<close>, \<open>NewStore\<close>): a database as tables with
    keys and foreign keys. Boots that fail anywhere are made up for by the next; when the copy of a legacy database is complete, and
    what is left when it cannot be; a store is handed out migrated or the database is closed.
  \<^item> \<open>Http_Middleware\<close> (\<open>internal/middleware\<close>): a handler is the list of its calls of the response writer with the panic that may end it; recovery, request log, identifiers.
  \<^item> \<open>Gateway_Process\<close> (\<open>cmd/gateway\<close>, \<open>internal/config\<close>, \<open>internal/httpx\<close>): configuration, the connection pool as a step relation, boot, the proxy's routes
    behind the key check, shutdown.

  \<^bold>\<open>Conventions.\<close> Strings are byte lists. Instants are nanoseconds since year 1 and arguments of the operations; what another
  party decides (a backend's answer, random numbers, identifiers, the order of map iteration, of an unstable sort or of
  rows, a failing driver call, interleavings) is an argument too. A Go \<open>int\<close> is an integer with \<open>i64\<close> written
  where the code can overflow. Errors are values; a panic is a value of its own. An admin handler yields the status with the Go value that is then
  encoded; path parameters and the query are its arguments, and so are the texts of library errors, Unicode lower-casing and \<open>%q\<close>.

  \<^bold>\<open>Bounds.\<close> All loops are structural or have a termination proof. One definition takes a bound: the list of quoted identifiers in \<open>Sql_Tables\<close> is read with the
  length of the text, which no list exceeds. The attempt loop runs at
  most three times by the code's own constant. JSON nesting is limited as in \<open>encoding/json\<close>.

  \<^bold>\<open>Not modelled.\<close> Text of log messages; what an HTTP transport does with connections; TLS and sockets; the SQL engine below the effect
  of each statement (for the migrations, what the statements of the files do); the matching of patterns by chi beyond the routes themselves; the serving of embedded files;
  signals and the start of the goroutines of the process; contexts with deadlines; the declarations of the interface \<open>Store\<close>, whose operations are modelled where they are implemented.
\<close>

end
